(* ===== verification/Prelude.thy ===== *)
theory Prelude
  imports
    Complex_Main
    "HOL-Library.Char_ord"
    "HOL-Library.List_Lexorder"
    "HOL-Library.Code_Target_Numeral"
    "HOL-Library.Word"
begin

text \<open>
  What the component theories share: the result type of fallible Rust code and the
  inversion rules for its early returns, the fixed-width unsigned integers the engine
  computes with, the ordered maps and sets of the standard library, the decimal numbers
  of the \<open>rust_decimal\<close> crate with the crate's arithmetic as a parameter, and the text of
  an unsigned number.
\<close>

named_theorems result_inv \<open>inversion of a result: when an early-return chain yields \<open>Inr\<close> or \<open>Inl\<close>\<close>
named_theorems u64_simps \<open>saturating unsigned arithmetic\<close>

section \<open>Results and early returns\<close>

text \<open>
  \<open>Result<T, E>\<close> is \<open>'e + 'a\<close>, with \<open>Inl\<close> for \<open>Err\<close>. \<open>rbind\<close> is the \<open>?\<close> operator: the
  first error ends the function. \<open>ensure\<close> is an early return guarded by a condition and
  \<open>ok_or\<close> is \<open>Option::ok_or\<close>.
\<close>

definition rbind :: "'e + 'a \<Rightarrow> ('a \<Rightarrow> 'e + 'b) \<Rightarrow> 'e + 'b" where
  "rbind r f = (case r of Inl e \<Rightarrow> Inl e | Inr x \<Rightarrow> f x)"

definition ensure :: "bool \<Rightarrow> 'e \<Rightarrow> 'e + unit" where
  "ensure b e = (if b then Inr () else Inl e)"

definition ok_or :: "'e \<Rightarrow> 'a option \<Rightarrow> 'e + 'a" where
  "ok_or e v = (case v of None \<Rightarrow> Inl e | Some x \<Rightarrow> Inr x)"

definition map_err :: "('e \<Rightarrow> 'f) \<Rightarrow> 'e + 'a \<Rightarrow> 'f + 'a" where
  "map_err g r = (case r of Inl e \<Rightarrow> Inl (g e) | Inr x \<Rightarrow> Inr x)"

definition is_ok :: "'e + 'a \<Rightarrow> bool" where
  "is_ok r = (case r of Inl _ \<Rightarrow> False | Inr _ \<Rightarrow> True)"

lemma rbind_Inr [simp]: "rbind (Inr x) f = f x"
  by (simp add: rbind_def)

lemma rbind_Inl [simp]: "rbind (Inl e) f = Inl e"
  by (simp add: rbind_def)

lemma rbind_is_Inr [result_inv]: "rbind r f = Inr y \<longleftrightarrow> (\<exists>x. r = Inr x \<and> f x = Inr y)"
  by (cases r) auto

lemma rbind_is_Inl [result_inv]:
  "rbind r f = Inl e \<longleftrightarrow> r = Inl e \<or> (\<exists>x. r = Inr x \<and> f x = Inl e)"
  by (cases r) auto

lemma rbind_assoc: "rbind (rbind r f) g = rbind r (\<lambda>x. rbind (f x) g)"
  by (cases r) auto

lemma ensure_is_Inr [result_inv]: "ensure b e = Inr u \<longleftrightarrow> b"
  by (simp add: ensure_def)

lemma ensure_is_Inl [result_inv]: "ensure b e = Inl e' \<longleftrightarrow> \<not> b \<and> e' = e"
  by (auto simp: ensure_def)

lemma ensure_True [simp]: "ensure True e = Inr ()"
  by (simp add: ensure_def)

lemma ensure_False [simp]: "ensure False e = Inl e"
  by (simp add: ensure_def)

lemma ok_or_is_Inr [result_inv]: "ok_or e v = Inr x \<longleftrightarrow> v = Some x"
  by (cases v) (auto simp: ok_or_def)

lemma ok_or_is_Inl [result_inv]: "ok_or e v = Inl e' \<longleftrightarrow> v = None \<and> e' = e"
  by (cases v) (auto simp: ok_or_def)

lemma ok_or_simps [simp]: "ok_or e None = Inl e" "ok_or e (Some x) = Inr x"
  by (simp_all add: ok_or_def)

lemma map_err_is_Inr [result_inv]: "map_err g r = Inr x \<longleftrightarrow> r = Inr x"
  by (cases r) (auto simp: map_err_def)

lemma map_err_is_Inl [result_inv]: "map_err g r = Inl f \<longleftrightarrow> (\<exists>e. r = Inl e \<and> f = g e)"
  by (cases r) (auto simp: map_err_def)

lemma map_err_simps [simp]: "map_err g (Inl e) = Inl (g e)" "map_err g (Inr x) = Inr x"
  by (simp_all add: map_err_def)

lemma is_ok_simps [simp]: "is_ok (Inr x)" "\<not> is_ok (Inl e)"
  by (simp_all add: is_ok_def)

lemma is_ok_iff: "is_ok r \<longleftrightarrow> (\<exists>x. r = Inr x)"
  by (cases r) auto

definition is_some_and :: "('a \<Rightarrow> bool) \<Rightarrow> 'a option \<Rightarrow> bool" where
  "is_some_and p v = (case v of None \<Rightarrow> False | Some x \<Rightarrow> p x)"

definition is_none_or :: "('a \<Rightarrow> bool) \<Rightarrow> 'a option \<Rightarrow> bool" where
  "is_none_or p v = (case v of None \<Rightarrow> True | Some x \<Rightarrow> p x)"

lemma is_some_and_simps [simp]: "is_some_and p (Some x) = p x" "\<not> is_some_and p None"
  by (simp_all add: is_some_and_def)

lemma is_none_or_simps [simp]: "is_none_or p (Some x) = p x" "is_none_or p None"
  by (simp_all add: is_none_or_def)

lemma is_some_and_iff [result_inv]: "is_some_and p v \<longleftrightarrow> (\<exists>x. v = Some x \<and> p x)"
  by (cases v) auto

lemma is_none_or_iff [result_inv]: "is_none_or p v \<longleftrightarrow> (\<forall>x. v = Some x \<longrightarrow> p x)"
  by (cases v) auto

section \<open>Unsigned integers\<close>

text \<open>
  A \<open>u64\<close>, \<open>u32\<close> or \<open>u128\<close> is a \<open>nat\<close>; the operations below write out what the width does.
  Plain subtraction occurs in the source only behind a comparison that makes it exact.
\<close>

definition U32_MAX :: nat where "U32_MAX = 2 ^ 32 - 1"
definition U64_MAX :: nat where "U64_MAX = 2 ^ 64 - 1"
definition U128_MAX :: nat where "U128_MAX = 2 ^ 128 - 1"
definition I64_MAX :: nat where "I64_MAX = 2 ^ 63 - 1"

definition sat_u64 :: "nat \<Rightarrow> nat" where
  "sat_u64 n = min n U64_MAX"

definition sat_add64 :: "nat \<Rightarrow> nat \<Rightarrow> nat" where
  "sat_add64 a b = sat_u64 (a + b)"

definition sat_mul64 :: "nat \<Rightarrow> nat \<Rightarrow> nat" where
  "sat_mul64 a b = sat_u64 (a * b)"

definition sat_mul128 :: "nat \<Rightarrow> nat \<Rightarrow> nat" where
  "sat_mul128 a b = min (a * b) U128_MAX"

text \<open>Unsuffixed \<open>+\<close> on \<open>u128\<close>: it wraps in a release build (and panics in a debug build).\<close>

definition wrap_add128 :: "nat \<Rightarrow> nat \<Rightarrow> nat" where
  "wrap_add128 a b = (a + b) mod 2 ^ 128"

text \<open>\<open>u64::try_from\<close> on a wider value: \<open>None\<close> when it does not fit.\<close>

definition try_u64 :: "nat \<Rightarrow> nat option" where
  "try_u64 n = (if n \<le> U64_MAX then Some n else None)"

definition div_ceil :: "nat \<Rightarrow> nat \<Rightarrow> nat" where
  "div_ceil a b = (if a mod b = 0 then a div b else a div b + 1)"

lemma U64_MAX_val: "U64_MAX = 18446744073709551615"
  by (simp add: U64_MAX_def)

lemma U32_MAX_val: "U32_MAX = 4294967295"
  by (simp add: U32_MAX_def)

lemma U128_MAX_val: "U128_MAX = 340282366920938463463374607431768211455"
  by (simp add: U128_MAX_def)

lemma I64_MAX_val: "I64_MAX = 9223372036854775807"
  by (simp add: I64_MAX_def)

lemmas width_vals = U32_MAX_val U64_MAX_val U128_MAX_val I64_MAX_val

lemma sat_u64_le [u64_simps, simp]: "sat_u64 n \<le> U64_MAX"
  by (simp add: sat_u64_def)

lemma sat_u64_id [u64_simps]: "n \<le> U64_MAX \<Longrightarrow> sat_u64 n = n"
  by (simp add: sat_u64_def)

lemma sat_u64_self_le: "sat_u64 n \<le> n"
  by (simp add: sat_u64_def)

lemma sat_add64_le [u64_simps, simp]: "sat_add64 a b \<le> U64_MAX"
  by (simp add: sat_add64_def)

lemma sat_add64_ge: "a \<le> U64_MAX \<Longrightarrow> a \<le> sat_add64 a b"
  by (simp add: sat_add64_def sat_u64_def)

lemma sat_add64_mono: "a \<le> a' \<Longrightarrow> sat_add64 a b \<le> sat_add64 a' b"
  by (simp add: sat_add64_def sat_u64_def)

lemma div_ceil_upper: "0 < b \<Longrightarrow> a \<le> div_ceil a b * b"
proof -
  assume "0 < b"
  have "a = a div b * b + a mod b" by simp
  moreover have "a mod b < b" using \<open>0 < b\<close> by simp
  ultimately have "a \<le> (a div b + 1) * b" by (simp only: distrib_right mult_1_left)
  then show ?thesis by (auto simp: div_ceil_def)
qed

lemma div_ceil_least: "0 < b \<Longrightarrow> a \<le> k * b \<Longrightarrow> div_ceil a b \<le> k"
proof -
  assume b: "0 < b" and le: "a \<le> k * b"
  show ?thesis
  proof (cases "a mod b = 0")
    case True
    from le have "a div b \<le> k * b div b" by (rule div_le_mono)
    with True b show ?thesis by (simp add: div_ceil_def)
  next
    case False
    have "\<not> k \<le> a div b"
    proof
      assume "k \<le> a div b"
      then have "k * b \<le> a div b * b" by simp
      moreover have "a = a div b * b + a mod b" by simp
      ultimately show False using le False by linarith
    qed
    with False show ?thesis by (simp add: div_ceil_def)
  qed
qed

section \<open>Ordered maps and sets\<close>

text \<open>
  \<open>BTreeMap\<close> is the list of its entries in key order, so that iteration order, equality and
  serialization order are those of the source; \<open>BTreeSet\<close> is the list of its elements in
  order.
\<close>

type_synonym ('k, 'v) btree = "('k \<times> 'v) list"
type_synonym 'a btset = "'a list"

fun bt_insert :: "'k::linorder \<Rightarrow> 'v \<Rightarrow> ('k, 'v) btree \<Rightarrow> ('k, 'v) btree" where
  "bt_insert k v [] = [(k, v)]"
| "bt_insert k v (p # m) =
     (if k = fst p then (k, v) # m
      else if k < fst p then (k, v) # p # m
      else p # bt_insert k v m)"

definition bt_remove :: "'k \<Rightarrow> ('k, 'v) btree \<Rightarrow> ('k, 'v) btree" where
  "bt_remove k m = filter (\<lambda>p. fst p \<noteq> k) m"

definition bt_retain :: "('k \<Rightarrow> 'v \<Rightarrow> bool) \<Rightarrow> ('k, 'v) btree \<Rightarrow> ('k, 'v) btree" where
  "bt_retain keep m = filter (\<lambda>p. keep (fst p) (snd p)) m"

definition bt_or_insert :: "'k::linorder \<Rightarrow> 'v \<Rightarrow> ('k, 'v) btree \<Rightarrow> ('k, 'v) btree" where
  "bt_or_insert k v m = (case map_of m k of None \<Rightarrow> bt_insert k v m | Some _ \<Rightarrow> m)"

definition bt_contains :: "('k, 'v) btree \<Rightarrow> 'k \<Rightarrow> bool" where
  "bt_contains m k = (map_of m k \<noteq> None)"

definition bt_wf :: "('k::linorder, 'v) btree \<Rightarrow> bool" where
  "bt_wf m = sorted_wrt (<) (map fst m)"

fun bs_insert :: "'a::linorder \<Rightarrow> 'a btset \<Rightarrow> 'a btset" where
  "bs_insert x [] = [x]"
| "bs_insert x (y # ys) =
     (if x = y then y # ys else if x < y then x # y # ys else y # bs_insert x ys)"

definition bs_remove :: "'a \<Rightarrow> 'a btset \<Rightarrow> 'a btset" where
  "bs_remove x s = filter (\<lambda>y. y \<noteq> x) s"

lemma map_of_bt_insert: "map_of (bt_insert k v m) = (map_of m)(k \<mapsto> v)"
  by (induction m) (auto simp: fun_eq_iff)

lemma map_of_bt_remove: "map_of (bt_remove k m) = (map_of m)(k := None)"
  by (induction m) (auto simp: bt_remove_def fun_eq_iff)

lemma keys_bt_insert [simp]: "fst ` set (bt_insert k v m) = insert k (fst ` set m)"
  by (induction m) auto

lemma bt_wf_insert: "bt_wf m \<Longrightarrow> bt_wf (bt_insert k v m)"
proof (induction m)
  case Nil
  show ?case by (simp add: bt_wf_def)
next
  case (Cons p m)
  have keys: "set (map fst (bt_insert k v m)) = insert k (set (map fst m))"
    by simp
  from Cons have wf: "sorted_wrt (<) (map fst (bt_insert k v m))"
    by (simp add: bt_wf_def)
  from Cons.prems have hd: "\<forall>x \<in> set (map fst m). fst p < x" and tl: "sorted_wrt (<) (map fst m)"
    by (simp_all add: bt_wf_def)
  show ?case
  proof (cases "fst p < k")
    case True
    have "\<forall>x \<in> set (map fst (bt_insert k v m)). fst p < x"
      unfolding keys using True hd by auto
    with True wf tl show ?thesis by (auto simp: bt_wf_def)
  next
    case False
    with hd have "\<forall>x \<in> set (map fst m). k \<le> fst p \<longrightarrow> k < x" by auto
    with False hd tl show ?thesis by (auto simp: bt_wf_def)
  qed
qed

lemma bt_wf_remove: "bt_wf m \<Longrightarrow> bt_wf (bt_remove k m)"
  unfolding bt_wf_def bt_remove_def
  by (induction m) auto

lemma bt_wf_retain: "bt_wf m \<Longrightarrow> bt_wf (bt_retain P m)"
  unfolding bt_wf_def bt_retain_def
  by (induction m) auto

lemma bt_wf_Nil [simp]: "bt_wf []"
  by (simp add: bt_wf_def)

lemma bt_wf_distinct: "bt_wf m \<Longrightarrow> distinct (map fst m)"
  unfolding bt_wf_def by (induction m) auto

lemma bt_wf_or_insert: "bt_wf m \<Longrightarrow> bt_wf (bt_or_insert k v m)"
  by (simp add: bt_or_insert_def bt_wf_insert split: option.split)

lemma map_of_bt_or_insert:
  "map_of (bt_or_insert k v m) =
     (case map_of m k of None \<Rightarrow> (map_of m)(k \<mapsto> v) | Some _ \<Rightarrow> map_of m)"
  by (simp add: bt_or_insert_def map_of_bt_insert split: option.split)

lemma map_of_bt_retain:
  "bt_wf m \<Longrightarrow> map_of (bt_retain P m) k =
     (case map_of m k of None \<Rightarrow> None | Some v \<Rightarrow> if P k v then Some v else None)"
proof (induction m)
  case Nil
  show ?case by (simp add: bt_retain_def)
next
  case (Cons p m)
  from Cons.prems have wf: "bt_wf m" and notin: "\<forall>x \<in> set (map fst m). fst p < x"
    by (simp_all add: bt_wf_def)
  from notin have "map_of m (fst p) = None"
    by (auto simp: map_of_eq_None_iff)
  with Cons.IH [OF wf] show ?case
    by (cases p) (auto simp: bt_retain_def split: option.splits)
qed

lemma bt_get_retained:
  "bt_wf m \<Longrightarrow> map_of (bt_retain P m) k = Some v \<longleftrightarrow> map_of m k = Some v \<and> P k v"
  by (auto simp: map_of_bt_retain split: option.splits if_splits)

lemma set_bs_insert [simp]: "set (bs_insert x s) = insert x (set s)"
  by (induction s) auto

lemma set_bs_remove [simp]: "set (bs_remove x s) = set s - {x}"
  by (auto simp: bs_remove_def)

text \<open>
  The contract the engine relies on, whatever the representation: the laws of the ordered
  map, with the facts about \<open>entry().or_insert\<close> derived once.
\<close>

locale ordered_map =
  fixes get :: "'m \<Rightarrow> 'k \<Rightarrow> 'v option"
    and put :: "'k \<Rightarrow> 'v \<Rightarrow> 'm \<Rightarrow> 'm"
    and del :: "'k \<Rightarrow> 'm \<Rightarrow> 'm"
    and wf :: "'m \<Rightarrow> bool"
  assumes get_put: "get (put k v m) = (get m)(k \<mapsto> v)"
    and get_del: "get (del k m) = (get m)(k := None)"
    and wf_put: "wf m \<Longrightarrow> wf (put k v m)"
    and wf_del: "wf m \<Longrightarrow> wf (del k m)"
begin

lemma get_put_same: "get (put k v m) k = Some v"
  by (simp add: get_put)

lemma get_put_other: "k' \<noteq> k \<Longrightarrow> get (put k v m) k' = get m k'"
  by (simp add: get_put)

lemma del_put_restores: "get m k = None \<Longrightarrow> get (del k (put k v m)) = get m"
  by (auto simp: get_put get_del fun_eq_iff)

lemma take_once: "get (del k m) k = None"
  by (simp add: get_del)

lemma get_del_other: "k' \<noteq> k \<Longrightarrow> get (del k m) k' = get m k'"
  by (simp add: get_del)

end

interpretation bt: ordered_map map_of bt_insert bt_remove bt_wf
  by unfold_locales (simp_all add: map_of_bt_insert map_of_bt_remove bt_wf_insert bt_wf_remove)

section \<open>Decimals\<close>

text \<open>
  A \<open>rust_decimal::Decimal\<close> is the rational number it denotes; comparison, equality, absolute
  value and negation of the crate are those of that number (so \<open>0\<close> and \<open>-0\<close>, which compare
  equal, are one value, and \<open>normalize\<close> is the identity). The operations that round, overflow,
  or depend on the digits belong to the crate and are a parameter \<open>D\<close> of every definition that
  uses them: \<open>None\<close> from a checked operation is an overflow.
\<close>

type_synonym decimal = rat

datatype rounding = MidpointNearestEven | ToNegativeInfinity | ToPositiveInfinity

record declib =
  checked_add :: "decimal \<Rightarrow> decimal \<Rightarrow> decimal option"
  checked_sub :: "decimal \<Rightarrow> decimal \<Rightarrow> decimal option"
  checked_mul :: "decimal \<Rightarrow> decimal \<Rightarrow> decimal option"
  checked_div :: "decimal \<Rightarrow> decimal \<Rightarrow> decimal option"
  saturating_add :: "decimal \<Rightarrow> decimal \<Rightarrow> decimal"
  saturating_sub :: "decimal \<Rightarrow> decimal \<Rightarrow> decimal"
  saturating_mul :: "decimal \<Rightarrow> decimal \<Rightarrow> decimal"
  round_dp_with :: "rounding \<Rightarrow> nat \<Rightarrow> decimal \<Rightarrow> decimal"
  round_sf_with :: "rounding \<Rightarrow> nat \<Rightarrow> decimal \<Rightarrow> decimal option"
  norm_scale :: "decimal \<Rightarrow> nat"
  norm_mantissa :: "decimal \<Rightarrow> int"
  dec_to_string :: "decimal \<Rightarrow> string"
  dec_parse :: "string \<Rightarrow> decimal option"

definition is_sign_negative :: "decimal \<Rightarrow> bool" where
  "is_sign_negative x = (x < 0)"

section \<open>Text of a number\<close>

fun nat_digits :: "nat \<Rightarrow> string" where
  "nat_digits n =
     (if n < 10 then [char_of (48 + n)] else nat_digits (n div 10) @ [char_of (48 + n mod 10)])"

declare nat_digits.simps [simp del]

fun digits_value :: "nat \<Rightarrow> string \<Rightarrow> nat" where
  "digits_value acc [] = acc"
| "digits_value acc (c # cs) = digits_value (10 * acc + (of_char c - 48)) cs"

lemma digits_value_append: "digits_value acc (xs @ ys) = digits_value (digits_value acc xs) ys"
  by (induction xs arbitrary: acc) auto

lemma digits_value_nat_digits: "digits_value 0 (nat_digits n) = n"
proof (induction n rule: nat_digits.induct)
  case (1 n)
  show ?case
  proof (cases "n < 10")
    case True
    then show ?thesis by (simp add: nat_digits.simps [of n])
  next
    case False
    have "(48 + n mod 10) mod 256 = 48 + n mod 10" by simp
    with 1 [OF False] False show ?thesis
      by (simp add: nat_digits.simps [of n] digits_value_append)
  qed
qed

lemma nat_digits_inj: "nat_digits a = nat_digits b \<Longrightarrow> a = b"
  by (metis digits_value_nat_digits)

lemma nat_digits_chars: "c \<in> set (nat_digits n) \<Longrightarrow> c \<noteq> CHR ''-''"
proof (induction n rule: nat_digits.induct)
  case (1 n)
  have digit: "char_of (48 + d) \<noteq> CHR ''-''" if "d < 10" for d :: nat
  proof
    assume "char_of (48 + d) = CHR ''-''"
    then have "of_char (char_of (48 + d) :: char) = (45::nat)" by simp
    with that show False by simp
  qed
  show ?case
  proof (cases "n < 10")
    case True
    with 1 digit [of n] show ?thesis by (simp add: nat_digits.simps [of n])
  next
    case False
    from "1.prems" False have "c \<in> set (nat_digits (n div 10)) \<or> c = char_of (48 + n mod 10)"
      by (auto simp: nat_digits.simps [of n])
    then show ?thesis
    proof
      assume "c \<in> set (nat_digits (n div 10))"
      with "1.IH" [OF False] show ?thesis by blast
    next
      assume "c = char_of (48 + n mod 10)"
      with digit [of "n mod 10"] show ?thesis by simp
    qed
  qed
qed

section \<open>A decimal library to evaluate with\<close>

text \<open>
  An instance of the parameter: exact arithmetic that never overflows, rounding and text as the
  crate documents them. Witnesses evaluate the definitions with it.
\<close>

definition round_int :: "rounding \<Rightarrow> rat \<Rightarrow> int" where
  "round_int strategy y =
     (case strategy of
        ToNegativeInfinity \<Rightarrow> \<lfloor>y\<rfloor>
      | ToPositiveInfinity \<Rightarrow> \<lceil>y\<rceil>
      | MidpointNearestEven \<Rightarrow>
          (let f = \<lfloor>y\<rfloor>; d = y - of_int f
           in if d < 1 / 2 then f else if d > 1 / 2 then f + 1 else if even f then f else f + 1))"

definition exact_round_dp :: "rounding \<Rightarrow> nat \<Rightarrow> rat \<Rightarrow> rat" where
  "exact_round_dp strategy n x = of_int (round_int strategy (x * 10 ^ n)) / 10 ^ n"

definition exact_scale :: "rat \<Rightarrow> nat" where
  "exact_scale x =
     (case find (\<lambda>s. of_int \<lfloor>x * 10 ^ s\<rfloor> = x * 10 ^ s) [0..<29] of Some s \<Rightarrow> s | None \<Rightarrow> 28)"

definition exact_mantissa :: "rat \<Rightarrow> int" where
  "exact_mantissa x = \<lfloor>x * 10 ^ exact_scale x\<rfloor>"

definition exact_round_sf :: "rounding \<Rightarrow> nat \<Rightarrow> rat \<Rightarrow> rat option" where
  "exact_round_sf strategy n x =
     (let digits = length (nat_digits (nat \<bar>exact_mantissa x\<bar>)); extra = digits - n
      in Some (of_int (round_int strategy (of_int (exact_mantissa x) / 10 ^ extra)) * 10 ^ extra
               / 10 ^ exact_scale x))"

definition exact_to_string :: "rat \<Rightarrow> string" where
  "exact_to_string x =
     (let m = nat \<bar>exact_mantissa x\<bar>; s = exact_scale x;
          whole = nat_digits (m div 10 ^ s); frac = nat_digits (m mod 10 ^ s)
      in (if x < 0 then ''-'' else []) @ whole
         @ (if s = 0 then [] else ''.'' @ replicate (s - length frac) (CHR ''0'') @ frac))"

definition exact_parse :: "string \<Rightarrow> rat option" where
  "exact_parse s =
     (let whole = takeWhile (\<lambda>c. c \<noteq> CHR ''.'') s; frac = drop (length whole + 1) s
      in if s = [] then None
         else Some (of_nat (digits_value 0 whole) + of_nat (digits_value 0 frac) / 10 ^ length frac))"

definition exact_declib :: declib where
  "exact_declib =
     \<lparr>checked_add = (\<lambda>a b. Some (a + b)), checked_sub = (\<lambda>a b. Some (a - b)),
      checked_mul = (\<lambda>a b. Some (a * b)), checked_div = (\<lambda>a b. if b = 0 then None else Some (a / b)),
      saturating_add = (+), saturating_sub = (-), saturating_mul = (*),
      round_dp_with = exact_round_dp, round_sf_with = exact_round_sf,
      norm_scale = exact_scale, norm_mantissa = exact_mantissa,
      dec_to_string = exact_to_string, dec_parse = exact_parse\<rparr>"

lemma upt_scales: "[0..<29] =
  [0, 1, 2, 3, 4, 5, 6, 7, 8, 9, 10, 11, 12, 13, 14, 15, 16, 17, 18, 19, 20, 21, 22, 23, 24, 25, 26, 27, 28]"
  by (simp add: upt_rec)

lemma exact_arith [simp]:
  "checked_add exact_declib a b = Some (a + b)"
  "checked_sub exact_declib a b = Some (a - b)"
  "checked_mul exact_declib a b = Some (a * b)"
  "checked_div exact_declib a b = (if b = 0 then None else Some (a / b))"
  "saturating_add exact_declib a b = a + b"
  "saturating_sub exact_declib a b = a - b"
  "saturating_mul exact_declib a b = a * b"
  by (simp_all add: exact_declib_def)

lemmas exact_declib_eval =
  exact_declib_def exact_parse_def exact_to_string_def exact_round_sf_def exact_mantissa_def
  exact_scale_def exact_round_dp_def round_int_def upt_scales nat_digits.simps Let_def

end
