(* ===== verification/Config.thy ===== *)
theory Config
  imports Prelude
begin

text \<open>
  \<open>guardrail/config.rs\<close>: the per-agent guardrail configuration, the defaults of a newly
  paired agent, the address-wide request budget, and the validation an operator's values
  pass before they are stored.
\<close>

section \<open>Constants\<close>

definition DEFAULT_MAX_ORDER_USD :: decimal where "DEFAULT_MAX_ORDER_USD = 25"
definition DEFAULT_MAX_POSITION_USD :: decimal where "DEFAULT_MAX_POSITION_USD = 100"
definition DEFAULT_DAILY_LOSS_USD :: decimal where "DEFAULT_DAILY_LOSS_USD = 25"
definition DEFAULT_MAX_SLIPPAGE_BPS :: decimal where "DEFAULT_MAX_SLIPPAGE_BPS = 10"
definition DEFAULT_MAX_LEVERAGE :: nat where "DEFAULT_MAX_LEVERAGE = 1"
definition DEFAULT_MARK_DIVERGENCE_BPS :: decimal where "DEFAULT_MARK_DIVERGENCE_BPS = 5"
definition DEFAULT_MARK_DIVERGENCE_WINDOW_MS :: nat where
  "DEFAULT_MARK_DIVERGENCE_WINDOW_MS = 30000"
definition APPROVAL_TTL_MS :: nat where "APPROVAL_TTL_MS = 120000"
definition MAX_REASON_BYTES :: nat where "MAX_REASON_BYTES = 2048"

section \<open>Settings\<close>

record order_rate =
  or_count :: nat
  or_per_ms :: nat

definition DEFAULT_ORDER_RATE :: order_rate where
  "DEFAULT_ORDER_RATE = \<lparr>or_count = 5, or_per_ms = 300000\<rparr>"

record global_rate_budget =
  gb_rate :: order_rate
  gb_reserve :: nat

definition global_rate_budget_default :: global_rate_budget where
  "global_rate_budget_default =
     \<lparr>gb_rate = \<lparr>or_count = 10000, or_per_ms = 100000000\<rparr>, gb_reserve = 100\<rparr>"

definition global_rate_budget_validate :: "global_rate_budget \<Rightarrow> (string \<times> string) + unit" where
  "global_rate_budget_validate b =
     (if or_per_ms (gb_rate b) = 0 then Inl (''global_rate.rate.per_ms'', ''must be positive'')
      else if gb_reserve b \<ge> or_count (gb_rate b)
        then Inl (''global_rate.reserve'', ''must be below the budget it reserves from'')
      else Inr ())"

datatype margin_mode = Cross | Isolated

record risk_settings =
  rs_max_leverage :: nat
  rs_margin_mode :: margin_mode
  rs_max_open_exposure_usd :: "decimal option"
  rs_max_risk_usd :: "decimal option"

definition risk_settings_default :: risk_settings where
  "risk_settings_default =
     \<lparr>rs_max_leverage = DEFAULT_MAX_LEVERAGE, rs_margin_mode = Cross,
      rs_max_open_exposure_usd = None, rs_max_risk_usd = None\<rparr>"

record loss_limits =
  ll_max_daily_loss_usd :: "decimal option"
  ll_max_drawdown_usd :: "decimal option"

definition loss_limits_default :: loss_limits where
  "loss_limits_default =
     \<lparr>ll_max_daily_loss_usd = Some DEFAULT_DAILY_LOSS_USD, ll_max_drawdown_usd = None\<rparr>"

definition loss_limits_unset :: loss_limits where
  "loss_limits_unset = \<lparr>ll_max_daily_loss_usd = None, ll_max_drawdown_usd = None\<rparr>"

definition loss_limits_is_unset :: "loss_limits \<Rightarrow> bool" where
  "loss_limits_is_unset l = (ll_max_daily_loss_usd l = None \<and> ll_max_drawdown_usd l = None)"

record freshness =
  fr_max_market_age_ms :: nat
  fr_max_account_age_ms :: nat

definition freshness_default :: freshness where
  "freshness_default = \<lparr>fr_max_market_age_ms = 2000, fr_max_account_age_ms = 5000\<rparr>"

record agent_guardrails =
  ag_symbols :: "string btset"
  ag_max_order_usd :: decimal
  ag_max_position_usd :: decimal
  ag_max_slippage_bps :: decimal
  ag_order_rate :: order_rate
  ag_reduce_only :: bool
  ag_risk :: risk_settings
  ag_loss :: loss_limits
  ag_approval_required :: bool
  ag_freshness :: freshness
  ag_max_mark_divergence_bps :: decimal
  ag_mark_divergence_window_ms :: nat

definition agent_guardrails_default :: agent_guardrails where
  "agent_guardrails_default =
     \<lparr>ag_symbols = [],
      ag_max_order_usd = DEFAULT_MAX_ORDER_USD,
      ag_max_position_usd = DEFAULT_MAX_POSITION_USD,
      ag_max_slippage_bps = DEFAULT_MAX_SLIPPAGE_BPS,
      ag_order_rate = DEFAULT_ORDER_RATE,
      ag_reduce_only = False,
      ag_risk = risk_settings_default,
      ag_loss = loss_limits_default,
      ag_approval_required = True,
      ag_freshness = freshness_default,
      ag_max_mark_divergence_bps = DEFAULT_MARK_DIVERGENCE_BPS,
      ag_mark_divergence_window_ms = DEFAULT_MARK_DIVERGENCE_WINDOW_MS\<rparr>"

section \<open>Validation\<close>

text \<open>The loop over the two loss limits, in the source's order, skipping unset ones.\<close>

fun validate_loss_loop :: "decimal option list \<Rightarrow> (string \<times> string) + unit" where
  "validate_loss_loop [] = Inr ()"
| "validate_loss_loop (None # ls) = validate_loss_loop ls"
| "validate_loss_loop (Some l # ls) =
     (if is_sign_negative l then Inl (''loss'', ''limits must not be negative'')
      else validate_loss_loop ls)"

definition agent_guardrails_validate :: "agent_guardrails \<Rightarrow> (string \<times> string) + unit" where
  "agent_guardrails_validate c =
     rbind (ensure (\<not> is_sign_negative (ag_max_order_usd c))
              (''max_order_usd'', ''must not be negative'')) (\<lambda>_.
     rbind (ensure (\<not> is_sign_negative (ag_max_position_usd c))
              (''max_position_usd'', ''must not be negative'')) (\<lambda>_.
     rbind (ensure (\<not> is_sign_negative (ag_max_slippage_bps c))
              (''max_slippage_bps'', ''must not be negative'')) (\<lambda>_.
     rbind (ensure (\<not> is_sign_negative (ag_max_mark_divergence_bps c))
              (''max_mark_divergence_bps'', ''must not be negative'')) (\<lambda>_.
     rbind (ensure (or_per_ms (ag_order_rate c) \<noteq> 0)
              (''order_rate.per_ms'', ''must be positive'')) (\<lambda>_.
     rbind (ensure (rs_max_leverage (ag_risk c) \<noteq> 0)
              (''risk.max_leverage'', ''must be at least 1'')) (\<lambda>_.
     rbind (case rs_max_open_exposure_usd (ag_risk c) of
              Some limit \<Rightarrow> ensure (\<not> is_sign_negative limit)
                (''risk.max_open_exposure_usd'', ''must not be negative'')
            | None \<Rightarrow> Inr ()) (\<lambda>_.
     rbind (case rs_max_risk_usd (ag_risk c) of
              Some budget \<Rightarrow> ensure (\<not> budget \<le> 0)
                (''risk.max_risk_usd'',
                 ''must be positive; unset it to disable the vol-scaled cap'')
            | None \<Rightarrow> Inr ()) (\<lambda>_.
     validate_loss_loop [ll_max_daily_loss_usd (ag_loss c), ll_max_drawdown_usd (ag_loss c)]))))))))"

section \<open>What a stored configuration satisfies\<close>

definition nonneg_opt :: "decimal option \<Rightarrow> bool" where
  "nonneg_opt l = (case l of None \<Rightarrow> True | Some x \<Rightarrow> 0 \<le> x)"

text \<open>The configurations the engine can evaluate: every limit has a meaning.\<close>

definition guardrails_ok :: "agent_guardrails \<Rightarrow> bool" where
  "guardrails_ok c =
     (0 \<le> ag_max_order_usd c \<and> 0 \<le> ag_max_position_usd c \<and> 0 \<le> ag_max_slippage_bps c
      \<and> 0 \<le> ag_max_mark_divergence_bps c \<and> 0 < or_per_ms (ag_order_rate c)
      \<and> 0 < rs_max_leverage (ag_risk c) \<and> nonneg_opt (rs_max_open_exposure_usd (ag_risk c))
      \<and> (case rs_max_risk_usd (ag_risk c) of None \<Rightarrow> True | Some b \<Rightarrow> 0 < b)
      \<and> nonneg_opt (ll_max_daily_loss_usd (ag_loss c))
      \<and> nonneg_opt (ll_max_drawdown_usd (ag_loss c)))"

lemma validate_loss_loop_ok:
  "validate_loss_loop ls = Inr () \<longleftrightarrow> (\<forall>l \<in> set ls. nonneg_opt l)"
  by (induction ls rule: validate_loss_loop.induct)
     (auto simp: nonneg_opt_def is_sign_negative_def not_less)

lemma agent_guardrails_validate_ok: "agent_guardrails_validate c = Inr () \<longleftrightarrow> guardrails_ok c"
  unfolding agent_guardrails_validate_def guardrails_ok_def
  by (auto simp: result_inv validate_loss_loop_ok is_sign_negative_def nonneg_opt_def not_less not_le
      split: option.splits)

end
