(* ===== verification/Hl_Wire.thy ===== *)
theory Hl_Wire
  imports Prelude
begin

text \<open>
  \<open>oppen-hl/src/wire.rs\<close> and \<open>action.rs\<close>: the values that go into the hashed and signed
  request bodies. Prices and sizes are normalized strings, client order ids are lowercase
  hexadecimal, and an action is one of the request bodies the venue accepts.
\<close>

section \<open>Addresses and networks\<close>

datatype address = Address "8 word list"

datatype network = Testnet | Mainnet

section \<open>Numbers on the wire\<close>

definition WIRE_DECIMALS :: nat where "WIRE_DECIMALS = 8"

datatype wire_error =
    TooManyDecimals decimal
  | NotRepresentable decimal nat
  | InvalidCloid string
  | NotNormalized string

text \<open>The string is that of the normalized decimal; a zero of either sign is \<open>0\<close>.\<close>

definition float_to_wire :: "declib \<Rightarrow> decimal \<Rightarrow> wire_error + string" where
  "float_to_wire D x =
     (if norm_scale D x > WIRE_DECIMALS then Inl (TooManyDecimals x)
      else if x = 0 then Inr ''0''
      else Inr (dec_to_string D x))"

text \<open>\<open>i64\<close> arithmetic of \<open>10i64.pow\<close> (which wraps in a release build) and \<open>i64::try_from\<close>.\<close>

definition wrap_i64 :: "int \<Rightarrow> int" where
  "wrap_i64 z = (z + 2 ^ 63) mod 2 ^ 64 - 2 ^ 63"

definition try_i64 :: "int \<Rightarrow> int option" where
  "try_i64 z = (if - (2 ^ 63) \<le> z \<and> z < 2 ^ 63 then Some z else None)"

definition decimal_to_int :: "declib \<Rightarrow> decimal \<Rightarrow> nat \<Rightarrow> wire_error + int" where
  "decimal_to_int D x decimals =
     (if norm_scale D x > decimals then Inl (NotRepresentable x decimals)
      else
        rbind (ok_or (NotRepresentable x decimals)
                 (checked_mul D x (of_int (wrap_i64 (10 ^ decimals))))) (\<lambda>scaled.
        ok_or (NotRepresentable x decimals) (try_i64 (norm_mantissa D scaled))))"

datatype wire_float = WireFloat (wf_as_str: string)

definition wire_float_from_decimal :: "declib \<Rightarrow> decimal \<Rightarrow> wire_error + wire_float" where
  "wire_float_from_decimal D x = rbind (float_to_wire D x) (\<lambda>s. Inr (WireFloat s))"

definition wire_float_parse :: "declib \<Rightarrow> string \<Rightarrow> wire_error + wire_float" where
  "wire_float_parse D s =
     rbind (ok_or (NotNormalized s) (dec_parse D s)) (\<lambda>x.
     rbind (float_to_wire D x) (\<lambda>wire.
     if wire \<noteq> s then Inl (NotNormalized s) else Inr (WireFloat wire)))"

section \<open>Client order ids\<close>

datatype cloid = Cloid (cloid_as_str: string)

definition is_ascii_hexdigit :: "char \<Rightarrow> bool" where
  "is_ascii_hexdigit c =
     (let n = of_char c :: nat in
      (48 \<le> n \<and> n \<le> 57) \<or> (65 \<le> n \<and> n \<le> 70) \<or> (97 \<le> n \<and> n \<le> 102))"

definition to_ascii_lowercase :: "char \<Rightarrow> char" where
  "to_ascii_lowercase c =
     (let n = of_char c :: nat in if 65 \<le> n \<and> n \<le> 90 then char_of (n + 32) else c)"

fun strip_prefix :: "string \<Rightarrow> string \<Rightarrow> string option" where
  "strip_prefix [] s = Some s"
| "strip_prefix (p # ps) [] = None"
| "strip_prefix (p # ps) (c # cs) = (if p = c then strip_prefix ps cs else None)"

definition cloid_parse :: "string \<Rightarrow> wire_error + cloid" where
  "cloid_parse s =
     rbind (ok_or (InvalidCloid s) (strip_prefix ''0x'' s)) (\<lambda>hex_part.
     if length hex_part \<noteq> 32 \<or> \<not> list_all is_ascii_hexdigit hex_part then Inl (InvalidCloid s)
     else Inr (Cloid (''0x'' @ map to_ascii_lowercase hex_part)))"

section \<open>Orders and actions\<close>

datatype tif = Alo | Ioc | Gtc
datatype tpsl = Tp | Sl
datatype grouping = Na | NormalTpsl | PositionTpsl

datatype order_type =
    OtLimit tif
  | OtTrigger bool wire_float tpsl

record order_wire =
  ow_a :: nat
  ow_b :: bool
  ow_p :: wire_float
  ow_s :: wire_float
  ow_r :: bool
  ow_t :: order_type
  ow_c :: "cloid option"

record builder_info =
  bi_b :: address
  bi_f :: nat

record cancel_wire =
  cw_a :: nat
  cw_o :: nat

record cancel_by_cloid_wire =
  cc_asset :: nat
  cc_cloid :: cloid

datatype action =
    ActOrder "order_wire list" grouping "builder_info option"
  | ActCancel "cancel_wire list"
  | ActCancelByCloid "cancel_by_cloid_wire list"
  | ActScheduleCancel "nat option"
  | ActUpdateLeverage nat bool nat
  | ActUpdateIsolatedMargin nat bool int
  | ActCreateSubAccount string
  | ActSubAccountTransfer address bool nat
  | ActClaimRewards

section \<open>Lemmas\<close>

lemma strip_prefix_append: "strip_prefix p (p @ s) = Some s"
  by (induction p) auto

lemma strip_prefix_Some: "strip_prefix p s = Some r \<longleftrightarrow> s = p @ r"
  by (induction p s rule: strip_prefix.induct) auto

lemma lowercase_hexdigit:
  assumes "is_ascii_hexdigit c"
  shows "is_ascii_hexdigit (to_ascii_lowercase c)"
    and "to_ascii_lowercase (to_ascii_lowercase c) = to_ascii_lowercase c"
proof -
  have eq: "of_char (char_of (n + 32) :: char) = n + 32" if "n \<le> 90" for n :: nat
    using that by simp
  show "is_ascii_hexdigit (to_ascii_lowercase c)"
    using assms eq by (auto simp: is_ascii_hexdigit_def to_ascii_lowercase_def Let_def)
  show "to_ascii_lowercase (to_ascii_lowercase c) = to_ascii_lowercase c"
    using eq [of "of_char c"] by (auto simp: to_ascii_lowercase_def Let_def)
qed

section \<open>Properties\<close>

text \<open>
  A client order id is canonical. What \<open>Cloid::parse\<close> accepts is \<open>0x\<close> and 32 hexadecimal
  digits, the stored id is the lowercase spelling, and parsing the stored id gives the same id
  back, so that two spellings of one id cannot both reach the wire.
\<close>

theorem cloid_parse_canonical:
  assumes "cloid_parse s = Inr c"
  shows "cloid_parse (cloid_as_str c) = Inr c \<and> length (cloid_as_str c) = 34
         \<and> list_all is_ascii_hexdigit (drop 2 (cloid_as_str c))
         \<and> cloid_as_str c = take 2 s @ map to_ascii_lowercase (drop 2 s)"
proof -
  from assms obtain h where h: "s = ''0x'' @ h" "length h = 32" "list_all is_ascii_hexdigit h"
      and c: "c = Cloid (''0x'' @ map to_ascii_lowercase h)"
    by (auto simp: cloid_parse_def result_inv strip_prefix_Some split: if_splits)
  have digits: "list_all is_ascii_hexdigit (map to_ascii_lowercase h)"
    using h(3) lowercase_hexdigit(1) by (auto simp: list_all_iff)
  have idem: "map (to_ascii_lowercase \<circ> to_ascii_lowercase) h = map to_ascii_lowercase h"
    using h(3) lowercase_hexdigit(2) by (auto simp: list_all_iff)
  have strip: "strip_prefix ''0x'' (cloid_as_str c) = Some (map to_ascii_lowercase h)"
    by (simp add: c)
  have "cloid_parse (cloid_as_str c) = Inr c"
    unfolding cloid_parse_def strip using digits idem h(2) by (simp add: c)
  with h(1,2) digits show ?thesis by (simp add: c)
qed

theorem cloid_parse_canonical_witness:
  "cloid_parse ''0xabcdef0123456789abcdef0123456789'' = Inr (Cloid ''0xabcdef0123456789abcdef0123456789'')"
  (is "cloid_parse ?low = _")
proof -
  let ?up = "''0xABCDEF0123456789ABCDEF0123456789''"
  have "cloid_parse ?up = Inr (Cloid ?low)" by code_simp
  from conjunct1 [OF cloid_parse_canonical [OF this]] show ?thesis by (simp only: cloid.sel)
qed

text \<open>
  Normalized wire numbers round-trip. \<open>WireFloat::parse\<close> accepts a string only when it is
  exactly the string that would be written for the number it denotes, and, for a decimal library
  whose parser reads its own output back, every number written by \<open>from_decimal\<close> is accepted
  unchanged.
\<close>

theorem wire_float_roundtrip:
  assumes reads_back: "x \<noteq> 0 \<Longrightarrow> dec_parse D (dec_to_string D x) = Some x"
    and reads_zero: "dec_parse D ''0'' = Some 0"
  shows "(\<forall>w. wire_float_from_decimal D x = Inr w \<longrightarrow> wire_float_parse D (wf_as_str w) = Inr w)
         \<and> (wire_float_parse D s = Inr v \<longleftrightarrow>
              v = WireFloat s \<and> (\<exists>y. dec_parse D s = Some y \<and> float_to_wire D y = Inr s))"
proof -
  have "wire_float_parse D (wf_as_str w) = Inr w" if "wire_float_from_decimal D x = Inr w" for w
  proof -
    from that have w: "float_to_wire D x = Inr (wf_as_str w)"
      by (auto simp: wire_float_from_decimal_def result_inv)
    then have "dec_parse D (wf_as_str w) = Some x"
      using reads_back reads_zero by (auto simp: float_to_wire_def split: if_splits)
    with w show ?thesis by (simp add: wire_float_parse_def)
  qed
  moreover have "wire_float_parse D s = Inr v \<longleftrightarrow>
           v = WireFloat s \<and> (\<exists>y. dec_parse D s = Some y \<and> float_to_wire D y = Inr s)"
    by (auto simp: wire_float_parse_def result_inv)
  ultimately show ?thesis by blast
qed

theorem wire_float_roundtrip_witness:
  "wire_float_parse exact_declib ''12.5'' = Inr (WireFloat ''12.5'')"
proof -
  have parse: "dec_parse exact_declib ''12.5'' = Some (25 / 2)"
    and str: "dec_to_string exact_declib (25 / 2) = ''12.5''"
    and zero: "dec_parse exact_declib ''0'' = Some 0"
    by code_simp+
  have "wire_float_from_decimal exact_declib (25 / 2) = Inr (WireFloat ''12.5'')"
    by code_simp
  then show ?thesis
    using wire_float_roundtrip [of "25 / 2" exact_declib "''12.5''" "WireFloat ''12.5''"]
    by (simp add: parse str zero)
qed

end
