(* ===== verification/Feed.thy ===== *)
theory Feed
  imports Hl_Wire
begin

text \<open>
  \<open>oppen-hl/src/ws/ingress.rs\<close> and the session of \<open>oppen-core/src/feed.rs\<close>: the evidence that
  the account an order is measured against was read after everything the venue has sent. A stamp
  records the session's epoch and the ingress observation; \<open>admit\<close> accepts a stamp only while both
  are current. \<open>Arc::new(())\<close> is the next unused number of its owner, and \<open>Arc::ptr_eq\<close> is equality
  of those numbers; an ingress observation carries its monitor's identity as well.
\<close>

section \<open>Ingress monitor\<close>

record ingress_state =
  ig_monitor :: nat
  ig_epoch :: nat
  ig_fresh :: nat
  ig_pending :: nat
  ig_outstanding :: nat
  ig_failed :: bool
  ig_completed :: bool
  ig_admitted :: nat

type_synonym ingress_observation = "nat \<times> nat"

datatype ingress_error = IngressFailed | IngressPending | IngressChanged | IngressClosed

datatype ws_event_kind =
    EvUserFills | EvOrderUpdates | EvDisconnected | EvReconnected | EvSubscriptionQuarantined
  | EvVenueError | EvMessageDropped | EvActiveAssetCtx | EvBbo | EvTrades | EvCandle | EvL2Book

definition event_channel :: "nat \<Rightarrow> ingress_state" where
  "event_channel monitor =
     \<lparr>ig_monitor = monitor, ig_epoch = 0, ig_fresh = 1, ig_pending = 0, ig_outstanding = 0,
      ig_failed = False, ig_completed = False, ig_admitted = 0\<rparr>"

definition ingress_observation_of :: "ingress_state \<Rightarrow> ingress_observation" where
  "ingress_observation_of s = (ig_monitor s, ig_epoch s)"

definition ingress_admit :: "ingress_state \<Rightarrow> ingress_observation \<Rightarrow> ingress_error + ingress_state" where
  "ingress_admit s observation =
     (if ig_failed s then Inl IngressFailed
      else if ig_completed s then Inl IngressClosed
      else if ig_pending s \<noteq> 0 then Inl IngressPending
      else if ingress_observation_of s \<noteq> observation then Inl IngressChanged
      else Inr (s\<lparr>ig_admitted := ig_admitted s + 1\<rparr>))"

text \<open>Dropping an admission guard; \<open>panicking\<close> when the admitted work is unwinding.\<close>

definition admission_drop :: "bool \<Rightarrow> ingress_state \<Rightarrow> ingress_state" where
  "admission_drop panicking s =
     s\<lparr>ig_admitted := ig_admitted s - 1, ig_failed := (ig_failed s \<or> panicking)\<rparr>"

definition replacement_eligible :: "ingress_state \<Rightarrow> bool" where
  "replacement_eligible s = (ig_completed s \<and> \<not> ig_failed s \<and> ig_outstanding s = 0)"

text \<open>The events that carry account state, in the source's \<open>match\<close>.\<close>

definition is_account_event :: "ws_event_kind \<Rightarrow> bool" where
  "is_account_event e =
     (case e of
        EvUserFills \<Rightarrow> True | EvOrderUpdates \<Rightarrow> True | EvDisconnected \<Rightarrow> True | EvReconnected \<Rightarrow> True
      | EvSubscriptionQuarantined \<Rightarrow> True | EvVenueError \<Rightarrow> True | EvMessageDropped \<Rightarrow> True
      | EvActiveAssetCtx \<Rightarrow> False | EvBbo \<Rightarrow> False | EvTrades \<Rightarrow> False | EvCandle \<Rightarrow> False
      | EvL2Book \<Rightarrow> False)"

text \<open>
  \<open>EventSender::send\<close> up to the channel: the obligation is published before the sender waits for
  the admitted work to finish. The result is whether the event is of the account, \<open>None\<close> when the
  consumer has completed.
\<close>

definition ingress_send :: "ws_event_kind \<Rightarrow> ingress_state \<Rightarrow> bool option \<times> ingress_state" where
  "ingress_send e s =
     (if ig_completed s then (None, s\<lparr>ig_failed := True\<rparr>)
      else if is_account_event e
        then (Some True, s\<lparr>ig_outstanding := ig_outstanding s + 1, ig_pending := ig_pending s + 1,
                          ig_epoch := ig_fresh s, ig_fresh := ig_fresh s + 1\<rparr>)
        else (Some False, s\<lparr>ig_outstanding := ig_outstanding s + 1\<rparr>))"

text \<open>Dropping an obligation, acknowledged or abandoned.\<close>

definition obligation_drop :: "bool \<Rightarrow> bool \<Rightarrow> ingress_state \<Rightarrow> ingress_state" where
  "obligation_drop account acknowledged s =
     s\<lparr>ig_failed := (ig_failed s \<or> \<not> acknowledged),
       ig_outstanding := ig_outstanding s - 1,
       ig_pending := (if account then ig_pending s - 1 else ig_pending s)\<rparr>"

definition receiver_complete :: "bool \<Rightarrow> nat \<Rightarrow> ingress_state \<Rightarrow> ingress_error + ingress_state" where
  "receiver_complete eof senders s =
     (if ig_failed s then Inl IngressFailed
      else if \<not> eof \<or> ig_outstanding s \<noteq> 0 \<or> senders \<noteq> 0 then Inl IngressClosed
      else Inr (s\<lparr>ig_completed := True\<rparr>))"

text \<open>Dropping a receiver that has not completed.\<close>

definition receiver_drop :: "ingress_state \<Rightarrow> ingress_state" where
  "receiver_drop s = s\<lparr>ig_failed := True\<rparr>"

section \<open>Feed session\<close>

record feed_stamp =
  fs_epoch :: nat
  fs_ingress :: "ingress_observation option"

record fill_walk_receipt =
  fw_ledger_identity :: nat
  fw_network :: network
  fw_account :: address
  fw_requested_start_ms :: nat
  fw_requested_end_ms :: "nat option"
  fw_pages :: nat
  fw_terminated_by_short_page :: bool
  fw_local_read_started_at_ms :: int
  fw_local_read_completed_at_ms :: int
  fw_initial_window :: bool

record feed_inner =
  fe_epoch :: nat
  fe_fresh :: nat
  fe_ingress :: "ingress_state option"
  fe_scope :: "(network \<times> address) option"
  fe_last_tick_ms :: "nat option"
  fe_reconciled :: bool
  fe_failure :: "string option"
  fe_initial_fill_walk :: "fill_walk_receipt option"
  fe_ledger_identity :: "nat option"

datatype reconcile_error = FeedScopeMismatch | FeedIngressUnavailable

definition feed_new :: feed_inner where
  "feed_new =
     \<lparr>fe_epoch = 0, fe_fresh = 1, fe_ingress = None, fe_scope = None, fe_last_tick_ms = None,
      fe_reconciled = False, fe_failure = None,
      fe_initial_fill_walk = None, fe_ledger_identity = None\<rparr>"

definition feed_stamp_of :: "feed_inner \<Rightarrow> feed_stamp" where
  "feed_stamp_of f =
     \<lparr>fs_epoch = fe_epoch f, fs_ingress = map_option ingress_observation_of (fe_ingress f)\<rparr>"

text \<open>\<open>epoch = Arc::new(())\<close>: an epoch no stamp has.\<close>

definition fresh_epoch :: "feed_inner \<Rightarrow> feed_inner" where
  "fresh_epoch f = f\<lparr>fe_epoch := fe_fresh f, fe_fresh := fe_fresh f + 1\<rparr>"

definition feed_bind :: "network \<Rightarrow> address \<Rightarrow> feed_inner \<Rightarrow> (reconcile_error + unit) \<times> feed_inner" where
  "feed_bind network account f =
     (case fe_scope f of
        Some scope \<Rightarrow> if scope \<noteq> (network, account) then (Inl FeedScopeMismatch, f) else (Inr (), f)
      | None \<Rightarrow>
          (Inr (), fresh_epoch (f\<lparr>fe_scope := Some (network, account), fe_reconciled := False\<rparr>)))"

definition feed_bind_ingress :: "ingress_state \<Rightarrow> feed_inner \<Rightarrow> (reconcile_error + unit) \<times> feed_inner" where
  "feed_bind_ingress ingress f =
     (if is_some_and (\<lambda>old. ig_monitor old = ig_monitor ingress) (fe_ingress f) then (Inr (), f)
      else
        let f1 = fresh_epoch f\<lparr>fe_reconciled := False\<rparr> in
        if is_some_and (\<lambda>old. \<not> replacement_eligible old) (fe_ingress f)
        then (Inl FeedIngressUnavailable, f1)
        else (Inr (), f1\<lparr>fe_ingress := Some ingress, fe_initial_fill_walk := None\<rparr>))"

definition record_fill_walk :: "feed_stamp \<Rightarrow> fill_walk_receipt \<Rightarrow> feed_inner \<Rightarrow> feed_inner" where
  "record_fill_walk stamp receipt f =
     (if stamp = feed_stamp_of f \<and> fw_initial_window receipt
         \<and> fe_scope f = Some (fw_network receipt, fw_account receipt)
         \<and> is_some_and (\<lambda>id. id = fw_ledger_identity receipt) (fe_ledger_identity f)
         \<and> fe_initial_fill_walk f = None
      then f\<lparr>fe_initial_fill_walk := Some receipt\<rparr> else f)"

definition feed_bind_ledger :: "nat \<Rightarrow> feed_inner \<Rightarrow> (reconcile_error + unit) \<times> feed_inner" where
  "feed_bind_ledger identity f =
     (if is_some_and (\<lambda>old. old \<noteq> identity) (fe_ledger_identity f)
      then (Inl FeedIngressUnavailable, fresh_epoch (f\<lparr>fe_reconciled := False\<rparr>))
      else (Inr (), f\<lparr>fe_ledger_identity := Some identity\<rparr>))"

text \<open>
  \<open>FeedSession::admit\<close>; the only refusal is \<open>FeedAdmission\<close>, \<open>None\<close> here. The guard it returns is
  the monitor's count of admitted work.
\<close>

definition feed_admit :: "feed_stamp option \<Rightarrow> network \<Rightarrow> address \<Rightarrow> feed_inner \<Rightarrow> feed_inner option" where
  "feed_admit stamp network account f =
     (if \<not> is_some_and (\<lambda>st. fs_epoch st = fe_epoch f) stamp
         \<or> fe_scope f \<noteq> Some (network, account) \<or> \<not> fe_reconciled f \<or> fe_failure f \<noteq> None
      then None
      else
        Option.bind (fe_ingress f) (\<lambda>ingress.
        Option.bind (Option.bind stamp fs_ingress) (\<lambda>observed.
        case ingress_admit ingress observed of
          Inl _ \<Rightarrow> None
        | Inr ingress' \<Rightarrow> Some (f\<lparr>fe_ingress := Some ingress'\<rparr>))))"

definition max_tick :: "nat option \<Rightarrow> nat \<Rightarrow> nat option" where
  "max_tick prev at_ms = Some (case prev of None \<Rightarrow> at_ms | Some l \<Rightarrow> max l at_ms)"

definition feed_reconciled :: "feed_stamp \<Rightarrow> nat \<Rightarrow> feed_inner \<Rightarrow> feed_inner" where
  "feed_reconciled stamp at_ms f =
     (if stamp \<noteq> feed_stamp_of f then f
      else f\<lparr>fe_reconciled := (fe_failure f = None),
             fe_last_tick_ms := max_tick (fe_last_tick_ms f) at_ms\<rparr>)"

definition feed_unreconciled :: "feed_inner \<Rightarrow> feed_inner" where
  "feed_unreconciled f = fresh_epoch (f\<lparr>fe_reconciled := False\<rparr>)"

definition feed_record_failure :: "string \<Rightarrow> feed_inner \<Rightarrow> feed_inner" where
  "feed_record_failure detail f =
     (fresh_epoch f)\<lparr>fe_failure := (case fe_failure f of None \<Rightarrow> Some detail | Some d \<Rightarrow> Some d),
                     fe_reconciled := False\<rparr>"

definition feed_tick :: "nat \<Rightarrow> feed_inner \<Rightarrow> feed_inner" where
  "feed_tick at_ms f = f\<lparr>fe_last_tick_ms := max_tick (fe_last_tick_ms f) at_ms\<rparr>"

section \<open>The session as a state machine\<close>

definition on_ingress :: "(ingress_state \<Rightarrow> ingress_state) \<Rightarrow> feed_inner \<Rightarrow> feed_inner" where
  "on_ingress g f = f\<lparr>fe_ingress := map_option g (fe_ingress f)\<rparr>"

text \<open>
  The steps of a running session: operations of its owner, and events at the bound monitor. A
  mutation of the monitor other than a send waits until no admitted work is left. A monitor that is
  bound in place of another has an identity of its own.
\<close>

inductive feed_step :: "feed_inner \<Rightarrow> feed_inner \<Rightarrow> bool" where
  st_bind: "feed_step f (snd (feed_bind n a f))"
| st_bind_ingress: "(\<forall>old. fe_ingress f = Some old \<longrightarrow> ig_monitor old < m) \<Longrightarrow>
     feed_step f (snd (feed_bind_ingress (event_channel m) f))"
| st_fill_walk: "feed_step f (record_fill_walk stamp receipt f)"
| st_bind_ledger: "feed_step f (snd (feed_bind_ledger i f))"
| st_reconciled: "feed_step f (feed_reconciled stamp t f)"
| st_unreconciled: "feed_step f (feed_unreconciled f)"
| st_failure: "feed_step f (feed_record_failure d f)"
| st_tick: "feed_step f (feed_tick t f)"
| st_admit: "feed_admit stamp n a f = Some f' \<Longrightarrow> feed_step f f'"
| st_release: "fe_ingress f = Some s \<Longrightarrow> 0 < ig_admitted s \<Longrightarrow>
     feed_step f (on_ingress (admission_drop panicking) f)"
| st_send: "feed_step f (on_ingress (\<lambda>s. snd (ingress_send e s)) f)"
| st_obligation: "fe_ingress f = Some s \<Longrightarrow> ig_admitted s = 0 \<Longrightarrow> 0 < ig_outstanding s \<Longrightarrow>
     (account \<longrightarrow> 0 < ig_pending s) \<Longrightarrow>
     feed_step f (on_ingress (obligation_drop account acknowledged) f)"
| st_complete: "fe_ingress f = Some s \<Longrightarrow> ig_admitted s = 0 \<Longrightarrow>
     receiver_complete eof senders s = Inr s' \<Longrightarrow> feed_step f (f\<lparr>fe_ingress := Some s'\<rparr>)"
| st_receiver_drop: "fe_ingress f = Some s \<Longrightarrow> ig_admitted s = 0 \<Longrightarrow>
     feed_step f (on_ingress receiver_drop f)"

text \<open>
  What invalidates a stamp: a lost or failed feed, a new binding, and an account event at the
  monitor.
\<close>

inductive disruption :: "feed_inner \<Rightarrow> feed_inner \<Rightarrow> bool" where
  dis_unreconciled: "disruption f (feed_unreconciled f)"
| dis_failure: "disruption f (feed_record_failure d f)"
| dis_account_event: "fe_ingress f = Some s \<Longrightarrow> \<not> ig_completed s \<Longrightarrow> is_account_event e \<Longrightarrow>
     disruption f (on_ingress (\<lambda>s. snd (ingress_send e s)) f)"

section \<open>Invariant\<close>

definition ingress_inv :: "ingress_state \<Rightarrow> bool" where
  "ingress_inv s = (ig_epoch s < ig_fresh s \<and> (ig_completed s \<and> \<not> ig_failed s \<longrightarrow> ig_outstanding s = 0))"

definition feed_inv :: "feed_inner \<Rightarrow> bool" where
  "feed_inv f =
     (fe_epoch f < fe_fresh f \<and> (\<forall>s. fe_ingress f = Some s \<longrightarrow> ingress_inv s)
      \<and> (fe_failure f \<noteq> None \<longrightarrow> \<not> fe_reconciled f))"

text \<open>The identities in use only grow: every later stamp is from the same or a later epoch.\<close>

definition obs_le :: "ingress_state option \<Rightarrow> ingress_state option \<Rightarrow> bool" where
  "obs_le i j =
     (case i of
        None \<Rightarrow> True
      | Some s \<Rightarrow> (case j of
                    None \<Rightarrow> False
                  | Some t \<Rightarrow> ig_monitor s < ig_monitor t
                      \<or> ig_monitor s = ig_monitor t \<and> ig_epoch s \<le> ig_epoch t))"

definition feed_le :: "feed_inner \<Rightarrow> feed_inner \<Rightarrow> bool" where
  "feed_le f g = (fe_epoch f \<le> fe_epoch g \<and> obs_le (fe_ingress f) (fe_ingress g))"

lemmas feed_defs =
  feed_bind_def feed_bind_ingress_def record_fill_walk_def feed_bind_ledger_def feed_reconciled_def feed_unreconciled_def
  feed_record_failure_def feed_tick_def fresh_epoch_def on_ingress_def admission_drop_def
  ingress_send_def obligation_drop_def receiver_complete_def receiver_drop_def event_channel_def

lemma feed_admit_iff:
  "feed_admit stamp n a f = Some f' \<longleftrightarrow>
     (\<exists>s. stamp = Some (feed_stamp_of f) \<and> fe_scope f = Some (n, a) \<and> fe_reconciled f
        \<and> fe_failure f = None \<and> fe_ingress f = Some s \<and> \<not> ig_failed s \<and> \<not> ig_completed s
        \<and> ig_pending s = 0 \<and> f' = f\<lparr>fe_ingress := Some (s\<lparr>ig_admitted := ig_admitted s + 1\<rparr>)\<rparr>)"
  by (cases stamp)
     (auto simp: feed_admit_def ingress_admit_def feed_stamp_of_def
       split: if_splits option.splits sum.splits bind_splits)

lemma feed_new_inv: "feed_inv feed_new"
  by (simp add: feed_new_def feed_inv_def)

lemma obs_le_refl [simp]: "obs_le i i"
  by (simp add: obs_le_def split: option.split)

text \<open>What an operation of the monitor keeps, and that it never goes back to an older observation.\<close>

definition ingress_op_ok :: "(ingress_state \<Rightarrow> ingress_state) \<Rightarrow> bool" where
  "ingress_op_ok g = (\<forall>s. ingress_inv s \<longrightarrow> ingress_inv (g s) \<and> obs_le (Some s) (Some (g s)))"

lemma ingress_ops_ok:
  "ingress_op_ok (admission_drop panicking)"
  "ingress_op_ok (\<lambda>s. snd (ingress_send e s))"
  "ingress_op_ok (obligation_drop account acknowledged)"
  "ingress_op_ok receiver_drop"
  by (auto simp: ingress_op_ok_def ingress_inv_def obs_le_def admission_drop_def ingress_send_def
      obligation_drop_def receiver_drop_def)

lemma receiver_complete_ok:
  "receiver_complete eof senders s = Inr s' \<Longrightarrow> ingress_inv s \<Longrightarrow>
     ingress_inv s' \<and> obs_le (Some s) (Some s')"
  by (auto simp: receiver_complete_def ingress_inv_def obs_le_def split: if_splits)

lemma on_ingress_ok:
  "ingress_op_ok g \<Longrightarrow> feed_inv f \<Longrightarrow> feed_inv (on_ingress g f) \<and> feed_le f (on_ingress g f)"
  by (cases "fe_ingress f") (auto simp: ingress_op_ok_def feed_inv_def feed_le_def on_ingress_def)

lemma bind_ingress_ok:
  assumes "\<forall>old. fe_ingress f = Some old \<longrightarrow> ig_monitor old < m" and "feed_inv f"
  shows "feed_inv (snd (feed_bind_ingress (event_channel m) f))
         \<and> feed_le f (snd (feed_bind_ingress (event_channel m) f))"
  using assms
  by (cases "fe_ingress f")
     (auto simp: feed_inv_def feed_le_def feed_bind_ingress_def fresh_epoch_def event_channel_def
       ingress_inv_def obs_le_def Let_def)

lemma session_ops_ok:
  assumes "feed_inv f"
  shows "feed_inv (snd (feed_bind n a f)) \<and> feed_le f (snd (feed_bind n a f))"
    and "feed_inv (record_fill_walk stamp receipt f) \<and> feed_le f (record_fill_walk stamp receipt f)"
    and "feed_inv (snd (feed_bind_ledger i f)) \<and> feed_le f (snd (feed_bind_ledger i f))"
    and "feed_inv (feed_reconciled stamp t f) \<and> feed_le f (feed_reconciled stamp t f)"
    and "feed_inv (feed_unreconciled f) \<and> feed_le f (feed_unreconciled f)"
    and "feed_inv (feed_record_failure d f) \<and> feed_le f (feed_record_failure d f)"
    and "feed_inv (feed_tick t f) \<and> feed_le f (feed_tick t f)"
  using assms
  by (auto simp: feed_inv_def feed_le_def feed_bind_def record_fill_walk_def feed_bind_ledger_def
      feed_reconciled_def feed_unreconciled_def feed_record_failure_def feed_tick_def fresh_epoch_def
      split: option.split)

lemma admit_ok: "feed_admit stamp n a f = Some f' \<Longrightarrow> feed_inv f \<Longrightarrow> feed_inv f' \<and> feed_le f f'"
  by (auto simp: feed_admit_iff feed_inv_def feed_le_def ingress_inv_def obs_le_def)

lemma feed_step_ok: "feed_step f g \<Longrightarrow> feed_inv f \<Longrightarrow> feed_inv g \<and> feed_le f g"
proof (induction rule: feed_step.induct)
  case (st_complete f s eof senders s')
  then show ?case
    using receiver_complete_ok [OF st_complete.hyps(3)] by (auto simp: feed_inv_def feed_le_def)
qed (simp_all add: session_ops_ok bind_ingress_ok admit_ok on_ingress_ok ingress_ops_ok)

lemmas feed_step_inv = feed_step_ok [THEN conjunct1]
lemmas feed_step_le = feed_step_ok [THEN conjunct2]

lemma feed_le_trans: "feed_le f g \<Longrightarrow> feed_le g h \<Longrightarrow> feed_le f h"
  by (auto simp: feed_le_def obs_le_def split: option.splits)

lemma feed_run:
  assumes "feed_step\<^sup>*\<^sup>* f g" and "feed_inv f"
  shows "feed_inv g \<and> feed_le f g"
  using assms
proof (induction rule: rtranclp_induct)
  case base
  then show ?case by (simp add: feed_le_def)
next
  case (step g h)
  then show ?case using feed_step_inv feed_step_le feed_le_trans by blast
qed

lemma disruption_step: "disruption f g \<Longrightarrow> feed_step f g"
  by (induction rule: disruption.induct) (auto intro: feed_step.intros)

text \<open>After a disruption every stamp of the state before it is of an older epoch.\<close>

lemma disruption_outdates:
  assumes "disruption f g" and "feed_inv f" and "feed_le g h"
  shows "feed_stamp_of h \<noteq> feed_stamp_of f"
  using assms
  by (induction rule: disruption.induct)
     (auto simp: feed_stamp_of_def feed_le_def obs_le_def feed_inv_def ingress_inv_def
       ingress_observation_of_def feed_defs split: option.splits)

section \<open>Properties\<close>

text \<open>
  An order is admitted exactly on current evidence. \<open>admit\<close> accepts a stamp if and only if it is
  the session's present stamp, for the bound network and account, after a completed reconcile with
  no recorded failure, and the ingress monitor is live with no account event left to process.
\<close>

theorem feed_admission_is_current:
  "feed_admit stamp n a f \<noteq> None \<longleftrightarrow>
     stamp = Some (feed_stamp_of f) \<and> fe_scope f = Some (n, a) \<and> fe_reconciled f \<and> fe_failure f = None
     \<and> (\<exists>s. fe_ingress f = Some s \<and> \<not> ig_failed s \<and> \<not> ig_completed s \<and> ig_pending s = 0)"
  using feed_admit_iff [of stamp n a f] by auto

text \<open>
  C36: a snapshot taken before a disruption never admits an order again. Once the feed was lost, or
  failed, or the venue sent an account event, a stamp taken before is refused in every later state
  of the session, whatever reconciles follow.
\<close>

theorem stamp_before_disruption_refused:
  assumes "feed_step\<^sup>*\<^sup>* feed_new f" and "disruption f g" and "feed_step\<^sup>*\<^sup>* g h"
  shows "feed_admit (Some (feed_stamp_of f)) n a h = None"
proof -
  have f: "feed_inv f" using feed_run [OF assms(1) feed_new_inv] by simp
  then have g: "feed_inv g" using assms(2) disruption_step feed_step_inv by blast
  then have "feed_le g h" using feed_run [OF assms(3)] by simp
  then have "feed_stamp_of h \<noteq> feed_stamp_of f" by (rule disruption_outdates [OF assms(2) f])
  then show ?thesis
    using feed_admit_iff [of "Some (feed_stamp_of f)" n a h] by (cases "feed_admit (Some (feed_stamp_of f)) n a h") auto
qed

text \<open>A session that is bound, reconciled, disrupted, and reconciled again.\<close>

definition sample_bound :: feed_inner where
  "sample_bound = snd (feed_bind_ingress (event_channel 0) (snd (feed_bind Testnet (Address [7]) feed_new)))"

definition sample_reconciled :: feed_inner where
  "sample_reconciled = feed_reconciled (feed_stamp_of sample_bound) 10 sample_bound"

definition sample_lost :: feed_inner where
  "sample_lost = feed_unreconciled sample_reconciled"

definition sample_recovered :: feed_inner where
  "sample_recovered = feed_reconciled (feed_stamp_of sample_lost) 20 sample_lost"

lemma sample_run: "feed_step\<^sup>*\<^sup>* feed_new sample_reconciled"
proof -
  have "feed_step feed_new (snd (feed_bind Testnet (Address [7]) feed_new))" by (rule st_bind)
  moreover have "feed_step (snd (feed_bind Testnet (Address [7]) feed_new)) sample_bound"
    unfolding sample_bound_def
    by (rule st_bind_ingress) (simp add: feed_bind_def feed_new_def fresh_epoch_def)
  moreover have "feed_step sample_bound sample_reconciled"
    unfolding sample_reconciled_def by (rule st_reconciled)
  ultimately show ?thesis by (meson rtranclp.rtrancl_refl rtranclp.rtrancl_into_rtrancl)
qed

theorem stamp_before_disruption_refused_witness:
  "feed_admit (Some (feed_stamp_of sample_reconciled)) Testnet (Address [7]) sample_reconciled \<noteq> None
   \<and> feed_admit (Some (feed_stamp_of sample_reconciled)) Testnet (Address [7]) sample_recovered = None
   \<and> feed_admit (Some (feed_stamp_of sample_recovered)) Testnet (Address [7]) sample_recovered \<noteq> None"
proof -
  have "feed_step\<^sup>*\<^sup>* sample_lost sample_recovered"
    unfolding sample_recovered_def by (rule r_into_rtranclp, rule st_reconciled)
  with stamp_before_disruption_refused [OF sample_run, of sample_lost sample_recovered]
  have "feed_admit (Some (feed_stamp_of sample_reconciled)) Testnet (Address [7]) sample_recovered = None"
    by (simp add: sample_lost_def dis_unreconciled)
  moreover have "feed_admit (Some (feed_stamp_of sample_reconciled)) Testnet (Address [7]) sample_reconciled \<noteq> None"
    by code_simp
  moreover have "feed_admit (Some (feed_stamp_of sample_recovered)) Testnet (Address [7]) sample_recovered \<noteq> None"
    by code_simp
  ultimately show ?thesis by simp
qed

end
