(* ===== verification/Snapshot.thy ===== *)
theory Snapshot
  imports Config Feed
begin

text \<open>
  \<open>guardrail/snapshot.rs\<close>: the values an evaluation reasons from. A market tick, an account at one
  instant with its working orders, and the exposure an order is measured against.
\<close>

type_synonym agent_id = string

datatype feed_quality = FqOk | FqWarmup | FqDegraded | FqUnusable

definition feed_quality_is_ok :: "feed_quality \<Rightarrow> bool" where
  "feed_quality_is_ok q = (case q of FqOk \<Rightarrow> True | _ \<Rightarrow> False)"

record market_snapshot_ref =
  ms_id :: string
  ms_hash :: string

record market_ref =
  mk_symbol :: string
  mk_reference_px :: "decimal option"
  mk_as_of_ms :: nat
  mk_quality :: feed_quality
  mk_mark_divergence_bps :: "decimal option"
  mk_mark_divergent_since_ms :: "nat option"
  mk_snapshot :: "market_snapshot_ref option"
  mk_sigma_day :: "decimal option"
  mk_vol_ratio :: "decimal option"

record position_snapshot =
  ps_szi :: decimal

record resting_exposure =
  re_buys :: "(string, decimal) btree"
  re_sells :: "(string, decimal) btree"
  re_reduce_buys :: "(string, decimal) btree"
  re_reduce_sells :: "(string, decimal) btree"
  re_notional_by_symbol :: "(string, decimal) btree"
  re_notional_usd :: decimal

record account_snapshot =
  ac_as_of_ms :: nat
  ac_reconciled :: bool
  ac_equity_usd :: decimal
  ac_peak_equity_usd :: decimal
  ac_realized_pnl_today_usd :: decimal
  ac_unrealized_pnl_usd :: decimal
  ac_day_start_ms :: nat
  ac_total_position_notional_usd :: decimal
  ac_positions :: "(string, position_snapshot) btree"
  ac_resting :: "resting_exposure option"

definition unwrap_or_zero :: "decimal option \<Rightarrow> decimal" where
  "unwrap_or_zero v = (case v of Some x \<Rightarrow> x | None \<Rightarrow> 0)"

definition resting_sides :: "resting_exposure \<Rightarrow> string \<Rightarrow> decimal \<times> decimal" where
  "resting_sides r symbol =
     (unwrap_or_zero (map_of (re_buys r) symbol), unwrap_or_zero (map_of (re_sells r) symbol))"

definition DAY_MS :: nat where "DAY_MS = 86400000"

definition day_pnl_usd :: "declib \<Rightarrow> account_snapshot \<Rightarrow> decimal" where
  "day_pnl_usd D a = saturating_add D (ac_realized_pnl_today_usd a) (ac_unrealized_pnl_usd a)"

definition position_szi :: "account_snapshot \<Rightarrow> string \<Rightarrow> decimal" where
  "position_szi a symbol = unwrap_or_zero (map_option ps_szi (map_of (ac_positions a) symbol))"

definition covers_day_of :: "account_snapshot \<Rightarrow> nat \<Rightarrow> bool" where
  "covers_day_of a now_ms =
     (now_ms \<ge> ac_day_start_ms a \<and> ac_day_start_ms a mod DAY_MS = 0
      \<and> now_ms - ac_day_start_ms a < DAY_MS)"

record exposure =
  ex_feed_stamp :: "feed_stamp option"
  ex_account :: address
  ex_agent :: account_snapshot
  ex_fleet :: "account_snapshot option"

section \<open>The day window\<close>

lemma covers_day_of_iff: "covers_day_of a now_ms \<longleftrightarrow> ac_day_start_ms a = now_ms div DAY_MS * DAY_MS"
proof
  assume "covers_day_of a now_ms"
  then have le: "ac_day_start_ms a \<le> now_ms" and "DAY_MS dvd ac_day_start_ms a"
      and lt: "now_ms < ac_day_start_ms a + DAY_MS"
    by (auto simp: covers_day_of_def)
  then obtain k where k: "ac_day_start_ms a = DAY_MS * k" by blast
  have "now_ms div DAY_MS = k"
    using le lt unfolding k by (intro div_nat_eqI) (simp_all add: algebra_simps)
  with k show "ac_day_start_ms a = now_ms div DAY_MS * DAY_MS" by simp
next
  assume eq: "ac_day_start_ms a = now_ms div DAY_MS * DAY_MS"
  have "now_ms = now_ms div DAY_MS * DAY_MS + now_ms mod DAY_MS" by simp
  moreover have "now_ms mod DAY_MS < DAY_MS" by (simp add: DAY_MS_def)
  ultimately show "covers_day_of a now_ms"
    unfolding covers_day_of_def eq by (metis add_diff_cancel_left' le_add1 mod_mult_self2_is_0)
qed

end
