(* ===== verification/Kill.thy ===== *)
theory Kill
  imports Snapshot
begin

text \<open>
  \<open>guardrail/kill.rs\<close>: the kill switch, per agent and global. Engaging is idempotent and keeps the
  first engagement; releasing one scope leaves the others engaged; the global engagement is the one
  reported when both block an agent.
\<close>

datatype loss_kind = Daily | Drawdown

datatype kill_scope = ScopeGlobal | ScopeAgent agent_id

datatype kill_reason =
    KrOperator
  | KrLossLimit loss_kind decimal decimal
  | KrAgentWalletExpired
  | KrFeedFailure

record engagement =
  eg_engaged_at_ms :: nat
  eg_reason :: kill_reason

record kill_effect =
  ke_scope :: kill_scope
  ke_newly_engaged :: bool
  ke_cancel_for :: "agent_id btset"

record kill_switch =
  ks_global :: "engagement option"
  ks_agents :: "(agent_id, engagement) btree"

text \<open>The derived order of \<open>KillScope\<close>: the global scope first, then the agents by id.\<close>

instantiation kill_scope :: linorder
begin

definition less_eq_kill_scope :: "kill_scope \<Rightarrow> kill_scope \<Rightarrow> bool" where
  "less_eq_kill_scope a b =
     (case a of
        ScopeGlobal \<Rightarrow> True
      | ScopeAgent x \<Rightarrow> (case b of ScopeGlobal \<Rightarrow> False | ScopeAgent y \<Rightarrow> x \<le> y))"

definition less_kill_scope :: "kill_scope \<Rightarrow> kill_scope \<Rightarrow> bool" where
  "less_kill_scope a b = (a \<le> b \<and> \<not> b \<le> (a :: kill_scope))"

instance
  by standard (auto simp: less_eq_kill_scope_def less_kill_scope_def split: kill_scope.splits)

end

definition kill_switch_new :: kill_switch where
  "kill_switch_new = \<lparr>ks_global = None, ks_agents = []\<rparr>"

definition kill_engagement :: "kill_switch \<Rightarrow> kill_scope \<Rightarrow> engagement option" where
  "kill_engagement k scope =
     (case scope of ScopeGlobal \<Rightarrow> ks_global k | ScopeAgent agent \<Rightarrow> map_of (ks_agents k) agent)"

definition kill_blocking :: "kill_switch \<Rightarrow> agent_id \<Rightarrow> (kill_scope \<times> engagement) option" where
  "kill_blocking k agent =
     (case ks_global k of
        Some e \<Rightarrow> Some (ScopeGlobal, e)
      | None \<Rightarrow> map_option (\<lambda>e. (ScopeAgent agent, e)) (map_of (ks_agents k) agent))"

definition kill_engage :: "kill_scope \<Rightarrow> engagement \<Rightarrow> kill_switch \<Rightarrow> bool \<times> kill_switch" where
  "kill_engage scope e k =
     (case scope of
        ScopeGlobal \<Rightarrow>
          if ks_global k \<noteq> None then (False, k) else (True, k\<lparr>ks_global := Some e\<rparr>)
      | ScopeAgent agent \<Rightarrow>
          if bt_contains (ks_agents k) agent then (False, k)
          else (True, k\<lparr>ks_agents := bt_insert agent e (ks_agents k)\<rparr>))"

definition kill_release :: "kill_scope \<Rightarrow> kill_switch \<Rightarrow> bool \<times> kill_switch" where
  "kill_release scope k =
     (case scope of
        ScopeGlobal \<Rightarrow> (ks_global k \<noteq> None, k\<lparr>ks_global := None\<rparr>)
      | ScopeAgent agent \<Rightarrow>
          (bt_contains (ks_agents k) agent, k\<lparr>ks_agents := bt_remove agent (ks_agents k)\<rparr>))"

section \<open>The switch as a map from scopes\<close>

text \<open>
  The contract its clients rely on: a scope is engaged by the first engagement it was given, and
  only its own release disengages it.
\<close>

locale stop_switch =
  fixes engaged :: "'k \<Rightarrow> kill_scope \<Rightarrow> engagement option"
    and engage :: "kill_scope \<Rightarrow> engagement \<Rightarrow> 'k \<Rightarrow> bool \<times> 'k"
    and release :: "kill_scope \<Rightarrow> 'k \<Rightarrow> bool \<times> 'k"
  assumes engaged_engage: "engaged (snd (engage s e k)) t =
      (if t = s \<and> engaged k s = None then Some e else engaged k t)"
    and newly: "fst (engage s e k) \<longleftrightarrow> engaged k s = None"
    and engaged_release: "engaged (snd (release s k)) t = (if t = s then None else engaged k t)"
    and was: "fst (release s k) \<longleftrightarrow> engaged k s \<noteq> None"
begin

lemma engage_keeps: "engaged k t \<noteq> None \<Longrightarrow> engaged (snd (engage s e k)) t = engaged k t"
  by (auto simp: engaged_engage)

lemma engage_engages: "engaged (snd (engage s e k)) s \<noteq> None"
  by (auto simp: engaged_engage)

fun engage_all :: "(kill_scope \<times> engagement) list \<Rightarrow> 'k \<Rightarrow> 'k" where
  "engage_all [] k = k"
| "engage_all ((s, e) # es) k = engage_all es (snd (engage s e k))"

lemma engage_all_engaged:
  "engaged (engage_all es k) t = (case engaged k t of Some e \<Rightarrow> Some e | None \<Rightarrow> map_of es t)"
  by (induction es k rule: engage_all.induct) (auto simp: engaged_engage split: option.splits)

end

interpretation ks: stop_switch kill_engagement kill_engage kill_release
proof (unfold_locales, goal_cases)
  case (1 s e k t)
  show ?case
    by (cases s; cases t) (auto simp: kill_engagement_def kill_engage_def bt_contains_def map_of_bt_insert)
next
  case (2 s e k)
  show ?case
    by (cases s) (auto simp: kill_engagement_def kill_engage_def bt_contains_def)
next
  case (3 s k t)
  show ?case
    by (cases s; cases t) (auto simp: kill_engagement_def kill_release_def map_of_bt_remove)
next
  case (4 s k)
  show ?case
    by (cases s) (auto simp: kill_engagement_def kill_release_def bt_contains_def)
qed

lemma kill_blocking_alt:
  "kill_blocking k agent =
     (case kill_engagement k ScopeGlobal of
        Some e \<Rightarrow> Some (ScopeGlobal, e)
      | None \<Rightarrow> map_option (\<lambda>e. (ScopeAgent agent, e)) (kill_engagement k (ScopeAgent agent)))"
  by (simp add: kill_blocking_def kill_engagement_def split: option.split)

lemma kill_blocking_None:
  "kill_blocking k agent = None \<longleftrightarrow>
     kill_engagement k ScopeGlobal = None \<and> kill_engagement k (ScopeAgent agent) = None"
  by (auto simp: kill_blocking_alt split: option.splits)

definition scope_covers :: "kill_scope \<Rightarrow> agent_id \<Rightarrow> bool" where
  "scope_covers s agent = (case s of ScopeGlobal \<Rightarrow> True | ScopeAgent a \<Rightarrow> a = agent)"

lemma ex_covering_scope:
  "(\<exists>t. P t \<and> scope_covers t agent \<and> Q t) \<longleftrightarrow>
     P ScopeGlobal \<and> Q ScopeGlobal \<or> P (ScopeAgent agent) \<and> Q (ScopeAgent agent)"
proof
  assume "\<exists>t. P t \<and> scope_covers t agent \<and> Q t"
  then obtain t where "P t" "scope_covers t agent" "Q t" by blast
  then show "P ScopeGlobal \<and> Q ScopeGlobal \<or> P (ScopeAgent agent) \<and> Q (ScopeAgent agent)"
    by (cases t) (auto simp: scope_covers_def)
qed (auto simp: scope_covers_def intro: exI [of _ ScopeGlobal] exI [of _ "ScopeAgent agent"])

section \<open>Properties\<close>

text \<open>
  What engaging and releasing a kill scope does to every agent. After an engagement the agents
  it covers are blocked and every agent that was blocked stays blocked, with the engagement it
  already had under that scope; after a release of a scope an agent is blocked exactly when another
  scope still covers it, so that lifting the global pause does not restart an agent its own loss
  breaker stopped.
\<close>

theorem kill_engage_release_semantics:
  "(kill_blocking (snd (kill_engage s e k)) agent = None \<longleftrightarrow>
      kill_blocking k agent = None \<and> \<not> scope_covers s agent)
   \<and> (kill_engagement k s \<noteq> None \<longrightarrow> kill_engagement (snd (kill_engage s e k)) s = kill_engagement k s)
   \<and> (kill_blocking (snd (kill_release s k)) agent \<noteq> None \<longleftrightarrow>
      (\<exists>t. t \<noteq> s \<and> scope_covers t agent \<and> kill_engagement k t \<noteq> None))"
proof (intro conjI)
  show "kill_blocking (snd (kill_engage s e k)) agent = None \<longleftrightarrow>
      kill_blocking k agent = None \<and> \<not> scope_covers s agent"
    by (cases s) (auto simp: kill_blocking_None ks.engaged_engage scope_covers_def)
  show "kill_engagement k s \<noteq> None \<longrightarrow> kill_engagement (snd (kill_engage s e k)) s = kill_engagement k s"
    by (simp add: ks.engaged_engage)
  show "kill_blocking (snd (kill_release s k)) agent \<noteq> None \<longleftrightarrow>
      (\<exists>t. t \<noteq> s \<and> scope_covers t agent \<and> kill_engagement k t \<noteq> None)"
    unfolding kill_blocking_None ks.engaged_release ex_covering_scope by (cases s) auto
qed

definition sample_kill :: kill_switch where
  "sample_kill = snd (kill_engage (ScopeAgent ''alpha'') \<lparr>eg_engaged_at_ms = 1, eg_reason = KrOperator\<rparr>
     (snd (kill_engage ScopeGlobal \<lparr>eg_engaged_at_ms = 2, eg_reason = KrOperator\<rparr> kill_switch_new)))"

theorem kill_engage_release_semantics_witness:
  "kill_engagement (snd (kill_engage ScopeGlobal \<lparr>eg_engaged_at_ms = 9, eg_reason = KrFeedFailure\<rparr> sample_kill)) ScopeGlobal
     = Some \<lparr>eg_engaged_at_ms = 2, eg_reason = KrOperator\<rparr>
   \<and> kill_blocking (snd (kill_release ScopeGlobal sample_kill)) ''alpha'' \<noteq> None
   \<and> kill_blocking (snd (kill_release ScopeGlobal sample_kill)) ''beta'' = None"
proof -
  have engaged: "kill_engagement sample_kill ScopeGlobal = Some \<lparr>eg_engaged_at_ms = 2, eg_reason = KrOperator\<rparr>"
    "kill_engagement sample_kill (ScopeAgent ''alpha'') \<noteq> None"
    "kill_blocking (snd (kill_release ScopeGlobal sample_kill)) ''beta'' = None"
    by code_simp+
  have alpha: "\<exists>t. t \<noteq> ScopeGlobal \<and> scope_covers t ''alpha'' \<and> kill_engagement sample_kill t \<noteq> None"
    using engaged(2) by (intro exI [of _ "ScopeAgent ''alpha''"]) (simp add: scope_covers_def)
  from kill_engage_release_semantics
         [of ScopeGlobal "\<lparr>eg_engaged_at_ms = 9, eg_reason = KrFeedFailure\<rparr>" sample_kill "''alpha''"]
  show ?thesis using alpha engaged by auto
qed

end
