(* ===== verification/Breaker.thy ===== *)
theory Breaker
  imports Kill
begin

text \<open>
  \<open>guardrail/breaker.rs\<close>: the loss circuit breaker and the gauge that reads the same budgets, and
  \<open>guardrail/deadman.rs\<close>: when the venue's scheduled cancel has to be armed.
\<close>

section \<open>Budgets\<close>

record breach =
  br_scope :: kill_scope
  br_kind :: loss_kind
  br_observed_usd :: decimal
  br_limit_usd :: decimal

definition HUNDRED :: decimal where "HUNDRED = 100"

definition ratio_pct :: "declib \<Rightarrow> decimal \<Rightarrow> decimal \<Rightarrow> decimal option" where
  "ratio_pct D observed limit =
     (if limit = 0 then None
      else Option.bind (checked_div D observed limit) (\<lambda>r. checked_mul D r HUNDRED))"

definition consumed_usd :: "declib \<Rightarrow> loss_kind \<Rightarrow> account_snapshot \<Rightarrow> decimal" where
  "consumed_usd D kind account =
     (case kind of
        Daily \<Rightarrow> saturating_sub D 0 (day_pnl_usd D account)
      | Drawdown \<Rightarrow> max (saturating_sub D (ac_peak_equity_usd account) (ac_equity_usd account)) 0)"

definition utilization_pct ::
  "declib \<Rightarrow> loss_kind \<Rightarrow> decimal option \<Rightarrow> account_snapshot \<Rightarrow> decimal option" where
  "utilization_pct D kind limit account =
     Option.bind limit (\<lambda>limit. ratio_pct D (max (consumed_usd D kind account) 0) limit)"

text \<open>The two budgets in the order both \<open>check\<close> and \<open>gauge\<close> visit them.\<close>

definition budgets :: "loss_limits \<Rightarrow> (loss_kind \<times> decimal option) list" where
  "budgets limits = [(Daily, ll_max_daily_loss_usd limits), (Drawdown, ll_max_drawdown_usd limits)]"

fun breaker_check_loop ::
  "declib \<Rightarrow> kill_scope \<Rightarrow> account_snapshot \<Rightarrow> (loss_kind \<times> decimal option) list \<Rightarrow> breach option" where
  "breaker_check_loop D scope account [] = None"
| "breaker_check_loop D scope account ((kind, limit) # rest) =
     (case limit of
        None \<Rightarrow> breaker_check_loop D scope account rest
      | Some limit \<Rightarrow>
          let observed_usd = consumed_usd D kind account in
          if observed_usd \<ge> limit
          then Some \<lparr>br_scope = scope, br_kind = kind, br_observed_usd = observed_usd, br_limit_usd = limit\<rparr>
          else breaker_check_loop D scope account rest)"

definition breaker_check :: "declib \<Rightarrow> kill_scope \<Rightarrow> loss_limits \<Rightarrow> account_snapshot \<Rightarrow> breach option" where
  "breaker_check D scope limits account = breaker_check_loop D scope account (budgets limits)"

definition breaker_check_all ::
  "declib \<Rightarrow> agent_id \<Rightarrow> loss_limits \<Rightarrow> account_snapshot \<Rightarrow> loss_limits \<Rightarrow> account_snapshot option
     \<Rightarrow> breach option" where
  "breaker_check_all D agent agent_limits agent_account account_limits fleet =
     (case breaker_check D (ScopeAgent agent) agent_limits agent_account of
        Some breach \<Rightarrow> Some breach
      | None \<Rightarrow> Option.bind fleet (\<lambda>fleet. breaker_check D ScopeGlobal account_limits fleet))"

section \<open>The gauge\<close>

datatype budget_scope = BudgetAgent | BudgetAccount

record loss_budget =
  lb_scope :: budget_scope
  lb_kind :: loss_kind
  lb_consumed_usd :: decimal
  lb_limit_usd :: decimal
  lb_utilization_pct :: "decimal option"
  lb_remaining_usd :: decimal
  lb_tripped :: bool

definition gauge_row ::
  "declib \<Rightarrow> budget_scope \<Rightarrow> account_snapshot \<Rightarrow> nat \<Rightarrow> loss_kind \<times> decimal option \<Rightarrow> loss_budget option" where
  "gauge_row D scope account now_ms kl =
     (case kl of (kind, limit) \<Rightarrow>
        Option.bind limit (\<lambda>limit_usd.
          if kind = Daily \<and> \<not> covers_day_of account now_ms then None
          else
            let consumed = consumed_usd D kind account in
            Some \<lparr>lb_scope = scope, lb_kind = kind, lb_consumed_usd = consumed, lb_limit_usd = limit_usd,
                  lb_utilization_pct = utilization_pct D kind (Some limit_usd) account,
                  lb_remaining_usd = max (saturating_sub D limit_usd (max consumed 0)) 0,
                  lb_tripped = (consumed \<ge> limit_usd)\<rparr>))"

definition gauge ::
  "declib \<Rightarrow> budget_scope \<Rightarrow> loss_limits \<Rightarrow> account_snapshot \<Rightarrow> nat \<Rightarrow> loss_budget list" where
  "gauge D scope limits account now_ms =
     List.map_filter (gauge_row D scope account now_ms) (budgets limits)"

section \<open>The dead-man's switch\<close>

definition DEAD_MAN_MIN_LEAD_MS :: nat where "DEAD_MAN_MIN_LEAD_MS = 5000"
definition LEAD_MS :: nat where "LEAD_MS = 60000"
definition REFRESH_AT_REMAINING_MS :: nat where "REFRESH_AT_REMAINING_MS = 20000"

datatype dead_man_intent = DmArm (dm_cancel_at_ms: nat) | DmDisarm | DmHold

definition deadman_evaluate :: "nat \<Rightarrow> bool \<Rightarrow> nat option \<Rightarrow> dead_man_intent" where
  "deadman_evaluate now_ms active armed_until_ms =
     (let armed = Option.bind armed_until_ms (\<lambda>until. if until > now_ms then Some until else None) in
      if \<not> active then (if armed \<noteq> None then DmDisarm else DmHold)
      else
        let cancel_at_ms = sat_add64 now_ms LEAD_MS in
        (case armed of
           None \<Rightarrow> DmArm cancel_at_ms
         | Some until \<Rightarrow>
             if until - now_ms \<le> REFRESH_AT_REMAINING_MS then DmArm cancel_at_ms else DmHold))"

section \<open>Lemmas\<close>

text \<open>The breach a gauge row stands for.\<close>

definition row_breach :: "kill_scope \<Rightarrow> loss_budget \<Rightarrow> breach" where
  "row_breach scope r =
     \<lparr>br_scope = scope, br_kind = lb_kind r, br_observed_usd = lb_consumed_usd r,
      br_limit_usd = lb_limit_usd r\<rparr>"

lemma check_loop_is_first_tripped:
  assumes "covers_day_of account now_ms"
  shows "breaker_check_loop D scope account bs =
     map_option (row_breach scope) (find lb_tripped (List.map_filter (gauge_row D bscope account now_ms) bs))"
proof (induction bs)
  case Nil
  show ?case by (simp add: map_filter_simps)
next
  case (Cons b bs)
  obtain kind limit where b: "b = (kind, limit)" by (cases b)
  show ?case
  proof (cases limit)
    case None
    with b Cons show ?thesis by (simp add: map_filter_simps gauge_row_def)
  next
    case (Some l)
    with b Cons assms show ?thesis
      by (simp add: map_filter_simps gauge_row_def row_breach_def Let_def)
  qed
qed

lemma breaker_check_Some:
  "breaker_check D scope limits account = Some b \<Longrightarrow>
     br_scope b = scope \<and> br_observed_usd b = consumed_usd D (br_kind b) account
     \<and> br_limit_usd b \<le> br_observed_usd b
     \<and> (case br_kind b of Daily \<Rightarrow> ll_max_daily_loss_usd limits = Some (br_limit_usd b)
                        | Drawdown \<Rightarrow> ll_max_drawdown_usd limits = Some (br_limit_usd b))"
  by (auto simp: breaker_check_def budgets_def Let_def split: option.splits if_splits)

lemma breaker_check_None:
  "breaker_check D scope limits account = None \<longleftrightarrow>
     is_none_or (\<lambda>l. consumed_usd D Daily account < l) (ll_max_daily_loss_usd limits)
     \<and> is_none_or (\<lambda>l. consumed_usd D Drawdown account < l) (ll_max_drawdown_usd limits)"
  by (auto simp: breaker_check_def budgets_def Let_def not_le is_none_or_iff split: option.splits if_splits)

lemma breaker_check_all_scope:
  "breaker_check_all D agent al aa gl fleet = Some b \<Longrightarrow> scope_covers (br_scope b) agent"
  by (auto simp: breaker_check_all_def scope_covers_def dest: breaker_check_Some
      split: option.splits bind_splits)

section \<open>Properties\<close>

text \<open>
  The gauge and the breaker are one predicate. On a snapshot of the current day the breaker
  fires exactly when a row of the gauge reads tripped, and the breach it reports is the first such
  row's budget, loss and limit; for a decimal library whose subtraction keeps the sign of the
  difference, a positive budget has no dollars remaining exactly on the rows that are tripped.
\<close>

theorem gauge_agrees_with_breaker:
  assumes sub_sign: "\<And>a b. saturating_sub D a b \<le> 0 \<longleftrightarrow> a \<le> b"
    and today: "covers_day_of account now_ms"
  shows "breaker_check D scope limits account =
           map_option (row_breach scope) (find lb_tripped (gauge D bscope limits account now_ms))
         \<and> (\<forall>row \<in> set (gauge D bscope limits account now_ms).
              0 < lb_limit_usd row \<longrightarrow> (lb_remaining_usd row = 0 \<longleftrightarrow> lb_tripped row))"
proof -
  have "breaker_check D scope limits account =
      map_option (row_breach scope) (find lb_tripped (gauge D bscope limits account now_ms))"
    unfolding breaker_check_def gauge_def by (rule check_loop_is_first_tripped [OF today])
  moreover have "lb_remaining_usd row = 0 \<longleftrightarrow> lb_tripped row"
    if row: "row \<in> set (gauge D bscope limits account now_ms)" and pos: "0 < lb_limit_usd row" for row
  proof -
    from row obtain kind where rem: "lb_remaining_usd row = max (saturating_sub D (lb_limit_usd row)
        (max (consumed_usd D kind account) 0)) 0"
      and trip: "lb_tripped row \<longleftrightarrow> lb_limit_usd row \<le> consumed_usd D kind account"
      by (auto simp: gauge_def budgets_def gauge_row_def map_filter_simps Let_def
          split: option.splits if_splits bind_splits)
    have max_zero: "max y 0 = 0 \<longleftrightarrow> y \<le> 0" for y :: decimal by (auto simp: max_def)
    have "lb_remaining_usd row = 0 \<longleftrightarrow> lb_limit_usd row \<le> max (consumed_usd D kind account) 0"
      unfolding rem max_zero sub_sign by (rule refl)
    with trip pos show ?thesis by (auto simp: max_def)
  qed
  ultimately show ?thesis by blast
qed

definition sample_account :: account_snapshot where
  "sample_account =
     \<lparr>ac_as_of_ms = 1000, ac_reconciled = True, ac_equity_usd = 970, ac_peak_equity_usd = 1000,
      ac_realized_pnl_today_usd = -20, ac_unrealized_pnl_usd = -10, ac_day_start_ms = 0,
      ac_total_position_notional_usd = 0, ac_positions = [],
      ac_resting = Some \<lparr>re_buys = [], re_sells = [], re_reduce_buys = [], re_reduce_sells = [],
                         re_notional_by_symbol = [], re_notional_usd = 0\<rparr>\<rparr>"

theorem gauge_agrees_with_breaker_witness:
  "breaker_check exact_declib ScopeGlobal loss_limits_default sample_account
     = Some \<lparr>br_scope = ScopeGlobal, br_kind = Daily, br_observed_usd = 30, br_limit_usd = 25\<rparr>
   \<and> find lb_tripped (gauge exact_declib BudgetAccount loss_limits_default sample_account 1500) \<noteq> None"
proof -
  have today: "covers_day_of sample_account 1500"
    and check: "breaker_check exact_declib ScopeGlobal loss_limits_default sample_account
      = Some \<lparr>br_scope = ScopeGlobal, br_kind = Daily, br_observed_usd = 30, br_limit_usd = 25\<rparr>"
    by code_simp+
  have "breaker_check exact_declib ScopeGlobal loss_limits_default sample_account =
      map_option (row_breach ScopeGlobal)
        (find lb_tripped (gauge exact_declib BudgetAccount loss_limits_default sample_account 1500))"
    using gauge_agrees_with_breaker [OF _ today, of exact_declib ScopeGlobal loss_limits_default BudgetAccount]
    by simp
  with check show ?thesis by auto
qed

text \<open>
  The dead-man's switch is never left to lapse while its agent is active. With a clock that
  cannot overflow, an active agent's container is, after acting on the intent, armed at least the
  refresh threshold ahead of now and no further than one lead, an arm request always satisfies the
  venue's minimum lead, and an inactive agent's container ends up unarmed.
\<close>

definition armed_after :: "nat \<Rightarrow> nat option \<Rightarrow> dead_man_intent \<Rightarrow> nat option" where
  "armed_after now_ms armed i =
     (case i of
        DmArm cancel_at \<Rightarrow> Some cancel_at
      | DmDisarm \<Rightarrow> None
      | DmHold \<Rightarrow> Option.bind armed (\<lambda>until. if until > now_ms then Some until else None))"

theorem dead_man_keeps_watch:
  assumes "now_ms + LEAD_MS \<le> U64_MAX"
  shows "(case armed_after now_ms armed (deadman_evaluate now_ms active armed) of
            None \<Rightarrow> \<not> active
          | Some until \<Rightarrow> active \<and> now_ms + REFRESH_AT_REMAINING_MS < until)
         \<and> (deadman_evaluate now_ms active armed = DmArm cancel_at \<longrightarrow>
              active \<and> cancel_at = now_ms + LEAD_MS \<and> sat_add64 now_ms DEAD_MAN_MIN_LEAD_MS < cancel_at)"
  using assms
  by (auto simp: deadman_evaluate_def armed_after_def Let_def sat_add64_def sat_u64_def LEAD_MS_def
      REFRESH_AT_REMAINING_MS_def DEAD_MAN_MIN_LEAD_MS_def split: option.splits if_splits bind_splits)

theorem dead_man_keeps_watch_witness:
  "deadman_evaluate 1000 True (Some 11000) = DmArm 61000
   \<and> (case armed_after 1000 (Some 11000) (deadman_evaluate 1000 True (Some 11000)) of
        None \<Rightarrow> False | Some until \<Rightarrow> 1000 + REFRESH_AT_REMAINING_MS < until)"
proof -
  have "1000 + LEAD_MS \<le> U64_MAX" by code_simp
  moreover have "deadman_evaluate 1000 True (Some 11000) = DmArm 61000" by code_simp
  ultimately show ?thesis
    using dead_man_keeps_watch [where now_ms = 1000 and armed = "Some 11000" and active = True
        and cancel_at = 61000]
    by (auto simp: armed_after_def split: option.splits)
qed

end
