(* ===== verification/Hl_Meta.thy ===== *)
theory Hl_Meta
  imports Hl_Wire
begin

text \<open>
  \<open>oppen-hl/src/meta.rs\<close> and \<open>order.rs\<close>: the asset universe, the rounding and validation rules of
  the venue, and the translation of an order description into a validated wire order. A bare
  arithmetic operator of the decimal crate panics on overflow; a definition that uses one returns
  an option, \<open>None\<close> for the panic.
\<close>

section \<open>Assets\<close>

definition PERP_MAX_DECIMALS :: nat where "PERP_MAX_DECIMALS = 6"
definition PRICE_SIG_FIGS :: nat where "PRICE_SIG_FIGS = 5"
definition MIN_NOTIONAL_USD :: decimal where "MIN_NOTIONAL_USD = 10"

datatype validation_error =
    VeBuilderDeployedDex string
  | VeUnknownAsset string
  | VeDelisted string
  | VeNonPositivePrice decimal
  | VeNonPositiveSize decimal
  | VePriceSigFigs decimal
  | VePriceDecimals decimal nat
  | VeSizeDecimals decimal nat
  | VeMinNotional decimal

record asset_info =
  ai_name :: string
  ai_sz_decimals :: nat
  ai_max_leverage :: nat
  ai_margin_table_id :: nat
  ai_is_delisted :: bool
  ai_only_isolated :: bool

record asset =
  as_index :: nat
  as_info :: asset_info

definition asset_name :: "asset \<Rightarrow> string" where
  "asset_name a = ai_name (as_info a)"

definition max_price_decimals :: "asset \<Rightarrow> nat" where
  "max_price_decimals a = PERP_MAX_DECIMALS - ai_sz_decimals (as_info a)"

definition round_price :: "declib \<Rightarrow> asset \<Rightarrow> decimal \<Rightarrow> decimal" where
  "round_price D a px =
     (let sf = (case round_sf_with D MidpointNearestEven PRICE_SIG_FIGS px of Some v \<Rightarrow> v | None \<Rightarrow> px)
      in round_dp_with D MidpointNearestEven (max_price_decimals a) sf)"

definition round_size :: "declib \<Rightarrow> asset \<Rightarrow> decimal \<Rightarrow> decimal" where
  "round_size D a sz = round_dp_with D MidpointNearestEven (ai_sz_decimals (as_info a)) sz"

definition slippage_price :: "declib \<Rightarrow> asset \<Rightarrow> decimal \<Rightarrow> bool \<Rightarrow> decimal \<Rightarrow> decimal option" where
  "slippage_price D a mid is_buy slippage =
     Option.bind (if is_buy then checked_add D 1 slippage else checked_sub D 1 slippage) (\<lambda>factor.
     Option.bind (checked_mul D mid factor) (\<lambda>raw.
     Some (round_price D a raw)))"

definition slippage_price_bounded :: "declib \<Rightarrow> asset \<Rightarrow> decimal \<Rightarrow> bool \<Rightarrow> decimal \<Rightarrow> decimal option" where
  "slippage_price_bounded D a mid is_buy slippage =
     (let toward_mid = (if is_buy then ToNegativeInfinity else ToPositiveInfinity) in
      Option.bind (if is_buy then checked_add D 1 slippage else checked_sub D 1 slippage) (\<lambda>factor.
      Option.bind (checked_mul D mid factor) (\<lambda>raw.
        let sf = (case round_sf_with D toward_mid PRICE_SIG_FIGS raw of Some v \<Rightarrow> v | None \<Rightarrow> raw)
        in Some (round_dp_with D toward_mid (max_price_decimals a) sf))))"

definition significant_figures :: "declib \<Rightarrow> decimal \<Rightarrow> nat" where
  "significant_figures D x =
     length (dropWhile (\<lambda>c. c = CHR ''0'') (nat_digits (nat \<bar>norm_mantissa D x\<bar>)))"

definition validate_price :: "declib \<Rightarrow> asset \<Rightarrow> decimal \<Rightarrow> validation_error + unit" where
  "validate_price D a px =
     (if px \<le> 0 then Inl (VeNonPositivePrice px)
      else if norm_scale D px = 0 then Inr ()
      else if norm_scale D px > max_price_decimals a then Inl (VePriceDecimals px (max_price_decimals a))
      else if significant_figures D px > PRICE_SIG_FIGS then Inl (VePriceSigFigs px)
      else Inr ())"

definition validate_size :: "declib \<Rightarrow> asset \<Rightarrow> decimal \<Rightarrow> validation_error + unit" where
  "validate_size D a sz =
     (if sz \<le> 0 then Inl (VeNonPositiveSize sz)
      else if norm_scale D sz > ai_sz_decimals (as_info a)
        then Inl (VeSizeDecimals sz (ai_sz_decimals (as_info a)))
      else Inr ())"

definition validate_order :: "declib \<Rightarrow> asset \<Rightarrow> decimal \<Rightarrow> decimal \<Rightarrow> (validation_error + unit) option" where
  "validate_order D a px sz =
     (if ai_is_delisted (as_info a) then Some (Inl (VeDelisted (ai_name (as_info a))))
      else (case rbind (validate_price D a px) (\<lambda>_. validate_size D a sz) of
              Inl e \<Rightarrow> Some (Inl e)
            | Inr _ \<Rightarrow>
                Option.bind (checked_mul D px sz) (\<lambda>notional.
                  Some (if notional < MIN_NOTIONAL_USD then Inl (VeMinNotional notional) else Inr ()))))"

section \<open>The universe\<close>

type_synonym universe = "string \<rightharpoonup> asset"

text \<open>The loop of \<open>collect\<close>: entries are inserted in order, the position being the asset id.\<close>

fun universe_insert :: "nat \<Rightarrow> asset_info list \<Rightarrow> universe \<Rightarrow> universe" where
  "universe_insert i [] u = u"
| "universe_insert i (info # infos) u =
     universe_insert (Suc i) infos
       (u(ai_name info \<mapsto> \<lparr>as_index = i mod 2 ^ 32, as_info = info\<rparr>))"

definition universe_from_meta :: "asset_info list \<Rightarrow> validation_error + universe" where
  "universe_from_meta metas =
     (case find (\<lambda>info. CHR '':'' \<in> set (ai_name info)) metas of
        Some prefixed \<Rightarrow> Inl (VeBuilderDeployedDex (ai_name prefixed))
      | None \<Rightarrow> Inr (universe_insert 0 metas Map.empty))"

definition universe_get :: "universe \<Rightarrow> string \<Rightarrow> validation_error + asset" where
  "universe_get u coin = ok_or (VeUnknownAsset coin) (u coin)"

section \<open>Orders\<close>

datatype order_kind =
    OkLimit (ok_tif: tif)
  | OkTrigger bool decimal tpsl

record order_spec =
  os_is_buy :: bool
  os_px :: decimal
  os_sz :: decimal
  os_kind :: order_kind
  os_reduce_only :: bool
  os_cloid :: "cloid option"

datatype order_error =
    OeValidation validation_error
  | OeWire wire_error

definition is_full_close :: "declib \<Rightarrow> order_spec \<Rightarrow> decimal \<Rightarrow> decimal \<Rightarrow> bool" where
  "is_full_close D spec sz position =
     (os_reduce_only spec \<and> os_kind spec = OkLimit Ioc \<and> position \<noteq> 0
      \<and> os_is_buy spec = is_sign_negative position \<and> sz = \<bar>position\<bar>)"

text \<open>The \<open>match\<close> that drops a minimum-notional refusal of a full close.\<close>

definition allow_full_close :: "bool \<Rightarrow> validation_error + unit \<Rightarrow> order_error + unit" where
  "allow_full_close full_close r =
     (case r of
        Inl (VeMinNotional n) \<Rightarrow> if full_close then Inr () else Inl (OeValidation (VeMinNotional n))
      | Inl e \<Rightarrow> Inl (OeValidation e)
      | Inr _ \<Rightarrow> Inr ())"

definition to_wire_kind :: "declib \<Rightarrow> asset \<Rightarrow> order_kind \<Rightarrow> order_error + order_type" where
  "to_wire_kind D a kind =
     (case kind of
        OkLimit tif \<Rightarrow> Inr (OtLimit tif)
      | OkTrigger is_market trigger_px tpsl \<Rightarrow>
          (let trigger_px = round_price D a trigger_px in
           rbind (map_err OeValidation (validate_price D a trigger_px)) (\<lambda>_.
           rbind (map_err OeWire (wire_float_from_decimal D trigger_px)) (\<lambda>w.
           Inr (OtTrigger is_market w tpsl)))))"

definition to_wire_for_position ::
  "declib \<Rightarrow> order_spec \<Rightarrow> asset \<Rightarrow> decimal \<Rightarrow> (order_error + order_wire) option" where
  "to_wire_for_position D spec a position =
     (let px = round_price D a (os_px spec); sz = round_size D a (os_sz spec);
          full_close = is_full_close D spec sz position
      in Option.bind (validate_order D a px sz) (\<lambda>valid.
         Some (rbind (allow_full_close full_close valid) (\<lambda>_.
               rbind (to_wire_kind D a (os_kind spec)) (\<lambda>t.
               rbind (map_err OeWire (wire_float_from_decimal D px)) (\<lambda>p.
               rbind (map_err OeWire (wire_float_from_decimal D sz)) (\<lambda>s.
               Inr \<lparr>ow_a = as_index a, ow_b = os_is_buy spec, ow_p = p, ow_s = s,
                    ow_r = os_reduce_only spec, ow_t = t, ow_c = os_cloid spec\<rparr>)))))))"

definition to_wire :: "declib \<Rightarrow> order_spec \<Rightarrow> asset \<Rightarrow> (order_error + order_wire) option" where
  "to_wire D spec a = to_wire_for_position D spec a 0"

section \<open>Lemmas\<close>

lemma allow_full_close_ok:
  "allow_full_close fc r = Inr () \<longleftrightarrow> r = Inr () \<or> (fc \<and> (\<exists>n. r = Inl (VeMinNotional n)))"
  by (auto simp: allow_full_close_def split: sum.splits validation_error.splits if_splits)

text \<open>The price rules of the venue, as a predicate on the price that is signed.\<close>

definition price_rules :: "declib \<Rightarrow> asset \<Rightarrow> decimal \<Rightarrow> bool" where
  "price_rules D a px =
     (0 < px \<and> (norm_scale D px = 0
        \<or> norm_scale D px \<le> max_price_decimals a \<and> significant_figures D px \<le> PRICE_SIG_FIGS))"

definition size_rules :: "declib \<Rightarrow> asset \<Rightarrow> decimal \<Rightarrow> bool" where
  "size_rules D a sz = (0 < sz \<and> norm_scale D sz \<le> ai_sz_decimals (as_info a))"

lemma validate_price_ok: "validate_price D a px = Inr () \<longleftrightarrow> price_rules D a px"
  by (auto simp: validate_price_def price_rules_def)

lemma validate_size_ok: "validate_size D a sz = Inr () \<longleftrightarrow> size_rules D a sz"
  by (auto simp: validate_size_def size_rules_def)

lemma validate_order_ok:
  "validate_order D a px sz = Some (Inr ()) \<longleftrightarrow>
     \<not> ai_is_delisted (as_info a) \<and> price_rules D a px \<and> size_rules D a sz
     \<and> (\<exists>n. checked_mul D px sz = Some n \<and> MIN_NOTIONAL_USD \<le> n)"
  by (cases "validate_price D a px"; cases "validate_size D a sz")
     (auto simp: validate_order_def validate_price_ok [symmetric] validate_size_ok [symmetric] not_less
      split: bind_splits)

lemma validate_order_min_notional:
  "validate_order D a px sz = Some (Inl (VeMinNotional n)) \<Longrightarrow>
     \<not> ai_is_delisted (as_info a) \<and> price_rules D a px \<and> size_rules D a sz"
  by (auto simp: validate_order_def result_inv validate_price_ok [symmetric] validate_size_ok [symmetric]
      validate_price_def validate_size_def rbind_def split: sum.splits bind_splits if_splits)

lemma to_wire_for_position_Inr:
  assumes "to_wire_for_position D spec a position = Some (Inr w)"
  obtains valid t p s where
    "validate_order D a (round_price D a (os_px spec)) (round_size D a (os_sz spec)) = Some valid"
    "allow_full_close (is_full_close D spec (round_size D a (os_sz spec)) position) valid = Inr ()"
    "to_wire_kind D a (os_kind spec) = Inr t"
    "wire_float_from_decimal D (round_price D a (os_px spec)) = Inr p"
    "wire_float_from_decimal D (round_size D a (os_sz spec)) = Inr s"
    "w = \<lparr>ow_a = as_index a, ow_b = os_is_buy spec, ow_p = p, ow_s = s,
          ow_r = os_reduce_only spec, ow_t = t, ow_c = os_cloid spec\<rparr>"
  using assms
  by (auto simp: to_wire_for_position_def Let_def result_inv split: bind_splits)

lemma universe_insert_other:
  "c \<notin> set (map ai_name infos) \<Longrightarrow> universe_insert i infos u c = u c"
  by (induction infos arbitrary: i u) auto

lemma universe_insert_nth:
  "distinct (map ai_name infos) \<Longrightarrow> j < length infos \<Longrightarrow>
     universe_insert i infos u (ai_name (infos ! j))
       = Some \<lparr>as_index = (i + j) mod 2 ^ 32, as_info = infos ! j\<rparr>"
proof (induction infos arbitrary: i u j)
  case Nil
  then show ?case by simp
next
  case (Cons info infos)
  show ?case
  proof (cases j)
    case 0
    with Cons.prems show ?thesis by (simp add: universe_insert_other)
  next
    case (Suc k)
    with Cons.prems show ?thesis by (simp add: Cons.IH)
  qed
qed

section \<open>Properties\<close>


definition sample_asset :: asset where
  "sample_asset =
     \<lparr>as_index = 3,
      as_info = \<lparr>ai_name = ''BTC'', ai_sz_decimals = 2, ai_max_leverage = 40, ai_margin_table_id = 0,
                 ai_is_delisted = False, ai_only_isolated = False\<rparr>\<rparr>"

definition sample_spec :: order_spec where
  "sample_spec =
     \<lparr>os_is_buy = True, os_px = 10003 / 100, os_sz = 1 / 4, os_kind = OkLimit Gtc,
      os_reduce_only = False, os_cloid = None\<rparr>"


text \<open>
  The asset id of an order is the asset's position in the venue's universe. A universe built
  from a response with no builder-deployed asset and no repeated name maps every coin to its
  position and its own data; a response with a prefixed name is refused with that name.
\<close>

theorem universe_ids_are_positions:
  assumes "distinct (map ai_name metas)" and "length metas \<le> 2 ^ 32"
  shows "(case universe_from_meta metas of
            Inr u \<Rightarrow> (\<forall>j < length metas. universe_get u (ai_name (metas ! j))
                        = Inr \<lparr>as_index = j, as_info = metas ! j\<rparr>)
                    \<and> (\<forall>c. c \<notin> set (map ai_name metas) \<longrightarrow> universe_get u c = Inl (VeUnknownAsset c))
          | Inl e \<Rightarrow> (\<exists>info \<in> set metas. CHR '':'' \<in> set (ai_name info)
                        \<and> e = VeBuilderDeployedDex (ai_name info)))"
proof (cases "find (\<lambda>info. CHR '':'' \<in> set (ai_name info)) metas")
  case None
  moreover have "j < length metas \<Longrightarrow>
      universe_insert 0 metas Map.empty (ai_name (metas ! j)) = Some \<lparr>as_index = j, as_info = metas ! j\<rparr>" for j
    using universe_insert_nth [OF assms(1), of j 0 Map.empty] assms(2) by simp
  ultimately show ?thesis
    by (auto simp: universe_from_meta_def universe_get_def universe_insert_other)
next
  case (Some info)
  then have "info \<in> set metas" "CHR '':'' \<in> set (ai_name info)"
    by (auto simp: find_Some_iff)
  with Some show ?thesis by (auto simp: universe_from_meta_def)
qed

theorem universe_ids_are_positions_witness:
  "rbind (universe_from_meta [(as_info sample_asset)\<lparr>ai_name := ''SOL''\<rparr>, as_info sample_asset])
     (\<lambda>u. universe_get u ''BTC'') = Inr (sample_asset\<lparr>as_index := 1\<rparr>)"
proof -
  let ?m = "[(as_info sample_asset)\<lparr>ai_name := ''SOL''\<rparr>, as_info sample_asset]"
  have ok: "universe_from_meta ?m = Inr (universe_insert 0 ?m Map.empty)"
    by (simp add: universe_from_meta_def sample_asset_def)
  have d: "distinct (map ai_name ?m)" "length ?m \<le> 2 ^ 32"
    by (simp_all add: sample_asset_def)
  have "\<forall>j < length ?m. universe_get (universe_insert 0 ?m Map.empty) (ai_name (?m ! j))
      = Inr \<lparr>as_index = j, as_info = ?m ! j\<rparr>"
    using universe_ids_are_positions [OF d] unfolding ok sum.case by blast
  then have "1 < length ?m \<longrightarrow> universe_get (universe_insert 0 ?m Map.empty) (ai_name (?m ! 1))
      = Inr \<lparr>as_index = 1, as_info = ?m ! 1\<rparr>"
    by (rule spec)
  then show ?thesis unfolding ok by (simp add: sample_asset_def)
qed

text \<open>
  A bounded slippage price never costs more than the slippage asked for. For a decimal library
  whose directed rounding goes the documented way, a buy priced by \<open>slippage_price_bounded\<close> is at
  most, and a sell at least, \<open>mid * (1 \<plusminus> slippage)\<close> as the library computes it.
\<close>

theorem bounded_slippage_price_is_bounded:
  assumes down: "\<And>n x. round_dp_with D ToNegativeInfinity n x \<le> x"
      "\<And>n x y. round_sf_with D ToNegativeInfinity n x = Some y \<Longrightarrow> y \<le> x"
    and up: "\<And>n x. x \<le> round_dp_with D ToPositiveInfinity n x"
      "\<And>n x y. round_sf_with D ToPositiveInfinity n x = Some y \<Longrightarrow> x \<le> y"
    and price: "slippage_price_bounded D a mid is_buy slippage = Some px"
  shows "\<exists>factor raw. (if is_buy then checked_add D 1 slippage else checked_sub D 1 slippage) = Some factor
           \<and> checked_mul D mid factor = Some raw \<and> (if is_buy then px \<le> raw else raw \<le> px)"
proof -
  from price obtain factor raw where f:
      "(if is_buy then checked_add D 1 slippage else checked_sub D 1 slippage) = Some factor"
      "checked_mul D mid factor = Some raw"
    and px: "px = round_dp_with D (if is_buy then ToNegativeInfinity else ToPositiveInfinity) (max_price_decimals a)
       (case round_sf_with D (if is_buy then ToNegativeInfinity else ToPositiveInfinity) PRICE_SIG_FIGS raw of
          Some v \<Rightarrow> v | None \<Rightarrow> raw)"
    by (auto simp: slippage_price_bounded_def Let_def split: bind_splits)
  have "if is_buy then px \<le> raw else raw \<le> px"
    using down(2) up(2) order_trans [OF down(1)] order_trans [OF _ up(1)]
    by (auto simp: px split: option.split)
  with f show ?thesis by blast
qed

lemma exact_round_directed:
  "exact_round_dp ToNegativeInfinity n x \<le> x" "x \<le> exact_round_dp ToPositiveInfinity n x"
  by (simp_all add: exact_round_dp_def round_int_def pos_divide_le_eq pos_le_divide_eq)

lemma exact_scale_mantissa_le: "of_int (exact_mantissa x) / 10 ^ exact_scale x \<le> x"
  by (simp add: exact_mantissa_def pos_divide_le_eq)

text \<open>
  A decimal library in which significant-figure rounding is unavailable, so that only the directed
  rounding to decimal places acts.
\<close>

definition dp_only_declib :: declib where
  "dp_only_declib = exact_declib\<lparr>round_sf_with := (\<lambda>_ _ _. None)\<rparr>"

theorem bounded_slippage_price_is_bounded_witness:
  "slippage_price_bounded dp_only_declib sample_asset 100 True (1 / 1000) = Some (1001 / 10)
   \<and> (1001 / 10 :: decimal) \<le> 1001 / 10"
proof -
  have lib: "round_dp_with dp_only_declib = exact_round_dp" "round_sf_with dp_only_declib s n x = None" for s n x
    by (simp_all add: dp_only_declib_def exact_declib_def)
  have px: "slippage_price_bounded dp_only_declib sample_asset 100 True (1 / 1000) = Some (1001 / 10)"
    by code_simp
  from bounded_slippage_price_is_bounded [of dp_only_declib, OF _ _ _ _ px]
  show ?thesis using px by (simp add: lib exact_round_directed)
qed

end
