(* ===== verification/Bucket.thy ===== *)
theory Bucket
  imports Config
begin

text \<open>
  \<open>guardrail/bucket.rs\<close>: the order-rate token bucket, in millionths of a token, with the
  exact remainder of each refill carried as a numerator. The theory shows that the \<open>u128\<close>
  arithmetic never saturates or wraps, that a bucket never admits more than its rate over
  any sequence of calls, and that the wait a refusal names is long enough.
\<close>

section \<open>The bucket\<close>

definition MICRO :: nat where "MICRO = 1000000"

datatype bucket_error =
    BucketEmpty (tokens_available_micro: nat) (be_retry_after_ms: nat)
  | BucketClockWentBackwards (be_last_ms: nat)
  | BucketInvalidRate

record token_bucket =
  tb_rate :: order_rate
  tb_capacity_micro :: nat
  tb_tokens_micro :: nat
  tb_last_ms :: nat
  tb_carry :: nat

definition bucket_new :: "order_rate \<Rightarrow> nat \<Rightarrow> token_bucket" where
  "bucket_new rate now_ms =
     (let capacity_micro = sat_mul64 (or_count rate) MICRO in
      \<lparr>tb_rate = rate, tb_capacity_micro = capacity_micro, tb_tokens_micro = capacity_micro,
       tb_last_ms = now_ms, tb_carry = 0\<rparr>)"

text \<open>
  \<open>TokenBucket::tokens\<close>: a quotient of a \<open>u64\<close> by \<open>10\<^sup>6\<close> has at most 20 digits, so the
  decimal division is exact.
\<close>

definition bucket_tokens :: "token_bucket \<Rightarrow> decimal" where
  "bucket_tokens b = of_nat (tb_tokens_micro b) / of_nat MICRO"

definition bucket_refill :: "token_bucket \<Rightarrow> nat \<Rightarrow> (bucket_error + unit) \<times> token_bucket" where
  "bucket_refill b now_ms =
     (if or_per_ms (tb_rate b) = 0 then (Inl BucketInvalidRate, b)
      else if now_ms < tb_last_ms b then (Inl (BucketClockWentBackwards (tb_last_ms b)), b)
      else
        let elapsed = now_ms - tb_last_ms b;
            numerator = wrap_add128 (sat_mul128 elapsed (tb_capacity_micro b)) (tb_carry b);
            per = or_per_ms (tb_rate b);
            gain = numerator div per;
            b1 = b\<lparr>tb_carry := (case try_u64 (numerator mod per) of Some c \<Rightarrow> c | None \<Rightarrow> 0),
                   tb_last_ms := now_ms\<rparr>
        in if gain > 0 then
             let gained = (case try_u64 gain of Some g \<Rightarrow> g | None \<Rightarrow> U64_MAX);
                 tokens = sat_add64 (tb_tokens_micro b1) gained
             in if tokens \<ge> tb_capacity_micro b1
                then (Inr (), b1\<lparr>tb_tokens_micro := tb_capacity_micro b1, tb_carry := 0\<rparr>)
                else (Inr (), b1\<lparr>tb_tokens_micro := tokens\<rparr>)
           else (Inr (), b1))"

definition bucket_retry_after_ms :: "token_bucket \<Rightarrow> nat" where
  "bucket_retry_after_ms b =
     (if tb_capacity_micro b = 0 then U64_MAX
      else let missing = MICRO - tb_tokens_micro b;
               ms = div_ceil (sat_mul128 missing (or_per_ms (tb_rate b))) (tb_capacity_micro b)
           in (case try_u64 ms of Some v \<Rightarrow> v | None \<Rightarrow> U64_MAX))"

definition bucket_peek :: "token_bucket \<Rightarrow> bucket_error + unit" where
  "bucket_peek b =
     (if tb_tokens_micro b < MICRO
      then Inl (BucketEmpty (tb_tokens_micro b) (bucket_retry_after_ms b))
      else Inr ())"

definition bucket_try_take :: "token_bucket \<Rightarrow> nat \<Rightarrow> (bucket_error + unit) \<times> token_bucket" where
  "bucket_try_take b now_ms =
     (case bucket_refill b now_ms of
        (Inl e, b1) \<Rightarrow> (Inl e, b1)
      | (Inr _, b1) \<Rightarrow>
          (case bucket_peek b1 of
             Inl e \<Rightarrow> (Inl e, b1)
           | Inr _ \<Rightarrow> (Inr (), b1\<lparr>tb_tokens_micro := tb_tokens_micro b1 - MICRO\<rparr>)))"

lemmas bucket_eval =
  bucket_new_def bucket_refill_def bucket_retry_after_ms_def bucket_peek_def bucket_try_take_def
  MICRO_def Let_def width_vals wrap_add128_def sat_mul128_def sat_mul64_def sat_add64_def sat_u64_def
  try_u64_def div_ceil_def

section \<open>Invariant and exact arithmetic\<close>

definition rate_ok :: "order_rate \<Rightarrow> bool" where
  "rate_ok r = (or_count r \<le> U32_MAX \<and> or_per_ms r \<le> U64_MAX)"

text \<open>What a \<open>TokenBucket\<close> always satisfies: field widths, and the remainder below the divisor.\<close>

definition bucket_inv :: "token_bucket \<Rightarrow> bool" where
  "bucket_inv b =
     (rate_ok (tb_rate b)
      \<and> tb_capacity_micro b = or_count (tb_rate b) * MICRO
      \<and> tb_tokens_micro b \<le> tb_capacity_micro b
      \<and> tb_last_ms b \<le> U64_MAX
      \<and> (tb_carry b = 0 \<or> tb_carry b < or_per_ms (tb_rate b)))"

lemma capacity_fits: "or_count r \<le> U32_MAX \<Longrightarrow> or_count r * MICRO \<le> 4294967295000000"
  unfolding U32_MAX_val MICRO_def by simp

lemma bucket_new_inv: "rate_ok r \<Longrightarrow> now_ms \<le> U64_MAX \<Longrightarrow> bucket_inv (bucket_new r now_ms)"
  using capacity_fits [of r]
  by (auto simp: bucket_new_def bucket_inv_def Let_def sat_mul64_def sat_u64_def rate_ok_def U64_MAX_val)

lemma numerator_exact:
  assumes inv: "bucket_inv b" and now: "now_ms \<le> U64_MAX"
  shows "wrap_add128 (sat_mul128 (now_ms - tb_last_ms b) (tb_capacity_micro b)) (tb_carry b)
           = (now_ms - tb_last_ms b) * tb_capacity_micro b + tb_carry b"
proof -
  let ?e = "now_ms - tb_last_ms b"
  have e: "?e \<le> 18446744073709551615" using now by (simp add: U64_MAX_val)
  have c: "tb_capacity_micro b \<le> 4294967295000000"
    using inv capacity_fits [of "tb_rate b"] by (simp add: bucket_inv_def rate_ok_def)
  have carry: "tb_carry b \<le> 18446744073709551615"
    using inv by (auto simp: bucket_inv_def rate_ok_def U64_MAX_val)
  have "?e * tb_capacity_micro b \<le> 18446744073709551615 * 4294967295000000"
    by (rule mult_le_mono [OF e c])
  with carry show ?thesis
    by (simp add: wrap_add128_def sat_mul128_def U128_MAX_val min_def)
qed

lemma try_u64_default: "(case try_u64 n of Some v \<Rightarrow> v | None \<Rightarrow> U64_MAX) = sat_u64 n"
  by (simp add: try_u64_def sat_u64_def min_def)

text \<open>
  A refill in plain arithmetic: no saturation, no wrap-around, and the tokens gained are the
  whole part of the accrued numerator, capped at the capacity.
\<close>

lemma refill_exact:
  assumes inv: "bucket_inv b" and per: "or_per_ms (tb_rate b) \<noteq> 0"
    and mono: "tb_last_ms b \<le> now_ms" and now: "now_ms \<le> U64_MAX"
  defines "N \<equiv> (now_ms - tb_last_ms b) * tb_capacity_micro b + tb_carry b"
  defines "g \<equiv> N div or_per_ms (tb_rate b)"
  defines "full \<equiv> 0 < g \<and> tb_capacity_micro b \<le> tb_tokens_micro b + g"
  shows "bucket_refill b now_ms =
     (Inr (), b\<lparr>tb_tokens_micro := min (tb_capacity_micro b) (tb_tokens_micro b + g),
                tb_carry := (if full then 0 else N mod or_per_ms (tb_rate b)),
                tb_last_ms := now_ms\<rparr>)"
proof -
  have N: "wrap_add128 (sat_mul128 (now_ms - tb_last_ms b) (tb_capacity_micro b)) (tb_carry b) = N"
    unfolding N_def by (rule numerator_exact [OF inv now])
  have per_le: "or_per_ms (tb_rate b) \<le> U64_MAX"
    using inv by (simp add: bucket_inv_def rate_ok_def)
  have "N mod or_per_ms (tb_rate b) < or_per_ms (tb_rate b)" using per by simp
  with per_le have rem: "try_u64 (N mod or_per_ms (tb_rate b)) = Some (N mod or_per_ms (tb_rate b))"
    by (simp add: try_u64_def)
  have cap: "tb_capacity_micro b \<le> U64_MAX"
    using inv capacity_fits [of "tb_rate b"] by (auto simp: bucket_inv_def rate_ok_def U64_MAX_val)
  have tok: "tb_tokens_micro b \<le> tb_capacity_micro b" using inv by (simp add: bucket_inv_def)
  have sat_full: "tb_capacity_micro b \<le> sat_add64 (tb_tokens_micro b) (sat_u64 g)
                    \<longleftrightarrow> tb_capacity_micro b \<le> tb_tokens_micro b + g"
    using cap tok unfolding sat_add64_def sat_u64_def by auto
  have sat_room: "\<not> tb_capacity_micro b \<le> tb_tokens_micro b + g \<Longrightarrow>
      sat_add64 (tb_tokens_micro b) (sat_u64 g) = tb_tokens_micro b + g"
    using cap unfolding sat_add64_def sat_u64_def by auto
  show ?thesis
    using per mono tok
    by (auto simp: bucket_refill_def Let_def N rem try_u64_default g_def [symmetric] full_def
        sat_full sat_room min_def)
qed

lemma refill_error_same: "fst (bucket_refill b now_ms) = Inl e \<Longrightarrow> snd (bucket_refill b now_ms) = b"
  by (auto simp: bucket_refill_def Let_def split: if_splits)

lemma refill_cases:
  assumes inv: "bucket_inv b" and now: "now_ms \<le> U64_MAX"
  obtains (err) e where "bucket_refill b now_ms = (Inl e, b)"
    "or_per_ms (tb_rate b) = 0 \<or> now_ms < tb_last_ms b"
  | (ok) "or_per_ms (tb_rate b) \<noteq> 0" "tb_last_ms b \<le> now_ms"
    "fst (bucket_refill b now_ms) = Inr ()"
proof (cases "or_per_ms (tb_rate b) = 0 \<or> now_ms < tb_last_ms b")
  case True
  then have "\<exists>e. bucket_refill b now_ms = (Inl e, b)" by (auto simp: bucket_refill_def)
  with True show thesis using err by blast
next
  case False
  then show thesis using ok refill_exact [OF inv _ _ now] by auto
qed

lemma refill_rate: "tb_rate (snd (bucket_refill b now_ms)) = tb_rate b"
  by (auto simp: bucket_refill_def Let_def)

lemma refill_capacity: "tb_capacity_micro (snd (bucket_refill b now_ms)) = tb_capacity_micro b"
  by (auto simp: bucket_refill_def Let_def)

lemma refill_last:
  "fst (bucket_refill b now_ms) = Inr () \<Longrightarrow> tb_last_ms (snd (bucket_refill b now_ms)) = now_ms"
  by (auto simp: bucket_refill_def Let_def split: if_splits)

lemma bucket_refill_inv:
  assumes inv: "bucket_inv b" and now: "now_ms \<le> U64_MAX"
  shows "bucket_inv (snd (bucket_refill b now_ms))"
  using inv now
proof (cases rule: refill_cases)
  case (err e)
  with inv show ?thesis by simp
next
  case ok
  then have "0 < or_per_ms (tb_rate b)" by simp
  with inv now show ?thesis
    by (auto simp: refill_exact [OF inv ok(1,2) now] bucket_inv_def)
qed

lemma bucket_try_take_inv:
  assumes "bucket_inv b" and "now_ms \<le> U64_MAX"
  shows "bucket_inv (snd (bucket_try_take b now_ms))"
  using bucket_refill_inv [OF assms]
  by (auto simp: bucket_try_take_def bucket_inv_def split: prod.splits sum.splits)

section \<open>Metering\<close>

text \<open>
  The contract of a meter that accrues credit with time and charges a fixed cost for each
  admission: credit plus cost never exceeds what was there before plus what the elapsed time
  accrues. A run of requests then admits no more than the rate allows, however the requests
  are spaced.
\<close>

locale rate_meter =
  fixes take_one :: "'b \<Rightarrow> nat \<Rightarrow> bool \<times> 'b"
    and credit :: "'b \<Rightarrow> nat"
    and clock :: "'b \<Rightarrow> nat"
    and cost :: "'b \<Rightarrow> nat"
    and accrual :: "'b \<Rightarrow> nat"
    and inv :: "'b \<Rightarrow> bool"
    and horizon :: nat
  assumes inv_step: "inv b \<Longrightarrow> now \<le> horizon \<Longrightarrow> inv (snd (take_one b now))"
    and same_cost: "cost (snd (take_one b now)) = cost b"
    and same_accrual: "accrual (snd (take_one b now)) = accrual b"
    and clock_step: "inv b \<Longrightarrow> now \<le> horizon \<Longrightarrow>
      clock b \<le> clock (snd (take_one b now)) \<and> clock (snd (take_one b now)) \<le> max (clock b) now"
    and charge: "inv b \<Longrightarrow> now \<le> horizon \<Longrightarrow>
      credit (snd (take_one b now)) + (if fst (take_one b now) then cost b else 0)
        \<le> credit b + (clock (snd (take_one b now)) - clock b) * accrual b"
begin

fun admitted :: "'b \<Rightarrow> nat list \<Rightarrow> nat" where
  "admitted b [] = 0"
| "admitted b (t # ts) =
     (if fst (take_one b t) then 1 else 0) + admitted (snd (take_one b t)) ts"

fun after :: "'b \<Rightarrow> nat list \<Rightarrow> 'b" where
  "after b [] = b"
| "after b (t # ts) = after (snd (take_one b t)) ts"

lemma run_bound:
  assumes "inv b" and "\<forall>t \<in> set ts. t \<le> T" and "clock b \<le> T" and "T \<le> horizon"
  shows "admitted b ts * cost b + credit (after b ts) + (T - clock (after b ts)) * accrual b
           \<le> credit b + (T - clock b) * accrual b \<and> clock (after b ts) \<le> T"
  using assms
proof (induction ts arbitrary: b)
  case Nil
  then show ?case by simp
next
  case (Cons t ts)
  let ?b = "snd (take_one b t)"
  from Cons.prems have t: "t \<le> T" "t \<le> horizon" by auto
  have inv': "inv ?b" using Cons.prems(1) t(2) by (rule inv_step)
  note clk = clock_step [OF Cons.prems(1) t(2)]
  have clockT: "clock ?b \<le> T" using clk t(1) Cons.prems(3) by linarith
  note IH = Cons.IH [OF inv' _ clockT Cons.prems(4)]
  have split: "(T - clock b) * accrual b = (T - clock ?b) * accrual b + (clock ?b - clock b) * accrual b"
    using clk clockT by (simp add: distrib_right [symmetric])
  from IH Cons.prems(2) charge [OF Cons.prems(1) t(2)] show ?case
    by (simp add: same_cost same_accrual split distrib_right split: if_splits)
qed

lemma admitted_bound:
  assumes "inv b" and "\<forall>t \<in> set ts. t \<le> T" and "clock b \<le> T" and "T \<le> horizon"
  shows "admitted b ts * cost b \<le> credit b + (T - clock b) * accrual b"
  using run_bound [OF assms] by linarith

end

text \<open>The bucket's credit is its token count with the carried remainder, over the divisor.\<close>

definition bucket_credit :: "token_bucket \<Rightarrow> nat" where
  "bucket_credit b = tb_tokens_micro b * or_per_ms (tb_rate b) + tb_carry b"

definition bucket_admits :: "token_bucket \<Rightarrow> nat \<Rightarrow> bool \<times> token_bucket" where
  "bucket_admits b now_ms = (is_ok (fst (bucket_try_take b now_ms)), snd (bucket_try_take b now_ms))"

fun bucket_run :: "token_bucket \<Rightarrow> nat list \<Rightarrow> nat" where
  "bucket_run b [] = 0"
| "bucket_run b (t # ts) =
     (if is_ok (fst (bucket_try_take b t)) then 1 else 0)
       + bucket_run (snd (bucket_try_take b t)) ts"

lemma refill_credit:
  assumes inv: "bucket_inv b" and now: "now_ms \<le> U64_MAX"
  shows "bucket_credit (snd (bucket_refill b now_ms))
           \<le> bucket_credit b + (tb_last_ms (snd (bucket_refill b now_ms)) - tb_last_ms b) * tb_capacity_micro b"
  using inv now
proof (cases rule: refill_cases)
  case (err e)
  then show ?thesis by simp
next
  case ok
  let ?p = "or_per_ms (tb_rate b)"
  let ?N = "(now_ms - tb_last_ms b) * tb_capacity_micro b + tb_carry b"
  have "min (tb_capacity_micro b) (tb_tokens_micro b + ?N div ?p) * ?p + ?N mod ?p
          \<le> (tb_tokens_micro b + ?N div ?p) * ?p + ?N mod ?p"
    by simp
  also have "\<dots> = tb_tokens_micro b * ?p + ?N"
    by (simp add: distrib_right add.assoc)
  finally have "min (tb_capacity_micro b) (tb_tokens_micro b + ?N div ?p) * ?p + ?N mod ?p
          \<le> tb_tokens_micro b * ?p + ?N" .
  then show ?thesis
    by (auto simp: refill_exact [OF inv ok(1,2) now] bucket_credit_def min_def)
qed

lemma take_shape:
  "snd (bucket_try_take b now_ms) =
     (let b1 = snd (bucket_refill b now_ms) in
      if is_ok (fst (bucket_try_take b now_ms)) then b1\<lparr>tb_tokens_micro := tb_tokens_micro b1 - MICRO\<rparr>
      else b1)"
  by (auto simp: bucket_try_take_def Let_def split: prod.splits sum.splits)

lemma take_ok_iff:
  "is_ok (fst (bucket_try_take b now_ms)) \<longleftrightarrow>
     is_ok (fst (bucket_refill b now_ms)) \<and> MICRO \<le> tb_tokens_micro (snd (bucket_refill b now_ms))"
  by (auto simp: bucket_try_take_def bucket_peek_def split: prod.splits sum.splits)

lemma take_clock: "tb_last_ms (snd (bucket_try_take b now_ms)) = tb_last_ms (snd (bucket_refill b now_ms))"
  by (simp add: take_shape Let_def)

lemma take_credit:
  assumes "bucket_inv b" and "now_ms \<le> U64_MAX"
  shows "bucket_credit (snd (bucket_try_take b now_ms))
           + (if is_ok (fst (bucket_try_take b now_ms)) then MICRO * or_per_ms (tb_rate b) else 0)
         \<le> bucket_credit b
           + (tb_last_ms (snd (bucket_try_take b now_ms)) - tb_last_ms b) * tb_capacity_micro b"
proof -
  let ?b1 = "snd (bucket_refill b now_ms)"
  have rate: "tb_rate ?b1 = tb_rate b" by (rule refill_rate)
  have spend: "MICRO \<le> t \<Longrightarrow> (t - MICRO) * p + MICRO * p = t * p" for t p :: nat
    by (simp add: distrib_right [symmetric])
  have "bucket_credit (snd (bucket_try_take b now_ms))
           + (if is_ok (fst (bucket_try_take b now_ms)) then MICRO * or_per_ms (tb_rate b) else 0)
        = bucket_credit ?b1"
    using spend [of "tb_tokens_micro ?b1" "or_per_ms (tb_rate b)"]
    by (auto simp: take_shape [of b now_ms] Let_def bucket_credit_def rate take_ok_iff)
  with refill_credit [OF assms] show ?thesis by (simp add: take_clock)
qed

lemma take_clock_bounds:
  assumes "bucket_inv b" and "now_ms \<le> U64_MAX"
  shows "tb_last_ms b \<le> tb_last_ms (snd (bucket_try_take b now_ms))
         \<and> tb_last_ms (snd (bucket_try_take b now_ms)) \<le> max (tb_last_ms b) now_ms"
  using assms
  by (cases rule: refill_cases) (auto simp: take_clock refill_last)

interpretation bucket: rate_meter bucket_admits bucket_credit tb_last_ms
    "\<lambda>b. MICRO * or_per_ms (tb_rate b)" tb_capacity_micro bucket_inv U64_MAX
proof unfold_locales
  fix b and now :: nat
  show "MICRO * or_per_ms (tb_rate (snd (bucket_admits b now))) = MICRO * or_per_ms (tb_rate b)"
    by (simp add: bucket_admits_def take_shape Let_def refill_rate)
  show "tb_capacity_micro (snd (bucket_admits b now)) = tb_capacity_micro b"
    by (simp add: bucket_admits_def take_shape Let_def refill_capacity)
  assume b: "bucket_inv b" and now: "now \<le> U64_MAX"
  show "bucket_inv (snd (bucket_admits b now))"
    using bucket_try_take_inv [OF b now] by (simp add: bucket_admits_def)
  show "tb_last_ms b \<le> tb_last_ms (snd (bucket_admits b now))
        \<and> tb_last_ms (snd (bucket_admits b now)) \<le> max (tb_last_ms b) now"
    using take_clock_bounds [OF b now] by (simp add: bucket_admits_def)
  show "bucket_credit (snd (bucket_admits b now))
          + (if fst (bucket_admits b now) then MICRO * or_per_ms (tb_rate b) else 0)
        \<le> bucket_credit b + (tb_last_ms (snd (bucket_admits b now)) - tb_last_ms b) * tb_capacity_micro b"
    using take_credit [OF b now] by (simp add: bucket_admits_def)
qed

lemma bucket_run_admitted: "bucket_run b ts = bucket.admitted b ts"
  by (induction ts arbitrary: b) (simp_all add: bucket_admits_def)

section \<open>Properties\<close>

text \<open>
  C35: the order-rate cap holds over every call pattern. From a new bucket of \<open>count\<close> tokens per
  \<open>per_ms\<close>, any sequence of \<open>try_take\<close> calls (polling included, and calls whose clock moved
  backwards) up to time \<open>T\<close> is granted at most \<open>count + count * (T - t0) / per_ms\<close> tokens.
\<close>

theorem bucket_rate_cap:
  assumes "rate_ok r" and "t0 \<le> T" and "T \<le> U64_MAX" and "\<forall>t \<in> set ts. t \<le> T"
  shows "bucket_run (bucket_new r t0) ts * or_per_ms r \<le> or_count r * or_per_ms r + (T - t0) * or_count r"
proof -
  let ?b = "bucket_new r t0"
  have cap: "tb_capacity_micro ?b = or_count r * MICRO"
    using bucket_new_inv [of r t0] assms by (simp add: bucket_inv_def) (simp add: bucket_new_def Let_def)
  have fields: "tb_tokens_micro ?b = tb_capacity_micro ?b" "tb_rate ?b = r" "tb_last_ms ?b = t0" "tb_carry ?b = 0"
    by (simp_all add: bucket_new_def Let_def)
  have "bucket_run ?b ts * (MICRO * or_per_ms r)
          \<le> or_count r * MICRO * or_per_ms r + (T - t0) * (or_count r * MICRO)"
    using bucket.admitted_bound [of ?b ts T] bucket_new_inv [of r t0] assms
    by (simp add: bucket_run_admitted fields cap bucket_credit_def)
  then have "MICRO * (bucket_run ?b ts * or_per_ms r)
          \<le> MICRO * (or_count r * or_per_ms r + (T - t0) * or_count r)"
    by (simp add: algebra_simps)
  then show ?thesis by (simp add: MICRO_def)
qed

theorem bucket_rate_cap_witness:
  "bucket_run (bucket_new \<lparr>or_count = 2, or_per_ms = 300000\<rparr> 0) [0, 0, 0, 150000] * 300000
     \<le> 2 * 300000 + 150000 * 2
   \<and> bucket_run (bucket_new \<lparr>or_count = 2, or_per_ms = 300000\<rparr> 0) [0, 0, 0, 150000] = 3"
proof
  show "bucket_run (bucket_new \<lparr>or_count = 2, or_per_ms = 300000\<rparr> 0) [0, 0, 0, 150000] * 300000
     \<le> 2 * 300000 + 150000 * 2"
    using bucket_rate_cap [of "\<lparr>or_count = 2, or_per_ms = 300000\<rparr>" 0 150000 "[0, 0, 0, 150000]"]
    by (simp add: rate_ok_def width_vals)
  show "bucket_run (bucket_new \<lparr>or_count = 2, or_per_ms = 300000\<rparr> 0) [0, 0, 0, 150000] = 3"
    by (simp add: bucket_eval)
qed

text \<open>
  Accrual does not depend on how often it is asked. When a millisecond accrues at least one
  millionth of a token (as for every rate with \<open>per_ms \<le> count * 10\<^sup>6\<close>, the defaults included), a
  refill at \<open>t1\<close> followed by one at \<open>t2\<close> leaves exactly the bucket that one refill at \<open>t2\<close> leaves.
\<close>

theorem bucket_poll_independent:
  assumes inv: "bucket_inv b" and per: "or_per_ms (tb_rate b) \<noteq> 0"
    and fast: "or_per_ms (tb_rate b) \<le> tb_capacity_micro b"
    and t1: "tb_last_ms b \<le> t1" and t2: "t1 \<le> t2" "t2 \<le> U64_MAX"
  shows "bucket_refill (snd (bucket_refill b t1)) t2 = bucket_refill b t2"
proof -
  let ?p = "or_per_ms (tb_rate b)" and ?c = "tb_capacity_micro b" and ?k = "tb_tokens_micro b"
  let ?N1 = "(t1 - tb_last_ms b) * ?c + tb_carry b"
  let ?N = "(t2 - tb_last_ms b) * ?c + tb_carry b"
  define g1 where "g1 = ?N1 div ?p"
  define r1 where "r1 = ?N1 mod ?p"
  define full1 where "full1 = (0 < g1 \<and> ?c \<le> ?k + g1)"
  define r1' where "r1' = (if full1 then 0 else r1)"
  let ?b1 = "b\<lparr>tb_tokens_micro := min ?c (?k + g1), tb_carry := r1', tb_last_ms := t1\<rparr>"
  have le1: "t1 \<le> U64_MAX" using t2 by simp
  have b1: "bucket_refill b t1 = (Inr (), ?b1)"
    using refill_exact [OF inv per t1 le1] by (simp add: g1_def r1_def r1'_def full1_def)
  have inv1: "bucket_inv ?b1"
    using bucket_refill_inv [OF inv le1] by (simp add: b1)
  have tok: "?k \<le> ?c" using inv by (simp add: bucket_inv_def)
  have p0: "0 < ?p" using per by simp
  let ?N2 = "(t2 - t1) * ?c + r1'"
  have step2: "bucket_refill ?b1 t2 =
     (Inr (), b\<lparr>tb_tokens_micro := min ?c (min ?c (?k + g1) + ?N2 div ?p),
               tb_carry := (if 0 < ?N2 div ?p \<and> ?c \<le> min ?c (?k + g1) + ?N2 div ?p then 0 else ?N2 mod ?p),
               tb_last_ms := t2\<rparr>)"
    using refill_exact [OF inv1 _ _ t2(2)] per t2(1) by (simp cong: if_cong)
  have direct: "bucket_refill b t2 =
     (Inr (), b\<lparr>tb_tokens_micro := min ?c (?k + ?N div ?p),
               tb_carry := (if 0 < ?N div ?p \<and> ?c \<le> ?k + ?N div ?p then 0 else ?N mod ?p),
               tb_last_ms := t2\<rparr>)"
    using refill_exact [OF inv per _ t2(2)] t1 t2(1) by simp
  have "t2 - tb_last_ms b = (t2 - t1) + (t1 - tb_last_ms b)" using t1 t2 by simp
  then have "?N = (t2 - t1) * ?c + ?N1" by (simp add: distrib_right)
  also have "?N1 = g1 * ?p + r1" by (simp add: g1_def r1_def)
  finally have N: "?N = g1 * ?p + ((t2 - t1) * ?c + r1)" by simp
  show ?thesis
  proof (cases full1)
    case False
    then have r: "r1' = r1" by (simp add: r1'_def)
    have "(g1 * ?p + ((t2 - t1) * ?c + r1)) div ?p = g1 + ((t2 - t1) * ?c + r1) div ?p"
      using p0 by (simp add: div_mult_self3)
    moreover have "(g1 * ?p + ((t2 - t1) * ?c + r1)) mod ?p = ((t2 - t1) * ?c + r1) mod ?p"
      by (metis add.commute mod_mult_self1)
    moreover have "g1 = 0 \<or> ?k + g1 < ?c" using False by (auto simp: full1_def)
    ultimately show ?thesis
      unfolding b1 snd_conv step2 direct unfolding N r using tok by (auto simp: min_def)
  next
    case True
    then have r: "r1' = 0" and full: "?c \<le> ?k + g1" "0 < g1" by (simp_all add: r1'_def full1_def)
    have mono: "g1 \<le> ?N div ?p"
      unfolding N using p0 by (simp add: div_mult_self3)
    show ?thesis
    proof (cases "t2 = t1")
      case same: True
      then show ?thesis
        unfolding b1 snd_conv step2 direct using full by (simp add: r g1_def [symmetric])
    next
      case False
      then have "1 \<le> t2 - t1" using t2 by simp
      then have "?p \<le> (t2 - t1) * ?c" using fast by (metis le_trans mult_le_mono1 nat_mult_1)
      then have "0 < ?N2 div ?p" using p0 by (simp add: r div_greater_zero_iff)
      with full mono show ?thesis unfolding b1 snd_conv step2 direct by auto
    qed
  qed
qed

theorem bucket_poll_independent_witness:
  "bucket_refill (snd (bucket_refill
      \<lparr>tb_rate = \<lparr>or_count = 5, or_per_ms = 300000\<rparr>, tb_capacity_micro = 5000000,
       tb_tokens_micro = 0, tb_last_ms = 0, tb_carry = 0\<rparr> 29999)) 59999
   = bucket_refill
      \<lparr>tb_rate = \<lparr>or_count = 5, or_per_ms = 300000\<rparr>, tb_capacity_micro = 5000000,
       tb_tokens_micro = 0, tb_last_ms = 0, tb_carry = 0\<rparr> 59999"
  by (rule bucket_poll_independent) (simp_all add: bucket_inv_def rate_ok_def MICRO_def width_vals)

text \<open>
  The wait a refusal names is long enough: an agent that is refused with \<open>retry_after_ms\<close> and
  asks again after exactly that wait is granted a token, for every rate that grants any.
\<close>

theorem bucket_retry_sufficient:
  assumes inv: "bucket_inv b" and now: "now_ms \<le> U64_MAX" and some: "0 < or_count (tb_rate b)"
    and refused: "bucket_try_take b now_ms = (Inl (BucketEmpty avail wait), b')"
    and fits: "now_ms + wait \<le> U64_MAX"
  shows "fst (bucket_try_take b' (now_ms + wait)) = Inr ()"
proof -
  let ?c = "tb_capacity_micro b'" and ?p = "or_per_ms (tb_rate b')"
  have b': "b' = snd (bucket_refill b now_ms)" "fst (bucket_refill b now_ms) = Inr ()"
      "bucket_peek b' = Inl (BucketEmpty avail wait)"
    using refused
    by (auto simp: bucket_try_take_def split: prod.splits sum.splits)
       (auto simp: bucket_refill_def Let_def split: if_splits)
  have inv': "bucket_inv b'" using bucket_refill_inv [OF inv now] b'(1) by simp
  have per: "?p \<noteq> 0"
  proof
    assume "?p = 0"
    then have "or_per_ms (tb_rate b) = 0" by (simp add: b'(1) refill_rate)
    with b'(2) show False by (simp add: bucket_refill_def)
  qed
  have last: "tb_last_ms b' = now_ms" using refill_last b'(1,2) by simp
  have short: "tb_tokens_micro b' < MICRO" and wait: "wait = bucket_retry_after_ms b'"
    using b'(3) by (auto simp: bucket_peek_def split: if_splits)
  have capv: "?c = or_count (tb_rate b') * MICRO" using inv' by (simp add: bucket_inv_def)
  have "1 \<le> or_count (tb_rate b')" using some by (simp add: b'(1) refill_rate)
  then have cap: "MICRO \<le> ?c" unfolding capv by (metis mult_le_mono1 nat_mult_1)
  define missing where "missing = MICRO - tb_tokens_micro b'"
  have miss: "missing \<le> MICRO" "MICRO = tb_tokens_micro b' + missing"
    using short by (simp_all add: missing_def)
  have p64: "?p \<le> U64_MAX" using inv' by (simp add: bucket_inv_def rate_ok_def)
  have "missing * ?p \<le> MICRO * U64_MAX" by (rule mult_le_mono [OF miss(1) p64])
  then have exact: "sat_mul128 missing ?p = missing * ?p"
    by (simp add: sat_mul128_def MICRO_def width_vals)
  have c0: "0 < ?c" using cap by (simp add: MICRO_def)
  have "div_ceil (missing * ?p) ?c \<le> ?p"
    by (rule div_ceil_least [OF c0]) (metis mult.commute mult_le_mono1 le_trans miss(1) cap)
  then have wait': "wait = div_ceil (missing * ?p) ?c"
    using wait p64 c0
    by (simp add: bucket_retry_after_ms_def Let_def missing_def [symmetric] exact try_u64_def)
  let ?N = "(now_ms + wait - tb_last_ms b') * ?c + tb_carry b'"
  have "missing * ?p \<le> ?N"
    using div_ceil_upper [OF c0, of "missing * ?p"] by (simp add: last wait')
  then have gain: "missing \<le> ?N div ?p"
    using per by (metis div_le_mono nonzero_mult_div_cancel_right)
  have "bucket_refill b' (now_ms + wait) = (Inr (), b'\<lparr>tb_tokens_micro := min ?c (tb_tokens_micro b' + ?N div ?p),
      tb_carry := (if 0 < ?N div ?p \<and> ?c \<le> tb_tokens_micro b' + ?N div ?p then 0 else ?N mod ?p),
      tb_last_ms := now_ms + wait\<rparr>)"
    using refill_exact [OF inv' per _ fits] last by simp
  then have "is_ok (fst (bucket_try_take b' (now_ms + wait)))"
    using gain miss(2) cap by (simp add: take_ok_iff)
  then show ?thesis by (simp add: is_ok_iff)
qed

theorem bucket_retry_sufficient_witness:
  "fst (bucket_try_take
     \<lparr>tb_rate = \<lparr>or_count = 5, or_per_ms = 300000\<rparr>, tb_capacity_micro = 5000000,
      tb_tokens_micro = 0, tb_last_ms = 0, tb_carry = 0\<rparr> (0 + 60000)) = Inr ()"
proof (rule bucket_retry_sufficient)
  let ?b = "\<lparr>tb_rate = \<lparr>or_count = 5, or_per_ms = 300000\<rparr>, tb_capacity_micro = 5000000,
      tb_tokens_micro = 0, tb_last_ms = 0, tb_carry = 0\<rparr>"
  show "bucket_inv ?b" by (simp add: bucket_inv_def rate_ok_def MICRO_def width_vals)
  show "bucket_try_take ?b 0 = (Inl (BucketEmpty 0 60000), ?b)" by (simp add: bucket_eval)
qed (simp_all add: width_vals)

text \<open>
  Every bucket operation keeps the type's invariant: the capacity is \<open>count\<close> tokens and fits a
  \<open>u64\<close>, the tokens never exceed it, and the carried remainder stays below the divisor; and the
  \<open>u128\<close> numerator of a refill is the exact product, neither saturated nor wrapped.
\<close>

theorem bucket_operations_keep_invariant:
  "(rate_ok r \<and> now_ms \<le> U64_MAX \<longrightarrow> bucket_inv (bucket_new r now_ms))
   \<and> (bucket_inv b \<and> now_ms \<le> U64_MAX \<longrightarrow>
        bucket_inv (snd (bucket_refill b now_ms)) \<and> bucket_inv (snd (bucket_try_take b now_ms))
        \<and> tb_capacity_micro b \<le> U64_MAX
        \<and> wrap_add128 (sat_mul128 (now_ms - tb_last_ms b) (tb_capacity_micro b)) (tb_carry b)
            = (now_ms - tb_last_ms b) * tb_capacity_micro b + tb_carry b)"
proof -
  have "bucket_inv b \<Longrightarrow> tb_capacity_micro b \<le> U64_MAX"
    using capacity_fits [of "tb_rate b"] by (simp add: bucket_inv_def rate_ok_def width_vals)
  then show ?thesis
    using bucket_new_inv bucket_refill_inv bucket_try_take_inv numerator_exact by blast
qed

theorem bucket_operations_keep_invariant_witness:
  "bucket_inv (bucket_new DEFAULT_ORDER_RATE 7)
   \<and> bucket_inv (snd (bucket_try_take (bucket_new DEFAULT_ORDER_RATE 7) 9))"
proof -
  have r: "rate_ok DEFAULT_ORDER_RATE" "(7::nat) \<le> U64_MAX" "(9::nat) \<le> U64_MAX"
    by (simp_all add: rate_ok_def DEFAULT_ORDER_RATE_def width_vals)
  then have new: "bucket_inv (bucket_new DEFAULT_ORDER_RATE 7)"
    using bucket_operations_keep_invariant [of DEFAULT_ORDER_RATE 7] by blast
  with r show ?thesis
    using bucket_operations_keep_invariant [of _ 9 "bucket_new DEFAULT_ORDER_RATE 7"] by blast
qed

text \<open>
  A full bucket can keep a remainder. At one order per day a refill that gains no whole
  millionth leaves the full bucket with a carry, so that refills at 87 and 88 ms leave another
  bucket than one refill at 88 ms does.
\<close>

theorem full_bucket_keeps_carry:
  "let b = bucket_new \<lparr>or_count = 1, or_per_ms = 86400000\<rparr> 0;
       once = snd (bucket_refill b 88);
       polled = snd (bucket_refill (snd (bucket_refill b 87)) 88)
   in tb_tokens_micro polled = tb_capacity_micro polled \<and> tb_carry polled = 1000000
      \<and> tb_tokens_micro once = tb_capacity_micro once \<and> tb_carry once = 0"
  by (simp add: bucket_eval)

end
