(* ===== verification/Refusal.thy ===== *)
theory Refusal
  imports Breaker Hl_Meta Bucket
begin

text \<open>
  \<open>guardrail/refusal.rs\<close>: the typed refusals, with the predicate that failed, what was observed and
  the limit, and the conversions of the venue's errors into them. The route an evaluation is
  authorised for (\<open>ledger/registry.rs\<close>, \<open>keys.rs\<close>) and the frozen order rows of a cancellation are
  data of refusals and clearances and are declared here. A rendered error text (\<open>to_string\<close>) is the
  error it renders; free text of an agent is the list of its Unicode scalar values.
\<close>

type_synonym ustring = "nat list"

section \<open>Routes\<close>

record agent_wallet =
  aw_generation :: nat
  aw_address :: address
  aw_approved_at_ms :: nat
  aw_valid_until_ms :: nat

record registry_binding =
  rb_agent :: agent_id
  rb_container :: address
  rb_vault_address :: "address option"
  rb_wallet :: agent_wallet

record authorized_route =
  rt_network :: network
  rt_binding_seq :: nat
  rt_binding :: registry_binding

section \<open>Frozen cancellation targets\<close>

record cancel_target =
  ct_symbol :: string
  ct_asset_index :: nat
  ct_oid :: nat
  ct_cloid :: "cloid option"
  ct_is_buy :: bool
  ct_limit_px :: decimal
  ct_sz :: decimal
  ct_orig_sz :: decimal
  ct_timestamp :: nat
  ct_order_type :: string
  ct_tif :: "tif option"
  ct_reduce_only :: bool
  ct_is_trigger :: bool
  ct_trigger_px :: "decimal option"
  ct_trigger_condition :: "string option"
  ct_is_position_tpsl :: bool

section \<open>Refusals\<close>

datatype pilot_metric = PmOrderNotional | PmExecutedNotional | PmCommittedNotional | PmRealizedLoss

datatype reduce_only_breach = RoNotFlagged | RoNoPosition | RoSameSide | RoOversized

datatype venue_rule =
    VrUnknownAsset string
  | VrDelisted string
  | VrNonPositivePrice decimal
  | VrNonPositiveSize decimal
  | VrPriceSignificantFigures decimal nat
  | VrPriceDecimals decimal nat
  | VrSizeDecimals decimal nat
  | VrMinNotional decimal decimal
  | VrScheduleCancelTooSoon nat nat
  | VrUnrepresentable wire_error
  | VrBuilderDeployedDex string

datatype unevaluable =
    UnActivationAuthority string
  | UnApprovalReviewChanged string
  | UnApprovalExpired nat nat
  | UnOriginalRequestMismatch
  | UnApprovalAuthority string
  | UnSubmissionAuthority string
  | UnPolicyAuthority string
  | UnRouteAuthority string
  | UnPilotBudgetUnavailable string
  | UnUnknownAgent agent_id
  | UnWrongNetwork network network
  | UnStaleClearance nat nat
  | UnPolicyChanged
  | UnInputMismatch string string string
  | UnStaleMarketData string nat nat
  | UnMissingReferencePrice string
  | UnDegradedFeed string feed_quality
  | UnMarkDivergence string decimal decimal nat nat
  | UnUnreconciledAccount nat
  | UnFeedAdmission
  | UnStaleAccountState nat nat
  | UnLossWindowMismatch nat nat
  | UnMissingFleetState
  | UnMissingVolatility string
  | UnMissingRestingOrders
  | UnNonPositiveEquity decimal
  | UnClockWentBackwards nat nat
  | UnArithmeticOverflow string
  | UnInvalidGuardrailConfig string string
  | UnAuditWriteFailed string
  | UnStateWriteFailed string
  | UnUnknownProposal string

datatype refusal =
    RfCancellationApprovalRequired string nat "cancel_target list"
  | RfPilotBudget pilot_metric decimal decimal
  | RfMissingReason
  | RfReasonTooLong nat nat
  | RfReasonControlCharacter nat nat
  | RfSymbolNotAllowed string "string list"
  | RfOrderNotional string decimal decimal
  | RfOpenExposure decimal decimal
  | RfPositionNotional string decimal decimal decimal
  | RfVolScaledPositionNotional string decimal decimal decimal decimal decimal
  | RfOrderRate nat nat decimal nat
  | RfGlobalRateBudget decimal nat nat
  | RfReduceOnly string decimal decimal bool reduce_only_breach
  | RfSlippage string decimal decimal decimal
  | RfLeverage decimal nat decimal decimal
  | RfTradingPaused kill_scope nat kill_reason
  | RfLossLimit kill_scope loss_kind decimal decimal
  | RfVenueRule venue_rule
  | RfApprovalRequired string decimal string nat
  | RfUnevaluable unevaluable

definition venue_rule_of_validation :: "validation_error \<Rightarrow> venue_rule" where
  "venue_rule_of_validation e =
     (case e of
        VeUnknownAsset symbol \<Rightarrow> VrUnknownAsset symbol
      | VeBuilderDeployedDex symbol \<Rightarrow> VrBuilderDeployedDex symbol
      | VeDelisted symbol \<Rightarrow> VrDelisted symbol
      | VeNonPositivePrice px \<Rightarrow> VrNonPositivePrice px
      | VeNonPositiveSize sz \<Rightarrow> VrNonPositiveSize sz
      | VePriceSigFigs px \<Rightarrow> VrPriceSignificantFigures px PRICE_SIG_FIGS
      | VePriceDecimals px m \<Rightarrow> VrPriceDecimals px m
      | VeSizeDecimals sz sz_decimals \<Rightarrow> VrSizeDecimals sz sz_decimals
      | VeMinNotional notional \<Rightarrow> VrMinNotional notional MIN_NOTIONAL_USD)"

definition venue_rule_of_order_error :: "order_error \<Rightarrow> venue_rule" where
  "venue_rule_of_order_error e =
     (case e of OeValidation v \<Rightarrow> venue_rule_of_validation v | OeWire w \<Rightarrow> VrUnrepresentable w)"

abbreviation route_refusal :: "string \<Rightarrow> refusal" where
  "route_refusal detail \<equiv> RfUnevaluable (UnRouteAuthority detail)"

abbreviation approval_refusal :: "string \<Rightarrow> refusal" where
  "approval_refusal detail \<equiv> RfUnevaluable (UnApprovalAuthority detail)"

abbreviation submission_refusal :: "string \<Rightarrow> refusal" where
  "submission_refusal detail \<equiv> RfUnevaluable (UnSubmissionAuthority detail)"

section \<open>Reasons\<close>

text \<open>\<open>char::is_control\<close>, the \<open>White_Space\<close> property of \<open>str::trim\<close>, and the length in UTF-8.\<close>

definition is_control :: "nat \<Rightarrow> bool" where
  "is_control c = (c \<le> 31 \<or> (127 \<le> c \<and> c \<le> 159))"

definition is_whitespace :: "nat \<Rightarrow> bool" where
  "is_whitespace c =
     ((9 \<le> c \<and> c \<le> 13) \<or> c = 32 \<or> c = 133 \<or> c = 160 \<or> c = 5760 \<or> (8192 \<le> c \<and> c \<le> 8202)
      \<or> c = 8232 \<or> c = 8233 \<or> c = 8239 \<or> c = 8287 \<or> c = 12288)"

definition utf8_len :: "nat \<Rightarrow> nat" where
  "utf8_len c = (if c < 128 then 1 else if c < 2048 then 2 else if c < 65536 then 3 else 4)"

definition str_len :: "ustring \<Rightarrow> nat" where
  "str_len s = sum_list (map utf8_len s)"

fun reason_chars :: "nat \<Rightarrow> ustring \<Rightarrow> refusal + unit" where
  "reason_chars at_byte [] = Inr ()"
| "reason_chars at_byte (ch # rest) =
     (if is_control ch \<and> ch \<noteq> 10 \<and> ch \<noteq> 9 then Inl (RfReasonControlCharacter at_byte ch)
      else reason_chars (at_byte + utf8_len ch) rest)"

definition check_reason :: "ustring \<Rightarrow> refusal + unit" where
  "check_reason reason =
     (if list_all is_whitespace reason then Inl RfMissingReason
      else if str_len reason > MAX_REASON_BYTES then Inl (RfReasonTooLong (str_len reason) MAX_REASON_BYTES)
      else reason_chars 0 reason)"

definition reason_ok :: "ustring \<Rightarrow> bool" where
  "reason_ok r =
     (\<not> list_all is_whitespace r \<and> str_len r \<le> MAX_REASON_BYTES
      \<and> list_all (\<lambda>c. is_control c \<longrightarrow> c = 10 \<or> c = 9) r)"

lemma reason_chars_ok: "reason_chars n r = Inr () \<longleftrightarrow> list_all (\<lambda>c. is_control c \<longrightarrow> c = 10 \<or> c = 9) r"
  by (induction r arbitrary: n) auto

lemma check_reason_ok: "check_reason r = Inr () \<longleftrightarrow> reason_ok r"
  by (auto simp: check_reason_def reason_ok_def reason_chars_ok)

end
