(* ===== verification/Policy.thy ===== *)
theory Policy
  imports Refusal
begin

text \<open>
  The policy authority: the persisted state of \<open>guardrail/store.rs\<close> with its validation, and the
  policy journal of \<open>ledger/policy.rs\<close> that the engine's store calls. The journal is the latest
  authenticated policy entry of the event chain and the chain's head; encoding, signatures and hash
  links of a row are those of the ledger and are not part of this model. What can go wrong in the
  database is a parameter: before a write, at its commit, or after the commit, when the new head
  cannot be published although the row is durable.
\<close>

section \<open>Persisted state\<close>

record persisted_state =
  pd_guardrails :: "(agent_id, agent_guardrails) btree"
  pd_kill :: kill_switch
  pd_account_limits :: loss_limits

record policy_version =
  pv_revision :: nat
  pv_state :: persisted_state

datatype state_error =
    SeTimestampOutOfRange
  | SeInvalidAgentId agent_id string
  | SeInvalidConfig string string
  | SeNegativeAccountLimit
  | SeKillTimestampOutOfRange
  | SeNegativeLossEvidence
  | SeEngagedAfterSnapshot

datatype policy_error =
    PeLedger string
  | PeMigrationRequired
  | PeStaleRevision nat nat
  | PeRouteChanged
  | PeUnavailable string
  | PeInvalidState state_error

definition MAX_AGENT_ID_BYTES :: nat where "MAX_AGENT_ID_BYTES = 64"

definition agent_id_byte :: "char \<Rightarrow> bool" where
  "agent_id_byte c =
     (let n = of_char c :: nat in
      (48 \<le> n \<and> n \<le> 57) \<or> (65 \<le> n \<and> n \<le> 90) \<or> (97 \<le> n \<and> n \<le> 122)
      \<or> c = CHR ''-'' \<or> c = CHR ''_'' \<or> c = CHR ''.'')"

definition checked_agent_id :: "agent_id \<Rightarrow> state_error + agent_id" where
  "checked_agent_id agent =
     (if agent = [] then Inl (SeInvalidAgentId agent ''empty'')
      else if length agent > MAX_AGENT_ID_BYTES then Inl (SeInvalidAgentId agent ''longer than 64 bytes'')
      else if \<not> list_all agent_id_byte agent
        then Inl (SeInvalidAgentId agent ''characters outside [A-Za-z0-9._-]'')
      else Inr agent)"

text \<open>The loops of \<open>validate_policy_state\<close>: configurations, account limits, stopped agents, engagements.\<close>

fun validate_configs :: "(agent_id, agent_guardrails) btree \<Rightarrow> state_error + unit" where
  "validate_configs [] = Inr ()"
| "validate_configs ((agent, config) # rest) =
     rbind (checked_agent_id agent) (\<lambda>_.
     rbind (map_err (\<lambda>(field, detail). SeInvalidConfig field detail) (agent_guardrails_validate config)) (\<lambda>_.
     validate_configs rest))"

fun validate_ids :: "agent_id list \<Rightarrow> state_error + unit" where
  "validate_ids [] = Inr ()"
| "validate_ids (agent # rest) = rbind (checked_agent_id agent) (\<lambda>_. validate_ids rest)"

definition negative_evidence :: "engagement \<Rightarrow> bool" where
  "negative_evidence e =
     (case eg_reason e of
        KrLossLimit _ observed_usd limit_usd \<Rightarrow> is_sign_negative observed_usd \<or> is_sign_negative limit_usd
      | _ \<Rightarrow> False)"

fun validate_engagements :: "engagement list \<Rightarrow> state_error + unit" where
  "validate_engagements [] = Inr ()"
| "validate_engagements (e # rest) =
     (if eg_engaged_at_ms e > I64_MAX then Inl SeKillTimestampOutOfRange
      else if negative_evidence e then Inl SeNegativeLossEvidence
      else validate_engagements rest)"

definition kill_engagements :: "kill_switch \<Rightarrow> engagement list" where
  "kill_engagements k = (case ks_global k of Some e \<Rightarrow> [e] | None \<Rightarrow> []) @ map snd (ks_agents k)"

definition validate_policy_state :: "persisted_state \<Rightarrow> state_error + unit" where
  "validate_policy_state st =
     rbind (validate_configs (pd_guardrails st)) (\<lambda>_.
     rbind (ensure (\<not> is_some_and is_sign_negative (ll_max_daily_loss_usd (pd_account_limits st)))
              SeNegativeAccountLimit) (\<lambda>_.
     rbind (ensure (\<not> is_some_and is_sign_negative (ll_max_drawdown_usd (pd_account_limits st)))
              SeNegativeAccountLimit) (\<lambda>_.
     rbind (validate_ids (map fst (ks_agents (pd_kill st)))) (\<lambda>_.
     validate_engagements (kill_engagements (pd_kill st))))))"

definition validate_state :: "persisted_state \<Rightarrow> nat \<Rightarrow> policy_error + unit" where
  "validate_state st at_ms =
     rbind (ensure (at_ms \<le> I64_MAX) (PeInvalidState SeTimestampOutOfRange)) (\<lambda>_.
     rbind (map_err PeInvalidState (validate_policy_state st)) (\<lambda>_.
     ensure (list_all (\<lambda>e. \<not> eg_engaged_at_ms e > at_ms) (kill_engagements (pd_kill st)))
       (PeInvalidState SeEngagedAfterSnapshot)))"

definition require_paused :: "persisted_state \<Rightarrow> policy_error + unit" where
  "require_paused st =
     ensure (ks_global (pd_kill st) \<noteq> None)
       (PeUnavailable ''policy initialization requires an engaged global pause'')"

section \<open>The journal\<close>

datatype policy_operation = OpInitialized | OpReplaced | OpKillReleased

record policy_entry =
  pe_version :: policy_version
  pe_previous :: "nat option"
  pe_operation :: policy_operation

record policy_journal =
  pj_head :: nat
  pj_latest :: "policy_entry option"

text \<open>Faults of the database: the failing step and its text, if any.\<close>

record journal_faults =
  jf_open :: "policy_error option"
  jf_commit :: "policy_error option"
  jf_publish :: "policy_error option"

definition no_faults :: journal_faults where
  "no_faults = \<lparr>jf_open = None, jf_commit = None, jf_publish = None\<rparr>"

definition fault :: "policy_error option \<Rightarrow> policy_error + unit" where
  "fault f = (case f of Some e \<Rightarrow> Inl e | None \<Rightarrow> Inr ())"

definition journal_current :: "journal_faults \<Rightarrow> policy_journal \<Rightarrow> policy_error + policy_version" where
  "journal_current F j =
     rbind (fault (jf_open F)) (\<lambda>_.
     rbind (ok_or PeMigrationRequired (pj_latest j)) (\<lambda>entry. Inr (pe_version entry)))"

definition journal_append ::
  "journal_faults \<Rightarrow> nat option \<Rightarrow> policy_operation \<Rightarrow> persisted_state \<Rightarrow> policy_journal \<Rightarrow>
     (policy_error + policy_version) \<times> policy_journal" where
  "journal_append F previous op st j =
     (if pj_head j \<ge> U64_MAX then (Inl (PeLedger ''sequence out of range''), j)
      else case jf_commit F of
        Some e \<Rightarrow> (Inl e, j)
      | None \<Rightarrow>
          let v = \<lparr>pv_revision = pj_head j + 1, pv_state = st\<rparr>;
              j' = \<lparr>pj_head = pj_head j + 1,
                    pj_latest = Some \<lparr>pe_version = v, pe_previous = previous, pe_operation = op\<rparr>\<rparr>
          in (case jf_publish F of Some e \<Rightarrow> (Inl e, j') | None \<Rightarrow> (Inr v, j')))"

definition journal_publish_head :: "journal_faults \<Rightarrow> policy_error + unit" where
  "journal_publish_head F = rbind (fault (jf_commit F)) (\<lambda>_. fault (jf_publish F))"

definition journal_replace ::
  "journal_faults \<Rightarrow> nat \<Rightarrow> persisted_state \<Rightarrow> nat \<Rightarrow> policy_journal \<Rightarrow>
     (policy_error + policy_version) \<times> policy_journal" where
  "journal_replace F expected_revision next at_ms j =
     (case rbind (validate_state next at_ms) (\<lambda>_. rbind (fault (jf_open F)) (\<lambda>_.
             ok_or PeMigrationRequired (pj_latest j))) of
        Inl e \<Rightarrow> (Inl e, j)
      | Inr current \<Rightarrow>
          let exact_retry = (pe_operation current = OpReplaced \<and> pe_previous current = Some expected_revision
                \<and> pv_state (pe_version current) = next)
          in if pv_revision (pe_version current) \<noteq> expected_revision \<and> \<not> exact_retry
             then (Inl (PeStaleRevision expected_revision (pv_revision (pe_version current))), j)
             else if exact_retry \<or> pv_state (pe_version current) = next
             then (rbind (journal_publish_head F) (\<lambda>_. Inr (pe_version current)), j)
             else journal_append F (Some (pv_revision (pe_version current))) OpReplaced next j)"

text \<open>
  Explicit adoption of a first policy; \<open>review_ok\<close> stands for the checks of the reviewed legacy
  evidence and \<open>same_review\<close> for its equality with the evidence of a recorded initialization.
\<close>

definition journal_initialize ::
  "journal_faults \<Rightarrow> bool \<Rightarrow> bool \<Rightarrow> persisted_state \<Rightarrow> nat \<Rightarrow> policy_journal \<Rightarrow>
     (policy_error + policy_version) \<times> policy_journal" where
  "journal_initialize F review_ok same_review next at_ms j =
     (case rbind (validate_state next at_ms) (\<lambda>_. rbind (require_paused next) (\<lambda>_.
           rbind (ensure review_ok (PeUnavailable ''invalid policy initialization provenance'')) (\<lambda>_.
           fault (jf_open F)))) of
        Inl e \<Rightarrow> (Inl e, j)
      | Inr _ \<Rightarrow>
          (case pj_latest j of
             Some current \<Rightarrow>
               if pe_operation current = OpInitialized \<and> same_review
                  \<and> pv_state (pe_version current) = next
               then (rbind (journal_publish_head F) (\<lambda>_. Inr (pe_version current)), j)
               else (Inl (PeStaleRevision 0 (pv_revision (pe_version current))), j)
           | None \<Rightarrow> journal_append F None OpInitialized next j))"

text \<open>Any other row of the ledger advances the head only.\<close>

definition journal_other_row :: "policy_journal \<Rightarrow> policy_journal" where
  "journal_other_row j = (if pj_head j \<ge> U64_MAX then j else j\<lparr>pj_head := pj_head j + 1\<rparr>)"

definition journal_inv :: "policy_journal \<Rightarrow> bool" where
  "journal_inv j =
     (case pj_latest j of
        None \<Rightarrow> True
      | Some e \<Rightarrow> 0 < pv_revision (pe_version e) \<and> pv_revision (pe_version e) \<le> pj_head j
          \<and> is_none_or (\<lambda>p. p < pv_revision (pe_version e)) (pe_previous e))"

section \<open>The contract of a versioned store\<close>

text \<open>
  What the engine relies on, whatever the store: a version is current when it is returned, and the
  current revision never goes back. A cached revision with its state is then never contradicted by a
  later answer.
\<close>

definition cache_ok :: "policy_version option \<Rightarrow> nat \<Rightarrow> persisted_state \<Rightarrow> bool" where
  "cache_ok cur r st =
     (r = 0 \<or> is_some_and (\<lambda>v. r < pv_revision v \<or> r = pv_revision v \<and> st = pv_state v) cur)"

locale versioned_store =
  fixes current :: "'w \<Rightarrow> policy_version option"
    and load :: "'w \<Rightarrow> 'e + policy_version"
    and cas :: "nat \<Rightarrow> persisted_state \<Rightarrow> nat \<Rightarrow> 'w \<Rightarrow> ('e + policy_version) \<times> 'w"
    and wf :: "'w \<Rightarrow> bool"
  assumes load_ok: "wf w \<Longrightarrow> load w = Inr v \<Longrightarrow> current w = Some v \<and> 0 < pv_revision v"
    and cas_wf: "wf w \<Longrightarrow> wf (snd (cas e n t w))"
    and cas_ok: "wf w \<Longrightarrow> cas e n t w = (Inr v, w') \<Longrightarrow>
      current w' = Some v \<and> pv_state v = n \<and> e \<le> pv_revision v \<and> 0 < pv_revision v"
    and cas_grows: "wf w \<Longrightarrow> current w = Some v \<Longrightarrow>
      \<exists>v'. current (snd (cas e n t w)) = Some v' \<and> (v' = v \<or> pv_revision v < pv_revision v')"
begin

lemma load_refines:
  "wf w \<Longrightarrow> cache_ok (current w) r st \<Longrightarrow> load w = Inr v \<Longrightarrow>
     r \<le> pv_revision v \<and> 0 < pv_revision v \<and> (r = pv_revision v \<longrightarrow> pv_state v = st)
     \<and> cache_ok (current w) (pv_revision v) (pv_state v)"
  using load_ok by (fastforce simp: cache_ok_def)

lemma cas_keeps:
  assumes "wf w" and "cache_ok (current w) r st"
  shows "cache_ok (current (snd (cas e n t w))) r st"
proof (cases "r = 0")
  case False
  with assms(2) obtain v where v: "current w = Some v" "r < pv_revision v \<or> r = pv_revision v \<and> st = pv_state v"
    by (auto simp: cache_ok_def is_some_and_iff)
  from cas_grows [OF assms(1) v(1), of e n t] v(2) show ?thesis by (fastforce simp: cache_ok_def)
qed (simp add: cache_ok_def)

lemma cas_refines:
  assumes "wf w" and "cache_ok (current w) r st" and "cas e n t w = (Inr v, w')"
  shows "r \<le> pv_revision v \<and> 0 < pv_revision v \<and> (r = pv_revision v \<longrightarrow> pv_state v = st)
         \<and> cache_ok (current w') (pv_revision v) (pv_state v)"
  using cas_keeps [OF assms(1,2), of e n t] cas_ok [OF assms(1,3)] assms(3)
  by (auto simp: cache_ok_def)

end

section \<open>The journal keeps the contract\<close>

lemma journal_append_cases:
  "journal_append F p op st j = (r, j') \<Longrightarrow>
     (\<exists>e. r = Inl e \<and> j' = j)
     \<or> (j' = \<lparr>pj_head = pj_head j + 1,
             pj_latest = Some \<lparr>pe_version = \<lparr>pv_revision = pj_head j + 1, pv_state = st\<rparr>,
                               pe_previous = p, pe_operation = op\<rparr>\<rparr>
        \<and> ((\<exists>e. r = Inl e) \<or> r = Inr \<lparr>pv_revision = pj_head j + 1, pv_state = st\<rparr>))"
  by (auto simp: journal_append_def Let_def split: if_splits option.splits)

lemma journal_replace_cases:
  assumes "journal_replace F e n t j = (r, j')"
  obtains (error) x where "r = Inl x" "j' = j"
  | (same) c where "pj_latest j = Some c" "r = Inr (pe_version c)" "j' = j" "pv_state (pe_version c) = n"
      "pv_revision (pe_version c) = e \<or> pe_previous c = Some e"
  | (appended) c where "pj_latest j = Some c" "pv_revision (pe_version c) = e"
      "journal_append F (Some e) OpReplaced n j = (r, j')"
proof (cases "rbind (validate_state n t) (\<lambda>_. rbind (fault (jf_open F)) (\<lambda>_.
             ok_or PeMigrationRequired (pj_latest j)))")
  case (Inl x)
  with assms error show ?thesis by (auto simp: journal_replace_def)
next
  case (Inr c)
  then have c: "pj_latest j = Some c" by (auto simp: result_inv)
  let ?v = "pe_version c"
  let ?retry = "pe_operation c = OpReplaced \<and> pe_previous c = Some e \<and> pv_state ?v = n"
  from assms have r: "(r, j') =
      (if pv_revision ?v \<noteq> e \<and> \<not> ?retry then (Inl (PeStaleRevision e (pv_revision ?v)), j)
       else if ?retry \<or> pv_state ?v = n then (rbind (journal_publish_head F) (\<lambda>_. Inr ?v), j)
       else journal_append F (Some (pv_revision ?v)) OpReplaced n j)"
    unfolding journal_replace_def Inr by simp
  consider "pv_revision ?v \<noteq> e \<and> \<not> ?retry" | "pv_revision ?v = e \<or> ?retry" "pv_state ?v = n"
    | "pv_revision ?v = e" "pv_state ?v \<noteq> n"
    by blast
  then show ?thesis
  proof cases
    case 1
    with r error show ?thesis by simp
  next
    case 2
    with r have "r = rbind (journal_publish_head F) (\<lambda>_. Inr ?v)" "j' = j" by (simp_all split: if_splits)
    with 2 c error same show ?thesis by (cases "journal_publish_head F") auto
  next
    case 3
    with r c appended show ?thesis by simp
  qed
qed

lemma journal_replace_inv: "journal_inv j \<Longrightarrow> journal_inv (snd (journal_replace F e n t j))"
proof -
  assume inv: "journal_inv j"
  obtain r j' where r: "journal_replace F e n t j = (r, j')" by fastforce
  then show ?thesis
  proof (cases rule: journal_replace_cases)
    case (appended c)
    with inv show ?thesis
      using journal_append_cases [OF appended(3)] r by (auto simp: journal_inv_def)
  qed (use inv r in simp_all)
qed

definition journal_version :: "policy_journal \<Rightarrow> policy_version option" where
  "journal_version j = map_option pe_version (pj_latest j)"

interpretation pj: versioned_store journal_version "journal_current F" "journal_replace F" journal_inv
proof (unfold_locales, goal_cases)
  case (1 w v)
  then show ?case
    by (auto simp: journal_current_def journal_version_def journal_inv_def result_inv)
next
  case (2 w e n t)
  then show ?case by (rule journal_replace_inv)
next
  case (3 w e n t v w')
  from 3(2) show ?case
  proof (cases rule: journal_replace_cases)
    case (same c)
    with 3(1) show ?thesis by (auto simp: journal_version_def journal_inv_def)
  next
    case (appended c)
    with 3(1) journal_append_cases [OF appended(3)] show ?thesis
      by (auto simp: journal_version_def journal_inv_def)
  qed simp
next
  case (4 w v e n t)
  obtain r j' where r: "journal_replace F e n t w = (r, j')" by fastforce
  then show ?case
  proof (cases rule: journal_replace_cases)
    case (appended c)
    with 4 journal_append_cases [OF appended(3)] r show ?thesis
      by (auto simp: journal_version_def journal_inv_def)
  qed (use 4 r in simp_all)
qed

section \<open>Properties\<close>


definition sample_policy :: persisted_state where
  "sample_policy =
     \<lparr>pd_guardrails = [(''alpha'', agent_guardrails_default)], pd_kill = kill_switch_new,
      pd_account_limits = loss_limits_unset\<rparr>"

definition sample_journal :: policy_journal where
  "sample_journal =
     \<lparr>pj_head = 6,
      pj_latest = Some \<lparr>pe_version = \<lparr>pv_revision = 4, pv_state = sample_policy\<rparr>, pe_previous = None,
                        pe_operation = OpInitialized\<rparr>\<rparr>"


end
