(* ===== verification/Request.thy ===== *)
theory Request
  imports Refusal
begin

text \<open>
  What an agent asks for: \<open>OrderIntent\<close> of \<open>guardrail/engine.rs\<close>, the evidence of the original
  request and its review (\<open>guardrail/request.rs\<close>), and the frozen cancellations of
  \<open>guardrail/cancellation.rs\<close>. As in the venue rules, an outer \<open>None\<close> is a panic of a bare decimal
  operator.
\<close>

section \<open>Orders\<close>

datatype requested_order_kind =
    RkLimit decimal tif
  | RkMarket decimal
  | RkStopMarket decimal tpsl decimal
  | RkClosePosition decimal decimal

record original_request =
  og_kind :: requested_order_kind
  og_reference_px :: "decimal option"
  og_reference_at_ms :: nat

record order_intent =
  oi_original :: "original_request option"
  oi_symbol :: string
  oi_is_buy :: bool
  oi_px :: decimal
  oi_sz :: decimal
  oi_kind :: order_kind
  oi_reduce_only :: bool
  oi_cloid :: "cloid option"
  oi_grouping :: grouping
  oi_builder :: "builder_info option"
  oi_max_slippage_bps :: "decimal option"
  oi_reason :: ustring

definition matches_intent :: "original_request \<Rightarrow> order_intent \<Rightarrow> bool" where
  "matches_intent og i =
     (if is_some_and (\<lambda>px. px \<le> 0) (og_reference_px og) \<or> og_reference_at_ms og > I64_MAX then False
      else
        (case og_kind og of
           RkLimit limit_px tif \<Rightarrow> limit_px > 0 \<and> oi_px i = limit_px \<and> oi_kind i = OkLimit tif
         | RkMarket slippage_bps \<Rightarrow>
             slippage_bps \<ge> 0 \<and> og_reference_px og \<noteq> None \<and> oi_kind i = OkLimit Ioc
         | RkStopMarket trigger_px tpsl slippage_bps \<Rightarrow>
             trigger_px > 0 \<and> slippage_bps \<ge> 0 \<and> oi_kind i = OkTrigger True trigger_px tpsl
         | RkClosePosition position_size slippage_bps \<Rightarrow>
             position_size \<noteq> 0 \<and> slippage_bps \<ge> 0 \<and> og_reference_px og \<noteq> None \<and> oi_reduce_only i
             \<and> oi_sz i = \<bar>position_size\<bar> \<and> oi_is_buy i = is_sign_negative position_size
             \<and> oi_kind i = OkLimit Ioc))"

text \<open>The closure of \<open>matches_normalization\<close>, for a reference price and a slippage in bps.\<close>

definition normalization_check ::
  "declib \<Rightarrow> order_intent \<Rightarrow> asset \<Rightarrow> decimal \<Rightarrow> decimal \<Rightarrow> bool option" where
  "normalization_check D i a px bps =
     Option.bind (checked_div D bps 10000) (\<lambda>slippage.
       let factor = (if oi_is_buy i then checked_add D 1 slippage else checked_sub D 1 slippage) in
       if is_some_and (\<lambda>raw. raw > 0) (Option.bind factor (checked_mul D px))
       then map_option (\<lambda>v. v = oi_px i) (slippage_price_bounded D a px (oi_is_buy i) slippage)
       else Some False)"

definition matches_normalization :: "declib \<Rightarrow> original_request \<Rightarrow> order_intent \<Rightarrow> asset \<Rightarrow> bool option" where
  "matches_normalization D og i a =
     (if \<not> matches_intent og i then Some False
      else
        let against = (\<lambda>reference bps.
          case reference of None \<Rightarrow> Some False | Some px \<Rightarrow> normalization_check D i a px bps)
        in (case og_kind og of
              RkLimit _ _ \<Rightarrow> Some True
            | RkMarket bps \<Rightarrow> against (og_reference_px og) bps
            | RkClosePosition _ bps \<Rightarrow> against (og_reference_px og) bps
            | RkStopMarket trigger_px _ bps \<Rightarrow> against (Some trigger_px) bps))"

text \<open>The repricing at the end of \<open>review_candidate\<close>.\<close>

definition review_reprice ::
  "declib \<Rightarrow> order_intent \<Rightarrow> original_request \<Rightarrow> asset \<Rightarrow> market_ref \<Rightarrow> decimal \<Rightarrow>
     (refusal + order_intent) option" where
  "review_reprice D i og a market slippage_bps =
     (let changed = (\<lambda>d. RfUnevaluable (UnApprovalReviewChanged d));
          overflow = RfUnevaluable (UnArithmeticOverflow ''review price'')
      in case rbind (ok_or (changed ''review requires a positive current reference price'')
                (Option.bind (mk_reference_px market) (\<lambda>px. if px > 0 then Some px else None))) (\<lambda>reference_px.
              rbind (ok_or overflow (checked_div D slippage_bps 10000)) (\<lambda>slippage.
              rbind (ok_or overflow
                (if oi_is_buy i then checked_add D 1 slippage else checked_sub D 1 slippage)) (\<lambda>factor.
              rbind (ok_or overflow (checked_mul D reference_px factor)) (\<lambda>raw.
              rbind (ensure (\<not> raw \<le> 0) (changed ''review price bound is not positive'')) (\<lambda>_.
              Inr (reference_px, slippage)))))) of
           Inl r \<Rightarrow> Some (Inl r)
         | Inr (reference_px, slippage) \<Rightarrow>
             map_option (\<lambda>px. Inr (i\<lparr>oi_px := px,
                 oi_original := Some \<lparr>og_kind = og_kind og, og_reference_px = Some reference_px,
                                      og_reference_at_ms = mk_as_of_ms market\<rparr>\<rparr>))
               (slippage_price_bounded D a reference_px (oi_is_buy i) slippage))"

definition review_candidate ::
  "declib \<Rightarrow> order_intent \<Rightarrow> asset \<Rightarrow> market_ref \<Rightarrow> exposure \<Rightarrow> (refusal + order_intent) option" where
  "review_candidate D i a market ex =
     (case oi_original i of
        None \<Rightarrow> Some (Inr i)
      | Some og \<Rightarrow>
          Option.bind (matches_normalization D og i a) (\<lambda>matches.
          if \<not> matches then Some (Inl (RfUnevaluable UnOriginalRequestMismatch))
          else (case og_kind og of
                  RkMarket slippage_bps \<Rightarrow> review_reprice D i og a market slippage_bps
                | RkClosePosition position_size slippage_bps \<Rightarrow>
                    if position_szi (ex_agent ex) (oi_symbol i) \<noteq> position_size
                    then Some (Inl (RfUnevaluable
                           (UnApprovalReviewChanged ''position close size or direction changed'')))
                    else review_reprice D i og a market slippage_bps
                | RkLimit _ _ \<Rightarrow> Some (Inr i)
                | RkStopMarket _ _ _ \<Rightarrow> Some (Inr i))))"

section \<open>Cancellations\<close>

record cancel_ownership_link =
  cl_oid :: nat
  cl_signed_seq :: nat
  cl_signed_hash :: string
  cl_accepted_seq :: nat
  cl_accepted_hash :: string
  cl_request_digest :: string

record cancel_provenance =
  cp_links :: "cancel_ownership_link list"

record cancel_intent =
  ci_targets :: "cancel_target list"
  ci_reason :: ustring

record cancel_context =
  cx_account :: address
  cx_observed_at_ms :: nat
  cx_targets :: "cancel_target list"

abbreviation cancel_changed :: "string \<Rightarrow> refusal" where
  "cancel_changed detail \<equiv> RfUnevaluable (UnApprovalReviewChanged detail)"

definition cancel_target_bad :: "cancel_target \<Rightarrow> bool" where
  "cancel_target_bad t =
     (ct_symbol t = [] \<or> list_ex (\<lambda>c. is_control (of_char c)) (ct_symbol t)
      \<or> ct_limit_px t \<le> 0 \<or> ct_sz t \<le> 0 \<or> ct_orig_sz t < ct_sz t \<or> ct_timestamp t > I64_MAX
      \<or> is_some_and (\<lambda>px. px < 0) (ct_trigger_px t))"

fun cancel_validate_loop :: "nat btset \<Rightarrow> cancel_target list \<Rightarrow> refusal + unit" where
  "cancel_validate_loop identities [] = Inr ()"
| "cancel_validate_loop identities (t # ts) =
     (if cancel_target_bad t \<or> ct_oid t \<in> set identities
      then Inl (cancel_changed ''invalid or duplicate cancellation target'')
      else cancel_validate_loop (bs_insert (ct_oid t) identities) ts)"

definition cancel_validate :: "cancel_intent \<Rightarrow> refusal + unit" where
  "cancel_validate i =
     (if ci_targets i = [] then Inl (cancel_changed ''cancellation requires frozen targets'')
      else cancel_validate_loop [] (ci_targets i))"

definition cancel_action :: "cancel_intent \<Rightarrow> action" where
  "cancel_action i = ActCancel (map (\<lambda>t. \<lparr>cw_a = ct_asset_index t, cw_o = ct_oid t\<rparr>) (ci_targets i))"

fun any_repeated :: "nat btset \<Rightarrow> cancel_target list \<Rightarrow> bool" where
  "any_repeated seen [] = False"
| "any_repeated seen (t # ts) =
     (if ct_oid t \<in> set seen then True else any_repeated (bs_insert (ct_oid t) seen) ts)"

definition target_unchanged :: "cancel_target list \<Rightarrow> cancel_target \<Rightarrow> bool" where
  "target_unchanged observed t =
     is_some_and (\<lambda>actual. ct_sz actual > 0 \<and> ct_sz actual \<le> ct_sz t \<and> actual\<lparr>ct_sz := ct_sz t\<rparr> = t)
       (find (\<lambda>actual. ct_oid actual = ct_oid t \<and> ct_asset_index actual = ct_asset_index t) observed)"

definition cancel_check_context ::
  "cancel_intent \<Rightarrow> cancel_context \<Rightarrow> address \<Rightarrow> nat \<Rightarrow> nat \<Rightarrow> refusal + unit" where
  "cancel_check_context i cx account max_age_ms now_ms =
     rbind (cancel_validate i) (\<lambda>_.
     rbind (ensure (cx_account cx = account)
       (RfUnevaluable (UnRouteAuthority ''cancellation snapshot account differs from route''))) (\<lambda>_.
     rbind (ensure (\<not> now_ms < cx_observed_at_ms cx)
       (RfUnevaluable (UnClockWentBackwards now_ms (cx_observed_at_ms cx)))) (\<lambda>_.
     let age_ms = now_ms - cx_observed_at_ms cx in
     rbind (ensure (\<not> age_ms > max_age_ms) (RfUnevaluable (UnStaleClearance age_ms max_age_ms))) (\<lambda>_.
     rbind (ensure (\<not> any_repeated [] (cx_targets cx))
       (cancel_changed ''duplicate identities in cancellation snapshot'')) (\<lambda>_.
     ensure (list_all (target_unchanged (cx_targets cx)) (ci_targets i))
       (cancel_changed ''frozen cancellation target missing or changed; request a fresh proposal''))))))"

section \<open>Lemmas\<close>

lemma cancel_validate_loop_ok:
  "cancel_validate_loop ids ts = Inr () \<longleftrightarrow>
     list_all (\<lambda>t. \<not> cancel_target_bad t) ts \<and> distinct (map ct_oid ts)
     \<and> set ids \<inter> set (map ct_oid ts) = {}"
  by (induction ids ts rule: cancel_validate_loop.induct) auto

lemma any_repeated_iff:
  "\<not> any_repeated seen ts \<longleftrightarrow> distinct (map ct_oid ts) \<and> set seen \<inter> set (map ct_oid ts) = {}"
  by (induction seen ts rule: any_repeated.induct) auto

lemma find_by_oid:
  assumes "distinct (map ct_oid xs)"
  shows "find (\<lambda>a. ct_oid a = ct_oid t \<and> ct_asset_index a = ct_asset_index t) xs = Some x \<longleftrightarrow>
           x \<in> set xs \<and> ct_oid x = ct_oid t \<and> ct_asset_index x = ct_asset_index t"
  using assms by (induction xs) (auto simp: image_iff)

lemma target_unchanged_iff:
  assumes "distinct (map ct_oid xs)"
  shows "target_unchanged xs t \<longleftrightarrow>
           (\<exists>x \<in> set xs. 0 < ct_sz x \<and> ct_sz x \<le> ct_sz t \<and> x\<lparr>ct_sz := ct_sz t\<rparr> = t)"
proof
  assume "target_unchanged xs t"
  then show "\<exists>x \<in> set xs. 0 < ct_sz x \<and> ct_sz x \<le> ct_sz t \<and> x\<lparr>ct_sz := ct_sz t\<rparr> = t"
    by (auto simp: target_unchanged_def is_some_and_iff find_by_oid [OF assms])
next
  assume "\<exists>x \<in> set xs. 0 < ct_sz x \<and> ct_sz x \<le> ct_sz t \<and> x\<lparr>ct_sz := ct_sz t\<rparr> = t"
  then obtain x where x: "x \<in> set xs" "0 < ct_sz x" "ct_sz x \<le> ct_sz t" "x\<lparr>ct_sz := ct_sz t\<rparr> = t"
    by blast
  have "ct_oid x = ct_oid t" "ct_asset_index x = ct_asset_index t"
    using arg_cong [OF x(4), of ct_oid] arg_cong [OF x(4), of ct_asset_index] by simp_all
  with x show "target_unchanged xs t"
    by (auto simp: target_unchanged_def is_some_and_iff find_by_oid [OF assms])
qed

lemma slippage_price_bounded_defined:
  "(if b then checked_add D 1 s else checked_sub D 1 s) = Some f \<Longrightarrow> checked_mul D px f = Some raw \<Longrightarrow>
     \<exists>v. slippage_price_bounded D a px b s = Some v"
  by (auto simp: slippage_price_bounded_def Let_def split: if_splits)

lemma review_reprice_Inr:
  assumes "review_reprice D i og a market bps = Some (Inr c)"
  obtains ref s f raw px where
    "mk_reference_px market = Some ref" "0 < ref" "checked_div D bps 10000 = Some s"
    "(if oi_is_buy i then checked_add D 1 s else checked_sub D 1 s) = Some f"
    "checked_mul D ref f = Some raw" "0 < raw"
    "slippage_price_bounded D a ref (oi_is_buy i) s = Some px"
    "c = i\<lparr>oi_px := px, oi_original := Some \<lparr>og_kind = og_kind og, og_reference_px = Some ref,
            og_reference_at_ms = mk_as_of_ms market\<rparr>\<rparr>"
  using assms
  by (auto simp: review_reprice_def Let_def result_inv not_le split: sum.splits prod.splits option.splits
      bind_splits if_splits)

lemma reprice_normalizes:
  assumes r: "review_reprice D i og a market bps = Some (Inr c)"
  shows "\<exists>ref. oi_original c = Some \<lparr>og_kind = og_kind og, og_reference_px = Some ref,
            og_reference_at_ms = mk_as_of_ms market\<rparr> \<and> 0 < ref \<and> mk_reference_px market = Some ref
         \<and> normalization_check D c a ref bps = Some True
         \<and> c = i\<lparr>oi_px := oi_px c, oi_original := oi_original c\<rparr>"
  using r
proof (rule review_reprice_Inr)
  fix ref s f raw px
  assume a: "checked_div D bps 10000 = Some s"
      "(if oi_is_buy i then checked_add D 1 s else checked_sub D 1 s) = Some f"
      "checked_mul D ref f = Some raw" "0 < raw"
      "slippage_price_bounded D a ref (oi_is_buy i) s = Some px" "0 < ref" "mk_reference_px market = Some ref"
    and c: "c = i\<lparr>oi_px := px, oi_original := Some \<lparr>og_kind = og_kind og, og_reference_px = Some ref,
            og_reference_at_ms = mk_as_of_ms market\<rparr>\<rparr>"
  have "normalization_check D c a ref bps = Some True"
    using a(2) by (simp add: normalization_check_def Let_def c a(1,3-5) split: if_splits)
  with a(6,7) c show ?thesis by simp
qed

section \<open>Properties\<close>

text \<open>
  A repriced review is still the order that was asked for. When \<open>review_candidate\<close> accepts, the
  candidate is the intent with at most its price and its quoted reference replaced, and the
  evaluation's own test of the original request accepts it: the price is the bounded slippage price
  of the current reference, so approving a review can never trip \<open>OriginalRequestMismatch\<close>. The
  venue's millisecond timestamp is assumed to fit the signed range the request evidence checks.
\<close>

theorem reviewed_candidate_still_matches:
  assumes review: "review_candidate D i a market ex = Some (Inr c)"
    and original: "oi_original i = Some og" and clock: "mk_as_of_ms market \<le> I64_MAX"
  shows "\<exists>og'. oi_original c = Some og' \<and> og_kind og' = og_kind og
           \<and> matches_normalization D og' c a = Some True
           \<and> c = i\<lparr>oi_px := oi_px c, oi_original := oi_original c\<rparr>"
proof -
  from review original have m: "matches_normalization D og i a = Some True"
    by (auto simp: review_candidate_def split: bind_splits if_splits)
  then have mi: "matches_intent og i" by (auto simp: matches_normalization_def split: if_splits)
  show ?thesis
  proof (cases "review_candidate D i a market ex = Some (Inr i)")
    case True
    with review m original show ?thesis by (intro exI [of _ og]) simp
  next
    case False
    with review original m obtain bps where bps: "review_reprice D i og a market bps = Some (Inr c)"
        and kind: "og_kind og = RkMarket bps \<or> (\<exists>p. og_kind og = RkClosePosition p bps)"
      by (auto simp: review_candidate_def split: requested_order_kind.splits if_splits)
    from reprice_normalizes [OF bps] obtain ref where
        oc: "oi_original c = Some \<lparr>og_kind = og_kind og, og_reference_px = Some ref,
            og_reference_at_ms = mk_as_of_ms market\<rparr>" (is "_ = Some ?og'")
        and ref: "0 < ref" and norm: "normalization_check D c a ref bps = Some True"
        and c: "c = i\<lparr>oi_px := oi_px c, oi_original := oi_original c\<rparr>"
      by blast
    have same: "oi_kind c = oi_kind i" "oi_sz c = oi_sz i" "oi_is_buy c = oi_is_buy i"
        "oi_reduce_only c = oi_reduce_only i"
      by (subst c, simp)+
    have "matches_intent ?og' c"
      using mi kind ref clock by (auto simp: matches_intent_def same not_less split: if_splits)
    then have "matches_normalization D ?og' c a = Some True"
      using kind norm by (auto simp: matches_normalization_def Let_def)
    with oc c show ?thesis by auto
  qed
qed

definition sample_original :: original_request where
  "sample_original = \<lparr>og_kind = RkMarket 10, og_reference_px = Some 100, og_reference_at_ms = 1000\<rparr>"

definition sample_intent :: order_intent where
  "sample_intent =
     \<lparr>oi_original = Some sample_original, oi_symbol = ''BTC'', oi_is_buy = True, oi_px = 1001 / 10,
      oi_sz = 1 / 5, oi_kind = OkLimit Ioc, oi_reduce_only = False, oi_cloid = None, oi_grouping = Na,
      oi_builder = None, oi_max_slippage_bps = None, oi_reason = [111, 107]\<rparr>"

definition sample_market :: market_ref where
  "sample_market =
     \<lparr>mk_symbol = ''BTC'', mk_reference_px = Some 101, mk_as_of_ms = 1200, mk_quality = FqOk,
      mk_mark_divergence_bps = None, mk_mark_divergent_since_ms = None, mk_snapshot = None,
      mk_sigma_day = None, mk_vol_ratio = None\<rparr>"

definition sample_exposure :: exposure where
  "sample_exposure =
     \<lparr>ex_feed_stamp = Some (feed_stamp_of sample_reconciled), ex_account = Address [7],
      ex_agent = sample_account\<lparr>ac_realized_pnl_today_usd := 0, ac_unrealized_pnl_usd := 0\<rparr>,
      ex_fleet = None\<rparr>"

theorem reviewed_candidate_still_matches_witness:
  "\<exists>c og'. review_candidate exact_declib sample_intent sample_asset sample_market sample_exposure = Some (Inr c)
     \<and> oi_px c = 1011 / 10 \<and> oi_original c = Some og'
     \<and> matches_normalization exact_declib og' c sample_asset = Some True"
proof -
  let ?c = "sample_intent\<lparr>oi_px := 1011 / 10,
     oi_original := Some (sample_original\<lparr>og_reference_px := Some 101, og_reference_at_ms := 1200\<rparr>)\<rparr>"
  have o: "oi_original sample_intent = Some sample_original" "mk_as_of_ms sample_market \<le> I64_MAX"
    by (simp_all add: sample_intent_def sample_market_def I64_MAX_val)
  have m: "matches_normalization exact_declib sample_original sample_intent sample_asset = Some True"
    and px: "slippage_price_bounded exact_declib sample_asset 101 True (1 / 1000) = Some (1011 / 10)"
    by code_simp+
  have fields: "og_kind sample_original = RkMarket 10" "oi_is_buy sample_intent"
      "mk_reference_px sample_market = Some 101" "mk_as_of_ms sample_market = 1200"
    by (simp_all add: sample_original_def sample_intent_def sample_market_def)
  have r: "review_candidate exact_declib sample_intent sample_asset sample_market sample_exposure = Some (Inr ?c)"
    by (simp add: review_candidate_def review_reprice_def o m fields px Let_def)
  from reviewed_candidate_still_matches [OF r o] show ?thesis
    by (intro exI [of _ ?c]) (auto simp: r)
qed

text \<open>
  A cancellation acts on exactly the rows that were frozen. The check of a cancellation against a
  fresh account snapshot passes exactly when there are targets, all well formed with distinct order
  ids, the snapshot is of the routed account, is not from the future and not too old, names no order
  twice, and holds every frozen row unchanged except for a smaller positive remaining size. The
  action then names those orders and no others, in that order.
\<close>

theorem cancellation_is_exactly_the_frozen_rows:
  "(cancel_check_context i cx account max_age_ms now_ms = Inr () \<longleftrightarrow>
      ci_targets i \<noteq> [] \<and> list_all (\<lambda>t. \<not> cancel_target_bad t) (ci_targets i)
      \<and> distinct (map ct_oid (ci_targets i)) \<and> cx_account cx = account
      \<and> cx_observed_at_ms cx \<le> now_ms \<and> now_ms - cx_observed_at_ms cx \<le> max_age_ms
      \<and> distinct (map ct_oid (cx_targets cx))
      \<and> list_all (\<lambda>t. \<exists>x \<in> set (cx_targets cx).
           0 < ct_sz x \<and> ct_sz x \<le> ct_sz t \<and> x\<lparr>ct_sz := ct_sz t\<rparr> = t) (ci_targets i))
   \<and> cancel_action i = ActCancel (map (\<lambda>t. \<lparr>cw_a = ct_asset_index t, cw_o = ct_oid t\<rparr>) (ci_targets i))"
proof -
  have frozen: "list_all (target_unchanged (cx_targets cx)) (ci_targets i) =
      list_all (\<lambda>t. \<exists>x \<in> set (cx_targets cx).
        0 < ct_sz x \<and> ct_sz x \<le> ct_sz t \<and> x\<lparr>ct_sz := ct_sz t\<rparr> = t) (ci_targets i)"
    if "distinct (map ct_oid (cx_targets cx))"
    using that by (simp add: target_unchanged_iff list_all_iff)
  have valid: "cancel_validate i = Inr () \<longleftrightarrow> ci_targets i \<noteq> []
      \<and> list_all (\<lambda>t. \<not> cancel_target_bad t) (ci_targets i) \<and> distinct (map ct_oid (ci_targets i))"
    by (simp add: cancel_validate_def cancel_validate_loop_ok)
  have "cancel_check_context i cx account max_age_ms now_ms = Inr () \<longleftrightarrow>
      cancel_validate i = Inr () \<and> cx_account cx = account \<and> cx_observed_at_ms cx \<le> now_ms
      \<and> now_ms - cx_observed_at_ms cx \<le> max_age_ms \<and> distinct (map ct_oid (cx_targets cx))
      \<and> list_all (target_unchanged (cx_targets cx)) (ci_targets i)"
    by (simp add: cancel_check_context_def result_inv Let_def not_less any_repeated_iff)
  then show ?thesis unfolding valid using frozen by (simp add: cancel_action_def) blast
qed

end
