(* ===== verification/Engine_State.thy ===== *)
theory Engine_State
  imports Policy Request
begin

text \<open>
  The state of \<open>guardrail/engine.rs\<close> and its operator surface: what a clearance, a proposal and an
  audit row are, \<open>EngineState\<close> with its methods, and the operations of \<open>GuardrailEngine\<close> that change
  policy, the kill switch, the rate budget and the approval queue. The trait objects the engine holds
  (store, audit sink, approval and submission journals) are the record \<open>ports\<close> over a durable world
  \<open>'w\<close>; \<open>Arc\<close> identities are numbers the engine has not used before. An operation runs alone except
  where the source gives up the state lock between two critical sections: those operations are given
  as their sections as well, so that other steps can come between them.
\<close>

section \<open>Clearances\<close>

record utilization =
  ut_order_notional_pct :: "decimal option"
  ut_position_notional_pct :: "decimal option"
  ut_daily_loss_pct :: "decimal option"
  ut_drawdown_pct :: "decimal option"
  ut_vol_scaled_position_pct :: "decimal option"
  ut_leverage :: decimal
  ut_order_tokens_remaining :: decimal
  ut_global_tokens_remaining :: decimal

definition utilization_none_with_global :: "decimal \<Rightarrow> utilization" where
  "utilization_none_with_global global_tokens_remaining =
     \<lparr>ut_order_notional_pct = None, ut_position_notional_pct = None, ut_daily_loss_pct = None,
      ut_drawdown_pct = None, ut_vol_scaled_position_pct = None, ut_leverage = 0,
      ut_order_tokens_remaining = 0, ut_global_tokens_remaining = global_tokens_remaining\<rparr>"

record cleared_order =
  co_symbol :: string
  co_is_buy :: bool
  co_px :: decimal
  co_sz :: decimal
  co_notional_usd :: decimal
  co_reduce_only :: bool
  co_slippage_bps :: decimal
  co_reference_px :: decimal
  co_slippage_reference_px :: decimal
  co_cloid :: "cloid option"
  co_snapshot_id :: "string option"
  co_snapshot_hash :: "string option"

datatype cleared_kind =
    CkOrder cleared_order
  | CkCancel nat
  | CkDiscretionaryCancel "cancel_target list" nat "cancel_provenance option"
  | CkScheduleCancel "nat option"

record clearance =
  cr_approval_review_digest :: "string option"
  cr_agent :: agent_id
  cr_route :: authorized_route
  cr_policy_revision :: nat
  cr_vault_address :: "address option"
  cr_network :: network
  cr_evaluated_at_ms :: nat
  cr_kind :: cleared_kind
  cr_utilization :: utilization

record cleared =
  cd_feed_stamp :: "feed_stamp option"
  cd_action :: action
  cd_clearance :: clearance
  cd_approval_deadline_ms :: "nat option"

definition cleared_new :: "action \<Rightarrow> clearance \<Rightarrow> cleared" where
  "cleared_new act cl =
     \<lparr>cd_feed_stamp = None, cd_action = act, cd_clearance = cl, cd_approval_deadline_ms = None\<rparr>"

section \<open>Proposals and audit rows\<close>

datatype proposal_intent = PiOrder order_intent | PiCancel cancel_intent

record proposal =
  pr_id :: string
  pr_agent :: agent_id
  pr_intent :: proposal_intent
  pr_route :: authorized_route
  pr_expires_at_ms :: nat
  pr_cancel_provenance :: "cancel_provenance option"

definition proposal_is_expired :: "proposal \<Rightarrow> nat \<Rightarrow> bool" where
  "proposal_is_expired p now_ms = (now_ms \<ge> pr_expires_at_ms p)"

datatype operator_action =
    OaPolicyAcknowledgmentRequested nat nat
  | OaAgentRegistered agent_guardrails "address option"
  | OaGuardrailsChanged "agent_guardrails option" agent_guardrails
  | OaAccountLimitsChanged loss_limits loss_limits
  | OaGlobalRateBudgetChanged global_rate_budget global_rate_budget
  | OaKillEngaged kill_scope kill_reason bool "agent_id btset"
  | OaKillReleased kill_scope bool
  | OaProposalRejected string

datatype audit_outcome = AoCleared clearance | AoRefused refusal | AoOperator operator_action

text \<open>The reason of a row is the agent's text, or a fixed text of the engine.\<close>

datatype audit_reason = AgentReason ustring | EngineReason string

record audit_entry =
  ae_agent :: "agent_id option"
  ae_at_ms :: nat
  ae_reason :: audit_reason
  ae_outcome :: audit_outcome

section \<open>Errors and ports\<close>

datatype guardrail_error =
    GeStore policy_error
  | GeInvalidConfig string string
  | GePolicy string
  | GeApproval string

text \<open>Rendered errors; an agent id is quoted without escapes.\<close>

definition state_error_text :: "state_error \<Rightarrow> string" where
  "state_error_text e =
     (case e of
        SeTimestampOutOfRange \<Rightarrow> ''policy timestamp out of range''
      | SeInvalidAgentId agent reason \<Rightarrow>
          ''invalid policy state: agent id '' @ [CHR 0x22] @ agent @ [CHR 0x22]
            @ '' is not usable in a keychain entry name: '' @ reason
      | SeInvalidConfig field detail \<Rightarrow> ''invalid policy state: '' @ field @ '': '' @ detail
      | SeNegativeAccountLimit \<Rightarrow> ''invalid policy state: account loss limits must not be negative''
      | SeKillTimestampOutOfRange \<Rightarrow> ''invalid policy state: kill timestamp is out of range''
      | SeNegativeLossEvidence \<Rightarrow> ''invalid policy state: kill loss evidence must not be negative''
      | SeEngagedAfterSnapshot \<Rightarrow> ''policy kill engagement is after its snapshot timestamp'')"

definition policy_error_text :: "policy_error \<Rightarrow> string" where
  "policy_error_text e =
     (case e of
        PeLedger s \<Rightarrow> s
      | PeMigrationRequired \<Rightarrow> ''policy authority requires explicit paused initialization''
      | PeStaleRevision expected actual \<Rightarrow>
          ''stale policy revision: expected '' @ nat_digits expected @ '', current '' @ nat_digits actual
      | PeRouteChanged \<Rightarrow> ''reviewed policy setup route changed''
      | PeUnavailable detail \<Rightarrow> ''policy authority unavailable: '' @ detail
      | PeInvalidState s \<Rightarrow> ''policy authority unavailable: '' @ state_error_text s)"

definition guardrail_error_text :: "guardrail_error \<Rightarrow> string" where
  "guardrail_error_text e =
     (case e of
        GeStore p \<Rightarrow> policy_error_text p
      | GeInvalidConfig field detail \<Rightarrow> ''guardrail config field '' @ field @ '' is invalid: '' @ detail
      | GePolicy detail \<Rightarrow> ''policy requires operator reconciliation: '' @ detail
      | GeApproval detail \<Rightarrow> ''approval authority unavailable: '' @ detail)"

record order_candidate =
  oc_agent :: agent_id
  oc_intent :: order_intent
  oc_route :: authorized_route
  oc_policy_revision :: nat
  oc_at_ms :: nat

text \<open>
  The store, the audit sink, and the journals a production engine has and a synthetic one lacks. The
  approval journal mints a proposal for a candidate; the submission journal answers a preflight and
  proves ownership of the orders of a cancellation.
\<close>

record 'w ports =
  po_load :: "'w \<Rightarrow> policy_error + policy_version"
  po_compare_exchange :: "nat \<Rightarrow> persisted_state \<Rightarrow> nat \<Rightarrow> 'w \<Rightarrow> (policy_error + policy_version) \<times> 'w"
  po_record :: "audit_entry \<Rightarrow> 'w \<Rightarrow> (string + unit) \<times> 'w"
  po_route_for_agent :: "agent_id \<Rightarrow> 'w \<Rightarrow> refusal + authorized_route"
  po_before_sign :: "clearance \<Rightarrow> agent_wallet \<Rightarrow> address \<Rightarrow> 'w \<Rightarrow> refusal + unit"
  po_mint :: "(order_candidate \<Rightarrow> 'w \<Rightarrow> (string + proposal) \<times> 'w) option"
  po_submission_preflight :: "(clearance \<Rightarrow> 'w \<Rightarrow> refusal + unit) option"

section \<open>State\<close>

record policy_acknowledgment =
  pa_revision :: nat
  pa_stop_generation :: nat

record policy_status =
  pt_cached_revision :: "nat option"
  pt_acknowledgment :: "policy_acknowledgment option"
  pt_stop_generation :: nat
  pt_admission_inhibited :: bool

record engine_state =
  es_policy_revision :: nat
  es_acknowledged :: "policy_acknowledgment option"
  es_activation_scope :: "authorized_route option"
  es_stop_generation :: nat
  es_emergency :: "(kill_scope, engagement) btree"
  es_kill_incarnations :: "(kill_scope, nat) btree"
  es_fresh_incarnation :: nat
  es_guardrails :: "(agent_id, agent_guardrails) btree"
  es_account_limits :: loss_limits
  es_kill :: kill_switch
  es_buckets :: "(agent_id, token_bucket) btree"
  es_active :: "agent_id btset"
  es_proposals :: "(string, proposal) btree"
  es_proposal_seq :: nat
  es_global_budget :: global_rate_budget
  es_global_bucket :: token_bucket
  es_pending_effects :: "kill_effect list"

definition engine_inhibit :: "engine_state \<Rightarrow> engine_state" where
  "engine_inhibit st =
     st\<lparr>es_acknowledged := None, es_activation_scope := None,
        es_stop_generation := sat_add64 (es_stop_generation st) 1\<rparr>"

definition engine_policy :: "engine_state \<Rightarrow> persisted_state" where
  "engine_policy st =
     \<lparr>pd_guardrails = es_guardrails st, pd_kill = es_kill st, pd_account_limits = es_account_limits st\<rparr>"

definition engine_publish :: "policy_version \<Rightarrow> engine_state \<Rightarrow> guardrail_error + engine_state" where
  "engine_publish version st =
     (if pv_revision version = 0 \<or> pv_revision version < es_policy_revision st
      then Inl (GePolicy ''policy observation regressed'')
      else if pv_revision version = es_policy_revision st \<and> pv_state version \<noteq> engine_policy st
      then Inl (GePolicy ''policy changed without a revision'')
      else Inr (st\<lparr>es_policy_revision := pv_revision version,
                   es_guardrails := pd_guardrails (pv_state version),
                   es_account_limits := pd_account_limits (pv_state version),
                   es_kill := pd_kill (pv_state version)\<rparr>))"

fun engage_each :: "(kill_scope \<times> engagement) list \<Rightarrow> kill_switch \<Rightarrow> kill_switch" where
  "engage_each [] kill = kill"
| "engage_each ((scope, e) # rest) kill = engage_each rest (snd (kill_engage scope e kill))"

definition effective_kill :: "engine_state \<Rightarrow> kill_switch" where
  "effective_kill st = engage_each (es_emergency st) (es_kill st)"

definition check_acknowledgment :: "engine_state \<Rightarrow> refusal + unit" where
  "check_acknowledgment st =
     (if es_policy_revision st = 0
         \<or> es_acknowledged st \<noteq> Some \<lparr>pa_revision = es_policy_revision st,
                                       pa_stop_generation = es_stop_generation st\<rparr>
      then Inl (RfUnevaluable (UnPolicyAuthority ''operator reconciliation acknowledgment required''))
      else Inr ())"

definition check_scoped_acknowledgment ::
  "authorized_route \<Rightarrow> bool \<Rightarrow> engine_state \<Rightarrow> refusal + unit" where
  "check_scoped_acknowledgment route supervised st =
     rbind (check_acknowledgment st) (\<lambda>_.
     if (supervised \<or> es_activation_scope st \<noteq> None) \<and> es_activation_scope st \<noteq> Some route
     then Inl (RfUnevaluable (UnPolicyAuthority ''acknowledgment does not cover this route''))
     else Inr ())"

definition cancel_targets :: "engine_state \<Rightarrow> kill_scope \<Rightarrow> agent_id btset" where
  "cancel_targets st scope =
     (case scope of ScopeGlobal \<Rightarrow> map fst (es_guardrails st) | ScopeAgent agent \<Rightarrow> [agent])"

definition engine_stop :: "kill_scope \<Rightarrow> engagement \<Rightarrow> engine_state \<Rightarrow> kill_effect \<times> engine_state" where
  "engine_stop scope e st =
     (let newly_engaged = fst (kill_engage scope e (effective_kill st));
          st1 = engine_inhibit (st\<lparr>es_emergency := bt_or_insert scope e (es_emergency st)\<rparr>);
          effect = \<lparr>ke_scope = scope, ke_newly_engaged = newly_engaged,
                    ke_cancel_for = cancel_targets st1 scope\<rparr>
      in (effect,
          if newly_engaged \<and> \<not> list_ex (\<lambda>x. ke_scope x = ke_scope effect) (es_pending_effects st1)
          then st1\<lparr>es_pending_effects := es_pending_effects st1 @ [effect]\<rparr> else st1))"

definition bucket_mut :: "agent_id \<Rightarrow> order_rate \<Rightarrow> nat \<Rightarrow> engine_state \<Rightarrow> token_bucket" where
  "bucket_mut agent rate now_ms st =
     (case map_of (es_buckets st) agent of
        None \<Rightarrow> bucket_new rate now_ms
      | Some bucket \<Rightarrow> if tb_rate bucket \<noteq> rate then bucket_new rate now_ms else bucket)"

definition put_bucket :: "agent_id \<Rightarrow> token_bucket \<Rightarrow> engine_state \<Rightarrow> engine_state" where
  "put_bucket agent b st = st\<lparr>es_buckets := bt_insert agent b (es_buckets st)\<rparr>"

definition sweep_proposals :: "nat \<Rightarrow> engine_state \<Rightarrow> engine_state" where
  "sweep_proposals now_ms st =
     st\<lparr>es_proposals := bt_retain (\<lambda>_ p. \<not> proposal_is_expired p now_ms) (es_proposals st)\<rparr>"

definition mint_proposal ::
  "agent_id \<Rightarrow> order_intent \<Rightarrow> authorized_route \<Rightarrow> nat \<Rightarrow> engine_state \<Rightarrow> string \<times> engine_state" where
  "mint_proposal agent intent route now_ms st =
     (let st1 = sweep_proposals now_ms st;
          seq = sat_add64 (es_proposal_seq st1) 1;
          id = agent @ ''-'' @ nat_digits now_ms @ ''-'' @ nat_digits seq;
          p = \<lparr>pr_id = id, pr_agent = agent, pr_intent = PiOrder intent, pr_route = route,
               pr_expires_at_ms = sat_add64 now_ms APPROVAL_TTL_MS, pr_cancel_provenance = None\<rparr>
      in (id, st1\<lparr>es_proposal_seq := seq, es_proposals := bt_insert id p (es_proposals st1)\<rparr>))"

section \<open>The engine\<close>

record engine_config =
  ec_network :: network
  ec_supervised_alpha :: bool
  ec_owner :: nat

record 'w sys =
  sy_state :: engine_state
  sy_world :: 'w

definition engine_state_empty :: engine_state where
  "engine_state_empty =
     \<lparr>es_policy_revision = 0, es_acknowledged = None, es_activation_scope = None,
      es_stop_generation = 0, es_emergency = [], es_kill_incarnations = [], es_fresh_incarnation = 0,
      es_guardrails = [], es_account_limits = loss_limits_unset, es_kill = kill_switch_new,
      es_buckets = [], es_active = [], es_proposals = [], es_proposal_seq = 0,
      es_global_budget = global_rate_budget_default,
      es_global_bucket = bucket_new (gb_rate global_rate_budget_default) 0,
      es_pending_effects = []\<rparr>"

definition network_text :: "network \<Rightarrow> string" where
  "network_text n = (case n of Testnet \<Rightarrow> ''Testnet'' | Mainnet \<Rightarrow> ''Mainnet'')"

definition engine_build :: "'w ports \<Rightarrow> network \<Rightarrow> network \<Rightarrow> 'w \<Rightarrow> guardrail_error + 'w sys" where
  "engine_build P keys_network network w =
     (if keys_network \<noteq> network
      then Inl (GeInvalidConfig ''keys.network''
             (''the key store holds '' @ network_text keys_network
              @ '' wallets and this engine is bound to '' @ network_text network))
      else
        Inr \<lparr>sy_state =
               (case po_load P w of
                  Inl _ \<Rightarrow> engine_state_empty
                | Inr version \<Rightarrow>
                    (case engine_publish version engine_state_empty of
                       Inl _ \<Rightarrow> engine_state_empty | Inr st \<Rightarrow> st)),
             sy_world = w\<rparr>)"

abbreviation on_state :: "(engine_state \<Rightarrow> engine_state) \<Rightarrow> 'w sys \<Rightarrow> 'w sys" where
  "on_state f s \<equiv> s\<lparr>sy_state := f (sy_state s)\<rparr>"

definition engine_observe ::
  "policy_error + policy_version \<Rightarrow> 'w sys \<Rightarrow> (guardrail_error + unit) \<times> 'w sys" where
  "engine_observe r s =
     (case r of
        Inl e \<Rightarrow> (Inl (GeStore e), on_state engine_inhibit s)
      | Inr version \<Rightarrow>
          (case engine_publish version (sy_state s) of
             Inl e \<Rightarrow> (Inl e, on_state engine_inhibit s)
           | Inr st \<Rightarrow> (Inr (), s\<lparr>sy_state := st\<rparr>)))"

definition refresh_policy :: "'w ports \<Rightarrow> 'w sys \<Rightarrow> (guardrail_error + unit) \<times> 'w sys" where
  "refresh_policy P s = engine_observe (po_load P (sy_world s)) s"

definition policy_observation :: "'w ports \<Rightarrow> 'w sys \<Rightarrow> (guardrail_error + policy_acknowledgment) \<times> 'w sys" where
  "policy_observation P s =
     (case refresh_policy P s of
        (Inl e, s1) \<Rightarrow> (Inl e, s1)
      | (Inr _, s1) \<Rightarrow>
          (Inr \<lparr>pa_revision = es_policy_revision (sy_state s1),
                pa_stop_generation = es_stop_generation (sy_state s1)\<rparr>, s1))"

definition policy_status_of :: "engine_state \<Rightarrow> policy_status" where
  "policy_status_of st =
     \<lparr>pt_cached_revision = (if es_policy_revision st \<noteq> 0 then Some (es_policy_revision st) else None),
      pt_acknowledgment = es_acknowledged st, pt_stop_generation = es_stop_generation st,
      pt_admission_inhibited = (\<not> is_ok (check_acknowledgment st))\<rparr>"

definition commit_policy ::
  "'w ports \<Rightarrow> nat \<Rightarrow> persisted_state \<Rightarrow> nat \<Rightarrow> 'w sys \<Rightarrow> (guardrail_error + unit) \<times> 'w sys" where
  "commit_policy P expected next at_ms s =
     (let s1 = on_state (\<lambda>st. st\<lparr>es_acknowledged := None\<rparr>) s
      in case po_compare_exchange P expected next at_ms (sy_world s1) of
           (r, w) \<Rightarrow> engine_observe r (s1\<lparr>sy_world := w\<rparr>))"

definition policy_candidate :: "engine_state \<Rightarrow> guardrail_error + (nat \<times> persisted_state)" where
  "policy_candidate st =
     (if es_policy_revision st = 0 then Inl (GePolicy ''verified policy unavailable'')
      else Inr (es_policy_revision st, engine_policy st))"

definition record_operator ::
  "'w ports \<Rightarrow> agent_id option \<Rightarrow> nat \<Rightarrow> operator_action \<Rightarrow> 'w sys \<Rightarrow> 'w sys" where
  "record_operator P agent now_ms action s =
     s\<lparr>sy_world := snd (po_record P
          \<lparr>ae_agent = agent, ae_at_ms = now_ms, ae_reason = EngineReason ''operator'',
           ae_outcome = AoOperator action\<rparr> (sy_world s))\<rparr>"

text \<open>A policy change: commit a candidate, then record it; the shape its five callers share.\<close>

definition change_policy ::
  "'w ports \<Rightarrow> (persisted_state \<Rightarrow> persisted_state) \<Rightarrow> agent_id option \<Rightarrow> nat \<Rightarrow>
     (persisted_state \<Rightarrow> operator_action) \<Rightarrow> 'w sys \<Rightarrow> (guardrail_error + unit) \<times> 'w sys" where
  "change_policy P edit agent now_ms action s =
     (case policy_candidate (sy_state s) of
        Inl e \<Rightarrow> (Inl e, s)
      | Inr (revision, before) \<Rightarrow>
          (case commit_policy P revision (edit before) now_ms s of
             (Inl e, s1) \<Rightarrow> (Inl e, s1)
           | (Inr _, s1) \<Rightarrow> (Inr (), record_operator P agent now_ms (action before) s1)))"

section \<open>Acknowledging the policy\<close>

text \<open>The two critical sections of \<open>operator_acknowledge_policy\<close>, around its audit row.\<close>

definition ack_matches :: "policy_acknowledgment \<Rightarrow> engine_state \<Rightarrow> bool" where
  "ack_matches observed st =
     (pa_revision observed = es_policy_revision st \<and> pa_stop_generation observed = es_stop_generation st
      \<and> pa_stop_generation observed \<noteq> U64_MAX)"

definition ack_mismatch :: guardrail_error where
  "ack_mismatch = GePolicy ''policy or stop generation changed during reconciliation''"

definition ack_begin :: "policy_acknowledgment \<Rightarrow> engine_state \<Rightarrow> (guardrail_error + unit) \<times> engine_state" where
  "ack_begin observed st =
     (if \<not> ack_matches observed st then (Inl ack_mismatch, engine_inhibit st)
      else (Inr (), st\<lparr>es_acknowledged := None\<rparr>))"

definition ack_grant :: "policy_acknowledgment \<Rightarrow> engine_state \<Rightarrow> (guardrail_error + unit) \<times> engine_state" where
  "ack_grant observed st =
     (if \<not> ack_matches observed st then (Inl ack_mismatch, engine_inhibit st)
      else (Inr (), st\<lparr>es_acknowledged := Some observed\<rparr>))"

text \<open>The section of \<open>guardrail/activation.rs\<close> that scopes an acknowledgment to one route.\<close>

definition activation_check_local ::
  "authorized_route \<Rightarrow> nat \<Rightarrow> nat \<Rightarrow> engine_state \<Rightarrow> refusal + unit" where
  "activation_check_local route revision generation st =
     (if generation = U64_MAX \<or> es_stop_generation st \<noteq> generation \<or> es_policy_revision st \<noteq> revision
         \<or> es_acknowledged st \<noteq> None
      then Inl (RfUnevaluable (UnActivationAuthority ''policy, local stop or admission changed since review''))
      else case kill_blocking (effective_kill st) (rb_agent (rt_binding route)) of
             Some (scope, e) \<Rightarrow> Inl (RfTradingPaused scope (eg_engaged_at_ms e) (eg_reason e))
           | None \<Rightarrow> Inr ())"

definition activation_grant ::
  "authorized_route \<Rightarrow> nat \<Rightarrow> nat \<Rightarrow> engine_state \<Rightarrow> (refusal + unit) \<times> engine_state" where
  "activation_grant route revision generation st =
     (case activation_check_local route revision generation st of
        Inl r \<Rightarrow> (Inl r, engine_inhibit st)
      | Inr _ \<Rightarrow>
          (Inr (), st\<lparr>es_activation_scope := Some route,
                      es_acknowledged := Some \<lparr>pa_revision = revision, pa_stop_generation = generation\<rparr>\<rparr>))"

definition operator_acknowledge_policy ::
  "engine_config \<Rightarrow> 'w ports \<Rightarrow> policy_acknowledgment \<Rightarrow> nat \<Rightarrow> 'w sys \<Rightarrow> (guardrail_error + unit) \<times> 'w sys" where
  "operator_acknowledge_policy C P observed at_ms s =
     (if ec_supervised_alpha C then (Inl (GePolicy ''supervised alpha requires bound activation review''), s)
      else case refresh_policy P s of
        (Inl e, s1) \<Rightarrow> (Inl e, s1)
      | (Inr _, s1) \<Rightarrow>
          (case ack_begin observed (sy_state s1) of
             (Inl e, st) \<Rightarrow> (Inl e, s1\<lparr>sy_state := st\<rparr>)
           | (Inr _, st) \<Rightarrow>
               (case po_record P
                  \<lparr>ae_agent = None, ae_at_ms = at_ms,
                   ae_reason = EngineReason ''operator acknowledgment request; venue validation is caller-owned'',
                   ae_outcome = AoOperator (OaPolicyAcknowledgmentRequested (pa_revision observed)
                                              (pa_stop_generation observed))\<rparr> (sy_world s1) of
                  (Inl err, w) \<Rightarrow>
                    (Inl (GePolicy (''acknowledgment audit failed: '' @ err)),
                     \<lparr>sy_state = engine_inhibit st, sy_world = w\<rparr>)
                | (Inr _, w) \<Rightarrow>
                    (case ack_grant observed st of (r, st2) \<Rightarrow> (r, \<lparr>sy_state = st2, sy_world = w\<rparr>)))))"

section \<open>Operator changes\<close>

definition register_agent ::
  "'w ports \<Rightarrow> agent_id \<Rightarrow> nat \<Rightarrow> 'w sys \<Rightarrow> (guardrail_error + agent_guardrails) \<times> 'w sys" where
  "register_agent P agent now_ms s =
     (case policy_candidate (sy_state s) of
        Inl e \<Rightarrow> (Inl e, s)
      | Inr (revision, next) \<Rightarrow>
          (case map_of (pd_guardrails next) agent of
             Some existing \<Rightarrow> (Inr existing, s)
           | None \<Rightarrow>
               (case change_policy P
                  (\<lambda>p. p\<lparr>pd_guardrails := bt_insert agent agent_guardrails_default (pd_guardrails p)\<rparr>)
                  (Some agent) now_ms (\<lambda>_. OaAgentRegistered agent_guardrails_default None) s of
                  (Inl e, s1) \<Rightarrow> (Inl e, s1)
                | (Inr _, s1) \<Rightarrow> (Inr agent_guardrails_default, s1))))"

definition operator_set_guardrails ::
  "'w ports \<Rightarrow> agent_id \<Rightarrow> agent_guardrails \<Rightarrow> nat \<Rightarrow> 'w sys \<Rightarrow> (guardrail_error + unit) \<times> 'w sys" where
  "operator_set_guardrails P agent config now_ms s =
     (case agent_guardrails_validate config of
        Inl (field, detail) \<Rightarrow> (Inl (GeInvalidConfig field detail), s)
      | Inr _ \<Rightarrow>
          change_policy P (\<lambda>p. p\<lparr>pd_guardrails := bt_insert agent config (pd_guardrails p)\<rparr>)
            (Some agent) now_ms (\<lambda>p. OaGuardrailsChanged (map_of (pd_guardrails p) agent) config) s)"

definition operator_set_account_limits ::
  "'w ports \<Rightarrow> loss_limits \<Rightarrow> nat \<Rightarrow> 'w sys \<Rightarrow> (guardrail_error + unit) \<times> 'w sys" where
  "operator_set_account_limits P limits now_ms s =
     change_policy P (\<lambda>p. p\<lparr>pd_account_limits := limits\<rparr>) None now_ms
       (\<lambda>p. OaAccountLimitsChanged (pd_account_limits p) limits) s"

definition operator_set_global_rate_budget ::
  "'w ports \<Rightarrow> global_rate_budget \<Rightarrow> nat \<Rightarrow> 'w sys \<Rightarrow> (guardrail_error + unit) \<times> 'w sys" where
  "operator_set_global_rate_budget P budget now_ms s =
     (case global_rate_budget_validate budget of
        Inl (field, detail) \<Rightarrow> (Inl (GeInvalidConfig field detail), s)
      | Inr _ \<Rightarrow>
          let before = es_global_budget (sy_state s);
              s1 = on_state (\<lambda>st. st\<lparr>es_global_budget := budget,
                     es_global_bucket := (if tb_rate (es_global_bucket st) \<noteq> gb_rate budget
                                          then bucket_new (gb_rate budget) now_ms
                                          else es_global_bucket st)\<rparr>) s
          in (Inr (), record_operator P None now_ms (OaGlobalRateBudgetChanged before budget) s1))"

section \<open>The kill switch\<close>

record pending_operator_kill =
  pk_owner :: nat
  pk_incarnation :: nat
  pk_requested_reason :: kill_reason
  pk_effect :: kill_effect
  pk_engagement :: engagement
  pk_generation :: nat
  pk_at_ms :: nat

definition begin_operator_kill ::
  "engine_config \<Rightarrow> kill_scope \<Rightarrow> kill_reason \<Rightarrow> nat \<Rightarrow> engine_state \<Rightarrow> pending_operator_kill \<times> engine_state" where
  "begin_operator_kill C scope reason now_ms st =
     (let e = \<lparr>eg_engaged_at_ms = now_ms, eg_reason = reason\<rparr>;
          effect = fst (engine_stop scope e st);
          st1 = snd (engine_stop scope e st);
          e' = (case map_of (es_emergency st1) scope of Some x \<Rightarrow> x | None \<Rightarrow> e);
          st2 = (case map_of (es_kill_incarnations st1) scope of
                   Some _ \<Rightarrow> st1
                 | None \<Rightarrow> st1\<lparr>es_kill_incarnations :=
                             bt_insert scope (es_fresh_incarnation st1) (es_kill_incarnations st1),
                             es_fresh_incarnation := es_fresh_incarnation st1 + 1\<rparr>);
          incarnation = (case map_of (es_kill_incarnations st2) scope of Some i \<Rightarrow> i | None \<Rightarrow> 0)
      in (\<lparr>pk_owner = ec_owner C, pk_incarnation = incarnation, pk_requested_reason = reason,
           pk_effect = effect, pk_engagement = e', pk_generation = es_stop_generation st2,
           pk_at_ms = now_ms\<rparr>, st2))"

definition persist_operator_kill ::
  "engine_config \<Rightarrow> 'w ports \<Rightarrow> pending_operator_kill \<Rightarrow> 'w sys \<Rightarrow> (guardrail_error + kill_effect) \<times> 'w sys" where
  "persist_operator_kill C P pending s =
     (if pk_owner pending \<noteq> ec_owner C then (Inl (GePolicy ''pending HALT belongs to another engine''), s)
      else if \<not> is_some_and (\<lambda>i. i = pk_incarnation pending)
                  (map_of (es_kill_incarnations (sy_state s)) (ke_scope (pk_effect pending)))
      then (Inl (GePolicy ''pending HALT was replaced or explicitly released''), s)
      else case refresh_policy P s of
        (Inl e, s1) \<Rightarrow> (Inl e, s1)
      | (Inr _, s1) \<Rightarrow>
          (case change_policy P
             (\<lambda>p. p\<lparr>pd_kill := snd (kill_engage (ke_scope (pk_effect pending)) (pk_engagement pending)
                                     (pd_kill p))\<rparr>)
             None (pk_at_ms pending)
             (\<lambda>_. OaKillEngaged (ke_scope (pk_effect pending)) (pk_requested_reason pending)
                    (ke_newly_engaged (pk_effect pending)) (ke_cancel_for (pk_effect pending))) s1 of
             (Inl e, s2) \<Rightarrow> (Inl e, s2)
           | (Inr _, s2) \<Rightarrow> (Inr (pk_effect pending), s2)))"

definition operator_engage_kill ::
  "engine_config \<Rightarrow> 'w ports \<Rightarrow> kill_scope \<Rightarrow> kill_reason \<Rightarrow> nat \<Rightarrow> 'w sys \<Rightarrow>
     (guardrail_error + kill_effect) \<times> 'w sys" where
  "operator_engage_kill C P scope reason now_ms s =
     (case begin_operator_kill C scope reason now_ms (sy_state s) of
        (pending, st) \<Rightarrow> persist_operator_kill C P pending (s\<lparr>sy_state := st\<rparr>))"

text \<open>The sections of \<open>operator_release_kill\<close>: what it captures, and what it does after the commit.\<close>

record release_capture =
  rc_revision :: nat
  rc_policy :: persisted_state
  rc_generation :: nat
  rc_had_emergency :: bool

definition release_begin :: "kill_scope \<Rightarrow> engine_state \<Rightarrow> guardrail_error + release_capture" where
  "release_begin scope st =
     (if es_policy_revision st = 0 then Inl (GePolicy ''verified policy unavailable'')
      else Inr \<lparr>rc_revision = es_policy_revision st, rc_policy = engine_policy st,
                rc_generation = es_stop_generation st,
                rc_had_emergency = bt_contains (es_emergency st) scope\<rparr>)"

definition release_finish :: "kill_scope \<Rightarrow> nat \<Rightarrow> engine_state \<Rightarrow> (guardrail_error + unit) \<times> engine_state" where
  "release_finish scope generation st =
     (if es_stop_generation st = generation
      then (Inr (), st\<lparr>es_emergency := bt_remove scope (es_emergency st),
                       es_kill_incarnations := bt_remove scope (es_kill_incarnations st)\<rparr>)
      else (Inl (GePolicy ''new stop arrived while releasing policy''), st))"

definition operator_release_kill ::
  "'w ports \<Rightarrow> kill_scope \<Rightarrow> nat \<Rightarrow> 'w sys \<Rightarrow> (guardrail_error + bool) \<times> 'w sys" where
  "operator_release_kill P scope now_ms s =
     (case release_begin scope (sy_state s) of
        Inl e \<Rightarrow> (Inl e, s)
      | Inr c \<Rightarrow>
          let (was, kill) = kill_release scope (pd_kill (rc_policy c));
              released = (was \<or> rc_had_emergency c)
          in (case commit_policy P (rc_revision c) ((rc_policy c)\<lparr>pd_kill := kill\<rparr>) now_ms s of
                (Inl e, s1) \<Rightarrow> (Inl e, s1)
              | (Inr _, s1) \<Rightarrow>
                  (case release_finish scope (rc_generation c) (sy_state s1) of
                     (Inl e, st) \<Rightarrow> (Inl e, s1\<lparr>sy_state := st\<rparr>)
                   | (Inr _, st) \<Rightarrow>
                       (Inr released,
                        record_operator P None now_ms (OaKillReleased scope released)
                          (s1\<lparr>sy_state := st\<rparr>)))))"

definition cancellation_needed :: "agent_id \<Rightarrow> engine_state \<Rightarrow> bool" where
  "cancellation_needed agent st =
     (\<not> is_ok (check_acknowledgment st) \<or> kill_blocking (effective_kill st) agent \<noteq> None)"

definition paused_agents :: "engine_state \<Rightarrow> agent_id btset" where
  "paused_agents st =
     filter (\<lambda>agent. kill_blocking (effective_kill st) agent \<noteq> None) (map fst (es_guardrails st))"

definition take_pending_kill_effects :: "engine_state \<Rightarrow> kill_effect list \<times> engine_state" where
  "take_pending_kill_effects st = (es_pending_effects st, st\<lparr>es_pending_effects := []\<rparr>)"

section \<open>Reads and the approval queue\<close>

definition engine_loss_budget :: "declib \<Rightarrow> agent_id \<Rightarrow> exposure \<Rightarrow> nat \<Rightarrow> engine_state \<Rightarrow> loss_budget list" where
  "engine_loss_budget D agent ex now_ms st =
     (case map_of (es_guardrails st) agent of
        Some config \<Rightarrow> gauge D BudgetAgent (ag_loss config) (ex_agent ex) now_ms
      | None \<Rightarrow> [])
     @ (case ex_fleet ex of
          Some fleet \<Rightarrow> gauge D BudgetAccount (es_account_limits st) fleet now_ms
        | None \<Rightarrow> [])"

text \<open>The queue of an engine without an approval journal.\<close>

definition pending_proposals :: "nat \<Rightarrow> engine_state \<Rightarrow> proposal list \<times> engine_state" where
  "pending_proposals now_ms st =
     (let st1 = sweep_proposals now_ms st in (map snd (es_proposals st1), st1))"

definition operator_reject_proposal ::
  "'w ports \<Rightarrow> string \<Rightarrow> nat \<Rightarrow> 'w sys \<Rightarrow> (guardrail_error + bool) \<times> 'w sys" where
  "operator_reject_proposal P approval_id now_ms s =
     (let removed = bt_contains (es_proposals (sy_state s)) approval_id;
          s1 = on_state (\<lambda>st. st\<lparr>es_proposals := bt_remove approval_id (es_proposals st)\<rparr>) s
      in if \<not> removed then (Inr False, s1)
         else case po_record P
                \<lparr>ae_agent = None, ae_at_ms = now_ms, ae_reason = EngineReason ''operator'',
                 ae_outcome = AoOperator (OaProposalRejected approval_id)\<rparr> (sy_world s1) of
                (Inl err, w) \<Rightarrow> (Inl (GeApproval err), s1\<lparr>sy_world := w\<rparr>)
              | (Inr _, w) \<Rightarrow> (Inr True, s1\<lparr>sy_world := w\<rparr>))"

definition set_agent_active :: "agent_id \<Rightarrow> bool \<Rightarrow> engine_state \<Rightarrow> engine_state" where
  "set_agent_active agent active st =
     st\<lparr>es_active := (if active then bs_insert agent (es_active st) else bs_remove agent (es_active st))\<rparr>"

definition engine_dead_man_intent :: "agent_id \<Rightarrow> nat \<Rightarrow> nat option \<Rightarrow> engine_state \<Rightarrow> dead_man_intent" where
  "engine_dead_man_intent agent now_ms armed_until_ms st =
     deadman_evaluate now_ms (agent \<in> set (es_active st)) armed_until_ms"

definition validate_route :: "authorized_route \<Rightarrow> agent_id \<Rightarrow> network \<Rightarrow> refusal + unit" where
  "validate_route route agent network =
     (if rt_network route \<noteq> network \<or> rb_agent (rt_binding route) \<noteq> agent \<or> rt_binding_seq route = 0
         \<or> is_some_and (\<lambda>vault. vault \<noteq> rb_container (rt_binding route)) (rb_vault_address (rt_binding route))
      then Inl (route_refusal ''registry route identity is inconsistent'') else Inr ())"

definition route_for_agent ::
  "engine_config \<Rightarrow> 'w ports \<Rightarrow> agent_id \<Rightarrow> 'w sys \<Rightarrow> refusal + authorized_route" where
  "route_for_agent C P agent s =
     rbind (po_route_for_agent P agent (sy_world s)) (\<lambda>route.
     rbind (validate_route route agent (ec_network C)) (\<lambda>_. Inr route))"

definition decision_route ::
  "engine_config \<Rightarrow> 'w ports \<Rightarrow> agent_id \<Rightarrow> 'w sys \<Rightarrow> refusal + authorized_route" where
  "decision_route C P agent s =
     (if map_of (es_guardrails (sy_state s)) agent = None
      then Inl (RfUnevaluable (UnUnknownAgent agent)) else route_for_agent C P agent s)"

end
