(* ===== verification/Engine_Control.thy ===== *)
theory Engine_Control
  imports Engine_State
begin

text \<open>
  What the engine's control state guarantees: stops and acknowledgments as a step relation over the
  critical sections of \<open>guardrail/engine.rs\<close>, the kill switch across restarts, the policy cache
  against the journal, the queue of cancel effects and the approval queue.
\<close>

section \<open>The effective switch\<close>

lemma engage_each_engaged:
  "kill_engagement (engage_each es k) t =
     (case kill_engagement k t of Some e \<Rightarrow> Some e | None \<Rightarrow> map_of es t)"
proof -
  have "engage_each es k = ks.engage_all es k"
    by (induction es k rule: engage_each.induct) (simp_all add: ks.engage_all.simps)
  then show ?thesis by (simp add: ks.engage_all_engaged)
qed

lemma effective_engaged:
  "kill_engagement (effective_kill st) t =
     (case kill_engagement (es_kill st) t of Some e \<Rightarrow> Some e | None \<Rightarrow> map_of (es_emergency st) t)"
  by (simp add: effective_kill_def engage_each_engaged)

lemma effective_blocking_None:
  "kill_blocking (effective_kill st) agent = None \<longleftrightarrow>
     (\<forall>t. scope_covers t agent \<longrightarrow> kill_engagement (es_kill st) t = None \<and> map_of (es_emergency st) t = None)"
proof -
  have all: "(\<forall>t. scope_covers t agent \<longrightarrow> Q t) \<longleftrightarrow> Q ScopeGlobal \<and> Q (ScopeAgent agent)" for Q
  proof -
    have "scope_covers t agent \<longleftrightarrow> t = ScopeGlobal \<or> t = ScopeAgent agent" for t
      by (cases t) (auto simp: scope_covers_def)
    then show ?thesis by auto
  qed
  show ?thesis unfolding all by (auto simp: kill_blocking_None effective_engaged split: option.splits)
qed

lemma emergency_blocks:
  "map_of (es_emergency st) t \<noteq> None \<Longrightarrow> scope_covers t agent \<Longrightarrow>
     kill_blocking (effective_kill st) agent \<noteq> None"
  by (auto simp: effective_blocking_None)

lemma check_acknowledgment_ok:
  "check_acknowledgment st = Inr () \<longleftrightarrow>
     es_policy_revision st \<noteq> 0
     \<and> es_acknowledged st = Some \<lparr>pa_revision = es_policy_revision st, pa_stop_generation = es_stop_generation st\<rparr>"
  by (auto simp: check_acknowledgment_def)

lemma check_scoped_acknowledgment_ok:
  "check_scoped_acknowledgment route supervised st = Inr () \<longleftrightarrow>
     check_acknowledgment st = Inr ()
     \<and> (supervised \<or> es_activation_scope st \<noteq> None \<longrightarrow> es_activation_scope st = Some route)"
  by (auto simp: check_scoped_acknowledgment_def result_inv)

section \<open>Control steps\<close>

text \<open>
  The sections that touch the control state, as any thread may run them. \<open>gs\<close> are the stop
  generations that acknowledgments and releases in flight captured; a step that only moves rate
  buckets, proposals, budgets or activity keeps the control fields.
\<close>

definition same_control :: "engine_state \<Rightarrow> engine_state \<Rightarrow> bool" where
  "same_control st st' =
     (es_policy_revision st' = es_policy_revision st \<and> es_acknowledged st' = es_acknowledged st
      \<and> es_activation_scope st' = es_activation_scope st \<and> es_stop_generation st' = es_stop_generation st
      \<and> es_emergency st' = es_emergency st \<and> es_kill_incarnations st' = es_kill_incarnations st
      \<and> es_guardrails st' = es_guardrails st \<and> es_account_limits st' = es_account_limits st
      \<and> es_kill st' = es_kill st)"

inductive control_step :: "nat set \<Rightarrow> engine_state \<Rightarrow> engine_state \<Rightarrow> bool" for gs where
  cs_inhibit: "control_step gs st (engine_inhibit st)"
| cs_stop: "control_step gs st (snd (engine_stop scope e st))"
| cs_kill: "control_step gs st (snd (begin_operator_kill C scope reason now st))"
| cs_publish: "engine_publish v st = Inr st' \<Longrightarrow> control_step gs st st'"
| cs_unacknowledge: "control_step gs st (st\<lparr>es_acknowledged := None\<rparr>)"
| cs_ack_begin: "control_step gs st (snd (ack_begin observed st))"
| cs_ack_grant: "pa_stop_generation observed \<in> gs \<Longrightarrow> control_step gs st (snd (ack_grant observed st))"
| cs_activate: "g \<in> gs \<Longrightarrow> control_step gs st (snd (activation_grant route revision g st))"
| cs_release: "g \<in> gs \<Longrightarrow> control_step gs st (snd (release_finish scope g st))"
| cs_other: "same_control st st' \<Longrightarrow> control_step gs st st'"

inductive_cases control_stepE: "control_step gs st st'"

lemma inhibit_fields [simp]:
  "es_acknowledged (engine_inhibit st) = None"
  "es_activation_scope (engine_inhibit st) = None"
  "es_stop_generation (engine_inhibit st) = sat_add64 (es_stop_generation st) 1"
  "es_emergency (engine_inhibit st) = es_emergency st"
  "es_kill (engine_inhibit st) = es_kill st"
  "es_guardrails (engine_inhibit st) = es_guardrails st"
  "es_account_limits (engine_inhibit st) = es_account_limits st"
  "es_policy_revision (engine_inhibit st) = es_policy_revision st"
  "es_pending_effects (engine_inhibit st) = es_pending_effects st"
  "es_kill_incarnations (engine_inhibit st) = es_kill_incarnations st"
  by (simp_all add: engine_inhibit_def)

lemma stop_fields [simp]:
  "es_acknowledged (snd (engine_stop scope e st)) = None"
  "es_activation_scope (snd (engine_stop scope e st)) = None"
  "es_stop_generation (snd (engine_stop scope e st)) = sat_add64 (es_stop_generation st) 1"
  "es_emergency (snd (engine_stop scope e st)) = bt_or_insert scope e (es_emergency st)"
  "es_kill (snd (engine_stop scope e st)) = es_kill st"
  "es_guardrails (snd (engine_stop scope e st)) = es_guardrails st"
  "es_account_limits (snd (engine_stop scope e st)) = es_account_limits st"
  "es_policy_revision (snd (engine_stop scope e st)) = es_policy_revision st"
  "es_kill_incarnations (snd (engine_stop scope e st)) = es_kill_incarnations st"
  by (simp_all add: engine_stop_def Let_def)

lemma begin_kill_fields [simp]:
  "es_acknowledged (snd (begin_operator_kill C scope reason now st)) = None"
  "es_stop_generation (snd (begin_operator_kill C scope reason now st)) = sat_add64 (es_stop_generation st) 1"
  "es_emergency (snd (begin_operator_kill C scope reason now st)) =
     bt_or_insert scope \<lparr>eg_engaged_at_ms = now, eg_reason = reason\<rparr> (es_emergency st)"
  by (simp_all add: begin_operator_kill_def Let_def split: option.split)

lemma publish_fields:
  "engine_publish v st = Inr st' \<Longrightarrow>
     es_acknowledged st' = es_acknowledged st \<and> es_stop_generation st' = es_stop_generation st
     \<and> es_emergency st' = es_emergency st \<and> es_kill_incarnations st' = es_kill_incarnations st
     \<and> es_policy_revision st' = pv_revision v \<and> engine_policy st' = pv_state v
     \<and> es_policy_revision st \<le> es_policy_revision st'"
  by (auto simp: engine_publish_def engine_policy_def split: if_splits)

lemma map_of_or_insert_keeps:
  "map_of m k \<noteq> None \<Longrightarrow> map_of (bt_or_insert k' v m) k \<noteq> None"
  by (auto simp: map_of_bt_or_insert split: option.splits)

lemma map_of_or_insert_self: "map_of (bt_or_insert k v m) k \<noteq> None"
  by (auto simp: map_of_bt_or_insert split: option.splits)

text \<open>While only captures older than the current generation are in flight, a stop stands.\<close>

definition stopped_since :: "nat \<Rightarrow> kill_scope \<Rightarrow> engine_state \<Rightarrow> bool" where
  "stopped_since g scope st =
     (g < es_stop_generation st \<and> es_stop_generation st \<le> U64_MAX \<and> es_acknowledged st = None
      \<and> map_of (es_emergency st) scope \<noteq> None)"

lemma stopped_inhibit: "stopped_since g scope st \<Longrightarrow> stopped_since g scope (engine_inhibit st)"
  by (auto simp: stopped_since_def sat_add64_def sat_u64_def)

lemma stopped_since_step:
  assumes "control_step {..g} st st'" and "stopped_since g scope st"
  shows "stopped_since g scope st'"
  using assms
proof (cases rule: control_step.cases)
  case (cs_stop scope e)
  then show ?thesis
    using assms(2) map_of_or_insert_keeps by (fastforce simp: stopped_since_def sat_add64_def sat_u64_def)
next
  case (cs_kill C scope reason now)
  then show ?thesis
    using assms(2) map_of_or_insert_keeps by (fastforce simp: stopped_since_def sat_add64_def sat_u64_def)
next
  case (cs_publish v)
  then show ?thesis using assms(2) publish_fields [OF cs_publish(1)] by (simp add: stopped_since_def)
next
  case (cs_ack_begin observed)
  then show ?thesis
    using assms(2) stopped_inhibit [OF assms(2)] by (simp add: ack_begin_def stopped_since_def)
next
  case (cs_ack_grant observed)
  then have "\<not> ack_matches observed st" using assms(2) by (auto simp: ack_matches_def stopped_since_def)
  then show ?thesis using cs_ack_grant stopped_inhibit [OF assms(2)] by (simp add: ack_grant_def)
next
  case (cs_activate g' route revision)
  then have "es_stop_generation st \<noteq> g'" using assms(2) by (auto simp: stopped_since_def)
  then show ?thesis
    using cs_activate stopped_inhibit [OF assms(2)]
    by (simp add: activation_grant_def activation_check_local_def)
next
  case (cs_release g' scope')
  then show ?thesis using assms(2) by (auto simp: release_finish_def stopped_since_def)
qed (auto simp: same_control_def stopped_since_def sat_add64_def sat_u64_def)

lemma stopped_since_run:
  "(control_step {..g})\<^sup>*\<^sup>* st st' \<Longrightarrow> stopped_since g scope st \<Longrightarrow> stopped_since g scope st'"
  by (induction rule: rtranclp_induct) (auto intro: stopped_since_step)

section \<open>Stops and acknowledgments\<close>


definition sample_engine :: engine_state where
  "sample_engine =
     engine_state_empty\<lparr>es_policy_revision := 4, es_guardrails := pd_guardrails sample_policy,
        es_acknowledged := Some \<lparr>pa_revision = 4, pa_stop_generation = 0\<rparr>\<rparr>"


text \<open>
  An exhausted stop generation never admits an order again. In every reachable control state an
  acknowledgment that stands was given for a generation below the maximum, so that once the
  generation counter saturates no sequence of acknowledgments and activations passes the check.
\<close>

definition ack_inv :: "engine_state \<Rightarrow> bool" where
  "ack_inv st = is_none_or (\<lambda>a. pa_stop_generation a \<noteq> U64_MAX) (es_acknowledged st)"

lemma ack_inv_step: "control_step gs st st' \<Longrightarrow> ack_inv st \<Longrightarrow> ack_inv st'"
proof (induction rule: control_step.induct)
  case (cs_publish v st st')
  then show ?case using publish_fields [OF cs_publish(1)] by (simp add: ack_inv_def)
next
  case (cs_activate g st route revision)
  then show ?case
    by (auto simp: ack_inv_def activation_grant_def activation_check_local_def split: sum.splits if_splits)
qed (auto simp: ack_inv_def ack_begin_def ack_grant_def ack_matches_def release_finish_def same_control_def)

theorem exhausted_generation_never_admits:
  assumes "(control_step gs)\<^sup>*\<^sup>* engine_state_empty st" and "es_stop_generation st = U64_MAX"
  shows "check_acknowledgment st \<noteq> Inr ()"
proof -
  from assms(1) have "ack_inv st"
    by (induction rule: rtranclp_induct) (auto simp: ack_inv_step, simp add: ack_inv_def engine_state_empty_def)
  then show ?thesis using assms(2) by (auto simp: ack_inv_def check_acknowledgment_ok)
qed

theorem exhausted_generation_never_admits_witness:
  "\<exists>st. es_stop_generation st = U64_MAX \<and> check_acknowledgment st \<noteq> Inr ()"
proof -
  have bump: "(engine_inhibit ^^ n) engine_state_empty = engine_state_empty\<lparr>es_stop_generation := n\<rparr>"
    if "n \<le> U64_MAX" for n
    using that
    by (induction n) (simp_all add: engine_state_empty_def engine_inhibit_def sat_add64_def sat_u64_def)
  have run: "(control_step {})\<^sup>*\<^sup>* engine_state_empty ((engine_inhibit ^^ n) engine_state_empty)" for n
    by (induction n) (auto intro: rtranclp.rtrancl_into_rtrancl cs_inhibit)
  have "es_stop_generation ((engine_inhibit ^^ U64_MAX) engine_state_empty) = U64_MAX"
    by (simp add: bump)
  with exhausted_generation_never_admits [OF run [of U64_MAX]] show ?thesis by blast
qed

section \<open>The policy cache and the journal\<close>

text \<open>An engine whose store is the policy journal; the other ports are arbitrary.\<close>

definition journal_ports :: "journal_faults \<Rightarrow> policy_journal ports \<Rightarrow> policy_journal ports" where
  "journal_ports F X = X\<lparr>po_load := journal_current F, po_compare_exchange := journal_replace F\<rparr>"

definition cache_inv :: "policy_journal sys \<Rightarrow> bool" where
  "cache_inv s =
     (journal_inv (sy_world s)
      \<and> cache_ok (journal_version (sy_world s)) (es_policy_revision (sy_state s)) (engine_policy (sy_state s)))"

lemma engine_policy_inhibit [simp]: "engine_policy (engine_inhibit st) = engine_policy st"
  by (simp add: engine_policy_def engine_inhibit_def)

lemma observe_ok:
  assumes "r = Inr v \<Longrightarrow> es_policy_revision (sy_state s) \<le> pv_revision v \<and> 0 < pv_revision v
             \<and> (es_policy_revision (sy_state s) = pv_revision v \<longrightarrow> pv_state v = engine_policy (sy_state s))"
    and "engine_observe r s = (x, s')"
  shows "(case r of
            Inl e \<Rightarrow> x = Inl (GeStore e) \<and> s' = on_state engine_inhibit s
          | Inr v' \<Rightarrow> v' = v \<longrightarrow> x = Inr () \<and> sy_world s' = sy_world s
               \<and> es_policy_revision (sy_state s') = pv_revision v \<and> engine_policy (sy_state s') = pv_state v)"
  using assms
  by (auto simp: engine_observe_def engine_publish_def engine_policy_def split: sum.splits if_splits)

definition cache_step :: "policy_journal sys \<Rightarrow> guardrail_error + unit \<Rightarrow> policy_journal sys \<Rightarrow> bool" where
  "cache_step s x s' =
     (cache_inv s' \<and> es_policy_revision (sy_state s) \<le> es_policy_revision (sy_state s')
      \<and> (case x of
           Inl e \<Rightarrow> (\<exists>p. e = GeStore p) \<and> check_acknowledgment (sy_state s') \<noteq> Inr ()
         | Inr _ \<Rightarrow> journal_version (sy_world s')
              = Some \<lparr>pv_revision = es_policy_revision (sy_state s'), pv_state = engine_policy (sy_state s')\<rparr>
              \<and> 0 < es_policy_revision (sy_state s')))"

lemma cache_invD:
  assumes "cache_inv s"
  shows "journal_inv (sy_world s)"
    and "cache_ok (journal_version (sy_world s)) (es_policy_revision (sy_state s)) (engine_policy (sy_state s))"
  using assms by (simp_all add: cache_inv_def)

lemma refresh_cache:
  assumes inv: "cache_inv s" and r: "refresh_policy (journal_ports F X) s = (x, s')"
  shows "cache_step s x s'"
proof -
  let ?r = "journal_current F (sy_world s)"
  have obs: "engine_observe ?r s = (x, s')" using r by (simp add: refresh_policy_def journal_ports_def)
  show ?thesis
  proof (cases ?r)
    case (Inl e)
    with observe_ok [OF _ obs] inv show ?thesis
      by (simp add: cache_step_def cache_inv_def check_acknowledgment_ok)
  next
    case (Inr v)
    from pj.load_refines [OF cache_invD [OF inv] Inr] pj.load_ok [OF cache_invD(1) [OF inv] Inr]
    show ?thesis using observe_ok [OF _ obs, of v] Inr inv by (simp add: cache_step_def cache_inv_def)
  qed
qed

lemma commit_cache:
  assumes inv: "cache_inv s" and c: "commit_policy (journal_ports F X) expected n at_ms s = (x, s')"
  shows "cache_step s x s' \<and> (is_ok x \<longrightarrow> engine_policy (sy_state s') = n)"
proof -
  let ?s1 = "on_state (\<lambda>st. st\<lparr>es_acknowledged := None\<rparr>) s"
  obtain r w where rw: "journal_replace F expected n at_ms (sy_world s) = (r, w)" by fastforce
  have obs: "engine_observe r (?s1\<lparr>sy_world := w\<rparr>) = (x, s')"
    using c rw by (simp add: commit_policy_def journal_ports_def)
  have pol: "engine_policy (st\<lparr>es_acknowledged := None\<rparr>) = engine_policy st" for st
    by (simp add: engine_policy_def)
  have w: "journal_inv w"
    using pj.cas_wf [OF cache_invD(1) [OF inv], of F expected n at_ms] rw by simp
  show ?thesis
  proof (cases r)
    case (Inl e)
    with pj.cas_keeps [OF cache_invD [OF inv], of F expected n at_ms] rw w observe_ok [OF _ obs]
    show ?thesis by (simp add: cache_step_def cache_inv_def check_acknowledgment_ok pol)
  next
    case (Inr v)
    note cas = rw [unfolded Inr]
    from pj.cas_refines [OF cache_invD [OF inv] cas] pj.cas_ok [OF cache_invD(1) [OF inv] cas]
    show ?thesis
      using observe_ok [OF _ obs, of v] Inr w by (simp add: cache_step_def cache_inv_def pol)
  qed
qed


definition sample_sys :: "policy_journal sys" where
  "sample_sys = \<lparr>sy_state = sample_engine, sy_world = sample_journal\<rparr>"

definition sample_route :: authorized_route where
  "sample_route =
     \<lparr>rt_network = Testnet, rt_binding_seq = 2,
      rt_binding = \<lparr>rb_agent = ''alpha'', rb_container = Address [7], rb_vault_address = None,
                    rb_wallet = \<lparr>aw_generation = 0, aw_address = Address [9], aw_approved_at_ms = 0,
                                 aw_valid_until_ms = 1000000\<rparr>\<rparr>\<rparr>"

text \<open>Ports in which an audit row only advances the ledger and the registry knows one agent.\<close>

definition sample_ports :: "policy_journal ports" where
  "sample_ports =
     \<lparr>po_load = journal_current no_faults, po_compare_exchange = journal_replace no_faults,
      po_record = (\<lambda>_ j. (Inr (), journal_other_row j)),
      po_route_for_agent = (\<lambda>agent _. if agent = ''alpha'' then Inr sample_route
                                       else Inl (route_refusal ''no route'')),
      po_before_sign = (\<lambda>_ _ _ _. Inr ()), po_mint = None, po_submission_preflight = None\<rparr>"

lemma sample_ports_journal: "journal_ports no_faults sample_ports = sample_ports"
  by (simp add: journal_ports_def sample_ports_def)

lemma sample_cache: "cache_inv sample_sys"
  by (simp add: cache_inv_def sample_sys_def sample_journal_def journal_inv_def cache_ok_def
      journal_version_def sample_engine_def engine_policy_def sample_policy_def engine_state_empty_def)


section \<open>Kill switch across a restart\<close>

lemma change_policy_ok:
  assumes inv: "cache_inv s" and c: "change_policy (journal_ports F X) edit agent now_ms action s = (Inr u, s')"
  obtains s1 where "cache_inv s1" "engine_policy (sy_state s1) = edit (engine_policy (sy_state s))"
    "journal_version (sy_world s1) = Some \<lparr>pv_revision = es_policy_revision (sy_state s1),
        pv_state = engine_policy (sy_state s1)\<rparr>" "0 < es_policy_revision (sy_state s1)"
    "s' = record_operator (journal_ports F X) agent now_ms (action (engine_policy (sy_state s))) s1"
proof -
  from c have "commit_policy (journal_ports F X) (es_policy_revision (sy_state s))
        (edit (engine_policy (sy_state s))) now_ms s = (Inr (), s1)
      \<and> s' = record_operator (journal_ports F X) agent now_ms (action (engine_policy (sy_state s))) s1"
    if "s1 = snd (commit_policy (journal_ports F X) (es_policy_revision (sy_state s))
        (edit (engine_policy (sy_state s))) now_ms s)" for s1
    using that by (auto simp: change_policy_def policy_candidate_def split: if_splits prod.splits sum.splits)
  then obtain s1 where s1: "commit_policy (journal_ports F X) (es_policy_revision (sy_state s))
        (edit (engine_policy (sy_state s))) now_ms s = (Inr (), s1)"
      and s': "s' = record_operator (journal_ports F X) agent now_ms (action (engine_policy (sy_state s))) s1"
    by blast
  from commit_cache [OF inv s1] show ?thesis using that [OF _ _ _ _ s'] by (simp add: cache_step_def)
qed

lemma build_from_version:
  assumes "journal_version w = Some \<lparr>pv_revision = r, pv_state = p\<rparr>" and "0 < r"
    and "engine_build (journal_ports no_faults X) net net w = Inr s"
  shows "engine_policy (sy_state s) = p \<and> es_emergency (sy_state s) = []"
proof -
  from assms(1) obtain c where "pj_latest w = Some c" "pe_version c = \<lparr>pv_revision = r, pv_state = p\<rparr>"
    by (auto simp: journal_version_def)
  with assms(2,3) show ?thesis
    by (auto simp: engine_build_def journal_ports_def journal_current_def no_faults_def fault_def
        engine_publish_def engine_policy_def engine_state_empty_def)
qed

text \<open>
  An engagement the operator was shown survives a restart. When \<open>operator_engage_kill\<close> reports
  its effect, an engine built afterwards from what is durable blocks every agent of the scope, whether
  or not the running engine's memory is lost. Audit rows are assumed to leave the policy entries of
  the journal alone.
\<close>

theorem kill_survives_restart:
  assumes inv: "cache_inv s"
    and audit: "\<And>a w. journal_version (snd (po_record X a w)) = journal_version w"
    and kill: "operator_engage_kill C (journal_ports F X) scope reason now_ms s = (Inr effect, s')"
    and build: "engine_build (journal_ports no_faults X) net net (sy_world s') = Inr s''"
    and covers: "scope_covers scope agent"
  shows "kill_blocking (effective_kill (sy_state s'')) agent \<noteq> None"
proof -
  let ?P = "journal_ports F X"
  obtain pending st where pending: "begin_operator_kill C scope reason now_ms (sy_state s) = (pending, st)"
    by fastforce
  have scope: "ke_scope (pk_effect pending) = scope"
    using pending by (auto simp: begin_operator_kill_def engine_stop_def Let_def)
  have st: "engine_policy st = engine_policy (sy_state s)" "es_policy_revision st = es_policy_revision (sy_state s)"
    using pending by (auto simp: begin_operator_kill_def Let_def engine_policy_def split: option.split)
  let ?s0 = "s\<lparr>sy_state := st\<rparr>"
  have inv0: "cache_inv ?s0" using inv st by (simp add: cache_inv_def)
  obtain r s1 where r: "refresh_policy ?P ?s0 = (r, s1)" by fastforce
  have inv1: "cache_inv s1" using refresh_cache [OF inv0 r] by (simp add: cache_step_def)
  let ?edit = "\<lambda>p. p\<lparr>pd_kill := snd (kill_engage scope (pk_engagement pending) (pd_kill p))\<rparr>"
  let ?row = "\<lambda>_ :: persisted_state. OaKillEngaged scope (pk_requested_reason pending)
      (ke_newly_engaged (pk_effect pending)) (ke_cancel_for (pk_effect pending))"
  from kill have "change_policy ?P ?edit None (pk_at_ms pending) ?row s1 = (Inr (), s')"
    by (auto simp: operator_engage_kill_def pending persist_operator_kill_def r scope
        split: if_splits sum.splits prod.splits)
  with inv1 obtain s2 where s2: "engine_policy (sy_state s2) = ?edit (engine_policy (sy_state s1))"
      "journal_version (sy_world s2) = Some \<lparr>pv_revision = es_policy_revision (sy_state s2),
          pv_state = engine_policy (sy_state s2)\<rparr>" "0 < es_policy_revision (sy_state s2)"
      "s' = record_operator ?P None (pk_at_ms pending) (?row (engine_policy (sy_state s1))) s2"
    by (rule change_policy_ok)
  have "journal_version (sy_world s') = journal_version (sy_world s2)"
    using s2(4) audit by (simp add: record_operator_def journal_ports_def)
  from build_from_version [OF _ s2(3) build] this s2(2)
  have "engine_policy (sy_state s'') = engine_policy (sy_state s2)" by simp
  then have "es_kill (sy_state s'') = snd (kill_engage scope (pk_engagement pending) (es_kill (sy_state s1)))"
    using s2(1) by (simp add: engine_policy_def)
  then show ?thesis
    using covers ks.engage_engages by (auto simp: effective_blocking_None)
qed

theorem kill_survives_restart_witness:
  "\<exists>effect s' s''. operator_engage_kill \<lparr>ec_network = Testnet, ec_supervised_alpha = False, ec_owner = 1\<rparr>
       sample_ports ScopeGlobal KrOperator 9 sample_sys = (Inr effect, s')
     \<and> engine_build sample_ports Testnet Testnet (sy_world s') = Inr s''
     \<and> kill_blocking (effective_kill (sy_state s'')) ''beta'' \<noteq> None"
proof -
  let ?C = "\<lparr>ec_network = Testnet, ec_supervised_alpha = False, ec_owner = 1\<rparr>"
  let ?r = "operator_engage_kill ?C sample_ports ScopeGlobal KrOperator 9 sample_sys"
  have "is_ok (fst ?r)" by code_simp
  then obtain effect s' where kill: "?r = (Inr effect, s')" by (cases ?r) (auto simp: is_ok_iff)
  obtain s'' where build: "engine_build sample_ports Testnet Testnet (sy_world s') = Inr s''"
    by (simp add: engine_build_def)
  have audit: "journal_version (snd (po_record sample_ports a w)) = journal_version w" for a w
    by (simp add: sample_ports_def journal_version_def journal_other_row_def)
  from kill_survives_restart [OF sample_cache audit, of ?C no_faults ScopeGlobal KrOperator 9 effect s'
      Testnet s'' "''beta''"]
  show ?thesis using kill build by (auto simp: sample_ports_journal scope_covers_def)
qed

section \<open>The approval queue\<close>

text \<open>Every held proposal is filed under its own id, which ends in a number drawn before.\<close>

definition proposals_inv :: "engine_state \<Rightarrow> bool" where
  "proposals_inv st =
     (bt_wf (es_proposals st)
      \<and> (\<forall>(id, p) \<in> set (es_proposals st). pr_id p = id
           \<and> (\<exists>prefix n. id = prefix @ ''-'' @ nat_digits n \<and> n \<le> es_proposal_seq st)))"

lemma id_suffix_unique:
  assumes "p @ ''-'' @ nat_digits m = q @ ''-'' @ nat_digits n"
  shows "m = n"
proof -
  have no_dash: "takeWhile (\<lambda>c. c \<noteq> CHR ''-'') (rev (nat_digits k) @ CHR ''-'' # rest) = rev (nat_digits k)"
    for k rest
    using nat_digits_chars [of _ k] by (subst takeWhile_append2) auto
  have "takeWhile (\<lambda>c. c \<noteq> CHR ''-'') (rev (p @ ''-'' @ nat_digits m)) = rev (nat_digits m)"
    "takeWhile (\<lambda>c. c \<noteq> CHR ''-'') (rev (q @ ''-'' @ nat_digits n)) = rev (nat_digits n)"
    by (simp_all add: no_dash)
  with assms have "nat_digits m = nat_digits n" by (metis rev_is_rev_conv)
  then show ?thesis by (rule nat_digits_inj)
qed

lemma later_id_not_held:
  assumes inv: "proposals_inv st" and later: "es_proposal_seq st < n"
  shows "map_of (es_proposals st) (p @ ''-'' @ nat_digits n) = None"
proof (rule ccontr)
  assume "map_of (es_proposals st) (p @ ''-'' @ nat_digits n) \<noteq> None"
  then obtain v where "(p @ ''-'' @ nat_digits n, v) \<in> set (es_proposals st)"
    by (auto dest: map_of_SomeD)
  with inv obtain prefix m where
      m: "p @ ''-'' @ nat_digits n = prefix @ ''-'' @ nat_digits m" "m \<le> es_proposal_seq st"
    unfolding proposals_inv_def by blast
  have "n = m" by (rule id_suffix_unique [OF m(1)])
  with m(2) later show False by simp
qed

lemma bt_set_insert: "set (bt_insert k v m) \<subseteq> insert (k, v) (set m)"
  by (induction m) auto

text \<open>
  A proposal is held under an id of its own until it expires, is decided, or is rejected. Minting
  sweeps what has expired, stores the exact intent and route under an id no held proposal has, with
  the approval window ahead of it, and changes no other unexpired proposal; taking or rejecting an id
  removes it, so that no id can be approved twice.
\<close>

theorem proposal_minted_under_fresh_id:
  assumes inv: "proposals_inv st" and room: "es_proposal_seq st < U64_MAX"
    and mint: "mint_proposal agent intent route now_ms st = (pid, st')"
  shows "proposals_inv st' \<and> map_of (es_proposals st) pid = None
         \<and> map_of (es_proposals st') pid
             = Some \<lparr>pr_id = pid, pr_agent = agent, pr_intent = PiOrder intent, pr_route = route,
                     pr_expires_at_ms = sat_add64 now_ms APPROVAL_TTL_MS, pr_cancel_provenance = None\<rparr>
         \<and> (\<forall>k p. k \<noteq> pid \<longrightarrow> (map_of (es_proposals st') k = Some p \<longleftrightarrow>
                map_of (es_proposals st) k = Some p \<and> now_ms < pr_expires_at_ms p))
         \<and> map_of (bt_remove pid (es_proposals st')) pid = None"
proof -
  let ?m = "bt_retain (\<lambda>_ p. \<not> proposal_is_expired p now_ms) (es_proposals st)"
  let ?n = "es_proposal_seq st + 1"
  from inv have wf: "bt_wf (es_proposals st)" by (simp add: proposals_inv_def)
  have seq: "sat_add64 (es_proposal_seq st) 1 = ?n" using room by (simp add: sat_add64_def sat_u64_def)
  have pid: "pid = (agent @ ''-'' @ nat_digits now_ms) @ ''-'' @ nat_digits ?n"
    and ps: "es_proposals st' = bt_insert pid \<lparr>pr_id = pid, pr_agent = agent, pr_intent = PiOrder intent,
        pr_route = route, pr_expires_at_ms = sat_add64 now_ms APPROVAL_TTL_MS, pr_cancel_provenance = None\<rparr> ?m"
      (is "_ = bt_insert pid ?p ?m")
    and sq: "es_proposal_seq st' = ?n"
    using mint seq by (auto simp: mint_proposal_def Let_def sweep_proposals_def)
  have retained: "set ?m \<subseteq> set (es_proposals st)" by (auto simp: bt_retain_def)
  let ?ok = "\<lambda>k p. pr_id p = k \<and> (\<exists>prefix n. k = prefix @ ''-'' @ nat_digits n \<and> n \<le> es_proposal_seq st')"
  have old: "?ok k p" if "(k, p) \<in> set (es_proposals st)" for k p
  proof -
    from inv that have "pr_id p = k \<and> (\<exists>prefix n. k = prefix @ ''-'' @ nat_digits n \<and> n \<le> es_proposal_seq st)"
      unfolding proposals_inv_def by blast
    then show ?thesis using sq by (metis le_add1 order_trans)
  qed
  have "\<exists>prefix n. pid = prefix @ ''-'' @ nat_digits n \<and> n \<le> es_proposal_seq st'"
    by (rule exI [of _ "agent @ ''-'' @ nat_digits now_ms"], rule exI [of _ ?n]) (simp add: pid sq)
  then have new: "?ok pid ?p" by simp
  have ok: "?ok k p" if "(k, p) \<in> set (bt_insert pid ?p ?m)" for k p
    using that bt_set_insert [of pid ?p ?m] retained old new by blast
  have "bt_wf (bt_insert pid ?p ?m)" by (rule bt_wf_insert [OF bt_wf_retain [OF wf]])
  then have "proposals_inv st'"
    unfolding proposals_inv_def ps using ok by blast
  moreover have "map_of (es_proposals st) pid = None" unfolding pid by (rule later_id_not_held [OF inv]) simp
  ultimately show ?thesis
    by (simp add: ps map_of_bt_insert map_of_bt_remove bt_get_retained [OF wf] proposal_is_expired_def not_le)
qed

theorem proposal_minted_under_fresh_id_witness:
  "let (i1, st1) = mint_proposal ''alpha'' sample_intent sample_route 1500 sample_engine;
       (i2, st2) = mint_proposal ''alpha'' sample_intent sample_route 1500 st1
   in i1 \<noteq> i2 \<and> map_of (es_proposals st2) i1 = map_of (es_proposals st1) i1
      \<and> map_of (es_proposals st2) i1 \<noteq> None"
proof -
  let ?m = "mint_proposal ''alpha'' sample_intent sample_route 1500"
  obtain i1 st1 where m1: "?m sample_engine = (i1, st1)" by fastforce
  obtain i2 st2 where m2: "?m st1 = (i2, st2)" by fastforce
  have inv: "proposals_inv sample_engine" and room: "es_proposal_seq sample_engine < U64_MAX"
    by (simp_all add: proposals_inv_def sample_engine_def engine_state_empty_def U64_MAX_val)
  note p1 = proposal_minted_under_fresh_id [OF inv room m1]
  have "es_proposal_seq st1 = 1"
    using m1 by (auto simp: mint_proposal_def Let_def sweep_proposals_def sample_engine_def
        engine_state_empty_def sat_add64_def sat_u64_def U64_MAX_val)
  then have room1: "es_proposal_seq st1 < U64_MAX" by (simp add: U64_MAX_val)
  note p2 = proposal_minted_under_fresh_id [OF conjunct1 [OF p1] room1 m2]
  let ?e = "sat_add64 1500 APPROVAL_TTL_MS"
  have "1500 < ?e" by code_simp
  then have "map_of (es_proposals st2) i1 = map_of (es_proposals st1) i1" if "i1 \<noteq> i2"
    using p1 p2 that by auto
  moreover have "i1 \<noteq> i2" using p1 p2 by auto
  ultimately show ?thesis using p1 m1 m2 by simp
qed

end
