(* ===== verification/Checks.thy ===== *)
theory Checks
  imports Engine_Control
begin

text \<open>
  The predicates an evaluation of \<open>guardrail/engine.rs\<close> is made of: what has to be true of an
  account snapshot and of a market tick, the caps on notional, position, volatility-scaled position,
  open exposure, leverage and slippage, and the rate budgets.
\<close>

section \<open>Inputs\<close>

definition BPS :: decimal where "BPS = 10000"
definition TWO :: decimal where "TWO = 2"

definition check_order_approval_window :: "authorized_route \<Rightarrow> nat \<Rightarrow> refusal + unit" where
  "check_order_approval_window route now_ms =
     (let wallet = rb_wallet (rt_binding route) in
      if now_ms < aw_approved_at_ms wallet \<or> now_ms \<ge> aw_valid_until_ms wallet
      then Inl (route_refusal ''order is outside the approved wallet validity window'') else Inr ())"

definition expect_same :: "string \<Rightarrow> string \<Rightarrow> string \<Rightarrow> refusal + unit" where
  "expect_same field supplied expected =
     (if supplied = expected then Inr () else Inl (RfUnevaluable (UnInputMismatch field expected supplied)))"

definition check_account :: "account_snapshot \<Rightarrow> agent_guardrails \<Rightarrow> nat \<Rightarrow> refusal + unit" where
  "check_account account config now_ms =
     (if now_ms < ac_as_of_ms account
      then Inl (RfUnevaluable (UnClockWentBackwards now_ms (ac_as_of_ms account)))
      else if \<not> ac_reconciled account then Inl (RfUnevaluable (UnUnreconciledAccount (ac_as_of_ms account)))
      else let age_ms = now_ms - ac_as_of_ms account in
      if age_ms > fr_max_account_age_ms (ag_freshness config)
      then Inl (RfUnevaluable (UnStaleAccountState age_ms (fr_max_account_age_ms (ag_freshness config))))
      else if ac_equity_usd account \<le> 0 then Inl (RfUnevaluable (UnNonPositiveEquity (ac_equity_usd account)))
      else if \<not> covers_day_of account now_ms
      then Inl (RfUnevaluable (UnLossWindowMismatch (ac_day_start_ms account) now_ms))
      else Inr ())"

definition check_mark_divergence :: "market_ref \<Rightarrow> agent_guardrails \<Rightarrow> nat \<Rightarrow> refusal + unit" where
  "check_mark_divergence market config now_ms =
     (case (mk_mark_divergence_bps market, mk_mark_divergent_since_ms market) of
        (Some observed_bps, Some since_ms) \<Rightarrow>
          if \<not> observed_bps > ag_max_mark_divergence_bps config then Inr ()
          else if now_ms < since_ms then Inl (RfUnevaluable (UnClockWentBackwards now_ms since_ms))
          else let sustained_ms = now_ms - since_ms in
          if sustained_ms \<ge> ag_mark_divergence_window_ms config
          then Inl (RfUnevaluable (UnMarkDivergence (mk_symbol market) observed_bps
                 (ag_max_mark_divergence_bps config) sustained_ms (ag_mark_divergence_window_ms config)))
          else Inr ()
      | _ \<Rightarrow> Inr ())"

definition check_market :: "market_ref \<Rightarrow> agent_guardrails \<Rightarrow> nat \<Rightarrow> refusal + decimal" where
  "check_market market config now_ms =
     (if now_ms < mk_as_of_ms market
      then Inl (RfUnevaluable (UnClockWentBackwards now_ms (mk_as_of_ms market)))
      else if \<not> feed_quality_is_ok (mk_quality market)
      then Inl (RfUnevaluable (UnDegradedFeed (mk_symbol market) (mk_quality market)))
      else let age_ms = now_ms - mk_as_of_ms market in
      if age_ms > fr_max_market_age_ms (ag_freshness config)
      then Inl (RfUnevaluable (UnStaleMarketData (mk_symbol market) age_ms
             (fr_max_market_age_ms (ag_freshness config))))
      else rbind (check_mark_divergence market config now_ms) (\<lambda>_.
        case mk_reference_px market of
          Some px \<Rightarrow> if px > 0 then Inr px
                     else Inl (RfUnevaluable (UnMissingReferencePrice (mk_symbol market)))
        | None \<Rightarrow> Inl (RfUnevaluable (UnMissingReferencePrice (mk_symbol market)))))"

definition feed_admission :: "feed_inner \<Rightarrow> feed_stamp option \<Rightarrow> network \<Rightarrow> address \<Rightarrow> refusal + unit" where
  "feed_admission f stamp network account =
     (if feed_admit stamp network account f = None then Inl (RfUnevaluable UnFeedAdmission) else Inr ())"

section \<open>Caps\<close>

definition checked :: "decimal option \<Rightarrow> string \<Rightarrow> refusal + decimal" where
  "checked v field = ok_or (RfUnevaluable (UnArithmeticOverflow field)) v"

definition check_reduce_only :: "order_intent \<Rightarrow> decimal \<Rightarrow> decimal \<Rightarrow> decimal \<Rightarrow> refusal + unit" where
  "check_reduce_only intent szi signed_sz sz =
     (let breach =
        (if \<not> oi_reduce_only intent then Some RoNotFlagged
         else if szi = 0 then Some RoNoPosition
         else if is_sign_negative szi = is_sign_negative signed_sz then Some RoSameSide
         else if sz > \<bar>szi\<bar> then Some RoOversized
         else None)
      in case breach of
           None \<Rightarrow> Inr ()
         | Some detail \<Rightarrow> Inl (RfReduceOnly (oi_symbol intent) szi signed_sz (oi_reduce_only intent) detail))"

definition adverse_slippage_bps :: "declib \<Rightarrow> bool \<Rightarrow> decimal \<Rightarrow> decimal \<Rightarrow> decimal option" where
  "adverse_slippage_bps D is_buy px reference_px =
     Option.bind (if is_buy then checked_sub D px reference_px else checked_sub D reference_px px) (\<lambda>adverse.
     if adverse \<le> 0 then Some 0
     else Option.bind (checked_div D adverse reference_px) (\<lambda>r. checked_mul D r BPS))"

record vol_scaled_cap =
  vc_effective_cap_usd :: decimal
  vc_risk_budget_usd :: decimal
  vc_sigma_day :: decimal
  vc_vol_scale :: decimal

definition vol_scale :: "decimal option \<Rightarrow> decimal" where
  "vol_scale vol_ratio = max (case vol_ratio of Some r \<Rightarrow> r | None \<Rightarrow> 1) 1"

definition vol_scaled_cap_of ::
  "declib \<Rightarrow> agent_guardrails \<Rightarrow> market_ref \<Rightarrow> string \<Rightarrow> refusal + vol_scaled_cap option" where
  "vol_scaled_cap_of D config market symbol =
     (case rs_max_risk_usd (ag_risk config) of
        None \<Rightarrow> Inr None
      | Some risk_budget_usd \<Rightarrow>
          rbind (ok_or (RfUnevaluable (UnMissingVolatility symbol))
            (Option.bind (mk_sigma_day market) (\<lambda>sigma. if sigma > 0 then Some sigma else None))) (\<lambda>sigma_day.
          let scale = vol_scale (mk_vol_ratio market);
              cap = Option.bind (checked_mul D sigma_day scale) (\<lambda>sigma.
                    Option.bind (checked_mul D TWO sigma) (\<lambda>denominator.
                    checked_div D risk_budget_usd denominator))
          in rbind (checked cap ''vol-scaled cap'') (\<lambda>c.
             Inr (Some \<lparr>vc_effective_cap_usd = c, vc_risk_budget_usd = risk_budget_usd,
                        vc_sigma_day = sigma_day, vc_vol_scale = scale\<rparr>))))"

text \<open>
  The larger exposure of the two extremes: a clipped reduction takes away the offset of the starting
  position, then the opening orders of one side fill.
\<close>

definition worst_position ::
  "declib \<Rightarrow> decimal \<Rightarrow> decimal \<Rightarrow> decimal \<Rightarrow> decimal \<Rightarrow> decimal \<Rightarrow> refusal + decimal" where
  "worst_position D szi buys sells rb rs =
     rbind (checked (Option.bind (checked_add D szi (min rb (max (- szi) 0))) (\<lambda>p. checked_add D p buys))
        ''post-fill long'') (\<lambda>long.
     rbind (checked (Option.bind (checked_sub D szi (min rs (max szi 0))) (\<lambda>p. checked_sub D p sells))
        ''post-fill short'') (\<lambda>short.
     Inr (max \<bar>long\<bar> \<bar>short\<bar>)))"

section \<open>Rate budgets\<close>

datatype mode = MFresh | MApproved authorized_route | MPreflight

definition bucket_refusal :: "bucket_error \<Rightarrow> order_rate \<Rightarrow> nat \<Rightarrow> refusal" where
  "bucket_refusal e rate now_ms =
     (case e of
        BucketEmpty micro retry_after_ms \<Rightarrow>
          RfOrderRate (or_count rate) (or_per_ms rate) (of_nat micro / 1000000) retry_after_ms
      | BucketClockWentBackwards last_ms \<Rightarrow> RfUnevaluable (UnClockWentBackwards now_ms last_ms)
      | BucketInvalidRate \<Rightarrow>
          RfUnevaluable (UnInvalidGuardrailConfig ''order_rate.per_ms'' ''must be positive''))"

definition spend_global ::
  "token_bucket \<Rightarrow> global_rate_budget \<Rightarrow> mode \<Rightarrow> nat \<Rightarrow> (refusal + decimal) \<times> token_bucket" where
  "spend_global bucket budget mode now_ms =
     (case bucket_refill bucket now_ms of
        (Inl (BucketClockWentBackwards last_ms), b1) \<Rightarrow>
          (Inl (RfUnevaluable (UnClockWentBackwards now_ms last_ms)), b1)
      | (Inl _, b1) \<Rightarrow>
          (Inl (RfUnevaluable (UnInvalidGuardrailConfig ''global_rate.rate.per_ms'' ''must be positive'')), b1)
      | (Inr _, b1) \<Rightarrow>
          if mode \<noteq> MFresh then (Inr (bucket_tokens b1), b1)
          else
            let short = (\<lambda>b. Inl (RfGlobalRateBudget (bucket_tokens b) (gb_reserve budget)
                                    (bucket_retry_after_ms b)))
            in if bucket_tokens b1 \<le> of_nat (gb_reserve budget) then (short b1, b1)
               else (case bucket_try_take b1 now_ms of
                       (Inl _, b2) \<Rightarrow> (short b2, b2)
                     | (Inr _, b2) \<Rightarrow> (Inr (bucket_tokens b2), b2)))"

definition draw_global_reserve :: "token_bucket \<Rightarrow> nat \<Rightarrow> decimal \<times> token_bucket" where
  "draw_global_reserve bucket now_ms =
     (let b = snd (bucket_try_take bucket now_ms) in (bucket_tokens b, b))"

section \<open>What the checks establish\<close>

lemma check_account_ok:
  "check_account account config now_ms = Inr () \<longleftrightarrow>
     ac_as_of_ms account \<le> now_ms \<and> ac_reconciled account
     \<and> now_ms - ac_as_of_ms account \<le> fr_max_account_age_ms (ag_freshness config)
     \<and> 0 < ac_equity_usd account \<and> covers_day_of account now_ms"
  by (simp add: check_account_def Let_def not_less not_le)

lemma check_mark_divergence_ok:
  "check_mark_divergence market config now_ms = Inr () \<longleftrightarrow>
     (\<forall>bps since. mk_mark_divergence_bps market = Some bps \<longrightarrow> mk_mark_divergent_since_ms market = Some since
        \<longrightarrow> ag_max_mark_divergence_bps config < bps
        \<longrightarrow> since \<le> now_ms \<and> now_ms - since < ag_mark_divergence_window_ms config)"
  by (auto simp: check_mark_divergence_def Let_def not_less not_le split: option.splits)

lemma check_market_ok:
  "check_market market config now_ms = Inr px \<longleftrightarrow>
     mk_as_of_ms market \<le> now_ms \<and> mk_quality market = FqOk
     \<and> now_ms - mk_as_of_ms market \<le> fr_max_market_age_ms (ag_freshness config)
     \<and> check_mark_divergence market config now_ms = Inr () \<and> mk_reference_px market = Some px \<and> 0 < px"
  by (auto simp: check_market_def Let_def not_less not_le result_inv feed_quality_is_ok_def
      split: feed_quality.splits option.splits if_splits)

lemma feed_admission_ok:
  "feed_admission f stamp n a = Inr () \<longleftrightarrow> feed_admit stamp n a f \<noteq> None"
  by (simp add: feed_admission_def)

lemma checked_Inr: "checked v field = Inr x \<longleftrightarrow> v = Some x"
  by (simp add: checked_def result_inv)

lemma check_reduce_only_ok:
  "check_reduce_only intent szi signed_sz sz = Inr () \<longleftrightarrow>
     oi_reduce_only intent \<and> szi \<noteq> 0 \<and> is_sign_negative szi \<noteq> is_sign_negative signed_sz \<and> sz \<le> \<bar>szi\<bar>"
  by (simp add: check_reduce_only_def Let_def not_less)

lemma expect_same_ok: "expect_same field a b = Inr () \<longleftrightarrow> a = b"
  by (simp add: expect_same_def)

lemma check_window_ok:
  "check_order_approval_window route now_ms = Inr () \<longleftrightarrow>
     aw_approved_at_ms (rb_wallet (rt_binding route)) \<le> now_ms
     \<and> now_ms < aw_valid_until_ms (rb_wallet (rt_binding route))"
  by (auto simp: check_order_approval_window_def Let_def)

lemma validate_route_ok:
  "validate_route route agent network = Inr () \<longleftrightarrow>
     rt_network route = network \<and> rb_agent (rt_binding route) = agent \<and> rt_binding_seq route \<noteq> 0
     \<and> is_none_or (\<lambda>v. v = rb_container (rt_binding route)) (rb_vault_address (rt_binding route))"
  by (auto simp: validate_route_def result_inv)

end
