(* ===== verification/Decide.thy ===== *)
theory Decide
  imports Checks
begin

text \<open>
  \<open>GuardrailEngine::decide\<close> and its callers \<open>evaluate\<close>, \<open>preflight\<close> and \<open>operator_approve_proposal\<close>:
  the evaluation of one order. It is given in the stages of the source (admission, loss breaker,
  pricing, position, exposure, slippage, budgets, clearance), each taking what the ones before it
  computed. The feed session is read only: an admission guard is dropped before the evaluation ends.
  An outer \<open>None\<close> is a panic of a bare decimal operator.
\<close>

section \<open>Admission\<close>

text \<open>From the refresh of the policy to the fleet snapshot: who may be evaluated, against what.\<close>

definition decide_route ::
  "engine_config \<Rightarrow> 'w ports \<Rightarrow> agent_id \<Rightarrow> exposure \<Rightarrow> nat \<Rightarrow> mode \<Rightarrow> 'w sys \<Rightarrow> refusal + authorized_route" where
  "decide_route C P agent ex now_ms mode s =
     rbind (decision_route C P agent s) (\<lambda>route.
     rbind (case mode of
              MApproved expected \<Rightarrow>
                ensure (expected = route) (route_refusal ''proposal route changed since evaluation'')
            | _ \<Rightarrow> Inr ()) (\<lambda>_.
     rbind (check_order_approval_window route now_ms) (\<lambda>_.
     rbind (ensure (ex_account ex = rb_container (rt_binding route))
       (route_refusal ''exposure account does not match authorized container'')) (\<lambda>_.
     Inr route))))"

definition decide_config :: "agent_id \<Rightarrow> engine_state \<Rightarrow> refusal + agent_guardrails" where
  "decide_config agent st =
     rbind (ok_or (RfUnevaluable (UnUnknownAgent agent)) (map_of (es_guardrails st) agent)) (\<lambda>config.
     rbind (map_err (\<lambda>(field, detail). RfUnevaluable (UnInvalidGuardrailConfig field detail))
       (agent_guardrails_validate config)) (\<lambda>_.
     Inr config))"

definition check_not_paused :: "agent_id \<Rightarrow> engine_state \<Rightarrow> refusal + unit" where
  "check_not_paused agent st =
     (case kill_blocking (effective_kill st) agent of
        Some (scope, e) \<Rightarrow> Inl (RfTradingPaused scope (eg_engaged_at_ms e) (eg_reason e))
      | None \<Rightarrow> Inr ())"

definition check_fleet :: "exposure \<Rightarrow> agent_guardrails \<Rightarrow> nat \<Rightarrow> engine_state \<Rightarrow> refusal + unit" where
  "check_fleet ex config now_ms st =
     (if loss_limits_is_unset (es_account_limits st) then Inr ()
      else case ex_fleet ex of
             None \<Rightarrow> Inl (RfUnevaluable UnMissingFleetState)
           | Some fleet \<Rightarrow> check_account fleet config now_ms)"

definition decide_admission ::
  "engine_config \<Rightarrow> 'w ports \<Rightarrow> feed_inner \<Rightarrow> agent_id \<Rightarrow> order_intent \<Rightarrow> asset \<Rightarrow> market_ref \<Rightarrow> exposure
     \<Rightarrow> nat \<Rightarrow> mode \<Rightarrow> 'w sys \<Rightarrow> refusal + (authorized_route \<times> agent_guardrails)" where
  "decide_admission C P f agent intent asset market ex now_ms mode s =
     rbind (decide_route C P agent ex now_ms mode s) (\<lambda>route.
     rbind (decide_config agent (sy_state s)) (\<lambda>config.
     rbind (check_not_paused agent (sy_state s)) (\<lambda>_.
     rbind (check_scoped_acknowledgment route (ec_supervised_alpha C) (sy_state s)) (\<lambda>_.
     rbind (expect_same ''asset'' (asset_name asset) (oi_symbol intent)) (\<lambda>_.
     rbind (expect_same ''market_ref'' (mk_symbol market) (oi_symbol intent)) (\<lambda>_.
     rbind (check_account (ex_agent ex) config now_ms) (\<lambda>_.
     rbind (feed_admission f (ex_feed_stamp ex) (ec_network C) (ex_account ex)) (\<lambda>_.
     rbind (check_fleet ex config now_ms (sy_state s)) (\<lambda>_.
     Inr (route, config))))))))))"

section \<open>Loss breaker\<close>

text \<open>The trip: stop locally first, then persist the engagement at the evaluated revision.\<close>

definition decide_trip :: "'w ports \<Rightarrow> breach \<Rightarrow> nat \<Rightarrow> 'w sys \<Rightarrow> refusal \<times> 'w sys" where
  "decide_trip P b now_ms s =
     (let e = \<lparr>eg_engaged_at_ms = now_ms,
               eg_reason = KrLossLimit (br_kind b) (br_observed_usd b) (br_limit_usd b)\<rparr>;
          s1 = on_state (\<lambda>st. snd (engine_stop (br_scope b) e st)) s;
          revision = es_policy_revision (sy_state s1);
          next = (engine_policy (sy_state s1))\<lparr>pd_kill := snd (kill_engage (br_scope b) e (es_kill (sy_state s1)))\<rparr>
      in case commit_policy P revision next now_ms s1 of
           (Inl err, s2) \<Rightarrow> (RfUnevaluable (UnStateWriteFailed (guardrail_error_text err)), s2)
         | (Inr _, s2) \<Rightarrow>
             (RfLossLimit (br_scope b) (br_kind b) (br_observed_usd b) (br_limit_usd b), s2))"

section \<open>Measures\<close>

record priced_order =
  po_reference_px :: decimal
  po_px :: decimal
  po_sz :: decimal
  po_kind :: order_kind
  po_notional_usd :: decimal
  po_position_szi :: decimal
  po_wire :: order_wire

definition round_kind :: "declib \<Rightarrow> asset \<Rightarrow> order_kind \<Rightarrow> order_kind" where
  "round_kind D a k =
     (case k of
        OkTrigger is_market trigger_px tpsl \<Rightarrow> OkTrigger is_market (round_price D a trigger_px) tpsl
      | OkLimit tif \<Rightarrow> OkLimit tif)"

definition intent_spec :: "declib \<Rightarrow> order_intent \<Rightarrow> asset \<Rightarrow> order_spec" where
  "intent_spec D intent a =
     \<lparr>os_is_buy = oi_is_buy intent, os_px = round_price D a (oi_px intent),
      os_sz = round_size D a (oi_sz intent), os_kind = round_kind D a (oi_kind intent),
      os_reduce_only = oi_reduce_only intent, os_cloid = oi_cloid intent\<rparr>"

definition price_order ::
  "declib \<Rightarrow> agent_guardrails \<Rightarrow> order_intent \<Rightarrow> asset \<Rightarrow> market_ref \<Rightarrow> account_snapshot \<Rightarrow> nat \<Rightarrow>
     (refusal + priced_order) option" where
  "price_order D config intent asset market account now_ms =
     (case rbind (check_market market config now_ms) (\<lambda>reference_px.
           rbind (ensure (oi_symbol intent \<in> set (ag_symbols config))
             (RfSymbolNotAllowed (oi_symbol intent) (ag_symbols config))) (\<lambda>_.
           rbind (checked (checked_mul D (round_price D asset (oi_px intent)) (round_size D asset (oi_sz intent)))
             ''order notional'') (\<lambda>notional_usd.
           Inr (reference_px, notional_usd)))) of
        Inl r \<Rightarrow> Some (Inl r)
      | Inr (reference_px, notional_usd) \<Rightarrow>
          let szi = position_szi account (oi_symbol intent) in
          map_option (\<lambda>w.
              rbind (map_err (\<lambda>e. RfVenueRule (venue_rule_of_order_error e)) w) (\<lambda>wire.
              Inr \<lparr>po_reference_px = reference_px, po_px = round_price D asset (oi_px intent),
                   po_sz = round_size D asset (oi_sz intent), po_kind = round_kind D asset (oi_kind intent),
                   po_notional_usd = notional_usd, po_position_szi = szi, po_wire = wire\<rparr>))
            (to_wire_for_position D (intent_spec D intent asset) asset szi))"

record measured_position =
  mp_resting :: resting_exposure
  mp_before :: decimal
  mp_after :: decimal
  mp_after_usd :: decimal
  mp_genuine_reduction :: bool
  mp_vol_scaled :: "vol_scaled_cap option"

definition sides_text :: "declib \<Rightarrow> decimal list \<Rightarrow> string" where
  "sides_text D xs = concat (map (\<lambda>(i, x). (if i = 0 then [] else ''/'') @ dec_to_string D x) (enumerate 0 xs))"

text \<open>The working sides of the symbol, as the source reads them, and the candidate added to its side.\<close>

definition working_sides :: "resting_exposure \<Rightarrow> string \<Rightarrow> decimal list" where
  "working_sides resting symbol =
     [fst (resting_sides resting symbol), snd (resting_sides resting symbol),
      unwrap_or_zero (map_of (re_reduce_buys resting) symbol),
      unwrap_or_zero (map_of (re_reduce_sells resting) symbol)]"

definition candidate_side :: "order_intent \<Rightarrow> nat" where
  "candidate_side intent = (if \<not> oi_is_buy intent then 1 else 0) + (if oi_reduce_only intent then 2 else 0)"

definition worst_of_sides :: "declib \<Rightarrow> decimal \<Rightarrow> decimal list \<Rightarrow> refusal + decimal" where
  "worst_of_sides D szi sides = worst_position D szi (sides ! 0) (sides ! 1) (sides ! 2) (sides ! 3)"

definition signed_size :: "order_intent \<Rightarrow> decimal \<Rightarrow> decimal" where
  "signed_size intent sz = (if oi_is_buy intent then sz else - sz)"

definition check_position_caps ::
  "declib \<Rightarrow> agent_guardrails \<Rightarrow> order_intent \<Rightarrow> market_ref \<Rightarrow> priced_order \<Rightarrow> resting_exposure \<Rightarrow>
     refusal + measured_position" where
  "check_position_caps D config intent market m resting =
     (let szi = po_position_szi m; sz = po_sz m; signed_sz = signed_size intent sz;
          sides = working_sides resting (oi_symbol intent)
      in rbind (worst_of_sides D szi sides) (\<lambda>position_before.
         rbind (checked (checked_add D (sides ! candidate_side intent) sz) ''candidate working size'') (\<lambda>grown.
         rbind (worst_of_sides D szi (sides[candidate_side intent := grown])) (\<lambda>position_after.
         let genuine_reduction = (oi_reduce_only intent \<and> szi \<noteq> 0
               \<and> is_sign_negative szi \<noteq> is_sign_negative signed_sz \<and> position_after \<le> position_before)
         in rbind (checked (checked_mul D \<bar>position_after\<bar> (po_reference_px m))
              ''post-fill position notional'') (\<lambda>position_after_usd.
         rbind (checked (Option.bind (checked_add D (sides ! 0) (sides ! 1))
              (\<lambda>s. checked_mul D s (po_reference_px m))) ''resting notional'') (\<lambda>resting_usd.
         rbind (ensure (genuine_reduction \<or> \<not> position_after_usd > ag_max_position_usd config)
              (RfPositionNotional (oi_symbol intent) position_after_usd resting_usd
                 (ag_max_position_usd config))) (\<lambda>_.
         rbind (vol_scaled_cap_of D config market (oi_symbol intent)) (\<lambda>vol_scaled.
         rbind (checked (checked_add D szi signed_sz) ''filled position'') (\<lambda>filled_position.
         let reduces_position = (genuine_reduction
               \<or> (\<not> oi_reduce_only intent \<and> position_after \<le> position_before \<and> \<bar>filled_position\<bar> < \<bar>szi\<bar>))
         in rbind (case vol_scaled of
                     None \<Rightarrow> Inr ()
                   | Some cap \<Rightarrow>
                       ensure (reduces_position \<or> \<not> position_after_usd > vc_effective_cap_usd cap)
                         (RfVolScaledPositionNotional (oi_symbol intent) position_after_usd
                            (vc_effective_cap_usd cap) (vc_risk_budget_usd cap)
                            (saturating_mul D (vc_sigma_day cap) HUNDRED) (vc_vol_scale cap))) (\<lambda>_.
         Inr \<lparr>mp_resting = resting, mp_before = position_before, mp_after = position_after,
              mp_after_usd = position_after_usd, mp_genuine_reduction = genuine_reduction,
              mp_vol_scaled = vol_scaled\<rparr>))))))))))"

definition measure_position ::
  "declib \<Rightarrow> agent_guardrails \<Rightarrow> order_intent \<Rightarrow> market_ref \<Rightarrow> account_snapshot \<Rightarrow> priced_order \<Rightarrow>
     refusal + measured_position" where
  "measure_position D config intent market account m =
     (let szi = po_position_szi m; sz = po_sz m; signed_sz = signed_size intent sz in
      rbind (ok_or (RfUnevaluable UnMissingRestingOrders) (ac_resting account)) (\<lambda>resting.
      let sides = working_sides resting (oi_symbol intent) in
      rbind (ensure (\<not> list_ex (\<lambda>size. size < 0) sides)
        (RfUnevaluable (UnInputMismatch ''resting size'' ''non-negative sizes on both sides''
           (sides_text D sides)))) (\<lambda>_.
      rbind (if ag_reduce_only config then check_reduce_only intent szi signed_sz sz else Inr ()) (\<lambda>_.
      rbind (ensure (\<not> po_notional_usd m > ag_max_order_usd config)
        (RfOrderNotional (oi_symbol intent) (po_notional_usd m) (ag_max_order_usd config))) (\<lambda>_.
      check_position_caps D config intent market m resting)))))"

definition measure_leverage ::
  "declib \<Rightarrow> agent_guardrails \<Rightarrow> order_intent \<Rightarrow> asset \<Rightarrow> account_snapshot \<Rightarrow> priced_order \<Rightarrow>
     measured_position \<Rightarrow> refusal + decimal" where
  "measure_leverage D config intent asset account m mp =
     (let resting = mp_resting mp;
          opening_notional = unwrap_or_zero (map_of (re_notional_by_symbol resting) (oi_symbol intent))
      in rbind (ensure (\<not> (opening_notional < 0 \<or> opening_notional > re_notional_usd resting))
           (RfUnevaluable (UnInputMismatch ''resting notional''
              (''symbol contribution between 0 and '' @ dec_to_string D (re_notional_usd resting))
              (dec_to_string D opening_notional)))) (\<lambda>_.
         rbind (checked (Option.bind (checked_mul D \<bar>po_position_szi m\<bar> (po_reference_px m))
              (\<lambda>n. checked_add D n opening_notional)) ''current symbol notional'') (\<lambda>symbol_before_usd.
         rbind (checked (checked_add D (ac_total_position_notional_usd account) (re_notional_usd resting))
              ''current account notional'') (\<lambda>account_before_usd.
         rbind (case rs_max_open_exposure_usd (ag_risk config) of
              None \<Rightarrow> Inr ()
            | Some limit_usd \<Rightarrow>
                if mp_genuine_reduction mp then Inr ()
                else
                  rbind (if oi_reduce_only intent then Inr 0
                         else checked (checked_mul D (po_sz m) (po_reference_px m))
                                ''candidate opening notional'') (\<lambda>opening_usd.
                  rbind (checked (checked_add D account_before_usd opening_usd)
                         ''gross account open exposure'') (\<lambda>observed_usd.
                  ensure (\<not> observed_usd > limit_usd) (RfOpenExposure observed_usd limit_usd)))) (\<lambda>_.
         rbind (checked (Option.bind (checked_sub D account_before_usd symbol_before_usd)
              (\<lambda>n. checked_add D n (mp_after_usd mp))) ''post-fill account notional'') (\<lambda>total.
         let total_after_usd = max total 0 in
         rbind (checked (checked_div D total_after_usd (ac_equity_usd account)) ''leverage'') (\<lambda>leverage.
         let leverage_cap = min (rs_max_leverage (ag_risk config)) (ai_max_leverage (as_info asset)) in
         rbind (ensure (mp_genuine_reduction mp \<or> \<not> leverage > of_nat leverage_cap)
              (RfLeverage leverage leverage_cap (ac_equity_usd account) total_after_usd)) (\<lambda>_.
         Inr leverage))))))))"

definition measure_slippage ::
  "declib \<Rightarrow> agent_guardrails \<Rightarrow> order_intent \<Rightarrow> priced_order \<Rightarrow> refusal + (decimal \<times> decimal)" where
  "measure_slippage D config intent m =
     (let slippage_reference = (case po_kind m of
            OkTrigger _ trigger_px _ \<Rightarrow> trigger_px | OkLimit _ \<Rightarrow> po_reference_px m)
      in rbind (checked (adverse_slippage_bps D (oi_is_buy intent) (po_px m) slippage_reference)
           ''slippage'') (\<lambda>slippage_bps.
         let slippage_limit = (case oi_max_slippage_bps intent of
               Some agent_limit \<Rightarrow> min (ag_max_slippage_bps config) agent_limit
             | None \<Rightarrow> ag_max_slippage_bps config)
         in rbind (ensure (\<not> slippage_bps > slippage_limit)
              (RfSlippage (oi_symbol intent) slippage_bps slippage_limit slippage_reference)) (\<lambda>_.
            Inr (slippage_bps, slippage_reference))))"

record order_measures =
  om_priced :: priced_order
  om_position :: measured_position
  om_leverage :: decimal
  om_slippage_bps :: decimal
  om_slippage_reference :: decimal

definition measure_order ::
  "declib \<Rightarrow> agent_guardrails \<Rightarrow> order_intent \<Rightarrow> asset \<Rightarrow> market_ref \<Rightarrow> exposure \<Rightarrow> nat \<Rightarrow>
     (refusal + order_measures) option" where
  "measure_order D config intent asset market ex now_ms =
     map_option (\<lambda>r.
       rbind r (\<lambda>m.
       rbind (measure_position D config intent market (ex_agent ex) m) (\<lambda>mp.
       rbind (measure_leverage D config intent asset (ex_agent ex) m mp) (\<lambda>leverage.
       rbind (measure_slippage D config intent m) (\<lambda>(slippage_bps, slippage_reference).
       Inr \<lparr>om_priced = m, om_position = mp, om_leverage = leverage, om_slippage_bps = slippage_bps,
            om_slippage_reference = slippage_reference\<rparr>)))))
     (price_order D config intent asset market (ex_agent ex) now_ms)"

section \<open>Budgets and clearance\<close>

text \<open>The agent's bucket: created or rebuilt, then, once the feed admits again, charged or read.\<close>

definition spend_order_token ::
  "engine_config \<Rightarrow> feed_inner \<Rightarrow> agent_id \<Rightarrow> agent_guardrails \<Rightarrow> exposure \<Rightarrow> nat \<Rightarrow> mode \<Rightarrow> engine_state \<Rightarrow>
     (refusal + decimal) \<times> engine_state" where
  "spend_order_token C f agent config ex now_ms mode st =
     (let rate = ag_order_rate config;
          bucket = bucket_mut agent rate now_ms st;
          st1 = put_bucket agent bucket st
      in case feed_admission f (ex_feed_stamp ex) (ec_network C) (ex_account ex) of
           Inl r \<Rightarrow> (Inl r, st1)
         | Inr _ \<Rightarrow>
             (case (if mode = MFresh then bucket_try_take bucket now_ms else bucket_refill bucket now_ms) of
                (Inl e, b) \<Rightarrow> (Inl (bucket_refusal e rate now_ms), put_bucket agent b st1)
              | (Inr _, b) \<Rightarrow>
                  (if mode = MPreflight \<and> \<not> is_ok (bucket_peek b)
                   then (map_err (\<lambda>e. bucket_refusal e rate now_ms)
                           (rbind (bucket_peek b) (\<lambda>_. Inr 0)), put_bucket agent b st1)
                   else (Inr (bucket_tokens b), put_bucket agent b st1))))"

definition order_clearance ::
  "declib \<Rightarrow> engine_config \<Rightarrow> agent_id \<Rightarrow> order_intent \<Rightarrow> market_ref \<Rightarrow> exposure \<Rightarrow> nat \<Rightarrow> authorized_route \<Rightarrow>
     agent_guardrails \<Rightarrow> order_measures \<Rightarrow> nat \<Rightarrow> decimal \<Rightarrow> decimal \<Rightarrow> cleared" where
  "order_clearance D C agent intent market ex now_ms route config om policy_revision order_tokens global_tokens =
     (let m = om_priced om; mp = om_position om; account = ex_agent ex in
      (cleared_new (ActOrder [po_wire m] (oi_grouping intent) (oi_builder intent))
        \<lparr>cr_approval_review_digest = None, cr_agent = agent, cr_route = route,
         cr_policy_revision = policy_revision, cr_vault_address = rb_vault_address (rt_binding route),
         cr_network = ec_network C, cr_evaluated_at_ms = now_ms,
         cr_kind = CkOrder
           \<lparr>co_symbol = oi_symbol intent, co_is_buy = oi_is_buy intent, co_px = po_px m, co_sz = po_sz m,
            co_notional_usd = po_notional_usd m, co_reduce_only = oi_reduce_only intent,
            co_slippage_bps = om_slippage_bps om, co_reference_px = po_reference_px m,
            co_slippage_reference_px = om_slippage_reference om, co_cloid = oi_cloid intent,
            co_snapshot_id = map_option ms_id (mk_snapshot market),
            co_snapshot_hash = map_option ms_hash (mk_snapshot market)\<rparr>,
         cr_utilization =
           \<lparr>ut_order_notional_pct = ratio_pct D (po_notional_usd m) (ag_max_order_usd config),
            ut_position_notional_pct = ratio_pct D (mp_after_usd mp) (ag_max_position_usd config),
            ut_daily_loss_pct = utilization_pct D Daily (ll_max_daily_loss_usd (ag_loss config)) account,
            ut_drawdown_pct = utilization_pct D Drawdown (ll_max_drawdown_usd (ag_loss config)) account,
            ut_vol_scaled_position_pct = Option.bind (mp_vol_scaled mp)
              (\<lambda>cap. ratio_pct D (mp_after_usd mp) (vc_effective_cap_usd cap)),
            ut_leverage = om_leverage om, ut_order_tokens_remaining = order_tokens,
            ut_global_tokens_remaining = global_tokens\<rparr>\<rparr>)
        \<lparr>cd_feed_stamp := ex_feed_stamp ex\<rparr>)"

text \<open>The approval requirement: a preflight reports it, a fresh order is minted as a proposal.\<close>

definition require_approval ::
  "'w ports \<Rightarrow> agent_id \<Rightarrow> order_intent \<Rightarrow> authorized_route \<Rightarrow> decimal \<Rightarrow> nat \<Rightarrow> mode \<Rightarrow> 'w sys \<Rightarrow>
     refusal \<times> 'w sys" where
  "require_approval P agent intent route notional_usd now_ms mode s =
     (let required = (\<lambda>i x. RfApprovalRequired (oi_symbol intent) notional_usd i x);
          expires_at_ms = sat_add64 now_ms APPROVAL_TTL_MS
      in if mode = MPreflight then (required [] expires_at_ms, s)
         else case po_mint P of
           Some mint \<Rightarrow>
             (case mint \<lparr>oc_agent = agent, oc_intent = intent, oc_route = route,
                         oc_policy_revision = es_policy_revision (sy_state s), oc_at_ms = now_ms\<rparr> (sy_world s) of
                (Inl err, w) \<Rightarrow> (approval_refusal err, s\<lparr>sy_world := w\<rparr>)
              | (Inr p, w) \<Rightarrow> (required (pr_id p) (pr_expires_at_ms p), s\<lparr>sy_world := w\<rparr>))
         | None \<Rightarrow>
             (case mint_proposal agent intent route now_ms (sy_state s) of
                (i, st) \<Rightarrow> (required i expires_at_ms, s\<lparr>sy_state := st\<rparr>)))"

definition decide_spend ::
  "declib \<Rightarrow> engine_config \<Rightarrow> 'w ports \<Rightarrow> feed_inner \<Rightarrow> agent_id \<Rightarrow> order_intent \<Rightarrow> market_ref \<Rightarrow> exposure \<Rightarrow> nat
     \<Rightarrow> mode \<Rightarrow> authorized_route \<Rightarrow> agent_guardrails \<Rightarrow> order_measures \<Rightarrow> 'w sys \<Rightarrow> (refusal + cleared) \<times> 'w sys" where
  "decide_spend D C P f agent intent market ex now_ms mode route config om s =
     (case spend_order_token C f agent config ex now_ms mode (sy_state s) of
        (Inl r, st1) \<Rightarrow> (Inl r, s\<lparr>sy_state := st1\<rparr>)
      | (Inr order_tokens, st1) \<Rightarrow>
          (case spend_global (es_global_bucket st1) (es_global_budget st1) mode now_ms of
             (r, g) \<Rightarrow>
               let s2 = s\<lparr>sy_state := st1\<lparr>es_global_bucket := g\<rparr>\<rparr> in
               (case r of
                  Inl e \<Rightarrow> (Inl e, s2)
                | Inr global_tokens \<Rightarrow>
                    if ag_approval_required config \<and> (mode = MPreflight \<or> mode = MFresh)
                    then (case require_approval P agent intent route (po_notional_usd (om_priced om)) now_ms mode s2 of
                            (e, s3) \<Rightarrow> (Inl e, s3))
                    else (Inr (order_clearance D C agent intent market ex now_ms route config om
                                 (es_policy_revision (sy_state s2)) order_tokens global_tokens), s2))))"

section \<open>The evaluation\<close>

definition original_mismatch :: "declib \<Rightarrow> order_intent \<Rightarrow> asset \<Rightarrow> bool option" where
  "original_mismatch D intent asset =
     (case oi_original intent of
        None \<Rightarrow> Some False
      | Some og \<Rightarrow> map_option Not (matches_normalization D og intent asset))"

definition decide_evaluated ::
  "declib \<Rightarrow> engine_config \<Rightarrow> 'w ports \<Rightarrow> feed_inner \<Rightarrow> agent_id \<Rightarrow> order_intent \<Rightarrow> asset \<Rightarrow> market_ref \<Rightarrow>
     exposure \<Rightarrow> nat \<Rightarrow> mode \<Rightarrow> 'w sys \<Rightarrow> ((refusal + cleared) \<times> 'w sys) option" where
  "decide_evaluated D C P f agent intent asset market ex now_ms mode s =
     (case decide_admission C P f agent intent asset market ex now_ms mode s of
        Inl r \<Rightarrow> Some (Inl r, s)
      | Inr (route, config) \<Rightarrow>
          (case breaker_check_all D agent (ag_loss config) (ex_agent ex) (es_account_limits (sy_state s))
                  (ex_fleet ex) of
             Some b \<Rightarrow> (case decide_trip P b now_ms s of (r, s1) \<Rightarrow> Some (Inl r, s1))
           | None \<Rightarrow>
               (case measure_order D config intent asset market ex now_ms of
                  None \<Rightarrow> None
                | Some (Inl r) \<Rightarrow> Some (Inl r, s)
                | Some (Inr om) \<Rightarrow>
                    Some (decide_spend D C P f agent intent market ex now_ms mode route config om s))))"

definition decide ::
  "declib \<Rightarrow> engine_config \<Rightarrow> 'w ports \<Rightarrow> feed_inner \<Rightarrow> agent_id \<Rightarrow> order_intent \<Rightarrow> asset \<Rightarrow> market_ref \<Rightarrow>
     exposure \<Rightarrow> nat \<Rightarrow> mode \<Rightarrow> 'w sys \<Rightarrow> ((refusal + cleared) \<times> 'w sys) option" where
  "decide D C P f agent intent asset market ex now_ms mode s =
     (case check_reason (oi_reason intent) of
        Inl r \<Rightarrow> Some (Inl r, s)
      | Inr _ \<Rightarrow>
          Option.bind (original_mismatch D intent asset) (\<lambda>mismatch.
          if mismatch then Some (Inl (RfUnevaluable UnOriginalRequestMismatch), s)
          else case refresh_policy P s of
                 (Inl e, s1) \<Rightarrow> Some (Inl (RfUnevaluable (UnPolicyAuthority (guardrail_error_text e))), s1)
               | (Inr _, s1) \<Rightarrow> decide_evaluated D C P f agent intent asset market ex now_ms mode s1))"

section \<open>Its callers\<close>

definition record_outcome ::
  "'w ports \<Rightarrow> agent_id \<Rightarrow> nat \<Rightarrow> audit_reason \<Rightarrow> refusal + cleared \<Rightarrow> 'w sys \<Rightarrow> (refusal + unit) \<times> 'w sys" where
  "record_outcome P agent now_ms reason outcome s =
     (case po_record P
        \<lparr>ae_agent = Some agent, ae_at_ms = now_ms, ae_reason = reason,
         ae_outcome = (case outcome of Inr c \<Rightarrow> AoCleared (cd_clearance c) | Inl r \<Rightarrow> AoRefused r)\<rparr> (sy_world s) of
        (Inr _, w) \<Rightarrow> (Inr (), s\<lparr>sy_world := w\<rparr>)
      | (Inl err, w) \<Rightarrow>
          (if (case outcome of
                 Inr c \<Rightarrow> (case cr_kind (cd_clearance c) of
                             CkOrder _ \<Rightarrow> True | CkDiscretionaryCancel _ _ _ \<Rightarrow> True | _ \<Rightarrow> False)
               | Inl _ \<Rightarrow> False)
           then (Inl (RfUnevaluable (UnAuditWriteFailed err)), s\<lparr>sy_world := w\<rparr>)
           else (Inr (), s\<lparr>sy_world := w\<rparr>)))"

definition is_approval_authority :: "refusal + cleared \<Rightarrow> bool" where
  "is_approval_authority outcome =
     (case outcome of Inl (RfUnevaluable (UnApprovalAuthority _)) \<Rightarrow> True | _ \<Rightarrow> False)"

definition evaluate ::
  "declib \<Rightarrow> engine_config \<Rightarrow> 'w ports \<Rightarrow> feed_inner \<Rightarrow> agent_id \<Rightarrow> order_intent \<Rightarrow> asset \<Rightarrow> market_ref \<Rightarrow>
     exposure \<Rightarrow> nat \<Rightarrow> 'w sys \<Rightarrow> ((refusal + cleared) \<times> 'w sys) option" where
  "evaluate D C P f agent intent asset market ex now_ms s =
     map_option (\<lambda>(outcome, s1).
         if is_approval_authority outcome then (outcome, s1)
         else case record_outcome P agent now_ms (AgentReason (oi_reason intent)) outcome s1 of
                (Inl r, s2) \<Rightarrow> (Inl r, s2)
              | (Inr _, s2) \<Rightarrow> (outcome, s2))
       (decide D C P f agent intent asset market ex now_ms MFresh s)"

record verdict =
  vd_would_clear :: bool
  vd_utilization :: "utilization option"
  vd_refusal :: "refusal option"

definition preflight ::
  "declib \<Rightarrow> engine_config \<Rightarrow> 'w ports \<Rightarrow> feed_inner \<Rightarrow> agent_id \<Rightarrow> order_intent \<Rightarrow> asset \<Rightarrow> market_ref \<Rightarrow>
     exposure \<Rightarrow> nat \<Rightarrow> 'w sys \<Rightarrow> (verdict \<times> 'w sys) option" where
  "preflight D C P f agent intent asset market ex now_ms s =
     map_option (\<lambda>(outcome, s1).
         (case outcome of
            Inr c \<Rightarrow>
              let u = cr_utilization (cd_clearance c) in
              (case po_submission_preflight P of
                 None \<Rightarrow> \<lparr>vd_would_clear = True, vd_utilization = Some u, vd_refusal = None\<rparr>
               | Some journal \<Rightarrow>
                   (case journal (cd_clearance c) (sy_world s1) of
                      Inl r \<Rightarrow> \<lparr>vd_would_clear = False, vd_utilization = Some u, vd_refusal = Some r\<rparr>
                    | Inr _ \<Rightarrow> \<lparr>vd_would_clear = True, vd_utilization = Some u, vd_refusal = None\<rparr>))
          | Inl r \<Rightarrow> \<lparr>vd_would_clear = False, vd_utilization = None, vd_refusal = Some r\<rparr>, s1))
       (decide D C P f agent intent asset market ex now_ms MPreflight s)"

text \<open>Approval from the in-memory queue, for an engine without an approval journal.\<close>

definition operator_approve_proposal ::
  "declib \<Rightarrow> engine_config \<Rightarrow> 'w ports \<Rightarrow> feed_inner \<Rightarrow> string \<Rightarrow> asset \<Rightarrow> market_ref \<Rightarrow> exposure \<Rightarrow> nat \<Rightarrow>
     'w sys \<Rightarrow> ((refusal + cleared) \<times> 'w sys) option" where
  "operator_approve_proposal D C P f approval_id asset market ex now_ms s =
     (let s1 = on_state (sweep_proposals now_ms) s in
      case map_of (es_proposals (sy_state s1)) approval_id of
        None \<Rightarrow> Some (Inl (RfUnevaluable (UnUnknownProposal approval_id)), s1)
      | Some p \<Rightarrow>
          let s2 = on_state (\<lambda>st. st\<lparr>es_proposals := bt_remove approval_id (es_proposals st)\<rparr>) s1 in
          (case pr_intent p of
             PiCancel _ \<Rightarrow> Some (Inl (approval_refusal ''direct approval requires an order proposal''), s2)
           | PiOrder intent \<Rightarrow>
               map_option (\<lambda>(outcome, s3).
                   let outcome' = (case outcome of
                         Inl r \<Rightarrow> Inl r
                       | Inr c \<Rightarrow> Inr (c\<lparr>cd_approval_deadline_ms := Some (pr_expires_at_ms p)\<rparr>))
                   in case record_outcome P (pr_agent p) now_ms (AgentReason (oi_reason intent)) outcome' s3 of
                        (Inl r, s4) \<Rightarrow> (Inl r, s4)
                      | (Inr _, s4) \<Rightarrow> (outcome', s4))
                 (decide D C P f (pr_agent p) intent asset market ex now_ms (MApproved (pr_route p)) s2)))"

end
