(* ===== verification/Decide_Scenario.thy ===== *)
theory Decide_Scenario
  imports Decide
begin

text \<open>
  A concrete engine the properties of the evaluation are applied to: a Testnet engine with one
  registered agent, an acknowledged policy of revision 4, a reconciled feed session, an account with
  no position and a policy journal without faults.
\<close>

definition sample_config :: agent_guardrails where
  "sample_config = agent_guardrails_default\<lparr>ag_symbols := [''BTC''], ag_approval_required := False\<rparr>"

definition trading_policy :: persisted_state where
  "trading_policy = sample_policy\<lparr>pd_guardrails := [(''alpha'', sample_config)]\<rparr>"

definition trading_sys :: "policy_journal sys" where
  "trading_sys =
     \<lparr>sy_state = sample_engine\<lparr>es_guardrails := pd_guardrails trading_policy\<rparr>,
      sy_world = sample_journal\<lparr>pj_latest :=
        Some \<lparr>pe_version = \<lparr>pv_revision = 4, pv_state = trading_policy\<rparr>, pe_previous = None,
              pe_operation = OpInitialized\<rparr>\<rparr>\<rparr>"

definition sample_engine_config :: engine_config where
  "sample_engine_config = \<lparr>ec_network = Testnet, ec_supervised_alpha = False, ec_owner = 1\<rparr>"

definition sample_decide :: "mode \<Rightarrow> ((refusal + cleared) \<times> policy_journal sys) option" where
  "sample_decide mode =
     decide exact_declib sample_engine_config sample_ports sample_reconciled ''alpha'' sample_intent sample_asset
       sample_market sample_exposure 1500 mode trading_sys"

lemma sample_reason: "check_reason (oi_reason sample_intent) = Inr ()"
  by code_simp

lemma sample_matches: "original_mismatch exact_declib sample_intent sample_asset = Some False"
  by code_simp

lemma sample_refresh: "refresh_policy sample_ports trading_sys = (Inr (), trading_sys)"
  by (simp add: refresh_policy_def engine_observe_def sample_ports_def trading_sys_def journal_current_def
      fault_def no_faults_def engine_publish_def engine_policy_def sample_engine_def engine_state_empty_def
      sample_journal_def trading_policy_def sample_policy_def)

lemma sample_evaluated:
  "map_option (is_ok \<circ> fst)
     (decide_evaluated exact_declib sample_engine_config sample_ports sample_reconciled ''alpha'' sample_intent
        sample_asset sample_market sample_exposure 1500 MFresh trading_sys) = Some True"
  by code_simp

lemma sample_clears: "\<exists>c s'. sample_decide MFresh = Some (Inr c, s')"
proof -
  have "map_option (is_ok \<circ> fst) (sample_decide MFresh) = Some True"
    using sample_evaluated by (simp add: sample_decide_def decide_def sample_reason sample_matches sample_refresh)
  then show ?thesis by (auto simp: is_ok_iff)
qed

end
