(* ===== verification/Fills.thy ===== *)
theory Fills
  imports Decide_Props
begin

text \<open>
  How working orders can move a position: opening orders fill in part and in any order, reduce-only
  orders fill clipped at the position, and any order can be cancelled. The worst position an
  evaluation computes bounds every position reached this way.
\<close>

section \<open>The fills\<close>

record working =
  wk_pos :: decimal
  wk_buys :: decimal
  wk_sells :: decimal
  wk_reduce_buys :: decimal
  wk_reduce_sells :: decimal

inductive fill_step :: "working \<Rightarrow> working \<Rightarrow> bool" where
  fs_buy: "0 \<le> q \<Longrightarrow> q \<le> wk_buys w \<Longrightarrow>
     fill_step w (w\<lparr>wk_pos := wk_pos w + q, wk_buys := wk_buys w - q\<rparr>)"
| fs_sell: "0 \<le> q \<Longrightarrow> q \<le> wk_sells w \<Longrightarrow>
     fill_step w (w\<lparr>wk_pos := wk_pos w - q, wk_sells := wk_sells w - q\<rparr>)"
| fs_reduce_buy: "0 \<le> q \<Longrightarrow> q \<le> wk_reduce_buys w \<Longrightarrow> q \<le> - wk_pos w \<Longrightarrow>
     fill_step w (w\<lparr>wk_pos := wk_pos w + q, wk_reduce_buys := wk_reduce_buys w - q\<rparr>)"
| fs_reduce_sell: "0 \<le> q \<Longrightarrow> q \<le> wk_reduce_sells w \<Longrightarrow> q \<le> wk_pos w \<Longrightarrow>
     fill_step w (w\<lparr>wk_pos := wk_pos w - q, wk_reduce_sells := wk_reduce_sells w - q\<rparr>)"
| fs_cancel: "0 \<le> b \<Longrightarrow> b \<le> wk_buys w \<Longrightarrow> 0 \<le> s \<Longrightarrow> s \<le> wk_sells w \<Longrightarrow>
     0 \<le> rb \<Longrightarrow> rb \<le> wk_reduce_buys w \<Longrightarrow> 0 \<le> rs \<Longrightarrow> rs \<le> wk_reduce_sells w \<Longrightarrow>
     fill_step w (w\<lparr>wk_buys := b, wk_sells := s, wk_reduce_buys := rb, wk_reduce_sells := rs\<rparr>)"

definition working_ok :: "working \<Rightarrow> bool" where
  "working_ok w = (0 \<le> wk_buys w \<and> 0 \<le> wk_sells w \<and> 0 \<le> wk_reduce_buys w \<and> 0 \<le> wk_reduce_sells w)"

text \<open>The extremes the source computes, in exact arithmetic.\<close>

definition longest :: "working \<Rightarrow> decimal" where
  "longest w = wk_pos w + min (wk_reduce_buys w) (max (- wk_pos w) 0) + wk_buys w"

definition shortest :: "working \<Rightarrow> decimal" where
  "shortest w = wk_pos w - min (wk_reduce_sells w) (max (wk_pos w) 0) - wk_sells w"

definition working_of :: "decimal \<Rightarrow> decimal list \<Rightarrow> working" where
  "working_of szi sides =
     \<lparr>wk_pos = szi, wk_buys = sides ! 0, wk_sells = sides ! 1, wk_reduce_buys = sides ! 2,
      wk_reduce_sells = sides ! 3\<rparr>"

text \<open>
  The sums of the computation are exact: true of decimals as long as no sum needs more digits than
  the type holds.
\<close>

definition exact_sums :: "declib \<Rightarrow> working \<Rightarrow> bool" where
  "exact_sums D w =
     (let long = wk_pos w + min (wk_reduce_buys w) (max (- wk_pos w) 0);
          short = wk_pos w - min (wk_reduce_sells w) (max (wk_pos w) 0)
      in checked_add D (wk_pos w) (min (wk_reduce_buys w) (max (- wk_pos w) 0)) \<in> {None, Some long}
         \<and> checked_add D long (wk_buys w) \<in> {None, Some (long + wk_buys w)}
         \<and> checked_sub D (wk_pos w) (min (wk_reduce_sells w) (max (wk_pos w) 0)) \<in> {None, Some short}
         \<and> checked_sub D short (wk_sells w) \<in> {None, Some (short - wk_sells w)})"

section \<open>The bound\<close>

lemma fill_step_ok: "fill_step w w' \<Longrightarrow> working_ok w \<Longrightarrow> working_ok w'"
  by (induction rule: fill_step.induct) (auto simp: working_ok_def)

lemma fill_step_longest: "fill_step w w' \<Longrightarrow> working_ok w \<Longrightarrow> longest w' \<le> longest w"
  by (induction rule: fill_step.induct) (auto simp: longest_def working_ok_def min_def max_def)

lemma fill_step_shortest: "fill_step w w' \<Longrightarrow> working_ok w \<Longrightarrow> shortest w \<le> shortest w'"
  by (induction rule: fill_step.induct) (auto simp: shortest_def working_ok_def min_def max_def)

lemma fills_invariant:
  "fill_step\<^sup>*\<^sup>* w w' \<Longrightarrow> working_ok w \<Longrightarrow>
     working_ok w' \<and> longest w' \<le> longest w \<and> shortest w \<le> shortest w'"
proof (induction rule: rtranclp_induct)
  case base
  then show ?case by simp
next
  case (step y z)
  then show ?case
    using fill_step_ok [of y z] fill_step_longest [of y z] fill_step_shortest [of y z] by force
qed

lemma position_between_extremes: "working_ok w \<Longrightarrow> shortest w \<le> wk_pos w \<and> wk_pos w \<le> longest w"
  by (auto simp: working_ok_def longest_def shortest_def min_def max_def)

lemma fills_bounded:
  assumes "fill_step\<^sup>*\<^sup>* w w'" and "working_ok w"
  shows "\<bar>wk_pos w'\<bar> \<le> max \<bar>longest w\<bar> \<bar>shortest w\<bar>"
proof -
  have "working_ok w'" "longest w' \<le> longest w" "shortest w \<le> shortest w'"
    using fills_invariant [OF assms] by blast+
  moreover have "shortest w' \<le> wk_pos w'" "wk_pos w' \<le> longest w'"
    using position_between_extremes [OF \<open>working_ok w'\<close>] by blast+
  ultimately show ?thesis by (auto simp: max_def abs_if)
qed

lemma worst_of_sides_exact:
  assumes "worst_of_sides D szi sides = Inr worst" and "exact_sums D (working_of szi sides)"
  shows "worst = max \<bar>longest (working_of szi sides)\<bar> \<bar>shortest (working_of szi sides)\<bar>"
  using assms
  by (auto simp: worst_of_sides_def worst_position_def exact_sums_def working_of_def longest_def shortest_def
      Let_def result_inv checked_Inr split: bind_splits)

lemma priced_size_positive:
  assumes "price_order D config intent asset market account now_ms = Some (Inr m)"
    and "round_size D asset (po_sz m) = po_sz m"
  shows "0 < po_sz m"
proof -
  have sz: "po_sz m = round_size D asset (oi_sz intent)"
    and "to_wire_for_position D (intent_spec D intent asset) asset (po_position_szi m) = Some (Inr (po_wire m))"
    using price_order_Inr [OF assms(1)] by blast+
  then show ?thesis
  proof (elim to_wire_for_position_Inr)
    fix valid t p s
    assume valid: "validate_order D asset (round_price D asset (os_px (intent_spec D intent asset)))
        (round_size D asset (os_sz (intent_spec D intent asset))) = Some valid"
      and allow: "allow_full_close (is_full_close D (intent_spec D intent asset)
        (round_size D asset (os_sz (intent_spec D intent asset))) (po_position_szi m)) valid = Inr ()"
    have "size_rules D asset (round_size D asset (os_sz (intent_spec D intent asset)))"
      using allow valid validate_order_min_notional by (auto simp: allow_full_close_ok validate_order_ok)
    moreover have "round_size D asset (os_sz (intent_spec D intent asset)) = po_sz m"
      using assms(2) sz by (simp add: intent_spec_def)
    ultimately show ?thesis by (simp add: size_rules_def)
  qed
qed

lemma working_of_candidate_ok:
  assumes "list_all (\<lambda>x. 0 \<le> x) sides" and "length sides = 4" and "0 \<le> sz" and "i < 4"
  shows "working_ok (working_of szi (sides[i := sides ! i + sz]))"
proof -
  have "\<forall>j<4. 0 \<le> (sides[i := sides ! i + sz]) ! j"
    using assms by (auto simp: list_all_length nth_list_update)
  then show ?thesis by (simp add: working_ok_def working_of_def)
qed

text \<open>
  The symbol's working orders with the cleared order added to its side.
\<close>

definition working_with :: "account_snapshot \<Rightarrow> resting_exposure \<Rightarrow> order_intent \<Rightarrow> decimal \<Rightarrow> working" where
  "working_with account resting intent sz =
     (let sides = working_sides resting (oi_symbol intent); i = candidate_side intent
      in working_of (position_szi account (oi_symbol intent)) (sides[i := sides ! i + sz]))"

lemma working_sides_length: "length (working_sides resting symbol) = 4"
  by (simp add: working_sides_def)

lemma candidate_side_less: "candidate_side intent < 4"
  by (simp add: candidate_side_def)

text \<open>
  C3: the position cap bounds every way the orders can fill. Take an order that was cleared, the
  resting orders of the snapshot it was cleared on, and let the resting orders and the new one fill
  in part, in any order, reduce-only ones clipped at the position of the moment, or be cancelled.
  At every moment the size of the position is at most a worst position whose notional at the
  reference price is within the position cap or, if the order was a genuine reduction, which was
  already possible before it.
\<close>

theorem position_cap_bounds_every_fill:
  assumes "decide D C P f agent intent asset market ex now_ms mode s = Some (Inr c, s')"
    and "refresh_policy P s = (Inr (), s1)" and "map_of (es_guardrails (sy_state s1)) agent = Some config"
    and "cr_kind (cd_clearance c) = CkOrder cleared" and "ac_resting (ex_agent ex) = Some resting"
    and "round_size D asset (co_sz cleared) = co_sz cleared"
    and "checked_add D (working_sides resting (oi_symbol intent) ! candidate_side intent) (co_sz cleared)
           \<in> {None, Some (working_sides resting (oi_symbol intent) ! candidate_side intent + co_sz cleared)}"
    and "exact_sums D (working_with (ex_agent ex) resting intent (co_sz cleared))"
    and "fill_step\<^sup>*\<^sup>* (working_with (ex_agent ex) resting intent (co_sz cleared)) w"
  shows "\<exists>worst. \<bar>wk_pos w\<bar> \<le> worst
     \<and> (is_some_and (\<lambda>usd. usd \<le> ag_max_position_usd config) (checked_mul D worst (co_reference_px cleared))
        \<or> (co_reduce_only cleared \<and> (\<exists>before.
             worst_of_sides D (position_szi (ex_agent ex) (oi_symbol intent))
               (working_sides resting (oi_symbol intent)) = Inr before \<and> worst \<le> before)))"
  using assms(1)
proof (rule decide_Inr)
  fix s2 route config' om ot gt
  assume refresh: "refresh_policy P s = (Inr (), s2)"
    and adm: "decide_admission C P f agent intent asset market ex now_ms mode s2 = Inr (route, config')"
    and om: "measure_order D config' intent asset market ex now_ms = Some (Inr om)"
    and c: "c = order_clearance D C agent intent market ex now_ms route config' om (es_policy_revision (sy_state s2)) ot gt"
  let ?m = "om_priced om" and ?mp = "om_position om" and ?sides = "working_sides resting (oi_symbol intent)"
    and ?szi = "position_szi (ex_agent ex) (oi_symbol intent)"
  have config: "config' = config"
    using decide_admission_Inr [OF adm] refresh assms(2,3) by simp
  have cl: "co_sz cleared = po_sz ?m" "co_reference_px cleared = po_reference_px ?m"
      "co_reduce_only cleared = oi_reduce_only intent"
    using order_clearance_fields [OF c] assms(4) by auto
  have price: "price_order D config intent asset market (ex_agent ex) now_ms = Some (Inr ?m)"
    and pos: "measure_position D config intent market (ex_agent ex) ?m = Inr ?mp"
    using measure_order_Inr [OF om] config by blast+
  have szi: "po_position_szi ?m = ?szi" using price_order_Inr [OF price] by blast
  have resting: "mp_resting ?mp = resting" and nonneg: "list_all (\<lambda>x. 0 \<le> x) ?sides"
    and caps: "check_position_caps D config intent market ?m resting = Inr ?mp"
    using measure_position_Inr [OF pos] assms(5) by auto
  have before: "worst_of_sides D ?szi ?sides = Inr (mp_before ?mp)"
    and after: "worst_of_sides D ?szi (?sides[candidate_side intent := ?sides ! candidate_side intent + po_sz ?m])
      = Inr (mp_after ?mp)"
    and genuine: "mp_genuine_reduction ?mp \<Longrightarrow> oi_reduce_only intent \<and> mp_after ?mp \<le> mp_before ?mp"
    and usd: "checked_mul D \<bar>mp_after ?mp\<bar> (po_reference_px ?m) = Some (mp_after_usd ?mp)"
    and cap: "mp_genuine_reduction ?mp \<or> mp_after_usd ?mp \<le> ag_max_position_usd config"
    using check_position_caps_Inr [OF caps] assms(7) szi cl by auto
  have worst: "mp_after ?mp = max \<bar>longest (working_with (ex_agent ex) resting intent (po_sz ?m))\<bar>
      \<bar>shortest (working_with (ex_agent ex) resting intent (po_sz ?m))\<bar>"
    using worst_of_sides_exact [OF after] assms(8) cl by (simp add: working_with_def Let_def)
  have sz: "0 < po_sz ?m" using priced_size_positive [OF price] assms(6) cl by simp
  have "working_ok (working_with (ex_agent ex) resting intent (po_sz ?m))"
    using working_of_candidate_ok [OF nonneg working_sides_length less_imp_le [OF sz] candidate_side_less]
    by (simp add: working_with_def Let_def)
  then have bound: "\<bar>wk_pos w\<bar> \<le> mp_after ?mp"
    using fills_bounded [OF assms(9) [unfolded cl]] worst by simp
  have "\<bar>mp_after ?mp\<bar> = mp_after ?mp" using worst by simp
  with usd have "checked_mul D (mp_after ?mp) (co_reference_px cleared) = Some (mp_after_usd ?mp)" by (simp add: cl)
  then show ?thesis
    using bound cap before genuine cl by (intro exI [of _ "mp_after ?mp"]) (auto simp: is_some_and_iff)
qed

lemma exact_declib_sums: "exact_sums exact_declib w"
  by (simp add: exact_sums_def exact_declib_def Let_def)

lemma sample_size: "round_size exact_declib sample_asset (1 / 5) = 1 / 5"
  by code_simp

lemma sample_cleared:
  assumes "sample_decide MFresh = Some (Inr c, s')"
  shows "\<exists>cleared. cr_kind (cd_clearance c) = CkOrder cleared \<and> co_sz cleared = 1 / 5 \<and> \<not> co_reduce_only cleared"
  using assms [unfolded sample_decide_def]
proof (rule decide_Inr)
  fix s1 route config om ot gt
  assume om: "measure_order exact_declib config sample_intent sample_asset sample_market sample_exposure 1500 = Some (Inr om)"
    and c: "c = order_clearance exact_declib sample_engine_config ''alpha'' sample_intent sample_market sample_exposure 1500
        route config om (es_policy_revision (sy_state s1)) ot gt"
  have "po_sz (om_priced om) = 1 / 5"
    using price_order_Inr [OF conjunct1 [OF measure_order_Inr [OF om]]] sample_size by (simp add: sample_intent_def)
  then show ?thesis using order_clearance_fields [OF c] by (auto simp: sample_intent_def)
qed

text \<open>Half of the sample order fills: the position is 1/10.\<close>

theorem position_cap_bounds_every_fill_witness:
  "\<exists>c s' cleared worst. sample_decide MFresh = Some (Inr c, s') \<and> cr_kind (cd_clearance c) = CkOrder cleared
     \<and> co_sz cleared = 1 / 5 \<and> 1 / 10 \<le> worst
     \<and> is_some_and (\<lambda>usd. usd \<le> ag_max_position_usd sample_config)
         (checked_mul exact_declib worst (co_reference_px cleared))"
proof -
  obtain c s' where r: "sample_decide MFresh = Some (Inr c, s')" using sample_clears by blast
  obtain cleared where cl: "cr_kind (cd_clearance c) = CkOrder cleared" "co_sz cleared = 1 / 5" "\<not> co_reduce_only cleared"
    using sample_cleared [OF r] by blast
  define resting where "resting = the (ac_resting sample_account)"
  define w where "w = working_with (ex_agent sample_exposure) resting sample_intent (co_sz cleared)"
  have rest: "ac_resting (ex_agent sample_exposure) = Some resting"
    by (simp add: resting_def sample_exposure_def sample_account_def)
  have w: "w = \<lparr>wk_pos = 0, wk_buys = 1 / 5, wk_sells = 0, wk_reduce_buys = 0, wk_reduce_sells = 0\<rparr>"
    by (simp add: w_def cl resting_def working_with_def working_sides_def working_of_def candidate_side_def
        sample_exposure_def sample_account_def sample_intent_def position_szi_def resting_sides_def unwrap_or_zero_def)
  have "fill_step\<^sup>*\<^sup>* w (w\<lparr>wk_pos := wk_pos w + 1 / 10, wk_buys := wk_buys w - 1 / 10\<rparr>)"
    by (intro r_into_rtranclp fs_buy) (simp_all add: w)
  then have fills: "fill_step\<^sup>*\<^sup>* (working_with (ex_agent sample_exposure) resting sample_intent (co_sz cleared))
      (w\<lparr>wk_pos := wk_pos w + 1 / 10, wk_buys := wk_buys w - 1 / 10\<rparr>)"
    by (simp only: w_def)
  have config: "map_of (es_guardrails (sy_state trading_sys)) ''alpha'' = Some sample_config"
    by (simp add: trading_sys_def trading_policy_def)
  have size: "round_size exact_declib sample_asset (co_sz cleared) = co_sz cleared" by (simp only: cl sample_size)
  have add: "checked_add exact_declib (working_sides resting (oi_symbol sample_intent) ! candidate_side sample_intent)
      (co_sz cleared) \<in> {None, Some (working_sides resting (oi_symbol sample_intent) ! candidate_side sample_intent
        + co_sz cleared)}"
    by (simp add: exact_declib_def)
  from position_cap_bounds_every_fill [OF r [unfolded sample_decide_def] sample_refresh config cl(1) rest size add
      exact_declib_sums fills] cl(3)
  obtain worst where "1 / 10 \<le> worst" "is_some_and (\<lambda>usd. usd \<le> ag_max_position_usd sample_config)
      (checked_mul exact_declib worst (co_reference_px cleared))"
    by (auto simp: w)
  then show ?thesis using r cl by blast
qed

end
