(* ===== verification/Signing.thy ===== *)
theory Signing
  imports Outcomes
begin

text \<open>
  From a clearance to a signature: the clearances of risk-reducing actions (cancels, the dead-man's
  switch, discretionary cancellations), the gate that runs inside the signer and the signing boundary
  of \<open>guardrail/engine.rs\<close>. The key store, the cryptography and the journals are parameters. A
  \<open>sign_moment\<close> is what the gate reads under its locks at one instant: the engine, the feed session,
  the caller's last word and the clock (and, apart from the gate, the clock a refusal is stamped
  with when the gate did not read it); a submission is signed at one moment and published at another.
\<close>

section \<open>Risk-reducing clearances\<close>

definition decide_cancel ::
  "engine_config \<Rightarrow> 'w ports \<Rightarrow> agent_id \<Rightarrow> nat \<Rightarrow> ustring \<Rightarrow> nat \<Rightarrow> action \<Rightarrow> 'w sys \<Rightarrow>
     (refusal + cleared) \<times> 'w sys" where
  "decide_cancel C P agent count reason now_ms act s =
     (case rbind (check_reason reason) (\<lambda>_.
           rbind (route_for_agent C P agent s) (\<lambda>route.
           rbind (ensure (count \<noteq> 0)
             (RfUnevaluable (UnInputMismatch ''cancels'' ''at least one order'' ''none''))) (\<lambda>_.
           Inr route))) of
        Inl r \<Rightarrow> (Inl r, s)
      | Inr route \<Rightarrow>
          (case draw_global_reserve (es_global_bucket (sy_state s)) now_ms of
             (tokens, b) \<Rightarrow>
               (Inr (cleared_new act
                  \<lparr>cr_approval_review_digest = None, cr_agent = agent, cr_route = route,
                   cr_policy_revision = 0, cr_vault_address = rb_vault_address (rt_binding route),
                   cr_network = ec_network C, cr_evaluated_at_ms = now_ms, cr_kind = CkCancel count,
                   cr_utilization = utilization_none_with_global tokens\<rparr>),
                on_state (\<lambda>st. st\<lparr>es_global_bucket := b\<rparr>) s)))"

definition recorded ::
  "'w ports \<Rightarrow> agent_id \<Rightarrow> nat \<Rightarrow> audit_reason \<Rightarrow> (refusal + cleared) \<times> 'w sys \<Rightarrow> (refusal + cleared) \<times> 'w sys" where
  "recorded P agent now_ms reason r =
     (case r of (outcome, s) \<Rightarrow>
        (case record_outcome P agent now_ms reason outcome s of
           (Inl e, s1) \<Rightarrow> (Inl e, s1)
         | (Inr _, s1) \<Rightarrow> (outcome, s1)))"

definition clear_risk_reducing ::
  "engine_config \<Rightarrow> 'w ports \<Rightarrow> agent_id \<Rightarrow> nat \<Rightarrow> ustring \<Rightarrow> nat \<Rightarrow> action \<Rightarrow> 'w sys \<Rightarrow>
     (refusal + cleared) \<times> 'w sys" where
  "clear_risk_reducing C P agent count reason now_ms act s =
     recorded P agent now_ms (AgentReason reason) (decide_cancel C P agent count reason now_ms act s)"

definition clear_cancel ::
  "engine_config \<Rightarrow> 'w ports \<Rightarrow> agent_id \<Rightarrow> cancel_wire list \<Rightarrow> ustring \<Rightarrow> nat \<Rightarrow> 'w sys \<Rightarrow>
     (refusal + cleared) \<times> 'w sys" where
  "clear_cancel C P agent cancels reason now_ms s =
     clear_risk_reducing C P agent (length cancels) reason now_ms (ActCancel cancels) s"

definition clear_cancel_by_cloid ::
  "engine_config \<Rightarrow> 'w ports \<Rightarrow> agent_id \<Rightarrow> cancel_by_cloid_wire list \<Rightarrow> ustring \<Rightarrow> nat \<Rightarrow> 'w sys \<Rightarrow>
     (refusal + cleared) \<times> 'w sys" where
  "clear_cancel_by_cloid C P agent cancels reason now_ms s =
     clear_risk_reducing C P agent (length cancels) reason now_ms (ActCancelByCloid cancels) s"

definition check_schedule_lead :: "nat option \<Rightarrow> nat \<Rightarrow> refusal + unit" where
  "check_schedule_lead cancel_at_ms now_ms =
     (case cancel_at_ms of
        None \<Rightarrow> Inr ()
      | Some t \<Rightarrow>
          let earliest_ms = sat_add64 now_ms DEAD_MAN_MIN_LEAD_MS in
          if t < earliest_ms then Inl (RfVenueRule (VrScheduleCancelTooSoon t earliest_ms)) else Inr ())"

definition decide_schedule_cancel ::
  "engine_config \<Rightarrow> 'w ports \<Rightarrow> agent_id \<Rightarrow> nat option \<Rightarrow> nat \<Rightarrow> 'w sys \<Rightarrow> (refusal + cleared) \<times> 'w sys" where
  "decide_schedule_cancel C P agent cancel_at_ms now_ms s =
     (case rbind (route_for_agent C P agent s) (\<lambda>route.
           rbind (check_schedule_lead cancel_at_ms now_ms) (\<lambda>_. Inr route)) of
        Inl r \<Rightarrow> (Inl r, s)
      | Inr route \<Rightarrow>
          (case draw_global_reserve (es_global_bucket (sy_state s)) now_ms of
             (tokens, b) \<Rightarrow>
               (Inr (cleared_new (ActScheduleCancel cancel_at_ms)
                  \<lparr>cr_approval_review_digest = None, cr_agent = agent, cr_route = route,
                   cr_policy_revision = 0, cr_vault_address = rb_vault_address (rt_binding route),
                   cr_network = ec_network C, cr_evaluated_at_ms = now_ms,
                   cr_kind = CkScheduleCancel cancel_at_ms,
                   cr_utilization = utilization_none_with_global tokens\<rparr>),
                on_state (\<lambda>st. st\<lparr>es_global_bucket := b\<rparr>) s)))"

definition clear_schedule_cancel ::
  "engine_config \<Rightarrow> 'w ports \<Rightarrow> agent_id \<Rightarrow> nat option \<Rightarrow> nat \<Rightarrow> 'w sys \<Rightarrow> (refusal + cleared) \<times> 'w sys" where
  "clear_schedule_cancel C P agent cancel_at_ms now_ms s =
     recorded P agent now_ms (EngineReason ''dead-man's switch'')
       (decide_schedule_cancel C P agent cancel_at_ms now_ms s)"

definition clear_dead_man ::
  "engine_config \<Rightarrow> 'w ports \<Rightarrow> agent_id \<Rightarrow> dead_man_intent \<Rightarrow> nat \<Rightarrow> 'w sys \<Rightarrow>
     (refusal + cleared option) \<times> 'w sys" where
  "clear_dead_man C P agent intent now_ms s =
     (let some = (\<lambda>r. case r of (Inl e, s1) \<Rightarrow> (Inl e, s1) | (Inr c, s1) \<Rightarrow> (Inr (Some c), s1)) in
      case intent of
        DmHold \<Rightarrow> (Inr None, s)
      | DmDisarm \<Rightarrow> some (clear_schedule_cancel C P agent None now_ms s)
      | DmArm cancel_at_ms \<Rightarrow> some (clear_schedule_cancel C P agent (Some cancel_at_ms) now_ms s))"

text \<open>
  A discretionary cancellation gives up the state lock between its two sections, so that other steps
  can come between the policy it read and the policy it clears under.
\<close>

record 'w cancel_ports =
  cp_ownership :: "authorized_route \<Rightarrow> cancel_target list \<Rightarrow> 'w \<Rightarrow> string + cancel_provenance"
  cp_mint :: "(agent_id \<Rightarrow> cancel_intent \<Rightarrow> authorized_route \<Rightarrow> nat \<Rightarrow> nat \<Rightarrow> 'w \<Rightarrow> (string + proposal) \<times> 'w) option"

record discretionary_capture =
  dk_route :: authorized_route
  dk_config :: agent_guardrails
  dk_policy_revision :: nat
  dk_provenance :: cancel_provenance

definition discretionary_begin ::
  "engine_config \<Rightarrow> 'w ports \<Rightarrow> 'w cancel_ports \<Rightarrow> agent_id \<Rightarrow> cancel_intent \<Rightarrow> cancel_context \<Rightarrow> nat \<Rightarrow>
     authorized_route option \<Rightarrow> 'w sys \<Rightarrow> (refusal + discretionary_capture) \<times> 'w sys" where
  "discretionary_begin C P Q agent intent cx now_ms reviewed_route s =
     (case check_reason (ci_reason intent) of
        Inl r \<Rightarrow> (Inl r, s)
      | Inr _ \<Rightarrow>
          (case refresh_policy P s of
             (Inl e, s1) \<Rightarrow> (Inl (RfUnevaluable (UnPolicyAuthority (guardrail_error_text e))), s1)
           | (Inr _, s1) \<Rightarrow>
               (rbind (decision_route C P agent s1) (\<lambda>route.
                rbind (ensure (is_none_or (\<lambda>expected. expected = route) reviewed_route)
                  (route_refusal ''cancellation proposal route changed'')) (\<lambda>_.
                rbind (decide_config agent (sy_state s1)) (\<lambda>config.
                rbind (cancel_check_context intent cx (rb_container (rt_binding route))
                  (fr_max_account_age_ms (ag_freshness config)) now_ms) (\<lambda>_.
                rbind (map_err submission_refusal (cp_ownership Q route (ci_targets intent) (sy_world s1))) (\<lambda>provenance.
                Inr \<lparr>dk_route = route, dk_config = config,
                     dk_policy_revision = es_policy_revision (sy_state s1),
                     dk_provenance = provenance\<rparr>))))), s1)))"

definition discretionary_finish ::
  "engine_config \<Rightarrow> 'w cancel_ports \<Rightarrow> agent_id \<Rightarrow> cancel_intent \<Rightarrow> cancel_context \<Rightarrow> nat \<Rightarrow> authorized_route option \<Rightarrow>
     bool \<Rightarrow> discretionary_capture \<Rightarrow> 'w sys \<Rightarrow> (refusal + cleared) \<times> 'w sys" where
  "discretionary_finish C Q agent intent cx now_ms reviewed_route preparing k s =
     (if es_policy_revision (sy_state s) \<noteq> dk_policy_revision k then (Inl (RfUnevaluable UnPolicyChanged), s)
      else if ag_approval_required (dk_config k) \<and> reviewed_route = None then
        (case cp_mint Q of
           None \<Rightarrow> (Inl (approval_refusal ''durable cancellation approval authority required''), s)
         | Some mint \<Rightarrow>
             (case mint agent intent (dk_route k) (dk_policy_revision k) now_ms (sy_world s) of
                (Inl err, w) \<Rightarrow> (Inl (approval_refusal err), s\<lparr>sy_world := w\<rparr>)
              | (Inr p, w) \<Rightarrow>
                  (Inl (RfCancellationApprovalRequired (pr_id p) (pr_expires_at_ms p) (ci_targets intent)),
                   s\<lparr>sy_world := w\<rparr>)))
      else
        (case (if preparing then (0, es_global_bucket (sy_state s))
               else draw_global_reserve (es_global_bucket (sy_state s)) now_ms) of
           (remaining, b) \<Rightarrow>
             (Inr (cleared_new (cancel_action intent)
                \<lparr>cr_approval_review_digest = None, cr_agent = agent, cr_route = dk_route k,
                 cr_policy_revision = dk_policy_revision k,
                 cr_vault_address = rb_vault_address (rt_binding (dk_route k)), cr_network = ec_network C,
                 cr_evaluated_at_ms = now_ms,
                 cr_kind = CkDiscretionaryCancel (ci_targets intent) (cx_observed_at_ms cx) (Some (dk_provenance k)),
                 cr_utilization = utilization_none_with_global remaining\<rparr>),
              on_state (\<lambda>st. st\<lparr>es_global_bucket := b\<rparr>) s)))"

definition decide_discretionary_cancel ::
  "engine_config \<Rightarrow> 'w ports \<Rightarrow> 'w cancel_ports \<Rightarrow> agent_id \<Rightarrow> cancel_intent \<Rightarrow> cancel_context \<Rightarrow> nat \<Rightarrow>
     authorized_route option \<Rightarrow> bool \<Rightarrow> 'w sys \<Rightarrow> (refusal + cleared) \<times> 'w sys" where
  "decide_discretionary_cancel C P Q agent intent cx now_ms reviewed_route preparing s =
     (case discretionary_begin C P Q agent intent cx now_ms reviewed_route s of
        (Inl r, s1) \<Rightarrow> (Inl r, s1)
      | (Inr k, s1) \<Rightarrow> discretionary_finish C Q agent intent cx now_ms reviewed_route preparing k s1)"

definition evaluate_cancel ::
  "engine_config \<Rightarrow> 'w ports \<Rightarrow> 'w cancel_ports \<Rightarrow> agent_id \<Rightarrow> cancel_intent \<Rightarrow> cancel_context \<Rightarrow> nat \<Rightarrow> 'w sys \<Rightarrow>
     (refusal + cleared) \<times> 'w sys" where
  "evaluate_cancel C P Q agent intent cx now_ms s =
     (case decide_discretionary_cancel C P Q agent intent cx now_ms None False s of
        (outcome, s1) \<Rightarrow>
          if is_approval_authority outcome then (outcome, s1)
          else recorded P agent now_ms (AgentReason (ci_reason intent)) (outcome, s1))"

section \<open>The gate inside the signer\<close>

record 'w sign_moment =
  sm_sys :: "'w sys"
  sm_feed :: feed_inner
  sm_authorize :: "(refusal + unit) option"
  sm_now_ms :: nat
  sm_clock_ms :: nat

definition is_risk_reducing :: "action \<Rightarrow> bool" where
  "is_risk_reducing act =
     (case act of ActCancel _ \<Rightarrow> True | ActCancelByCloid _ \<Rightarrow> True | ActScheduleCancel _ \<Rightarrow> True | _ \<Rightarrow> False)"

definition check_age :: "nat \<Rightarrow> nat \<Rightarrow> nat \<Rightarrow> nat \<Rightarrow> refusal + unit" where
  "check_age now_ms last_ms since_ms max_age_ms =
     (if now_ms < last_ms then Inl (RfUnevaluable (UnClockWentBackwards now_ms last_ms))
      else let age_ms = now_ms - since_ms in
           if age_ms > max_age_ms then Inl (RfUnevaluable (UnStaleClearance age_ms max_age_ms)) else Inr ())"

definition gate_check_kind :: "engine_config \<Rightarrow> clearance \<Rightarrow> engine_state \<Rightarrow> nat \<Rightarrow> refusal + unit" where
  "gate_check_kind C cl st now_ms =
     (case cr_kind cl of
        CkOrder _ \<Rightarrow>
          rbind (check_order_approval_window (cr_route cl) now_ms) (\<lambda>_.
          rbind (ensure (cr_policy_revision cl = es_policy_revision st) (RfUnevaluable UnPolicyChanged)) (\<lambda>_.
          rbind (check_scoped_acknowledgment (cr_route cl) (ec_supervised_alpha C) st) (\<lambda>_.
          rbind (ok_or (RfUnevaluable (UnUnknownAgent (cr_agent cl))) (map_of (es_guardrails st) (cr_agent cl))) (\<lambda>config.
          check_age now_ms (cr_evaluated_at_ms cl) (cr_evaluated_at_ms cl)
            (fr_max_market_age_ms (ag_freshness config))))))
      | CkDiscretionaryCancel _ observed_at_ms _ \<Rightarrow>
          rbind (ensure (cr_policy_revision cl = es_policy_revision st) (RfUnevaluable UnPolicyChanged)) (\<lambda>_.
          rbind (ok_or (RfUnevaluable (UnUnknownAgent (cr_agent cl))) (map_of (es_guardrails st) (cr_agent cl))) (\<lambda>config.
          check_age now_ms (max (cr_evaluated_at_ms cl) observed_at_ms) observed_at_ms
            (fr_max_account_age_ms (ag_freshness config))))
      | CkScheduleCancel cancel_at_ms \<Rightarrow> check_schedule_lead cancel_at_ms now_ms
      | CkCancel _ \<Rightarrow> Inr ())"

definition gate_feed :: "clearance \<Rightarrow> feed_stamp option \<Rightarrow> 'w sign_moment \<Rightarrow> refusal + unit" where
  "gate_feed cl stamp m =
     (case cr_kind cl of
        CkOrder _ \<Rightarrow> feed_admission (sm_feed m) stamp (cr_network cl) (rb_container (rt_binding (cr_route cl)))
      | _ \<Rightarrow> Inr ())"

definition gate_admission :: "clearance \<Rightarrow> feed_stamp option \<Rightarrow> 'w sign_moment \<Rightarrow> refusal + unit" where
  "gate_admission cl stamp m =
     rbind (gate_feed cl stamp m) (\<lambda>_. case sm_authorize m of None \<Rightarrow> Inr () | Some r \<Rightarrow> r)"

definition gate_check_state ::
  "engine_config \<Rightarrow> clearance \<Rightarrow> nat option \<Rightarrow> feed_stamp option \<Rightarrow> 'w sign_moment \<Rightarrow> action \<Rightarrow> refusal + unit" where
  "gate_check_state C cl deadline stamp m act =
     (let st = sy_state (sm_sys m); now_ms = sm_now_ms m in
      rbind (gate_admission cl stamp m) (\<lambda>_.
      rbind (case deadline of
               None \<Rightarrow> Inr ()
             | Some expires_at_ms \<Rightarrow>
                 ensure (now_ms < expires_at_ms) (RfUnevaluable (UnApprovalExpired expires_at_ms now_ms))) (\<lambda>_.
      rbind (gate_check_kind C cl st now_ms) (\<lambda>_.
      if is_risk_reducing act then Inr () else check_not_paused (cr_agent cl) st))))"

record pre_sign =
  ps_action :: action
  ps_nonce :: nat
  ps_vault_address :: "address option"
  ps_expires_after :: "nat option"
  ps_network :: network

definition gate_check_identity ::
  "engine_config \<Rightarrow> 'w ports \<Rightarrow> clearance \<Rightarrow> agent_wallet \<Rightarrow> address \<Rightarrow> 'w sign_moment \<Rightarrow> pre_sign \<Rightarrow> refusal + unit" where
  "gate_check_identity C P cl wallet signer m request =
     rbind (ensure (ps_network request = ec_network C)
       (RfUnevaluable (UnWrongNetwork (ec_network C) (ps_network request)))) (\<lambda>_.
     rbind (validate_route (cr_route cl) (cr_agent cl) (cr_network cl)) (\<lambda>_.
     rbind (ensure (cr_vault_address cl = rb_vault_address (rt_binding (cr_route cl))
                    \<and> ps_vault_address request = cr_vault_address cl
                    \<and> wallet = rb_wallet (rt_binding (cr_route cl))
                    \<and> signer = aw_address (rb_wallet (rt_binding (cr_route cl))))
       (route_refusal ''clearance, wallet or signer does not match route authority'')) (\<lambda>_.
     po_before_sign P cl wallet signer (sy_world (sm_sys m)))))"

definition gate_check ::
  "engine_config \<Rightarrow> 'w ports \<Rightarrow> clearance \<Rightarrow> nat option \<Rightarrow> feed_stamp option \<Rightarrow> agent_wallet \<Rightarrow> address \<Rightarrow>
     'w sign_moment \<Rightarrow> pre_sign \<Rightarrow> refusal + unit" where
  "gate_check C P cl deadline stamp wallet signer m request =
     rbind (gate_check_identity C P cl wallet signer m request) (\<lambda>_.
     gate_check_state C cl deadline stamp m (ps_action request))"

section \<open>The signing boundary\<close>

datatype sign_cleared_error = SceRefused refusal | SceKey string | SceSigning string

record 'g exchange_request =
  xr_request :: pre_sign
  xr_signature :: 'g

record ('w, 'g, 'p) submission =
  sb_reserved :: "refusal + unit"
  sb_publish :: "'g exchange_request \<Rightarrow> refusal + 'p"
  sb_moment :: "'w sign_moment"

record ('g, 'p) signed_parts =
  sp_request :: "'g exchange_request"
  sp_clearance :: clearance
  sp_publication :: "'p option"
  sp_wallet :: agent_wallet
  sp_signer :: address

text \<open>The key store answers with the wallet and the address of its key; the signature is the key's.\<close>

record 'g signer_ports =
  sg_load :: "agent_id \<Rightarrow> string + (address \<times> agent_wallet)"
  sg_sign :: "address \<Rightarrow> pre_sign \<Rightarrow> string + 'g"

definition record_pre_sign_refusal :: "'w ports \<Rightarrow> agent_id \<Rightarrow> nat \<Rightarrow> refusal \<Rightarrow> 'w sys \<Rightarrow> 'w sys" where
  "record_pre_sign_refusal P agent now_ms r s =
     (case r of
        RfUnevaluable (UnSubmissionAuthority _) \<Rightarrow> s
      | _ \<Rightarrow> s\<lparr>sy_world := snd (po_record P
                \<lparr>ae_agent = Some agent, ae_at_ms = now_ms, ae_reason = EngineReason ''pre-sign gate'',
                 ae_outcome = AoRefused r\<rparr> (sy_world s))\<rparr>)"

definition sign_checked ::
  "engine_config \<Rightarrow> 'w ports \<Rightarrow> 'g signer_ports \<Rightarrow> cleared \<Rightarrow> agent_wallet \<Rightarrow> address \<Rightarrow> 'w sign_moment \<Rightarrow> pre_sign \<Rightarrow>
     sign_cleared_error + 'g exchange_request" where
  "sign_checked C P K c wallet signer m request =
     rbind (map_err SceRefused (gate_check C P (cd_clearance c) (cd_approval_deadline_ms c) (cd_feed_stamp c)
              wallet signer m request)) (\<lambda>_.
     rbind (map_err SceSigning (sg_sign K signer request)) (\<lambda>signature.
     Inr \<lparr>xr_request = request, xr_signature = signature\<rparr>))"

definition publish_signed ::
  "engine_config \<Rightarrow> cleared \<Rightarrow> ('w, 'g, 'p) submission option \<Rightarrow> 'g exchange_request \<Rightarrow> sign_cleared_error + 'p option" where
  "publish_signed C c submission request =
     (case submission of
        None \<Rightarrow> Inr None
      | Some sb \<Rightarrow>
          rbind (map_err SceRefused (sb_publish sb request)) (\<lambda>publication.
          rbind (map_err SceRefused (gate_check_state C (cd_clearance c) (cd_approval_deadline_ms c) (cd_feed_stamp c)
                   (sb_moment sb) (ps_action (xr_request request)))) (\<lambda>_.
          Inr (Some publication))))"

text \<open>The last clock the gate read when a publication is refused.\<close>

definition published_at_ms ::
  "cleared \<Rightarrow> ('w, 'g, 'p) submission option \<Rightarrow> 'w sign_moment \<Rightarrow> 'g exchange_request \<Rightarrow> nat" where
  "published_at_ms c submission m request =
     (case submission of
        Some sb \<Rightarrow>
          if is_ok (sb_publish sb request) \<and> is_ok (gate_admission (cd_clearance c) (cd_feed_stamp c) (sb_moment sb))
          then sm_now_ms (sb_moment sb) else sm_now_ms m
      | None \<Rightarrow> sm_now_ms m)"

text \<open>A refusal at the gate is recorded, and inhibits orders where the policy was its reason.\<close>

definition inhibits_on_refusal :: "refusal \<Rightarrow> bool" where
  "inhibits_on_refusal r =
     (case r of
        RfUnevaluable (UnPolicyAuthority _) \<Rightarrow> True | RfUnevaluable UnPolicyChanged \<Rightarrow> True | _ \<Rightarrow> False)"

definition refuse_at_gate ::
  "'w ports \<Rightarrow> agent_id \<Rightarrow> nat \<Rightarrow> sign_cleared_error \<Rightarrow> 'w sys \<Rightarrow> 'w sys" where
  "refuse_at_gate P agent now_ms e s =
     (case e of
        SceRefused r \<Rightarrow>
          record_pre_sign_refusal P agent now_ms r
            (if inhibits_on_refusal r then on_state engine_inhibit s else s)
      | _ \<Rightarrow> s)"

definition sign_common ::
  "engine_config \<Rightarrow> 'w ports \<Rightarrow> 'g signer_ports \<Rightarrow> cleared \<Rightarrow> nat \<Rightarrow> nat option \<Rightarrow> refusal + unit \<Rightarrow> 'w sign_moment \<Rightarrow>
     ('w, 'g, 'p) submission option \<Rightarrow> (sign_cleared_error + ('g, 'p) signed_parts) \<times> 'w sys" where
  "sign_common C P K c nonce expires_after authorize m submission =
     (let cl = cd_clearance c; agent = cr_agent cl; s = sm_sys m; clock_ms = sm_clock_ms m;
          last_sys = (case submission of None \<Rightarrow> s | Some sb \<Rightarrow> sm_sys (sb_moment sb));
          request = \<lparr>ps_action = cd_action c, ps_nonce = nonce, ps_vault_address = cr_vault_address cl,
                     ps_expires_after = expires_after, ps_network = cr_network cl\<rparr>
      in case (case submission of None \<Rightarrow> Inr () | Some sb \<Rightarrow> sb_reserved sb) of
           Inl r \<Rightarrow> (Inl (SceRefused r), record_pre_sign_refusal P agent clock_ms r s)
         | Inr _ \<Rightarrow>
             (case sg_load K agent of
                Inl e \<Rightarrow> (Inl (SceKey e), s)
              | Inr (signer, wallet) \<Rightarrow>
                  (case authorize of
                     Inl r \<Rightarrow> (Inl (SceRefused r), record_pre_sign_refusal P agent clock_ms r s)
                   | Inr _ \<Rightarrow>
                       (case sign_checked C P K c wallet signer m request of
                          Inl e \<Rightarrow>
                            (Inl e, refuse_at_gate P agent
                               (if is_ok (gate_check_identity C P cl wallet signer m request)
                                   \<and> is_ok (gate_admission cl (cd_feed_stamp c) m)
                                then sm_now_ms m else clock_ms) e s)
                        | Inr sgd \<Rightarrow>
                            (case publish_signed C c submission sgd of
                               Inl e \<Rightarrow> (Inl e, refuse_at_gate P agent (published_at_ms c submission m sgd) e last_sys)
                             | Inr publication \<Rightarrow>
                                 (Inr \<lparr>sp_request = sgd, sp_clearance = cl, sp_publication = publication,
                                       sp_wallet = wallet, sp_signer = signer\<rparr>, last_sys))))))"

definition sign_cleared_authorized ::
  "engine_config \<Rightarrow> 'w ports \<Rightarrow> 'g signer_ports \<Rightarrow> cleared \<Rightarrow> nat \<Rightarrow> nat option \<Rightarrow> refusal + unit \<Rightarrow> 'w sign_moment \<Rightarrow>
     (sign_cleared_error + ('g, unit) signed_parts) \<times> 'w sys" where
  "sign_cleared_authorized C P K c nonce expires_after authorize m =
     (case cr_kind (cd_clearance c) of
        CkDiscretionaryCancel _ _ _ \<Rightarrow>
          (Inl (SceRefused (submission_refusal
             ''discretionary cancellations require the consuming dispatch capability'')), sm_sys m)
      | _ \<Rightarrow> sign_common C P K c nonce expires_after authorize m None)"

definition sign_discretionary_cancel_authorized ::
  "engine_config \<Rightarrow> 'w ports \<Rightarrow> 'g signer_ports \<Rightarrow> cleared \<Rightarrow> nat \<Rightarrow> nat option \<Rightarrow> refusal + unit \<Rightarrow> 'w sign_moment \<Rightarrow>
     (sign_cleared_error + ('g, unit) signed_parts) \<times> 'w sys" where
  "sign_discretionary_cancel_authorized C P K c nonce expires_after authorize m =
     (case cr_kind (cd_clearance c) of
        CkDiscretionaryCancel _ _ _ \<Rightarrow> sign_common C P K c nonce expires_after authorize m None
      | _ \<Rightarrow> (Inl (SceRefused (submission_refusal ''discretionary cancellation clearance required'')), sm_sys m))"

definition sign_submission_authorized ::
  "engine_config \<Rightarrow> 'w ports \<Rightarrow> 'g signer_ports \<Rightarrow> cleared \<Rightarrow> ('w, 'g, 'p) submission \<Rightarrow> nat \<Rightarrow> nat option \<Rightarrow>
     refusal + unit \<Rightarrow> 'w sign_moment \<Rightarrow> (sign_cleared_error + ('g, 'p) signed_parts) \<times> 'w sys" where
  "sign_submission_authorized C P K c sb nonce expires_after authorize m =
     sign_common C P K c nonce expires_after authorize m (Some sb)"

section \<open>What a signature stands for\<close>

lemma sign_common_Inr:
  assumes "sign_common C P K c nonce expires_after authorize m submission = (Inr parts, s')"
  shows "sg_load K (cr_agent (cd_clearance c)) = Inr (sp_signer parts, sp_wallet parts)
     \<and> sp_clearance parts = cd_clearance c
     \<and> xr_request (sp_request parts) = \<lparr>ps_action = cd_action c, ps_nonce = nonce,
          ps_vault_address = cr_vault_address (cd_clearance c), ps_expires_after = expires_after,
          ps_network = cr_network (cd_clearance c)\<rparr>
     \<and> sg_sign K (sp_signer parts) (xr_request (sp_request parts)) = Inr (xr_signature (sp_request parts))
     \<and> gate_check C P (cd_clearance c) (cd_approval_deadline_ms c) (cd_feed_stamp c) (sp_wallet parts)
          (sp_signer parts) m (xr_request (sp_request parts)) = Inr ()
     \<and> is_none_or (\<lambda>sb. gate_check_state C (cd_clearance c) (cd_approval_deadline_ms c) (cd_feed_stamp c)
          (sb_moment sb) (cd_action c) = Inr ()) submission"
  using assms
  by (auto simp: sign_common_def sign_checked_def publish_signed_def Let_def result_inv
      split: sum.splits option.splits prod.splits)

lemma check_not_paused_ok: "check_not_paused agent st = Inr () \<longleftrightarrow> kill_blocking (effective_kill st) agent = None"
  by (auto simp: check_not_paused_def split: option.splits)

lemma check_age_ok:
  "check_age now_ms last_ms since_ms max_age_ms = Inr () \<longleftrightarrow> last_ms \<le> now_ms \<and> now_ms - since_ms \<le> max_age_ms"
  by (auto simp: check_age_def Let_def)

lemma gate_check_identity_ok:
  "gate_check_identity C P cl wallet signer m request = Inr () \<longleftrightarrow>
     ps_network request = ec_network C \<and> validate_route (cr_route cl) (cr_agent cl) (cr_network cl) = Inr ()
     \<and> cr_vault_address cl = rb_vault_address (rt_binding (cr_route cl)) \<and> ps_vault_address request = cr_vault_address cl
     \<and> wallet = rb_wallet (rt_binding (cr_route cl)) \<and> signer = aw_address wallet
     \<and> po_before_sign P cl wallet signer (sy_world (sm_sys m)) = Inr ()"
  by (auto simp: gate_check_identity_def result_inv)

lemma gate_check_state_order:
  assumes "gate_check_state C cl deadline stamp m act = Inr ()" and "cr_kind cl = CkOrder order"
    and "\<not> is_risk_reducing act"
  shows "\<exists>config. map_of (es_guardrails (sy_state (sm_sys m))) (cr_agent cl) = Some config
     \<and> feed_admit stamp (cr_network cl) (rb_container (rt_binding (cr_route cl))) (sm_feed m) \<noteq> None
     \<and> is_none_or (\<lambda>r. r = Inr ()) (sm_authorize m) \<and> is_none_or (\<lambda>t. sm_now_ms m < t) deadline
     \<and> check_order_approval_window (cr_route cl) (sm_now_ms m) = Inr ()
     \<and> cr_policy_revision cl = es_policy_revision (sy_state (sm_sys m))
     \<and> check_scoped_acknowledgment (cr_route cl) (ec_supervised_alpha C) (sy_state (sm_sys m)) = Inr ()
     \<and> cr_evaluated_at_ms cl \<le> sm_now_ms m
     \<and> sm_now_ms m - cr_evaluated_at_ms cl \<le> fr_max_market_age_ms (ag_freshness config)
     \<and> kill_blocking (effective_kill (sy_state (sm_sys m))) (cr_agent cl) = None"
  using assms
  by (auto simp: gate_check_state_def gate_check_kind_def gate_admission_def gate_feed_def Let_def result_inv
      check_not_paused_ok check_age_ok feed_admission_ok split: option.splits)

section \<open>The policy of a revision\<close>

text \<open>Along control steps the revision never falls, and while it stands the policy does.\<close>

definition policy_le :: "engine_state \<Rightarrow> engine_state \<Rightarrow> bool" where
  "policy_le st st' =
     (es_policy_revision st \<le> es_policy_revision st'
      \<and> (es_policy_revision st' \<noteq> es_policy_revision st \<or> engine_policy st' = engine_policy st))"

lemma policy_le_trans: "policy_le a b \<Longrightarrow> policy_le b c \<Longrightarrow> policy_le a c"
  by (auto simp: policy_le_def)

lemma policy_le_same:
  "es_policy_revision st' = es_policy_revision st \<Longrightarrow> engine_policy st' = engine_policy st \<Longrightarrow> policy_le st st'"
  by (simp add: policy_le_def)

lemma begin_kill_policy [simp]:
  "es_policy_revision (snd (begin_operator_kill C scope reason now st)) = es_policy_revision st"
  "engine_policy (snd (begin_operator_kill C scope reason now st)) = engine_policy st"
  by (simp_all add: begin_operator_kill_def engine_policy_def Let_def split: option.split)

lemma control_step_policy: "control_step gs st st' \<Longrightarrow> policy_le st st'"
proof (induction rule: control_step.induct)
  case (cs_kill st C scope reason now)
  then show ?case by (intro policy_le_same) simp_all
next
  case (cs_publish v st st')
  then show ?case by (auto simp: engine_publish_def policy_le_def engine_policy_def split: if_splits)
next
  case (cs_ack_begin st observed)
  then show ?case by (intro policy_le_same) (simp_all add: ack_begin_def engine_policy_def)
next
  case (cs_ack_grant observed st)
  then show ?case by (intro policy_le_same) (simp_all add: ack_grant_def engine_policy_def)
next
  case (cs_activate g st route revision)
  then show ?case
    by (intro policy_le_same) (auto simp: activation_grant_def engine_policy_def split: sum.splits)
next
  case (cs_release g st scope)
  then show ?case by (intro policy_le_same) (auto simp: release_finish_def engine_policy_def split: if_splits)
qed (simp_all add: policy_le_def engine_policy_def same_control_def)

lemma control_run_policy: "(control_step gs)\<^sup>*\<^sup>* st st' \<Longrightarrow> policy_le st st'"
proof (induction rule: rtranclp_induct)
  case base
  then show ?case by (simp add: policy_le_def)
next
  case (step y z)
  then show ?case using control_step_policy policy_le_trans by blast
qed

lemma spend_order_token_control:
  "spend_order_token C f agent config ex now_ms mode st = (r, st') \<Longrightarrow> same_control st st'"
  by (auto simp: spend_order_token_def put_bucket_def same_control_def Let_def split: sum.splits prod.splits if_splits)

lemma decide_spend_control:
  assumes "decide_spend D C P f agent intent market ex now_ms mode route config om s = (Inr c, s')"
  shows "same_control (sy_state s) (sy_state s')"
  using assms
  by (auto simp: decide_spend_def Let_def same_control_def split: sum.splits prod.splits if_splits
      dest!: spend_order_token_control)

lemma decide_Inr_control:
  assumes "decide D C P f agent intent asset market ex now_ms mode s = Some (Inr c, s')"
    and "refresh_policy P s = (Inr (), s1)"
  shows "same_control (sy_state s1) (sy_state s')"
  using assms(1)
proof (cases rule: decide_Some)
  case (evaluated s2)
  then have "s2 = s1" using assms(2) by simp
  from evaluated(4) show ?thesis unfolding \<open>s2 = s1\<close>
    by (cases rule: decide_evaluated_Some) (simp_all add: decide_spend_control)
qed simp_all

section \<open>Properties\<close>

text \<open>
  C6: an order is signed under the policy it was evaluated under. Take an order that an evaluation
  cleared, let the engine's control sections run in any way, and let the signing boundary sign the
  clearance, directly or for a submission. Then the signed action is the cleared one, on the engine's
  network, signed by the address of the wallet its route names; at that moment the agent has the very
  configuration the order was evaluated against, the policy is acknowledged for the route, no kill
  scope blocks the agent, the clearance is not older than the agent's market-data budget and before
  any approval deadline, the wallet is inside its window, and the feed session still admits the stamp
  of the evaluation.
\<close>

theorem order_signed_under_its_policy:
  assumes decided: "decide D C P f agent intent asset market ex now_ms mode s = Some (Inr c, s')"
    and refresh: "refresh_policy P s = (Inr (), s1)"
    and run: "(control_step gs)\<^sup>*\<^sup>* (sy_state s') (sy_state (sm_sys m))"
    and sgn: "sign_common C Q K (c\<lparr>cd_approval_deadline_ms := deadline\<rparr>) nonce expires_after authorize m submission
      = (Inr parts, s'')"
  shows "\<exists>config. map_of (es_guardrails (sy_state s1)) agent = Some config
     \<and> map_of (es_guardrails (sy_state (sm_sys m))) agent = Some config
     \<and> ps_action (xr_request (sp_request parts)) = cd_action c
     \<and> ps_network (xr_request (sp_request parts)) = ec_network C
     \<and> sg_sign K (sp_signer parts) (xr_request (sp_request parts)) = Inr (xr_signature (sp_request parts))
     \<and> sp_signer parts = aw_address (rb_wallet (rt_binding (cr_route (cd_clearance c))))
     \<and> sg_load K agent = Inr (sp_signer parts, sp_wallet parts)
     \<and> check_scoped_acknowledgment (cr_route (cd_clearance c)) (ec_supervised_alpha C) (sy_state (sm_sys m)) = Inr ()
     \<and> kill_blocking (effective_kill (sy_state (sm_sys m))) agent = None
     \<and> now_ms \<le> sm_now_ms m \<and> sm_now_ms m - now_ms \<le> fr_max_market_age_ms (ag_freshness config)
     \<and> is_none_or (\<lambda>t. sm_now_ms m < t) deadline
     \<and> check_order_approval_window (cr_route (cd_clearance c)) (sm_now_ms m) = Inr ()
     \<and> feed_admit (ex_feed_stamp ex) (ec_network C) (ex_account ex) (sm_feed m) \<noteq> None"
  using decided
proof (rule decide_Inr)
  fix s2 route config om ot gt
  assume "refresh_policy P s = (Inr (), s2)"
    and adm: "decide_admission C P f agent intent asset market ex now_ms mode s2 = Inr (route, config)"
    and c: "c = order_clearance D C agent intent market ex now_ms route config om (es_policy_revision (sy_state s2)) ot gt"
  then have s2: "s2 = s1" using refresh by simp
  note fields = order_clearance_fields [OF c]
  note parts = sign_common_Inr [OF sgn, simplified]
  have act: "\<not> is_risk_reducing (cd_action c)" using fields by (simp add: is_risk_reducing_def)
  obtain order where kind: "cr_kind (cd_clearance c) = CkOrder order" using fields by blast
  have gate: "gate_check_state C (cd_clearance c) deadline (cd_feed_stamp c) m (cd_action c) = Inr ()"
    and ident: "gate_check_identity C Q (cd_clearance c) (sp_wallet parts) (sp_signer parts) m (xr_request (sp_request parts)) = Inr ()"
    using parts by (auto simp: gate_check_def result_inv)
  obtain config' where now: "map_of (es_guardrails (sy_state (sm_sys m))) agent = Some config'"
      "cr_policy_revision (cd_clearance c) = es_policy_revision (sy_state (sm_sys m))"
      "sm_now_ms m - now_ms \<le> fr_max_market_age_ms (ag_freshness config')" "now_ms \<le> sm_now_ms m"
      "check_scoped_acknowledgment (cr_route (cd_clearance c)) (ec_supervised_alpha C) (sy_state (sm_sys m)) = Inr ()"
      "kill_blocking (effective_kill (sy_state (sm_sys m))) agent = None" "is_none_or (\<lambda>t. sm_now_ms m < t) deadline"
      "check_order_approval_window (cr_route (cd_clearance c)) (sm_now_ms m) = Inr ()"
      "feed_admit (cd_feed_stamp c) (cr_network (cd_clearance c)) (rb_container (rt_binding (cr_route (cd_clearance c)))) (sm_feed m) \<noteq> None"
    using gate_check_state_order [OF gate kind act] fields by auto
  have "same_control (sy_state s1) (sy_state s')" by (rule decide_Inr_control [OF decided refresh])
  then have "policy_le (sy_state s1) (sy_state (sm_sys m))"
    using control_run_policy [OF run] by (simp add: policy_le_def engine_policy_def same_control_def)
  then have "es_guardrails (sy_state (sm_sys m)) = es_guardrails (sy_state s1)"
    using now(2) fields s2 by (simp add: policy_le_def engine_policy_def)
  moreover have "map_of (es_guardrails (sy_state s1)) agent = Some config"
      "ex_account ex = rb_container (rt_binding route)"
    using decide_admission_Inr [OF adm] s2 by simp_all
  moreover have "sg_load K (cr_agent (cd_clearance c)) = Inr (sp_signer parts, sp_wallet parts)"
      "sg_sign K (sp_signer parts) (xr_request (sp_request parts)) = Inr (xr_signature (sp_request parts))"
    and req: "xr_request (sp_request parts) = \<lparr>ps_action = cd_action c, ps_nonce = nonce,
        ps_vault_address = cr_vault_address (cd_clearance c), ps_expires_after = expires_after,
        ps_network = cr_network (cd_clearance c)\<rparr>"
    using parts by blast+
  moreover have "cr_agent (cd_clearance c) = agent" using fields by blast
  moreover have "ps_action (xr_request (sp_request parts)) = cd_action c" by (simp only: req pre_sign.simps)
  moreover have "ps_network (xr_request (sp_request parts)) = ec_network C"
      "sp_signer parts = aw_address (rb_wallet (rt_binding (cr_route (cd_clearance c))))"
    using ident unfolding gate_check_identity_ok by (blast, metis)
  moreover have "feed_admit (ex_feed_stamp ex) (ec_network C) (ex_account ex) (sm_feed m) \<noteq> None"
    using now(9) fields \<open>ex_account ex = _\<close> by simp
  ultimately show ?thesis using now(1,3-8) by (intro exI [of _ config] conjI; simp only:) simp
qed

definition sample_signer :: "nat signer_ports" where
  "sample_signer = \<lparr>sg_load = (\<lambda>_. Inr (Address [9], rb_wallet (rt_binding sample_route))),
     sg_sign = (\<lambda>_ r. Inr (ps_nonce r))\<rparr>"

definition sample_moment :: "policy_journal sys \<Rightarrow> policy_journal sign_moment" where
  "sample_moment s = \<lparr>sm_sys = s, sm_feed = sample_reconciled, sm_authorize = None, sm_now_ms = 1600, sm_clock_ms = 1600\<rparr>"

definition sample_sign :: "cleared \<Rightarrow> policy_journal sys \<Rightarrow>
    (sign_cleared_error + (nat, unit) signed_parts) \<times> policy_journal sys" where
  "sample_sign c s =
     sign_common sample_engine_config sample_ports sample_signer (c\<lparr>cd_approval_deadline_ms := Some 5000\<rparr>) 1 None
       (Inr ()) (sample_moment s) None"

lemma sample_signs:
  "(case decide_evaluated exact_declib sample_engine_config sample_ports sample_reconciled ''alpha'' sample_intent
        sample_asset sample_market sample_exposure 1500 MFresh trading_sys of
      Some (Inr c, s') \<Rightarrow> is_ok (fst (sample_sign c s'))
    | _ \<Rightarrow> False)"
  by code_simp

theorem order_signed_under_its_policy_witness:
  "\<exists>c s' parts s''. sample_decide MFresh = Some (Inr c, s') \<and> sample_sign c s' = (Inr parts, s'')
     \<and> ps_action (xr_request (sp_request parts)) = cd_action c \<and> sp_signer parts = aw_address (rb_wallet (rt_binding (cr_route (cd_clearance c))))
     \<and> kill_blocking (effective_kill (sy_state s')) ''alpha'' = None"
proof -
  obtain c s' where r: "sample_decide MFresh = Some (Inr c, s')" using sample_clears by blast
  have "is_ok (fst (sample_sign c s'))"
    using sample_signs r by (simp add: sample_decide_def decide_def sample_reason sample_matches sample_refresh)
  then obtain parts s'' where sgn: "sample_sign c s' = (Inr parts, s'')"
    by (cases "sample_sign c s'") (auto simp: is_ok_iff)
  have run: "(control_step {})\<^sup>*\<^sup>* (sy_state s') (sy_state (sm_sys (sample_moment s')))" by (simp add: sample_moment_def)
  from order_signed_under_its_policy [OF r [unfolded sample_decide_def] sample_refresh run sgn [unfolded sample_sign_def]]
  show ?thesis using r sgn by (auto simp: sample_moment_def)
qed

text \<open>
  C34: risk-reducing actions are never held back. Whatever the kill switch, the acknowledgment, the
  policy, the rate budgets and the feed, a cancel with a valid reason whose route the registry gives
  is cleared, also when its audit row cannot be written; its clearance charges the address-wide budget
  without ever being refused by it; and the gate's state check lets the cancel pass at every later
  moment at which the caller agrees.
\<close>

theorem cancels_always_clear:
  assumes "reason_ok reason" and "route_for_agent C P agent s = Inr route" and "cancels \<noteq> []"
  shows "\<exists>c s'. clear_cancel C P agent cancels reason now_ms s = (Inr c, s') \<and> cd_action c = ActCancel cancels
     \<and> cr_agent (cd_clearance c) = agent \<and> cr_route (cd_clearance c) = route
     \<and> es_global_bucket (sy_state s') = snd (bucket_try_take (es_global_bucket (sy_state s)) now_ms)
     \<and> (sm_authorize m \<noteq> None \<and> sm_authorize m \<noteq> Some (Inr ())
        \<or> gate_check_state C (cd_clearance c) (cd_approval_deadline_ms c) (cd_feed_stamp c) m (cd_action c) = Inr ())"
proof -
  have "check_reason reason = Inr ()" using assms(1) by (simp add: check_reason_ok)
  then have d: "\<exists>c s1. decide_cancel C P agent (length cancels) reason now_ms (ActCancel cancels) s = (Inr c, s1)
      \<and> cd_action c = ActCancel cancels \<and> cr_agent (cd_clearance c) = agent \<and> cr_route (cd_clearance c) = route
      \<and> cr_kind (cd_clearance c) = CkCancel (length cancels) \<and> cd_approval_deadline_ms c = None
      \<and> es_global_bucket (sy_state s1) = snd (bucket_try_take (es_global_bucket (sy_state s)) now_ms)"
    using assms(2,3) by (simp add: decide_cancel_def draw_global_reserve_def Let_def cleared_new_def)
  then obtain c s1 where c: "decide_cancel C P agent (length cancels) reason now_ms (ActCancel cancels) s = (Inr c, s1)"
      "cd_action c = ActCancel cancels" "cr_agent (cd_clearance c) = agent" "cr_route (cd_clearance c) = route"
      "cr_kind (cd_clearance c) = CkCancel (length cancels)" "cd_approval_deadline_ms c = None"
      "es_global_bucket (sy_state s1) = snd (bucket_try_take (es_global_bucket (sy_state s)) now_ms)"
    by blast
  have "\<exists>w. clear_cancel C P agent cancels reason now_ms s = (Inr c, s1\<lparr>sy_world := w\<rparr>)"
    using c by (auto simp: clear_cancel_def clear_risk_reducing_def recorded_def record_outcome_def split: sum.splits prod.splits)
  moreover have "gate_check_state C (cd_clearance c) (cd_approval_deadline_ms c) (cd_feed_stamp c) m (cd_action c) = Inr ()"
    if "sm_authorize m = None \<or> sm_authorize m = Some (Inr ())"
    using that c by (auto simp: gate_check_state_def gate_check_kind_def gate_admission_def gate_feed_def is_risk_reducing_def)
  ultimately show ?thesis using c by fastforce
qed

definition stopped_sys :: "policy_journal sys" where
  "stopped_sys = on_state (\<lambda>st. snd (engine_stop ScopeGlobal \<lparr>eg_engaged_at_ms = 1400, eg_reason = KrOperator\<rparr> st)) trading_sys"

definition lost_ledger_ports :: "policy_journal ports" where
  "lost_ledger_ports = sample_ports\<lparr>po_record := (\<lambda>_ j. (Inl ''disk full'', j))\<rparr>"

text \<open>A stopped engine whose ledger cannot be written still clears a cancel.\<close>

theorem cancels_always_clear_witness:
  "\<exists>c s'. clear_cancel sample_engine_config lost_ledger_ports ''alpha'' [\<lparr>cw_a = 3, cw_o = 77\<rparr>] [111, 107] 1500 stopped_sys
        = (Inr c, s') \<and> kill_blocking (effective_kill (sy_state stopped_sys)) ''alpha'' \<noteq> None
     \<and> gate_check_state sample_engine_config (cd_clearance c) (cd_approval_deadline_ms c) (cd_feed_stamp c)
          (sample_moment stopped_sys) (cd_action c) = Inr ()"
proof -
  have reason: "reason_ok [111, 107]" using sample_reason check_reason_ok by (simp add: sample_intent_def)
  have route: "route_for_agent sample_engine_config lost_ledger_ports ''alpha'' stopped_sys = Inr sample_route"
    by code_simp
  have "map_of (es_emergency (sy_state stopped_sys)) ScopeGlobal \<noteq> None"
    by (simp add: stopped_sys_def map_of_or_insert_self)
  then have blocked: "kill_blocking (effective_kill (sy_state stopped_sys)) ''alpha'' \<noteq> None"
    by (rule emergency_blocks) (simp add: scope_covers_def)
  show ?thesis
    using cancels_always_clear [OF reason route, of "[\<lparr>cw_a = 3, cw_o = 77\<rparr>]" 1500 "sample_moment stopped_sys"] blocked
    by (auto simp: sample_moment_def)
qed

end
