(* ===== verification/Approval.thy ===== *)
theory Approval
  imports Engine_State
begin

text \<open>
  \<open>ledger/approval.rs\<close>: the one-shot approval journal, event-sourced over the ledger. Rows are typed
  values here: a row that the decoder refuses (canonical JSON, MAC, envelope) is one constructor, and
  the hash of a row, the digests, the texts of refusals, the policy and registry replays and the
  faults of the store are the record \<open>approval_env\<close>. A proposal is minted, claimed once, and disposed
  of once; the theory relates the operations, which write rows, to the replay, which reads them.
\<close>

section \<open>Intents\<close>

record link =
  lk_seq :: nat
  lk_hash :: string

datatype approval_error = AeLedger string | AeUnavailable string | AeConflict string

datatype normalized_kind = NkLimit tif | NkTrigger bool decimal tpsl

record normalized_intent =
  ni_symbol :: string
  ni_is_buy :: bool
  ni_px :: decimal
  ni_sz :: decimal
  ni_kind :: normalized_kind
  ni_reduce_only :: bool
  ni_cloid :: cloid
  ni_grouping :: grouping
  ni_builder :: "builder_info option"
  ni_max_slippage_bps :: "decimal option"
  ni_reason :: ustring
  ni_original :: "original_request option"

definition normalized_order_kind :: "normalized_kind \<Rightarrow> order_kind" where
  "normalized_order_kind k = (case k of NkLimit tif \<Rightarrow> OkLimit tif | NkTrigger m px t \<Rightarrow> OkTrigger m px t)"

definition normalized_to_intent :: "normalized_intent \<Rightarrow> order_intent" where
  "normalized_to_intent n =
     \<lparr>oi_original = ni_original n, oi_symbol = ni_symbol n, oi_is_buy = ni_is_buy n, oi_px = ni_px n,
      oi_sz = ni_sz n, oi_kind = normalized_order_kind (ni_kind n), oi_reduce_only = ni_reduce_only n,
      oi_cloid = Some (ni_cloid n), oi_grouping = ni_grouping n, oi_builder = ni_builder n,
      oi_max_slippage_bps = ni_max_slippage_bps n, oi_reason = ni_reason n\<rparr>"

definition bad_reason :: "ustring \<Rightarrow> bool" where
  "bad_reason r =
     (list_all is_whitespace r \<or> str_len r > MAX_REASON_BYTES
      \<or> list_ex (\<lambda>ch. is_control ch \<and> ch \<noteq> 10 \<and> ch \<noteq> 9) r)"

definition normalized_validate :: "normalized_intent \<Rightarrow> approval_error + unit" where
  "normalized_validate n =
     ensure (\<not> (ni_symbol n = [] \<or> list_ex (\<lambda>c. is_control (of_char c)) (ni_symbol n)
                \<or> ni_px n \<le> 0 \<or> ni_sz n \<le> 0 \<or> is_some_and (\<lambda>v. v < 0) (ni_max_slippage_bps n)
                \<or> bad_reason (ni_reason n)
                \<or> (case ni_kind n of NkTrigger _ trigger_px _ \<Rightarrow> trigger_px \<le> 0 | _ \<Rightarrow> False)
                \<or> is_some_and (\<lambda>og. \<not> matches_intent og (normalized_to_intent n)) (ni_original n)))
       (AeUnavailable ''invalid normalized approval intent'')"

definition normalized_from_intent :: "order_intent \<Rightarrow> approval_error + normalized_intent" where
  "normalized_from_intent i =
     rbind (ok_or (AeUnavailable ''durable approval requires a cloid'') (oi_cloid i)) (\<lambda>cloid.
     let n = \<lparr>ni_symbol = oi_symbol i, ni_is_buy = oi_is_buy i, ni_px = oi_px i, ni_sz = oi_sz i,
              ni_kind = (case oi_kind i of OkLimit tif \<Rightarrow> NkLimit tif | OkTrigger m px t \<Rightarrow> NkTrigger m px t),
              ni_reduce_only = oi_reduce_only i, ni_cloid = cloid, ni_grouping = oi_grouping i,
              ni_builder = oi_builder i, ni_max_slippage_bps = oi_max_slippage_bps i,
              ni_reason = oi_reason i, ni_original = oi_original i\<rparr>
     in rbind (normalized_validate n) (\<lambda>_. Inr n))"

text \<open>Quote evidence may advance on a retry; the first observation is retained.\<close>

definition normalized_same_request :: "normalized_intent \<Rightarrow> normalized_intent \<Rightarrow> bool" where
  "normalized_same_request a b =
     (a = (case (ni_original a, ni_original b) of
             (Some x, Some y) \<Rightarrow> if og_kind x = og_kind y then b\<lparr>ni_original := ni_original a\<rparr> else b
           | _ \<Rightarrow> b))"

datatype stored_intent = SiOrder normalized_intent | SiCancel cancel_intent

definition stored_to_intent :: "stored_intent \<Rightarrow> proposal_intent" where
  "stored_to_intent i = (case i of SiOrder n \<Rightarrow> PiOrder (normalized_to_intent n) | SiCancel c \<Rightarrow> PiCancel c)"

definition stored_reason :: "stored_intent \<Rightarrow> ustring" where
  "stored_reason i = (case i of SiOrder n \<Rightarrow> ni_reason n | SiCancel c \<Rightarrow> ci_reason c)"

definition same_identity :: "stored_intent \<Rightarrow> stored_intent \<Rightarrow> bool" where
  "same_identity a b =
     (case (a, b) of
        (SiOrder x, SiOrder y) \<Rightarrow> ni_cloid x = ni_cloid y
      | (SiCancel x, SiCancel y) \<Rightarrow> x = y
      | _ \<Rightarrow> False)"

definition same_request :: "stored_intent \<Rightarrow> stored_intent \<Rightarrow> bool" where
  "same_request a b =
     (case (a, b) of
        (SiOrder x, SiOrder y) \<Rightarrow> normalized_same_request x y
      | (SiCancel x, SiCancel y) \<Rightarrow> x = y
      | _ \<Rightarrow> False)"

definition is_order :: "stored_intent \<Rightarrow> bool" where
  "is_order i = (case i of SiOrder _ \<Rightarrow> True | SiCancel _ \<Rightarrow> False)"

section \<open>Reviews, operations and rows\<close>

record order_review_commitment =
  rv_proposal_root :: link
  rv_route :: authorized_route
  rv_candidate :: normalized_intent
  rv_action :: action
  rv_policy :: link
  rv_reviewed_at_ms :: nat
  rv_reference_at_ms :: nat
  rv_expires_at_ms :: nat
  rv_reference_px :: decimal
  rv_px :: decimal
  rv_sz :: decimal
  rv_notional_usd :: decimal

record cancel_review_commitment =
  cv_proposal_root :: link
  cv_route :: authorized_route
  cv_candidate :: cancel_intent
  cv_action :: action
  cv_policy :: link
  cv_reviewed_at_ms :: nat
  cv_observed_at_ms :: nat
  cv_expires_at_ms :: nat
  cv_provenance :: "cancel_provenance option"

datatype review_commitment = RcOrder order_review_commitment | RcCancel cancel_review_commitment

definition review_action :: "review_commitment \<Rightarrow> action" where
  "review_action r = (case r of RcOrder x \<Rightarrow> rv_action x | RcCancel x \<Rightarrow> cv_action x)"

record proposed =
  pp_agent :: agent_id
  pp_intent :: stored_intent
  pp_route :: authorized_route
  pp_route_hash :: string
  pp_policy :: link
  pp_expires_at_ms :: nat
  pp_cancel_provenance :: "cancel_provenance option"

datatype disposition =
    DpApproved link "string option"
  | DpRefused string link "string option"
  | DpRejected
  | DpExpired

datatype approval_operation =
    OpProposed proposed
  | OpClaimed "review_commitment option"
  | OpDisposed disposition

text \<open>The rows of the submission journal on the same ledger.\<close>

record started =
  sd_version :: nat
  sd_account :: address
  sd_cloid :: cloid
  sd_intent_seq :: nat
  sd_intent_hash :: string

datatype submission_resolution = SrRejected string | SrNotSent string | SrObserved nat string

record resolved =
  rs_version :: nat
  rs_account :: address
  rs_start_seq :: nat
  rs_start_hash :: string
  rs_outcome :: submission_resolution

datatype submission_body = SbStarted started | SbResolved resolved | SbMalformed string

text \<open>
  What the journals read of the ledger. A payload that was redacted is \<open>None\<close>; an audit row of an
  order or a cancellation carries the clearance, one of a refusal its text and the refusal itself.
\<close>

datatype row_body =
    RbApproval "link option" "link option" nat approval_operation
  | RbUndecodable string
  | RbPolicy bool
  | RbGrant "registry_binding option"
  | RbOrderIntent "agent_id option" "(clearance \<times> ustring) option"
  | RbAgentDecision "agent_id option" "(clearance \<times> ustring) option"
  | RbRefusal "agent_id option" "(string \<times> refusal option \<times> ustring) option"
  | RbSubmission "agent_id option" "submission_body option"
  | RbOther

record ledger_row =
  lr_hash :: string
  lr_key :: "string option"
  lr_body :: row_body

record approval_ledger =
  al_network :: network
  al_rows :: "ledger_row list"

datatype approval_state = ApPending | ApClaimed | ApDisposed

record approval_entry =
  en_data :: proposed
  en_root :: link
  en_last :: link
  en_minted_at_ms :: nat
  en_last_at_ms :: nat
  en_state :: approval_state
  en_review :: "review_commitment option"

text \<open>
  The parameters: the policy and registry journals over the same ledger, hashing and the text of a
  refusal, and the faults of the store (taking the lock, publishing the head before a row is added,
  committing, publishing the head afterwards).
\<close>

record approval_env =
  ev_owner :: nat
  ev_policy :: "approval_ledger \<Rightarrow> string + policy_version"
  ev_route :: "approval_ledger \<Rightarrow> agent_id \<Rightarrow> string + authorized_route"
  ev_registry :: "approval_ledger \<Rightarrow> agent_id \<Rightarrow> string + unit"
  ev_ownership :: "approval_ledger \<Rightarrow> authorized_route \<Rightarrow> cancel_target list \<Rightarrow> string + cancel_provenance"
  ev_row_hash :: "ledger_row list \<Rightarrow> row_body \<Rightarrow> string"
  ev_digest :: "review_commitment \<Rightarrow> string"
  ev_receipt_digest :: "review_commitment \<Rightarrow> link \<Rightarrow> string"
  ev_address_text :: "address \<Rightarrow> string"
  ev_intent_hash :: "cancel_intent \<Rightarrow> string"
  ev_refusal_text :: "refusal \<Rightarrow> string"

record approval_faults =
  ft_lock :: "string option"
  ft_note_before :: "string option"
  ft_commit :: "string option"
  ft_note_after :: "string option"

definition stored_validate :: "approval_env \<Rightarrow> stored_intent \<Rightarrow> approval_error + unit" where
  "stored_validate E i =
     (case i of
        SiOrder n \<Rightarrow> normalized_validate n
      | SiCancel c \<Rightarrow>
          rbind (map_err (\<lambda>r. AeUnavailable (ev_refusal_text E r)) (cancel_validate c)) (\<lambda>_.
          ensure (\<not> bad_reason (ci_reason c)) (AeUnavailable ''invalid cancellation reason'')))"

definition faulty :: "string option \<Rightarrow> approval_error + unit" where
  "faulty f = (case f of Some e \<Rightarrow> Inl (AeLedger e) | None \<Rightarrow> Inr ())"

definition timestamp :: "nat \<Rightarrow> approval_error + unit" where
  "timestamp at_ms = ensure (at_ms \<le> I64_MAX) (AeUnavailable ''approval timestamp out of range'')"

definition network_key :: "network \<Rightarrow> string" where
  "network_key n = (case n of Testnet \<Rightarrow> ''testnet'' | Mainnet \<Rightarrow> ''mainnet'')"

definition entry_proposal :: "network \<Rightarrow> approval_entry \<Rightarrow> proposal" where
  "entry_proposal network e =
     \<lparr>pr_id = ''approval-'' @ network_key network @ ''-'' @ nat_digits (lk_seq (en_root e)),
      pr_agent = pp_agent (en_data e), pr_intent = stored_to_intent (pp_intent (en_data e)),
      pr_route = pp_route (en_data e), pr_expires_at_ms = pp_expires_at_ms (en_data e),
      pr_cancel_provenance = pp_cancel_provenance (en_data e)\<rparr>"

definition ledger_row_at :: "approval_ledger \<Rightarrow> nat \<Rightarrow> approval_error + ledger_row" where
  "ledger_row_at L seq =
     rbind (timestamp seq) (\<lambda>_.
     if 0 < seq \<and> seq \<le> length (al_rows L) then Inr (al_rows L ! (seq - 1))
     else Inl (AeUnavailable ''linked approval evidence missing''))"

definition ledger_head :: "approval_ledger \<Rightarrow> nat" where
  "ledger_head L = length (al_rows L)"

definition next_seq :: "approval_ledger \<Rightarrow> approval_error + nat" where
  "next_seq L = (if ledger_head L < U64_MAX then Inr (ledger_head L + 1) else Inl (AeLedger ''sequence out of range''))"

definition mint_key :: "approval_env \<Rightarrow> proposed \<Rightarrow> nat \<Rightarrow> string" where
  "mint_key E d seq =
     ''approval:'' @ ev_address_text E (rb_container (rt_binding (pp_route d))) @ '':'' @
       (case pp_intent d of
          SiOrder n \<Rightarrow> cloid_as_str (ni_cloid n)
        | SiCancel c \<Rightarrow> ''cancel:'' @ nat_digits seq @ '':'' @ ev_intent_hash E c)"

definition operation_kind :: "approval_operation \<Rightarrow> string" where
  "operation_kind x =
     (case x of OpProposed _ \<Rightarrow> ''approval_proposed'' | OpClaimed _ \<Rightarrow> ''approval_claimed''
              | OpDisposed _ \<Rightarrow> ''approval_disposed'')"

definition step_key :: "approval_operation \<Rightarrow> nat \<Rightarrow> string" where
  "step_key x seq = operation_kind x @ '':'' @ nat_digits seq"

section \<open>Validation\<close>

definition unavailable_unless :: "bool \<Rightarrow> string \<Rightarrow> approval_error + unit" where
  "unavailable_unless b detail = ensure b (AeUnavailable detail)"

definition is_policy_row :: "row_body \<Rightarrow> bool" where
  "is_policy_row b = (case b of RbPolicy _ \<Rightarrow> True | _ \<Rightarrow> False)"

definition validate_cancel_review ::
  "approval_env \<Rightarrow> approval_ledger \<Rightarrow> approval_entry \<Rightarrow> cancel_review_commitment \<Rightarrow> nat \<Rightarrow> nat \<Rightarrow> approval_error + unit" where
  "validate_cancel_review E L e r at_ms claim_seq =
     rbind (map_err (\<lambda>x. AeUnavailable (ev_refusal_text E x)) (cancel_validate (cv_candidate r))) (\<lambda>_.
     rbind (unavailable_unless
       (pp_intent (en_data e) = SiCancel (cv_candidate r) \<and> cv_proposal_root r = en_root e
        \<and> cv_route r = pp_route (en_data e) \<and> cv_provenance r = pp_cancel_provenance (en_data e)
        \<and> en_minted_at_ms e \<le> cv_reviewed_at_ms r \<and> cv_reviewed_at_ms r \<le> at_ms
        \<and> cv_observed_at_ms r \<le> cv_reviewed_at_ms r \<and> cv_expires_at_ms r = pp_expires_at_ms (en_data e)
        \<and> at_ms < cv_expires_at_ms r \<and> lk_seq (cv_policy r) < claim_seq
        \<and> cv_action r = cancel_action (cv_candidate r))
       ''invalid cancellation review targets, action, lifetime or authority'') (\<lambda>_.
     rbind (ledger_row_at L (lk_seq (cv_policy r))) (\<lambda>policy.
     unavailable_unless (lr_hash policy = lk_hash (cv_policy r) \<and> is_policy_row (lr_body policy))
       ''cancellation review policy linkage mismatch'')))"

text \<open>The stored proposal with the price and the quote evidence a reviewed market order may move.\<close>

definition reviewed_intent :: "normalized_intent \<Rightarrow> order_review_commitment \<Rightarrow> normalized_intent" where
  "reviewed_intent n r =
     (case ni_original n of
        None \<Rightarrow> n
      | Some og \<Rightarrow>
          (let moved = n\<lparr>ni_px := ni_px (rv_candidate r),
                ni_original := Some (og\<lparr>og_reference_px := Some (rv_reference_px r),
                                       og_reference_at_ms := rv_reference_at_ms r\<rparr>)\<rparr>
           in case og_kind og of
                RkMarket _ \<Rightarrow> moved
              | RkClosePosition _ _ \<Rightarrow> moved
              | _ \<Rightarrow> n))"

definition same_order_kind :: "order_type \<Rightarrow> normalized_kind \<Rightarrow> bool" where
  "same_order_kind t k =
     (case (t, k) of
        (OtLimit tif, NkLimit expected) \<Rightarrow> tif = expected
      | (OtTrigger is_market _ tpsl, NkTrigger expected_market _ expected_tpsl) \<Rightarrow>
          is_market = expected_market \<and> tpsl = expected_tpsl
      | _ \<Rightarrow> False)"

definition review_action_matches :: "declib \<Rightarrow> order_review_commitment \<Rightarrow> approval_error + unit" where
  "review_action_matches D r =
     (case rv_action r of
        ActOrder orders grouping builder \<Rightarrow>
          (case orders of
             [w] \<Rightarrow>
               rbind (unavailable_unless
                 (grouping = ni_grouping (rv_candidate r) \<and> same_order_kind (ow_t w) (ni_kind (rv_candidate r))
                  \<and> checked_mul D (rv_px r) (rv_sz r) = Some (rv_notional_usd r)
                  \<and> builder = ni_builder (rv_candidate r) \<and> ow_b w = ni_is_buy (rv_candidate r)
                  \<and> ow_r w = ni_reduce_only (rv_candidate r) \<and> ow_c w = Some (ni_cloid (rv_candidate r)))
                 ''review action does not match candidate'') (\<lambda>_.
               rbind (ok_or (AeUnavailable ''invalid decimal'') (dec_parse D (wf_as_str (ow_p w)))) (\<lambda>px.
               rbind (unavailable_unless (px = rv_px r) ''review action does not match candidate'') (\<lambda>_.
               rbind (ok_or (AeUnavailable ''invalid decimal'') (dec_parse D (wf_as_str (ow_s w)))) (\<lambda>sz.
               unavailable_unless (sz = rv_sz r) ''review action does not match candidate''))))
           | _ \<Rightarrow> Inl (AeUnavailable ''review requires one order''))
      | _ \<Rightarrow> Inl (AeUnavailable ''review action is not an order''))"

definition validate_order_review ::
  "declib \<Rightarrow> approval_ledger \<Rightarrow> approval_entry \<Rightarrow> order_review_commitment \<Rightarrow> nat \<Rightarrow> nat \<Rightarrow> approval_error + unit" where
  "validate_order_review D L e r at_ms claim_seq =
     rbind (normalized_validate (rv_candidate r)) (\<lambda>_.
     rbind (unavailable_unless
       (rv_proposal_root r = en_root e \<and> rv_route r = pp_route (en_data e)
        \<and> en_minted_at_ms e \<le> rv_reviewed_at_ms r \<and> rv_reviewed_at_ms r \<le> at_ms
        \<and> rv_reference_at_ms r \<le> rv_reviewed_at_ms r \<and> rv_expires_at_ms r = pp_expires_at_ms (en_data e)
        \<and> at_ms < rv_expires_at_ms r \<and> 0 < rv_reference_px r \<and> 0 < rv_px r \<and> 0 < rv_sz r
        \<and> 0 < rv_notional_usd r \<and> lk_seq (rv_policy r) < claim_seq)
       ''invalid reviewed lifetime, economics or policy ordering'') (\<lambda>_.
     rbind (ledger_row_at L (lk_seq (rv_policy r))) (\<lambda>policy.
     rbind (unavailable_unless (lr_hash policy = lk_hash (rv_policy r) \<and> is_policy_row (lr_body policy))
       ''review policy linkage mismatch'') (\<lambda>_.
     rbind (case pp_intent (en_data e) of
              SiOrder n \<Rightarrow> Inr n | SiCancel _ \<Rightarrow> Inl (AeUnavailable ''order proposal required'')) (\<lambda>n.
     rbind (ensure (reviewed_intent n r = rv_candidate r) (AeConflict ''review changed fixed proposal fields'')) (\<lambda>_.
     review_action_matches D r))))))"

definition validate_review ::
  "approval_env \<Rightarrow> declib \<Rightarrow> approval_ledger \<Rightarrow> approval_entry \<Rightarrow> review_commitment \<Rightarrow> nat \<Rightarrow> nat \<Rightarrow> approval_error + unit" where
  "validate_review E D L e review at_ms claim_seq =
     (case review of
        RcOrder r \<Rightarrow> validate_order_review D L e r at_ms claim_seq
      | RcCancel r \<Rightarrow> validate_cancel_review E L e r at_ms claim_seq)"

definition validate_proposed ::
  "approval_env \<Rightarrow> approval_ledger \<Rightarrow> proposed \<Rightarrow> nat \<Rightarrow> nat \<Rightarrow> approval_error + unit" where
  "validate_proposed E L d at_ms seq =
     rbind (map_err (\<lambda>e. AeUnavailable (state_error_text e)) (checked_agent_id (pp_agent d))) (\<lambda>_.
     rbind (stored_validate E (pp_intent d)) (\<lambda>_.
     rbind (unavailable_unless
       (pp_agent d = rb_agent (rt_binding (pp_route d)) \<and> rt_network (pp_route d) = al_network L
        \<and> rb_container (rt_binding (pp_route d)) \<noteq> Address (replicate 20 0))
       ''invalid proposal identity, TTL or authority ordering'') (\<lambda>_.
     rbind (ok_or (AeUnavailable ''approval TTL overflow'') (try_u64 (at_ms + APPROVAL_TTL_MS))) (\<lambda>expires.
     rbind (unavailable_unless
       (pp_expires_at_ms d = expires \<and> rt_binding_seq (pp_route d) < seq \<and> lk_seq (pp_policy d) < seq)
       ''invalid proposal identity, TTL or authority ordering'') (\<lambda>_.
     rbind (timestamp (pp_expires_at_ms d)) (\<lambda>_.
     rbind (map_err AeUnavailable (ev_registry E L (pp_agent d))) (\<lambda>_.
     rbind (ledger_row_at L (rt_binding_seq (pp_route d))) (\<lambda>grant.
     rbind (unavailable_unless
       (lr_body grant = RbGrant (Some (rt_binding (pp_route d))) \<and> lr_hash grant = pp_route_hash d)
       ''proposal registry linkage mismatch'') (\<lambda>_.
     rbind (ledger_row_at L (lk_seq (pp_policy d))) (\<lambda>policy.
     unavailable_unless (lr_body policy = RbPolicy True \<and> lr_hash policy = lk_hash (pp_policy d))
       ''proposal policy linkage mismatch''))))))))))"

text \<open>The recorded clearance agrees with the review it executes: policy, digest and economics or targets.\<close>

definition review_matches_payload :: "approval_env \<Rightarrow> review_commitment \<Rightarrow> clearance \<Rightarrow> bool" where
  "review_matches_payload E review cl =
     (cr_approval_review_digest cl = Some (ev_digest E review) \<and>
      (case review of
         RcOrder r \<Rightarrow>
           cr_policy_revision cl = lk_seq (rv_policy r) \<and>
           (case cr_kind cl of
              CkOrder x \<Rightarrow> co_px x = rv_px r \<and> co_sz x = rv_sz r \<and> co_notional_usd x = rv_notional_usd r
            | _ \<Rightarrow> False)
       | RcCancel r \<Rightarrow>
           cr_policy_revision cl = lk_seq (cv_policy r) \<and>
           (case cr_kind cl of
              CkDiscretionaryCancel targets _ provenance \<Rightarrow>
                targets = ci_targets (cv_candidate r) \<and> provenance = cv_provenance r
            | _ \<Rightarrow> False)))"

definition intent_kind_matches :: "approval_entry \<Rightarrow> cleared_kind \<Rightarrow> bool" where
  "intent_kind_matches e kind =
     (case (pp_intent (en_data e), kind) of
        (SiOrder n, CkOrder x) \<Rightarrow>
          co_cloid x = Some (ni_cloid n) \<and> co_symbol x = ni_symbol n \<and> co_is_buy x = ni_is_buy n
          \<and> co_reduce_only x = ni_reduce_only n
      | (SiCancel c, CkDiscretionaryCancel targets _ _) \<Rightarrow> en_review e \<noteq> None \<and> targets = ci_targets c
      | _ \<Rightarrow> False)"

definition validate_intent_row ::
  "approval_env \<Rightarrow> approval_ledger \<Rightarrow> approval_entry \<Rightarrow> link \<Rightarrow> nat \<Rightarrow> approval_error + (clearance \<times> ustring)" where
  "validate_intent_row E L e k disposition_seq =
     rbind (ledger_row_at L (lk_seq k)) (\<lambda>ev.
     rbind (case (pp_intent (en_data e), lr_body ev) of
              (SiOrder _, RbOrderIntent agent payload) \<Rightarrow> Inr (agent, payload)
            | (SiCancel _, RbAgentDecision agent payload) \<Rightarrow> Inr (agent, payload)
            | _ \<Rightarrow> Inl (AeUnavailable ''approved intent linkage mismatch'')) (\<lambda>(agent, payload).
     rbind (unavailable_unless
       (lr_hash ev = lk_hash k \<and> lk_seq (en_last e) < lk_seq k \<and> lk_seq k < disposition_seq
        \<and> agent = Some (pp_agent (en_data e)))
       ''approved intent linkage mismatch'') (\<lambda>_.
     rbind (ok_or (AeUnavailable ''approved intent redacted'') payload) (\<lambda>(cl, reason).
     rbind (unavailable_unless
       (cr_agent cl = pp_agent (en_data e) \<and> cr_route cl = pp_route (en_data e) \<and> cr_network cl = al_network L
        \<and> reason = stored_reason (pp_intent (en_data e)))
       ''approved intent does not match proposal'') (\<lambda>_.
     rbind (unavailable_unless (intent_kind_matches e (cr_kind cl))
       ''approved action does not match typed proposal'') (\<lambda>_.
     rbind (unavailable_unless (is_none_or (\<lambda>review. review_matches_payload E review cl) (en_review e))
       ''approved receipt differs from reviewed commitment, economics or policy'') (\<lambda>_.
     Inr (cl, reason))))))))"

definition validate_refusal_row ::
  "approval_ledger \<Rightarrow> approval_entry \<Rightarrow> link \<Rightarrow> string \<Rightarrow> nat \<Rightarrow> approval_error + (string \<times> refusal option \<times> ustring)" where
  "validate_refusal_row L e k detail disposition_seq =
     rbind (ledger_row_at L (lk_seq k)) (\<lambda>ev.
     rbind (case lr_body ev of
              RbRefusal agent payload \<Rightarrow> Inr (agent, payload)
            | _ \<Rightarrow> Inl (AeUnavailable ''refused approval audit linkage mismatch'')) (\<lambda>(agent, payload).
     rbind (unavailable_unless
       (lr_hash ev = lk_hash k \<and> lk_seq (en_last e) < lk_seq k \<and> lk_seq k < disposition_seq
        \<and> agent = Some (pp_agent (en_data e)))
       ''refused approval audit linkage mismatch'') (\<lambda>_.
     rbind (ok_or (AeUnavailable ''refused approval audit redacted'') payload) (\<lambda>(text, refusal, reason).
     rbind (unavailable_unless
       (text = detail \<and> reason = stored_reason (pp_intent (en_data e)) \<and> refusal \<noteq> None)
       ''refused approval audit does not match proposal'') (\<lambda>_.
     Inr (text, refusal, reason))))))"

definition validate_review_receipt ::
  "approval_env \<Rightarrow> approval_entry \<Rightarrow> link \<Rightarrow> string option \<Rightarrow> approval_error + unit" where
  "validate_review_receipt E e receipt digest =
     unavailable_unless (map_option (\<lambda>review. ev_receipt_digest E review receipt) (en_review e) = digest)
       ''review commitment/receipt digest mismatch''"

section \<open>Replay\<close>

text \<open>Whether an entry already names the request: for good by an order, while pending by a cancellation.\<close>

definition same_open_request :: "approval_entry \<Rightarrow> stored_intent \<Rightarrow> authorized_route \<Rightarrow> nat \<Rightarrow> bool" where
  "same_open_request e intent route at_ms =
     (rb_container (rt_binding (pp_route (en_data e))) = rb_container (rt_binding route)
      \<and> same_identity (pp_intent (en_data e)) intent
      \<and> (is_order intent
         \<or> (pp_route (en_data e) = route \<and> en_state e = ApPending \<and> at_ms < pp_expires_at_ms (en_data e))))"

definition replay_proposed ::
  "approval_env \<Rightarrow> approval_ledger \<Rightarrow> nat \<Rightarrow> ledger_row \<Rightarrow> nat \<Rightarrow> proposed \<Rightarrow> (nat, approval_entry) btree \<Rightarrow>
     approval_error + (nat, approval_entry) btree" where
  "replay_proposed E L seq r at_ms d es =
     rbind (validate_proposed E L d at_ms seq) (\<lambda>_.
     rbind (unavailable_unless
       (lr_key r = Some (mint_key E d seq)
        \<and> \<not> list_ex (\<lambda>(_, e). same_open_request e (pp_intent d) (pp_route d) at_ms) es)
       ''approval cloid reused or mint key mismatched'') (\<lambda>_.
     let k = \<lparr>lk_seq = seq, lk_hash = lr_hash r\<rparr> in
     Inr (bt_insert seq
       \<lparr>en_data = d, en_root = k, en_last = k, en_minted_at_ms = at_ms, en_last_at_ms = at_ms,
        en_state = ApPending, en_review = None\<rparr> es)))"

definition replay_claimed ::
  "approval_env \<Rightarrow> declib \<Rightarrow> approval_ledger \<Rightarrow> nat \<Rightarrow> nat \<Rightarrow> review_commitment option \<Rightarrow> approval_entry \<Rightarrow>
     approval_error + approval_entry" where
  "replay_claimed E D L seq at_ms review e =
     (if en_state e = ApPending \<and> at_ms < pp_expires_at_ms (en_data e) then
        rbind (unavailable_unless (\<not> (review = None \<and> \<not> is_order (pp_intent (en_data e))))
          ''cancellation claim requires a retained review'') (\<lambda>_.
        rbind (case review of None \<Rightarrow> Inr () | Some x \<Rightarrow> validate_review E D L e x at_ms seq) (\<lambda>_.
        Inr (e\<lparr>en_review := review, en_state := ApClaimed\<rparr>)))
      else Inl (AeUnavailable ''approval claimed twice, expired, or already disposed''))"

definition replay_disposed ::
  "approval_env \<Rightarrow> approval_ledger \<Rightarrow> nat \<Rightarrow> nat \<Rightarrow> disposition \<Rightarrow> approval_entry \<Rightarrow> approval_error + approval_entry" where
  "replay_disposed E L seq at_ms outcome e =
     (let bad = Inl (AeUnavailable ''invalid approval disposition transition'') in
      rbind (case (en_state e, outcome) of
               (ApPending, DpRejected) \<Rightarrow> if at_ms < pp_expires_at_ms (en_data e) then Inr () else bad
             | (ApPending, DpExpired) \<Rightarrow> if at_ms \<ge> pp_expires_at_ms (en_data e) then Inr () else bad
             | (ApClaimed, DpRefused detail audit receipt) \<Rightarrow>
                 if detail = [] then bad
                 else rbind (validate_refusal_row L e audit detail seq) (\<lambda>_. validate_review_receipt E e audit receipt)
             | (ApClaimed, DpApproved intent receipt) \<Rightarrow>
                 rbind (validate_intent_row E L e intent seq) (\<lambda>_. validate_review_receipt E e intent receipt)
             | _ \<Rightarrow> bad) (\<lambda>_.
      Inr (e\<lparr>en_state := ApDisposed\<rparr>)))"

definition replay_step ::
  "approval_env \<Rightarrow> declib \<Rightarrow> approval_ledger \<Rightarrow> nat \<Rightarrow> ledger_row \<Rightarrow> link option \<Rightarrow> link option \<Rightarrow> nat \<Rightarrow> approval_operation \<Rightarrow>
     (nat, approval_entry) btree \<Rightarrow> approval_error + (nat, approval_entry) btree" where
  "replay_step E D L seq r origin previous at_ms x es =
     rbind (ok_or (AeUnavailable ''approval root link missing'') origin) (\<lambda>origin.
     rbind (ok_or (AeUnavailable ''approval root missing or out of order'') (map_of es (lk_seq origin))) (\<lambda>e.
     rbind (unavailable_unless (origin = en_root e \<and> previous = Some (en_last e) \<and> en_last_at_ms e \<le> at_ms)
       ''approval predecessor, root or time mismatch'') (\<lambda>_.
     rbind (unavailable_unless (lr_key r = Some (step_key x (lk_seq origin))) ''approval transition key mismatch'') (\<lambda>_.
     rbind (case x of
              OpClaimed review \<Rightarrow> replay_claimed E D L seq at_ms review e
            | OpDisposed outcome \<Rightarrow> replay_disposed E L seq at_ms outcome e
            | OpProposed _ \<Rightarrow> Inl (AeUnavailable ''proposal cannot have a predecessor'')) (\<lambda>e'.
     Inr (bt_insert (lk_seq origin)
       (e'\<lparr>en_last := \<lparr>lk_seq = seq, lk_hash = lr_hash r\<rparr>, en_last_at_ms := at_ms\<rparr>) es))))))"

definition replay_row ::
  "approval_env \<Rightarrow> declib \<Rightarrow> approval_ledger \<Rightarrow> nat \<Rightarrow> ledger_row \<Rightarrow> (nat, approval_entry) btree \<Rightarrow>
     approval_error + (nat, approval_entry) btree" where
  "replay_row E D L seq r es =
     (case lr_body r of
        RbApproval origin previous at_ms x \<Rightarrow>
          (case x of
             OpProposed d \<Rightarrow>
               rbind (unavailable_unless (origin = None \<and> previous = None) ''proposal cannot have a predecessor'') (\<lambda>_.
               replay_proposed E L seq r at_ms d es)
           | _ \<Rightarrow> replay_step E D L seq r origin previous at_ms x es)
      | RbUndecodable detail \<Rightarrow> Inl (AeUnavailable detail)
      | _ \<Rightarrow> Inr es)"

fun replay_from ::
  "approval_env \<Rightarrow> declib \<Rightarrow> approval_ledger \<Rightarrow> nat \<Rightarrow> ledger_row list \<Rightarrow> (nat, approval_entry) btree \<Rightarrow>
     approval_error + (nat, approval_entry) btree" where
  "replay_from E D L seq [] es = Inr es"
| "replay_from E D L seq (r # rs) es =
     rbind (replay_row E D L seq r es) (\<lambda>es'. replay_from E D L (Suc seq) rs es')"

definition approval_replay ::
  "approval_env \<Rightarrow> declib \<Rightarrow> approval_ledger \<Rightarrow> approval_error + (nat, approval_entry) btree" where
  "approval_replay E D L =
     rbind (map_err AeUnavailable (ev_policy E L)) (\<lambda>_. replay_from E D L 1 (al_rows L) [])"

section \<open>Operations\<close>

text \<open>Adding a row: a fault after the commit reports an error although the row is there.\<close>

definition approval_append ::
  "approval_env \<Rightarrow> approval_faults \<Rightarrow> approval_ledger \<Rightarrow> approval_entry option \<Rightarrow> approval_operation \<Rightarrow> nat \<Rightarrow>
     (approval_error + link) \<times> approval_ledger" where
  "approval_append E F L entry x at_ms =
     (case rbind (faulty (ft_note_before F)) (\<lambda>_.
           rbind (next_seq L) (\<lambda>seq.
           rbind (case x of
                    OpProposed d \<Rightarrow> Inr (mint_key E d seq)
                  | _ \<Rightarrow> rbind (ok_or (AeUnavailable ''approval transition without root'') entry) (\<lambda>e.
                           Inr (step_key x (lk_seq (en_root e))))) (\<lambda>key.
           rbind (timestamp at_ms) (\<lambda>_.
           rbind (unavailable_unless (\<not> list_ex (\<lambda>r. lr_key r = Some key) (al_rows L))
             ''approval key without verified transition'') (\<lambda>_.
           rbind (faulty (ft_commit F)) (\<lambda>_.
           Inr (seq, key))))))) of
        Inl e \<Rightarrow> (Inl e, L)
      | Inr (seq, key) \<Rightarrow>
          let body = RbApproval (map_option en_root entry) (map_option en_last entry) at_ms x;
              h = ev_row_hash E (al_rows L) body;
              L' = L\<lparr>al_rows := al_rows L @ [\<lparr>lr_hash = h, lr_key = Some key, lr_body = body\<rparr>]\<rparr>
          in (rbind (faulty (ft_note_after F)) (\<lambda>_. Inr \<lparr>lk_seq = seq, lk_hash = h\<rparr>), L'))"

definition approval_publish :: "approval_faults \<Rightarrow> approval_error + unit" where
  "approval_publish F = rbind (faulty (ft_commit F)) (\<lambda>_. faulty (ft_note_after F))"

definition open_journal ::
  "approval_env \<Rightarrow> declib \<Rightarrow> approval_faults \<Rightarrow> approval_ledger \<Rightarrow> nat \<Rightarrow> approval_error + (nat, approval_entry) btree" where
  "open_journal E D F L at_ms =
     rbind (timestamp at_ms) (\<lambda>_. rbind (faulty (ft_lock F)) (\<lambda>_. approval_replay E D L))"

definition find_entry :: "(approval_entry \<Rightarrow> bool) \<Rightarrow> (nat, approval_entry) btree \<Rightarrow> approval_entry option" where
  "find_entry p es = find p (map snd es)"

definition has_id :: "network \<Rightarrow> string \<Rightarrow> approval_entry \<Rightarrow> bool" where
  "has_id network i e = (pr_id (entry_proposal network e) = i)"

text \<open>A request that is already there: a retry of a pending proposal gives it back.\<close>

definition mint_existing ::
  "approval_faults \<Rightarrow> approval_ledger \<Rightarrow> agent_id \<Rightarrow> stored_intent \<Rightarrow> authorized_route \<Rightarrow> nat \<Rightarrow> nat \<Rightarrow>
     cancel_provenance option \<Rightarrow> approval_entry \<Rightarrow> approval_error + proposal" where
  "mint_existing F L agent intent route policy_revision at_ms provenance e =
     rbind (ensure (same_request (pp_intent (en_data e)) intent \<and> pp_agent (en_data e) = agent
                    \<and> pp_route (en_data e) = route \<and> pp_cancel_provenance (en_data e) = provenance
                    \<and> \<not> (is_order intent \<and> lk_seq (pp_policy (en_data e)) \<noteq> policy_revision))
       (AeConflict ''cloid already names another proposal'')) (\<lambda>_.
     rbind (unavailable_unless (en_minted_at_ms e \<le> at_ms) ''approval clock moved backwards'') (\<lambda>_.
     rbind (approval_publish F) (\<lambda>_.
     if en_state e = ApPending \<and> at_ms < pp_expires_at_ms (en_data e) then Inr (entry_proposal (al_network L) e)
     else Inl (AeConflict ''proposal already consumed or expired''))))"

definition mint_admission ::
  "approval_env \<Rightarrow> declib \<Rightarrow> approval_faults \<Rightarrow> approval_ledger \<Rightarrow> agent_id \<Rightarrow> stored_intent \<Rightarrow> authorized_route \<Rightarrow> nat \<Rightarrow> nat \<Rightarrow>
     approval_error + ((nat, approval_entry) btree \<times> cancel_provenance option)" where
  "mint_admission E D F L agent intent expected_route policy_revision at_ms =
     rbind (timestamp at_ms) (\<lambda>_.
     rbind (stored_validate E intent) (\<lambda>_.
     rbind (open_journal E D F L at_ms) (\<lambda>es.
     rbind (map_err AeUnavailable (ev_policy E L)) (\<lambda>policy.
     rbind (unavailable_unless (is_order intent \<or> \<not> list_ex (\<lambda>(_, e). at_ms < en_last_at_ms e) es)
       ''approval clock moved backwards'') (\<lambda>_.
     rbind (map_err AeUnavailable (ev_route E L agent)) (\<lambda>route.
     rbind (ensure (route = expected_route \<and> pv_revision policy = policy_revision \<and> agent = rb_agent (rt_binding route))
       (AeConflict ''proposal route or policy changed'')) (\<lambda>_.
     rbind (case intent of
              SiOrder _ \<Rightarrow> Inr None
            | SiCancel c \<Rightarrow> rbind (map_err AeUnavailable (ev_ownership E L route (ci_targets c))) (\<lambda>p. Inr (Some p))) (\<lambda>provenance.
     Inr (es, provenance)))))))))"

definition mint_proposed ::
  "approval_env \<Rightarrow> approval_ledger \<Rightarrow> agent_id \<Rightarrow> stored_intent \<Rightarrow> authorized_route \<Rightarrow> nat \<Rightarrow> nat \<Rightarrow> cancel_provenance option \<Rightarrow>
     approval_error + proposed" where
  "mint_proposed E L agent intent route policy_revision at_ms provenance =
     rbind (ok_or (AeUnavailable ''approval TTL overflow'') (try_u64 (at_ms + APPROVAL_TTL_MS))) (\<lambda>expires_at_ms.
     rbind (ledger_row_at L (rt_binding_seq route)) (\<lambda>grant.
     rbind (ledger_row_at L policy_revision) (\<lambda>policy.
     let d = \<lparr>pp_agent = agent, pp_intent = intent, pp_route = route, pp_route_hash = lr_hash grant,
              pp_policy = \<lparr>lk_seq = policy_revision, lk_hash = lr_hash policy\<rparr>,
              pp_expires_at_ms = expires_at_ms, pp_cancel_provenance = provenance\<rparr>
     in rbind (next_seq L) (\<lambda>seq. rbind (validate_proposed E L d at_ms seq) (\<lambda>_. Inr d)))))"

definition mint_intent ::
  "approval_env \<Rightarrow> declib \<Rightarrow> approval_faults \<Rightarrow> agent_id \<Rightarrow> stored_intent \<Rightarrow> authorized_route \<Rightarrow> nat \<Rightarrow> nat \<Rightarrow> approval_ledger \<Rightarrow>
     (approval_error + proposal) \<times> approval_ledger" where
  "mint_intent E D F agent intent expected_route policy_revision at_ms L =
     (case mint_admission E D F L agent intent expected_route policy_revision at_ms of
        Inl e \<Rightarrow> (Inl e, L)
      | Inr (es, provenance) \<Rightarrow>
          (case find_entry (\<lambda>e. same_open_request e intent expected_route at_ms) es of
             Some e \<Rightarrow> (mint_existing F L agent intent expected_route policy_revision at_ms provenance e, L)
           | None \<Rightarrow>
               (case mint_proposed E L agent intent expected_route policy_revision at_ms provenance of
                  Inl e \<Rightarrow> (Inl e, L)
                | Inr d \<Rightarrow>
                    (case approval_append E F L None (OpProposed d) at_ms of
                       (Inl e, L') \<Rightarrow> (Inl e, L')
                     | (Inr k, L') \<Rightarrow>
                         (Inr (entry_proposal (al_network L)
                            \<lparr>en_data = d, en_root = k, en_last = k, en_minted_at_ms = at_ms, en_last_at_ms = at_ms,
                             en_state = ApPending, en_review = None\<rparr>), L')))))"

definition journal_mint ::
  "approval_env \<Rightarrow> declib \<Rightarrow> approval_faults \<Rightarrow> order_candidate \<Rightarrow> approval_ledger \<Rightarrow> (approval_error + proposal) \<times> approval_ledger" where
  "journal_mint E D F c L =
     (case normalized_from_intent (oc_intent c) of
        Inl e \<Rightarrow> (Inl e, L)
      | Inr n \<Rightarrow> mint_intent E D F (oc_agent c) (SiOrder n) (oc_route c) (oc_policy_revision c) (oc_at_ms c) L)"

definition journal_mint_cancel ::
  "approval_env \<Rightarrow> declib \<Rightarrow> approval_faults \<Rightarrow> agent_id \<Rightarrow> cancel_intent \<Rightarrow> authorized_route \<Rightarrow> nat \<Rightarrow> nat \<Rightarrow> approval_ledger \<Rightarrow>
     (approval_error + proposal) \<times> approval_ledger" where
  "journal_mint_cancel E D F agent intent route policy_revision at_ms L =
     mint_intent E D F agent (SiCancel intent) route policy_revision at_ms L"

text \<open>
  The loop of \<open>pending\<close> expires one overdue proposal per pass; the fuel is the number of passes.
\<close>

fun journal_pending ::
  "nat \<Rightarrow> approval_env \<Rightarrow> declib \<Rightarrow> approval_faults \<Rightarrow> nat \<Rightarrow> approval_ledger \<Rightarrow>
     ((approval_error + proposal list) \<times> approval_ledger) option" where
  "journal_pending 0 E D F now_ms L = None"
| "journal_pending (Suc n) E D F now_ms L =
     (case open_journal E D F L now_ms of
        Inl e \<Rightarrow> Some (Inl e, L)
      | Inr es \<Rightarrow>
          if list_ex (\<lambda>(_, e). now_ms < en_minted_at_ms e) es
          then Some (Inl (AeUnavailable ''approval clock moved backwards''), L)
          else case find_entry (\<lambda>e. en_state e = ApPending \<and> now_ms \<ge> pp_expires_at_ms (en_data e)) es of
                 Some e \<Rightarrow>
                   (case approval_append E F L (Some e) (OpDisposed DpExpired) now_ms of
                      (Inl err, L') \<Rightarrow> Some (Inl err, L')
                    | (Inr _, L') \<Rightarrow> journal_pending n E D F now_ms L')
               | None \<Rightarrow>
                   Some (rbind (approval_publish F) (\<lambda>_.
                     Inr (map (entry_proposal (al_network L)) (filter (\<lambda>e. en_state e = ApPending) (map snd es)))), L))"

record review_evidence =
  ve_proposal :: proposal
  ve_policy_revision :: nat
  ve_policy_hash :: string
  ve_root :: link
  ve_owner :: nat

definition journal_prepare ::
  "approval_env \<Rightarrow> declib \<Rightarrow> approval_faults \<Rightarrow> string \<Rightarrow> nat \<Rightarrow> approval_ledger \<Rightarrow> approval_error + review_evidence option" where
  "journal_prepare E D F i at_ms L =
     rbind (open_journal E D F L at_ms) (\<lambda>es.
     rbind (map_err AeUnavailable (ev_policy E L)) (\<lambda>current.
     rbind (case find_entry (has_id (al_network L) i) es of
              None \<Rightarrow> Inr None
            | Some e \<Rightarrow>
                rbind (unavailable_unless (en_last_at_ms e \<le> at_ms) ''approval clock moved backwards'') (\<lambda>_.
                if en_state e \<noteq> ApPending \<or> at_ms \<ge> pp_expires_at_ms (en_data e) then Inr None
                else rbind (ledger_row_at L (pv_revision current)) (\<lambda>policy.
                  Inr (Some \<lparr>ve_proposal = entry_proposal (al_network L) e, ve_policy_revision = pv_revision current,
                             ve_policy_hash = lr_hash policy, ve_root = en_root e, ve_owner = ev_owner E\<rparr>)))) (\<lambda>evidence.
     rbind (faulty (ft_commit F)) (\<lambda>_. Inr evidence))))"

record claim_permit =
  kp_owner :: nat
  kp_proposal :: proposal
  kp_root :: link
  kp_claimed :: link

definition claim_review_checked ::
  "approval_env \<Rightarrow> declib \<Rightarrow> approval_ledger \<Rightarrow> approval_entry \<Rightarrow> nat \<Rightarrow> (review_evidence \<times> review_commitment) option \<Rightarrow>
     approval_error + review_commitment option" where
  "claim_review_checked E D L e at_ms reviewed =
     (case reviewed of
        None \<Rightarrow>
          rbind (ensure (is_order (pp_intent (en_data e)))
            (AeConflict ''cancellation requires retained operator review'')) (\<lambda>_. Inr None)
      | Some (evidence, review) \<Rightarrow>
          rbind (unavailable_unless (case review of RcCancel c \<Rightarrow> cv_provenance c \<noteq> None | _ \<Rightarrow> True)
            ''historical cancellation review has no ownership authority'') (\<lambda>_.
          rbind (map_err AeUnavailable (ev_policy E L)) (\<lambda>current.
          rbind (ensure (en_root e = ve_root evidence \<and> entry_proposal (al_network L) e = ve_proposal evidence
                         \<and> pv_revision current = ve_policy_revision evidence)
            (AeConflict ''review proposal or policy changed'')) (\<lambda>_.
          rbind (ledger_row_at L (pv_revision current)) (\<lambda>policy.
          rbind (ensure (lr_hash policy = ve_policy_hash evidence)
            (AeConflict ''review proposal or policy changed'')) (\<lambda>_.
          rbind (next_seq L) (\<lambda>seq.
          rbind (validate_review E D L e review at_ms seq) (\<lambda>_.
          Inr (Some review)))))))))"

definition claim_inner ::
  "approval_env \<Rightarrow> declib \<Rightarrow> approval_faults \<Rightarrow> string \<Rightarrow> nat \<Rightarrow> (review_evidence \<times> review_commitment) option \<Rightarrow> approval_ledger \<Rightarrow>
     (approval_error + claim_permit option) \<times> approval_ledger" where
  "claim_inner E D F i at_ms reviewed L =
     (case open_journal E D F L at_ms of
        Inl err \<Rightarrow> (Inl err, L)
      | Inr es \<Rightarrow>
          (case find_entry (has_id (al_network L) i) es of
             None \<Rightarrow> (rbind (approval_publish F) (\<lambda>_. Inr None), L)
           | Some e \<Rightarrow>
               if at_ms < en_last_at_ms e then (Inl (AeUnavailable ''approval clock moved backwards''), L)
               else if en_state e \<noteq> ApPending then (rbind (approval_publish F) (\<lambda>_. Inr None), L)
               else if at_ms \<ge> pp_expires_at_ms (en_data e) then
                 (case approval_append E F L (Some e) (OpDisposed DpExpired) at_ms of
                    (Inl err, L') \<Rightarrow> (Inl err, L') | (Inr _, L') \<Rightarrow> (Inr None, L'))
               else
                 (case claim_review_checked E D L e at_ms reviewed of
                    Inl err \<Rightarrow> (Inl err, L)
                  | Inr review \<Rightarrow>
                      (case approval_append E F L (Some e) (OpClaimed review) at_ms of
                         (Inl err, L') \<Rightarrow> (Inl err, L')
                       | (Inr k, L') \<Rightarrow>
                           (Inr (Some \<lparr>kp_owner = ev_owner E, kp_proposal = entry_proposal (al_network L) e,
                                       kp_root = en_root e, kp_claimed = k\<rparr>), L')))))"

definition journal_claim ::
  "approval_env \<Rightarrow> declib \<Rightarrow> approval_faults \<Rightarrow> string \<Rightarrow> nat \<Rightarrow> approval_ledger \<Rightarrow>
     (approval_error + claim_permit option) \<times> approval_ledger" where
  "journal_claim E D F i at_ms L = claim_inner E D F i at_ms None L"

definition journal_claim_review ::
  "approval_env \<Rightarrow> declib \<Rightarrow> approval_faults \<Rightarrow> review_evidence \<Rightarrow> review_commitment \<Rightarrow> nat \<Rightarrow> approval_ledger \<Rightarrow>
     (approval_error + claim_permit option) \<times> approval_ledger" where
  "journal_claim_review E D F evidence review at_ms L =
     (if ve_owner evidence \<noteq> ev_owner E then (Inl (AeConflict ''review belongs to another authority owner''), L)
      else claim_inner E D F (pr_id (ve_proposal evidence)) at_ms (Some (evidence, review)) L)"

definition journal_reject ::
  "approval_env \<Rightarrow> declib \<Rightarrow> approval_faults \<Rightarrow> string \<Rightarrow> nat \<Rightarrow> approval_ledger \<Rightarrow> (approval_error + bool) \<times> approval_ledger" where
  "journal_reject E D F i at_ms L =
     (case open_journal E D F L at_ms of
        Inl err \<Rightarrow> (Inl err, L)
      | Inr es \<Rightarrow>
          (case find_entry (has_id (al_network L) i) es of
             None \<Rightarrow> (rbind (approval_publish F) (\<lambda>_. Inr False), L)
           | Some e \<Rightarrow>
               if at_ms < en_last_at_ms e then (Inl (AeUnavailable ''approval clock moved backwards''), L)
               else if en_state e \<noteq> ApPending then (rbind (approval_publish F) (\<lambda>_. Inr False), L)
               else
                 let expired = (at_ms \<ge> pp_expires_at_ms (en_data e)) in
                 (case approval_append E F L (Some e) (OpDisposed (if expired then DpExpired else DpRejected)) at_ms of
                    (Inl err, L') \<Rightarrow> (Inl err, L') | (Inr _, L') \<Rightarrow> (Inr (\<not> expired), L'))))"

text \<open>The disposition of a claimed proposal, checked against the row its outcome was recorded in.\<close>

definition finish_disposition ::
  "approval_env \<Rightarrow> approval_ledger \<Rightarrow> approval_entry \<Rightarrow> refusal + cleared \<Rightarrow> link option \<Rightarrow> approval_error + disposition" where
  "finish_disposition E L e outcome receipt =
     (case outcome of
        Inr c \<Rightarrow>
          (let cl = cd_clearance c in
           rbind (ensure ((case (pp_intent (en_data e), cr_kind cl) of
                             (SiOrder _, CkOrder _) \<Rightarrow> True
                           | (SiCancel _, CkDiscretionaryCancel _ _ _) \<Rightarrow> True
                           | _ \<Rightarrow> False)
                          \<and> cr_route cl = pp_route (en_data e) \<and> cr_agent cl = pp_agent (en_data e))
             (AeConflict ''approval clearance route or action differs'')) (\<lambda>_.
           rbind (ensure (is_none_or (\<lambda>review. cd_action c = review_action review) (en_review e))
             (AeConflict ''clearance action differs from reviewed action'')) (\<lambda>_.
           rbind (ok_or (AeUnavailable ''approved outcome requires durable intent receipt'') receipt) (\<lambda>k.
           rbind (next_seq L) (\<lambda>seq.
           rbind (validate_intent_row E L e k seq) (\<lambda>payload.
           rbind (ensure (payload = (cl, stored_reason (pp_intent (en_data e))))
             (AeConflict ''intent receipt payload differs from approved clearance'')) (\<lambda>_.
           Inr (DpApproved k (map_option (\<lambda>review. ev_receipt_digest E review k) (en_review e))))))))))
      | Inl refusal \<Rightarrow>
          rbind (ok_or (AeUnavailable ''refused outcome requires durable audit receipt'') receipt) (\<lambda>k.
          let detail = ev_refusal_text E refusal in
          rbind (next_seq L) (\<lambda>seq.
          rbind (validate_refusal_row L e k detail seq) (\<lambda>payload.
          rbind (ensure (payload = (detail, Some refusal, stored_reason (pp_intent (en_data e))))
            (AeConflict ''refusal receipt differs from actual outcome'')) (\<lambda>_.
          Inr (DpRefused detail k (map_option (\<lambda>review. ev_receipt_digest E review k) (en_review e))))))))"

definition journal_finish ::
  "approval_env \<Rightarrow> declib \<Rightarrow> approval_faults \<Rightarrow> claim_permit \<Rightarrow> refusal + cleared \<Rightarrow> link option \<Rightarrow> nat \<Rightarrow> approval_ledger \<Rightarrow>
     (approval_error + unit) \<times> approval_ledger" where
  "journal_finish E D F permit outcome receipt at_ms L =
     (case rbind (timestamp at_ms) (\<lambda>_.
           rbind (ensure (kp_owner permit = ev_owner E) (AeConflict ''claim belongs to another authority owner'')) (\<lambda>_.
           rbind (open_journal E D F L at_ms) (\<lambda>es.
           rbind (ok_or (AeUnavailable ''claim root missing'') (map_of es (lk_seq (kp_root permit)))) (\<lambda>e.
           rbind (ensure (en_root e = kp_root permit \<and> en_last e = kp_claimed permit \<and> en_state e = ApClaimed
                          \<and> en_last_at_ms e \<le> at_ms)
             (AeConflict ''claim is not the current one-shot transition'')) (\<lambda>_.
           rbind (finish_disposition E L e outcome receipt) (\<lambda>disposition.
           Inr (e, disposition))))))) of
        Inl err \<Rightarrow> (Inl err, L)
      | Inr (e, disposition) \<Rightarrow>
          (case approval_append E F L (Some e) (OpDisposed disposition) at_ms of
             (Inl err, L') \<Rightarrow> (Inl err, L') | (Inr _, L') \<Rightarrow> (Inr (), L')))"

end
