(* ===== verification/Journal.thy ===== *)
theory Journal
  imports Approval
begin

text \<open>
  What the journals over the ledger share. A journal is event-sourced: its state is the fold of its
  rows, and a row is checked against rows it links to at fixed places, so what was accepted once stays
  accepted when the ledger grows. The locale states this once for every journal.
\<close>

section \<open>A ledger that grows\<close>

definition ledger_snoc :: "approval_ledger \<Rightarrow> ledger_row \<Rightarrow> approval_ledger" where
  "ledger_snoc L r = L\<lparr>al_rows := al_rows L @ [r]\<rparr>"

text \<open>A result that is kept: where the first succeeds, the second succeeds with the same value.\<close>

definition result_le :: "'e + 'a \<Rightarrow> 'e + 'a \<Rightarrow> bool" where
  "result_le r r' = (\<forall>x. r = Inr x \<longrightarrow> r' = Inr x)"

named_theorems keep_intros \<open>success of a computation is kept when the ledger grows\<close>

lemma result_le_refl [keep_intros]: "result_le r r"
  by (simp add: result_le_def)

lemma rbind_le [keep_intros]:
  "result_le r r' \<Longrightarrow> (\<And>x. result_le (f x) (f' x)) \<Longrightarrow> result_le (rbind r f) (rbind r' f')"
  by (auto simp: result_le_def rbind_is_Inr)

lemma map_err_le [keep_intros]: "result_le r r' \<Longrightarrow> result_le (map_err g r) (map_err g r')"
  by (simp add: result_le_def map_err_is_Inr)

lemma result_leD: "result_le r r' \<Longrightarrow> r = Inr x \<Longrightarrow> r' = Inr x"
  by (simp add: result_le_def)

lemma ledger_snoc_simps [simp]:
  "al_network (ledger_snoc L r) = al_network L" "al_rows (ledger_snoc L r) = al_rows L @ [r]"
  by (simp_all add: ledger_snoc_def)

lemma ledger_snoc_neq [simp]: "ledger_snoc L r \<noteq> L" "L \<noteq> ledger_snoc L r"
  by (metis append_self_conv ledger_snoc_simps(2) not_Cons_self2)+

lemma ledger_row_at_keep [keep_intros]: "result_le (ledger_row_at L n) (ledger_row_at (ledger_snoc L r) n)"
  by (auto simp: result_le_def ledger_row_at_def rbind_is_Inr nth_append split: if_splits)

lemma prod_case_keep [keep_intros]:
  "(\<And>a b. result_le (f a b) (g a b)) \<Longrightarrow> result_le (case p of (a, b) \<Rightarrow> f a b) (case p of (a, b) \<Rightarrow> g a b)"
  by (cases p) simp

section \<open>Event-sourced journals\<close>

locale event_journal =
  fixes row_step :: "approval_ledger \<Rightarrow> nat \<Rightarrow> ledger_row \<Rightarrow> 's \<Rightarrow> 'e + 's"
    and fold_rows :: "approval_ledger \<Rightarrow> nat \<Rightarrow> ledger_row list \<Rightarrow> 's \<Rightarrow> 'e + 's"
    and readable :: "approval_ledger \<Rightarrow> ledger_row \<Rightarrow> bool"
  assumes fold_Nil: "fold_rows L n [] st = Inr st"
    and fold_Cons: "fold_rows L n (r # rs) st = rbind (row_step L n r st) (\<lambda>st'. fold_rows L (Suc n) rs st')"
    and row_keep: "readable L r \<Longrightarrow> result_le (row_step L n x st) (row_step (ledger_snoc L r) n x st)"
begin

lemma fold_append:
  "fold_rows L n (rs @ qs) st = rbind (fold_rows L n rs st) (\<lambda>st'. fold_rows L (n + length rs) qs st')"
  by (induction rs arbitrary: n st) (auto simp: fold_Nil fold_Cons rbind_assoc intro!: arg_cong [where f = "rbind _"])

lemma fold_keep:
  assumes "readable L r"
  shows "result_le (fold_rows L n rs st) (fold_rows (ledger_snoc L r) n rs st)"
  using row_keep [OF assms]
  by (induction rs arbitrary: n st) (auto simp: fold_Nil fold_Cons intro!: keep_intros)

text \<open>The fold over a grown ledger goes on from the state it had.\<close>

lemma fold_snoc:
  assumes "readable L r" "fold_rows L 1 (al_rows L) st0 = Inr st"
    and "row_step L (Suc (length (al_rows L))) r st = Inr st'"
  shows "fold_rows (ledger_snoc L r) 1 (al_rows (ledger_snoc L r)) st0 = Inr st'"
  using result_leD [OF fold_keep [OF assms(1)] assms(2)] result_leD [OF row_keep [OF assms(1)] assms(3)]
  by (simp add: fold_append fold_Cons fold_Nil)

text \<open>An invariant and an abstract step relation carry over from one row to the whole ledger.\<close>

lemma fold_refines:
  assumes step: "\<And>n r st st'. keeps n st \<Longrightarrow> row_step L (Suc n) r st = Inr st' \<Longrightarrow>
      keeps (Suc n) st' \<and> spec\<^sup>=\<^sup>= (view st) (view st')"
    and "keeps n st" "fold_rows L (Suc n) rs st = Inr st'"
  shows "keeps (n + length rs) st' \<and> spec\<^sup>*\<^sup>* (view st) (view st')"
  using assms(2,3)
proof (induction rs arbitrary: n st)
  case Nil
  then show ?case by (simp add: fold_Nil)
next
  case (Cons r rs)
  then obtain st1 where st1: "row_step L (Suc n) r st = Inr st1" and rest: "fold_rows L (Suc (Suc n)) rs st1 = Inr st'"
    by (auto simp: fold_Cons result_inv)
  from step [OF Cons.prems(1) st1]
  have ok: "keeps (Suc n) st1" and one: "spec\<^sup>*\<^sup>* (view st) (view st1)" by auto
  from Cons.IH [OF ok rest] one show ?case by (auto intro: rtranclp_trans)
qed

end

end
