(* ===== verification/Approval_Props.thy ===== *)
theory Approval_Props
  imports Journal Decide_Scenario
begin

text \<open>
  What the approval journal guarantees. Rows are only ever added, and the replay reads the rows a
  proposal links to at fixed places, so a ledger that replays keeps replaying; every operation
  refines the life cycle of a proposal (pending, claimed, disposed), whatever the store's faults.
\<close>

section \<open>Replay of a ledger that grew\<close>

text \<open>
  What the journal needs of its neighbours on the same ledger: the policy and the registry replays
  read the rows of their own kinds, so adding the row \<open>r\<close> leaves them readable.
\<close>

definition still_readable :: "approval_env \<Rightarrow> approval_ledger \<Rightarrow> ledger_row \<Rightarrow> bool" where
  "still_readable E L r =
     ((is_ok (ev_policy E L) \<longrightarrow> is_ok (ev_policy E (ledger_snoc L r)))
      \<and> (\<forall>a. is_ok (ev_registry E L a) \<longrightarrow> is_ok (ev_registry E (ledger_snoc L r) a)))"

lemma registry_keep [keep_intros]:
  "still_readable E L r \<Longrightarrow> result_le (ev_registry E L a) (ev_registry E (ledger_snoc L r) a)"
  by (auto simp: still_readable_def result_le_def is_ok_iff)

lemma validate_cancel_review_keep [keep_intros]:
  "result_le (validate_cancel_review E L e rv t n) (validate_cancel_review E (ledger_snoc L r) e rv t n)"
  unfolding validate_cancel_review_def by (intro keep_intros)

lemma validate_order_review_keep [keep_intros]:
  "result_le (validate_order_review D L e rv t n) (validate_order_review D (ledger_snoc L r) e rv t n)"
  unfolding validate_order_review_def by (intro keep_intros)

lemma validate_review_keep [keep_intros]:
  "result_le (validate_review E D L e rv t n) (validate_review E D (ledger_snoc L r) e rv t n)"
  by (cases rv) (auto simp: validate_review_def intro: keep_intros)

lemma validate_proposed_keep [keep_intros]:
  "still_readable E L r \<Longrightarrow> result_le (validate_proposed E L d t n) (validate_proposed E (ledger_snoc L r) d t n)"
  unfolding validate_proposed_def ledger_snoc_simps by (intro keep_intros)

lemma validate_intent_row_keep [keep_intros]:
  "result_le (validate_intent_row E L e k n) (validate_intent_row E (ledger_snoc L r) e k n)"
  unfolding validate_intent_row_def ledger_snoc_simps by (intro keep_intros)

lemma validate_refusal_row_keep [keep_intros]:
  "result_le (validate_refusal_row L e k t n) (validate_refusal_row (ledger_snoc L r) e k t n)"
  unfolding validate_refusal_row_def by (intro keep_intros)

lemma replay_claimed_keep [keep_intros]:
  "result_le (replay_claimed E D L n t rv e) (replay_claimed E D (ledger_snoc L r) n t rv e)"
  unfolding replay_claimed_def by (cases rv) (auto intro!: keep_intros)

lemma replay_disposed_keep [keep_intros]:
  "result_le (replay_disposed E L n t x e) (replay_disposed E (ledger_snoc L r) n t x e)"
  unfolding replay_disposed_def Let_def
  by (cases "en_state e"; cases x) (auto intro!: keep_intros)

lemma replay_step_keep [keep_intros]:
  "result_le (replay_step E D L n x a b t p es) (replay_step E D (ledger_snoc L r) n x a b t p es)"
  unfolding replay_step_def by (cases p) (auto intro!: keep_intros)

lemma replay_proposed_keep [keep_intros]:
  "still_readable E L r \<Longrightarrow>
     result_le (replay_proposed E L n x t d es) (replay_proposed E (ledger_snoc L r) n x t d es)"
  unfolding replay_proposed_def by (intro keep_intros)

lemma replay_row_keep [keep_intros]:
  "still_readable E L r \<Longrightarrow>
     result_le (replay_row E D L n x es) (replay_row E D (ledger_snoc L r) n x es)"
  unfolding replay_row_def
  by (auto split: row_body.split approval_operation.split intro!: keep_intros)

interpretation aj: event_journal "replay_row E D" "replay_from E D" "still_readable E" for E D
  by unfold_locales (simp_all add: replay_row_keep)

text \<open>The replay of a grown ledger goes on from the replay it had.\<close>

lemma approval_replay_snoc:
  assumes "still_readable E L r" and "approval_replay E D L = Inr es"
    and "replay_row E D L (Suc (length (al_rows L))) r es = Inr es'"
  shows "approval_replay E D (ledger_snoc L r) = Inr es'"
proof -
  from assms(2) obtain v where v: "ev_policy E L = Inr v" and from_L: "replay_from E D L 1 (al_rows L) [] = Inr es"
    by (auto simp: approval_replay_def result_inv)
  from v assms(1) obtain v' where "ev_policy E (ledger_snoc L r) = Inr v'"
    by (auto simp: still_readable_def is_ok_iff)
  with aj.fold_snoc [OF assms(1) from_L assms(3)] show ?thesis by (simp add: approval_replay_def)
qed

section \<open>The life cycle of a proposal\<close>

text \<open>
  The abstract specification, on the map from a proposal's sequence number to its entry: a proposal
  is minted under an unused number, claimed while pending and unexpired, and disposed of once.
\<close>

inductive approval_step :: "(nat \<rightharpoonup> approval_entry) \<Rightarrow> (nat \<rightharpoonup> approval_entry) \<Rightarrow> bool" where
  mint: "m k = None \<Longrightarrow> en_state e = ApPending \<Longrightarrow> lk_seq (en_root e) = k \<Longrightarrow> approval_step m (m(k \<mapsto> e))"
| claim: "m k = Some e \<Longrightarrow> en_state e = ApPending \<Longrightarrow> en_last_at_ms e \<le> t \<Longrightarrow> t < pp_expires_at_ms (en_data e) \<Longrightarrow>
     is_order (pp_intent (en_data e)) \<or> rv \<noteq> None \<Longrightarrow>
     approval_step m (m(k \<mapsto> e\<lparr>en_review := rv, en_state := ApClaimed, en_last := l, en_last_at_ms := t\<rparr>))"
| dispose: "m k = Some e \<Longrightarrow> en_state e \<noteq> ApDisposed \<Longrightarrow> en_last_at_ms e \<le> t \<Longrightarrow>
     approval_step m (m(k \<mapsto> e\<lparr>en_state := ApDisposed, en_last := l, en_last_at_ms := t\<rparr>))"

definition entry_ok :: "nat \<Rightarrow> nat \<times> approval_entry \<Rightarrow> bool" where
  "entry_ok n p =
     (fst p = lk_seq (en_root (snd p)) \<and> 0 < fst p \<and> fst p \<le> n
      \<and> (en_state (snd p) = ApPending \<longrightarrow> en_last_at_ms (snd p) = en_minted_at_ms (snd p) \<and> en_review (snd p) = None))"

definition entries_ok :: "nat \<Rightarrow> (nat, approval_entry) btree \<Rightarrow> bool" where
  "entries_ok n es = (bt_wf es \<and> list_all (entry_ok n) es)"

lemma entry_ok_mono: "entry_ok n p \<Longrightarrow> n \<le> m \<Longrightarrow> entry_ok m p"
  by (auto simp: entry_ok_def)

lemma set_bt_insert: "set (bt_insert k v m) \<subseteq> insert (k, v) (set m)"
  by (induction m) auto

lemma entries_ok_insert:
  "entries_ok n es \<Longrightarrow> n \<le> m \<Longrightarrow> entry_ok m (k, e) \<Longrightarrow> entries_ok m (bt_insert k e es)"
  using set_bt_insert [of k e es] unfolding entries_ok_def list_all_iff
  by (blast intro: bt_wf_insert entry_ok_mono)

lemma entries_ok_lookup: "entries_ok n es \<Longrightarrow> map_of es k = Some e \<Longrightarrow> entry_ok n (k, e)"
  by (auto simp: entries_ok_def list_all_iff dest: map_of_SomeD)

lemma entries_ok_fresh: "entries_ok n es \<Longrightarrow> map_of es (Suc n) = None"
  by (cases "map_of es (Suc n)") (auto simp: entry_ok_def dest: entries_ok_lookup)

lemma entries_ok_weaken: "entries_ok n es \<Longrightarrow> n \<le> m \<Longrightarrow> entries_ok m es"
  by (auto simp: entries_ok_def list_all_iff intro: entry_ok_mono)

text \<open>One row that replays is at most one step of the life cycle.\<close>

lemma replay_claimed_cases:
  assumes "replay_claimed E D L n t rv e = Inr e'"
  shows "en_state e = ApPending" "t < pp_expires_at_ms (en_data e)"
    "is_order (pp_intent (en_data e)) \<or> rv \<noteq> None" "e' = e\<lparr>en_review := rv, en_state := ApClaimed\<rparr>"
  using assms by (auto simp: replay_claimed_def unavailable_unless_def result_inv split: if_splits)

lemma replay_disposed_cases:
  assumes "replay_disposed E L n t x e = Inr e'"
  shows "en_state e \<noteq> ApDisposed" "e' = e\<lparr>en_state := ApDisposed\<rparr>"
  using assms
  by (auto simp: replay_disposed_def Let_def result_inv split: approval_state.splits)

lemma replay_proposed_refines:
  assumes "entries_ok n es" and "replay_proposed E L (Suc n) r t d es = Inr es'"
  shows "entries_ok (Suc n) es' \<and> approval_step (map_of es) (map_of es')"
proof -
  let ?k = "\<lparr>lk_seq = Suc n, lk_hash = lr_hash r\<rparr>"
  let ?e = "\<lparr>en_data = d, en_root = ?k, en_last = ?k, en_minted_at_ms = t, en_last_at_ms = t,
             en_state = ApPending, en_review = None\<rparr>"
  from assms(2) have es': "es' = bt_insert (Suc n) ?e es"
    by (auto simp: replay_proposed_def result_inv Let_def)
  moreover have "entry_ok (Suc n) (Suc n, ?e)" by (simp add: entry_ok_def)
  moreover have "map_of es (Suc n) = None" using assms(1) by (rule entries_ok_fresh)
  ultimately show ?thesis
    using assms(1) by (auto simp: map_of_bt_insert intro: entries_ok_insert approval_step.mint)
qed

lemma replay_step_refines:
  assumes "entries_ok n es" and "replay_step E D L (Suc n) r origin previous t x es = Inr es'"
  shows "entries_ok (Suc n) es' \<and> approval_step (map_of es) (map_of es')"
proof -
  let ?l = "\<lparr>lk_seq = Suc n, lk_hash = lr_hash r\<rparr>"
  from assms(2) obtain g e e' where e: "map_of es (lk_seq g) = Some e"
    and t: "en_last_at_ms e \<le> t" and g: "g = en_root e"
    and e': "(case x of OpClaimed review \<Rightarrow> replay_claimed E D L (Suc n) t review e
              | OpDisposed outcome \<Rightarrow> replay_disposed E L (Suc n) t outcome e
              | OpProposed _ \<Rightarrow> Inl (AeUnavailable ''proposal cannot have a predecessor'')) = Inr e'"
    and es': "es' = bt_insert (lk_seq g) (e'\<lparr>en_last := ?l, en_last_at_ms := t\<rparr>) es"
    by (auto simp: replay_step_def unavailable_unless_def result_inv)
  have ok: "entry_ok n (lk_seq g, e)" using assms(1) e by (rule entries_ok_lookup)
  show ?thesis
  proof (cases x)
    case (OpClaimed rv)
    with e' have c: "replay_claimed E D L (Suc n) t rv e = Inr e'" by simp
    note c = replay_claimed_cases [OF c]
    have "entry_ok (Suc n) (lk_seq g, e'\<lparr>en_last := ?l, en_last_at_ms := t\<rparr>)"
      using ok by (simp add: entry_ok_def c(4))
    moreover have "approval_step (map_of es)
        ((map_of es)(lk_seq g \<mapsto> e\<lparr>en_review := rv, en_state := ApClaimed, en_last := ?l, en_last_at_ms := t\<rparr>))"
      using e c(1) t c(2,3) by (rule approval_step.claim)
    ultimately show ?thesis using assms(1) by (simp add: es' c(4) map_of_bt_insert entries_ok_insert)
  next
    case (OpDisposed y)
    with e' have c: "replay_disposed E L (Suc n) t y e = Inr e'" by simp
    note c = replay_disposed_cases [OF c]
    have "entry_ok (Suc n) (lk_seq g, e'\<lparr>en_last := ?l, en_last_at_ms := t\<rparr>)"
      using ok by (simp add: entry_ok_def c(2))
    moreover have "approval_step (map_of es)
        ((map_of es)(lk_seq g \<mapsto> e\<lparr>en_state := ApDisposed, en_last := ?l, en_last_at_ms := t\<rparr>))"
      using e c(1) t by (rule approval_step.dispose)
    ultimately show ?thesis using assms(1) by (simp add: es' c(2) map_of_bt_insert entries_ok_insert)
  next
    case (OpProposed d)
    with e' show ?thesis by simp
  qed
qed

lemma replay_row_refines:
  assumes "entries_ok n es" and "replay_row E D L (Suc n) r es = Inr es'"
  shows "entries_ok (Suc n) es' \<and> approval_step\<^sup>=\<^sup>= (map_of es) (map_of es')"
proof (cases "lr_body r")
  case (RbApproval origin previous t x)
  show ?thesis
  proof (cases x)
    case (OpProposed d)
    with RbApproval assms show ?thesis
      using replay_proposed_refines [of n es E L r t d es'] by (auto simp: replay_row_def result_inv)
  qed (use RbApproval assms replay_step_refines [of n es E D L r origin previous t x es'] in
       \<open>auto simp: replay_row_def\<close>)
qed (use assms entries_ok_weaken [of n es "Suc n"] in \<open>auto simp: replay_row_def\<close>)

lemma approval_replay_refines:
  assumes "approval_replay E D L = Inr es"
  shows "entries_ok (length (al_rows L)) es" "approval_step\<^sup>*\<^sup>* Map.empty (map_of es)"
proof -
  have "entries_ok 0 []" by (simp add: entries_ok_def)
  moreover from assms have "replay_from E D L (Suc 0) (al_rows L) [] = Inr es"
    by (auto simp: approval_replay_def result_inv)
  ultimately have "entries_ok (0 + length (al_rows L)) es \<and> approval_step\<^sup>*\<^sup>* (map_of []) (map_of es)"
    by (rule aj.fold_refines [where keeps = entries_ok and view = map_of, rotated]) (rule replay_row_refines)
  then show "entries_ok (length (al_rows L)) es" "approval_step\<^sup>*\<^sup>* Map.empty (map_of es)" by simp_all
qed

section \<open>The operations\<close>

text \<open>
  The two facts about the neighbours the operations rest on: the registry, the policy and the route
  ignore approval rows, and a refusal has a text.
\<close>

definition is_approval :: "row_body \<Rightarrow> bool" where
  "is_approval b = (case b of RbApproval _ _ _ _ \<Rightarrow> True | RbUndecodable _ \<Rightarrow> True | _ \<Rightarrow> False)"

definition neighbours_ok :: "approval_env \<Rightarrow> bool" where
  "neighbours_ok E =
     ((\<forall>L r. is_approval (lr_body r) \<longrightarrow>
         ev_policy E (ledger_snoc L r) = ev_policy E L \<and> ev_registry E (ledger_snoc L r) = ev_registry E L
         \<and> ev_route E (ledger_snoc L r) = ev_route E L)
      \<and> (\<forall>x. ev_refusal_text E x \<noteq> []))"

lemma neighbours_still_readable: "neighbours_ok E \<Longrightarrow> is_approval (lr_body r) \<Longrightarrow> still_readable E L r"
  by (simp add: neighbours_ok_def still_readable_def)

text \<open>What an operation leaves: the ledger as it was, or with one more row that replays.\<close>

definition journal_extends ::
  "approval_env \<Rightarrow> declib \<Rightarrow> approval_ledger \<Rightarrow> (nat, approval_entry) btree \<Rightarrow> approval_ledger \<Rightarrow> bool" where
  "journal_extends E D L es L' =
     (L' = L \<or> (\<exists>r es'. L' = ledger_snoc L r \<and> is_approval (lr_body r)
                 \<and> replay_row E D L (Suc (length (al_rows L))) r es = Inr es'))"

lemma journal_extends_same [simp]: "journal_extends E D L es L"
  by (simp add: journal_extends_def)

lemma journal_extends_refines:
  assumes "neighbours_ok E" "approval_replay E D L = Inr es" "journal_extends E D L es L'"
  obtains es' where "approval_replay E D L' = Inr es'" "approval_step\<^sup>=\<^sup>= (map_of es) (map_of es')"
proof (cases "L' = L")
  case True
  with assms(2) that show ?thesis by blast
next
  case False
  with assms(3) obtain r es' where L': "L' = ledger_snoc L r" and ap: "is_approval (lr_body r)"
    and rr: "replay_row E D L (Suc (length (al_rows L))) r es = Inr es'"
    by (auto simp: journal_extends_def)
  have readable: "still_readable E L r" using assms(1) ap by (rule neighbours_still_readable)
  have "approval_replay E D L' = Inr es'" unfolding L' using rr by (rule approval_replay_snoc [OF readable assms(2)])
  moreover from replay_row_refines [OF approval_replay_refines(1) [OF assms(2)] rr]
  have "approval_step\<^sup>=\<^sup>= (map_of es) (map_of es')" ..
  ultimately show ?thesis by (rule that)
qed

definition append_key :: "approval_env \<Rightarrow> approval_ledger \<Rightarrow> approval_entry option \<Rightarrow> approval_operation \<Rightarrow> string option" where
  "append_key E L entry x =
     (case x of
        OpProposed d \<Rightarrow> Some (mint_key E d (Suc (length (al_rows L))))
      | _ \<Rightarrow> map_option (\<lambda>e. step_key x (lk_seq (en_root e))) entry)"

lemma approval_append_cases:
  assumes "approval_append E F L entry x t = (res, L')"
  obtains (kept) e where "res = Inl e" "L' = L"
    | (added) r where "L' = ledger_snoc L r" "lr_key r = append_key E L entry x"
      "lr_body r = RbApproval (map_option en_root entry) (map_option en_last entry) t x"
      "\<And>k. res = Inr k \<Longrightarrow> k = \<lparr>lk_seq = Suc (length (al_rows L)), lk_hash = lr_hash r\<rparr>"
  using assms
  unfolding approval_append_def
  by (auto simp: Let_def result_inv next_seq_def ledger_head_def ledger_snoc_def append_key_def
           split: sum.splits prod.splits if_splits approval_operation.splits)

lemma step_row_replays:
  assumes "map_of es (lk_seq (en_root e)) = Some e" "en_last_at_ms e \<le> t"
    and "lr_key r = Some (step_key x (lk_seq (en_root e)))"
    and "lr_body r = RbApproval (Some (en_root e)) (Some (en_last e)) t x"
    and "(case x of
            OpClaimed review \<Rightarrow> replay_claimed E D L n t review e
          | OpDisposed outcome \<Rightarrow> replay_disposed E L n t outcome e
          | OpProposed _ \<Rightarrow> Inl (AeUnavailable ''proposal cannot have a predecessor'')) = Inr e'"
  shows "replay_row E D L n r es =
           Inr (bt_insert (lk_seq (en_root e)) (e'\<lparr>en_last := \<lparr>lk_seq = n, lk_hash = lr_hash r\<rparr>, en_last_at_ms := t\<rparr>) es)"
  using assms by (cases x) (auto simp: replay_row_def replay_step_def unavailable_unless_def)

lemma step_append_extends:
  assumes app: "approval_append E F L (Some e) x t = (res, L')"
    and e: "map_of es (lk_seq (en_root e)) = Some e" "en_last_at_ms e \<le> t"
    and st: "(case x of
            OpClaimed review \<Rightarrow> replay_claimed E D L (Suc (length (al_rows L))) t review e
          | OpDisposed outcome \<Rightarrow> replay_disposed E L (Suc (length (al_rows L))) t outcome e
          | OpProposed _ \<Rightarrow> Inl (AeUnavailable ''proposal cannot have a predecessor'')) = Inr e'"
  shows "journal_extends E D L es L'"
  using app
proof (cases rule: approval_append_cases)
  case kept
  then show ?thesis by simp
next
  case (added r)
  from added(2) st have "lr_key r = Some (step_key x (lk_seq (en_root e)))"
    by (auto simp: append_key_def split: approval_operation.splits)
  moreover from added(3) have "lr_body r = RbApproval (Some (en_root e)) (Some (en_last e)) t x" by simp
  ultimately show ?thesis
    using step_row_replays [OF e _ _ st] added(1) by (auto simp: journal_extends_def is_approval_def)
qed

lemma step_append_replays:
  assumes "neighbours_ok E" and rep: "approval_replay E D L = Inr es"
    and app: "approval_append E F L (Some e) x t = (res, L')" "L' \<noteq> L"
    and e: "map_of es (lk_seq (en_root e)) = Some e" "en_last_at_ms e \<le> t"
    and st: "(case x of
            OpClaimed review \<Rightarrow> replay_claimed E D L (Suc (length (al_rows L))) t review e
          | OpDisposed outcome \<Rightarrow> replay_disposed E L (Suc (length (al_rows L))) t outcome e
          | OpProposed _ \<Rightarrow> Inl (AeUnavailable ''proposal cannot have a predecessor'')) = Inr e'"
  obtains l where
    "approval_replay E D L' = Inr (bt_insert (lk_seq (en_root e)) (e'\<lparr>en_last := l, en_last_at_ms := t\<rparr>) es)"
    "\<And>k. res = Inr k \<Longrightarrow> k = l" "al_network L' = al_network L"
  using app(1)
proof (cases rule: approval_append_cases)
  case kept
  with app(2) show ?thesis by simp
next
  case (added r)
  from added(2) st have key: "lr_key r = Some (step_key x (lk_seq (en_root e)))"
    by (auto simp: append_key_def split: approval_operation.splits)
  from added(3) have body: "lr_body r = RbApproval (Some (en_root e)) (Some (en_last e)) t x" by simp
  have readable: "still_readable E L r" using assms(1) body by (simp add: neighbours_still_readable is_approval_def)
  show ?thesis
    using step_row_replays [OF e key body st] added(1,4) by (intro that [of "\<lparr>lk_seq = Suc (length (al_rows L)), lk_hash = lr_hash r\<rparr>"])
      (auto intro: approval_replay_snoc [OF readable rep])
qed

lemma find_entry_sound:
  assumes "find_entry p es = Some e" and "entries_ok n es"
  shows "p e" "map_of es (lk_seq (en_root e)) = Some e" "entry_ok n (lk_seq (en_root e), e)"
proof -
  from assms(1) obtain k where k: "(k, e) \<in> set es" and "p e"
    by (auto simp: find_entry_def find_Some_iff) (metis nth_mem prod.collapse)
  then show "p e" by simp
  from k assms(2) have "entry_ok n (k, e)" by (auto simp: entries_ok_def list_all_iff)
  moreover from assms(2) have "distinct (map fst es)" by (simp add: entries_ok_def bt_wf_distinct)
  with k have "map_of es k = Some e" by simp
  ultimately show "map_of es (lk_seq (en_root e)) = Some e" "entry_ok n (lk_seq (en_root e), e)"
    by (simp_all add: entry_ok_def)
qed

lemma open_journal_replay: "open_journal E D F L t = Inr es \<Longrightarrow> approval_replay E D L = Inr es"
  by (auto simp: open_journal_def result_inv)

lemmas open_journal_entries = approval_replay_refines(1) [OF open_journal_replay]

lemma dispose_pending:
  assumes "en_state e = ApPending"
  shows "replay_disposed E L n t (if pp_expires_at_ms (en_data e) \<le> t then DpExpired else DpRejected) e
           = Inr (e\<lparr>en_state := ApDisposed\<rparr>)"
  using assms by (simp add: replay_disposed_def)

lemma dispose_expired:
  assumes "en_state e = ApPending" "pp_expires_at_ms (en_data e) \<le> t"
  shows "replay_disposed E L n t DpExpired e = Inr (e\<lparr>en_state := ApDisposed\<rparr>)"
  using assms by (simp add: replay_disposed_def)

lemma claim_reviewed:
  assumes "claim_review_checked E D L e t reviewed = Inr rv" "en_state e = ApPending" "t < pp_expires_at_ms (en_data e)"
  shows "replay_claimed E D L (Suc (length (al_rows L))) t rv e = Inr (e\<lparr>en_review := rv, en_state := ApClaimed\<rparr>)"
proof (cases reviewed)
  case None
  with assms show ?thesis
    by (auto simp: claim_review_checked_def replay_claimed_def unavailable_unless_def result_inv)
next
  case (Some q)
  with assms(1) obtain review where "rv = Some review"
    and "validate_review E D L e review t (Suc (length (al_rows L))) = Inr ()"
    by (cases q) (auto simp: claim_review_checked_def next_seq_def ledger_head_def result_inv split: if_splits)
  with assms show ?thesis by (simp add: replay_claimed_def unavailable_unless_def)
qed

lemma finish_disposes:
  assumes "finish_disposition E L e outcome receipt = Inr x" "en_state e = ApClaimed" "neighbours_ok E"
  shows "replay_disposed E L (Suc (length (al_rows L))) t x e = Inr (e\<lparr>en_state := ApDisposed\<rparr>)"
proof (cases outcome)
  case (Inr c)
  with assms show ?thesis
    by (auto simp: finish_disposition_def replay_disposed_def validate_review_receipt_def unavailable_unless_def
                   next_seq_def ledger_head_def Let_def result_inv split: if_splits)
next
  case (Inl refusal)
  with assms show ?thesis
    by (auto simp: finish_disposition_def replay_disposed_def validate_review_receipt_def unavailable_unless_def
                   next_seq_def ledger_head_def neighbours_ok_def Let_def result_inv split: if_splits)
qed

lemma claim_extends:
  assumes "claim_inner E D F i t reviewed L = (res, L')" and rep: "approval_replay E D L = Inr es"
  shows "journal_extends E D L es L'"
proof (cases "L' = L")
  case False
  with assms(1) obtain es0 e where es0: "open_journal E D F L t = Inr es0"
    and e: "find_entry (has_id (al_network L) i) es0 = Some e"
    and st: "en_last_at_ms e \<le> t" "en_state e = ApPending"
    by (auto simp: claim_inner_def split: sum.splits option.splits if_splits)
  have es: "es0 = es" using open_journal_replay [OF es0] rep by simp
  note found = find_entry_sound [OF e open_journal_entries [OF es0]]
  show ?thesis
  proof (cases "t < pp_expires_at_ms (en_data e)")
    case True
    with False assms(1) es0 e st obtain rv res' where rv: "claim_review_checked E D L e t reviewed = Inr rv"
      and app: "approval_append E F L (Some e) (OpClaimed rv) t = (res', L')"
      by (auto simp: claim_inner_def split: prod.splits sum.splits)
    from app found(2) [unfolded es] st(1) show ?thesis
      by (rule step_append_extends) (simp add: claim_reviewed [OF rv st(2) True])
  next
    case expired: False
    with assms(1) es0 e st obtain res' where "approval_append E F L (Some e) (OpDisposed DpExpired) t = (res', L')"
      by (auto simp: claim_inner_def split: prod.splits sum.splits)
    then show ?thesis using found(2) [unfolded es] st(1)
      by (rule step_append_extends) (use expired st in \<open>simp add: dispose_expired\<close>)
  qed
qed simp

lemma reject_extends:
  assumes "journal_reject E D F i t L = (res, L')" and rep: "approval_replay E D L = Inr es"
  shows "journal_extends E D L es L'"
proof (cases "L' = L")
  case False
  with assms(1) obtain es0 e where es0: "open_journal E D F L t = Inr es0"
    and e: "find_entry (has_id (al_network L) i) es0 = Some e"
    and st: "en_last_at_ms e \<le> t" "en_state e = ApPending"
    by (auto simp: journal_reject_def Let_def split: sum.splits option.splits if_splits)
  have es: "es0 = es" using open_journal_replay [OF es0] rep by simp
  note found = find_entry_sound [OF e open_journal_entries [OF es0]]
  obtain res' where "approval_append E F L (Some e)
      (OpDisposed (if pp_expires_at_ms (en_data e) \<le> t then DpExpired else DpRejected)) t = (res', L')"
    using assms(1) es0 e st by (auto simp: journal_reject_def Let_def split: prod.splits sum.splits)
  then show ?thesis using found(2) [unfolded es] st(1)
    by (rule step_append_extends) (simp only: approval_operation.case dispose_pending [OF st(2)])
qed simp

lemma finish_extends:
  assumes "journal_finish E D F permit outcome receipt t L = (res, L')" and rep: "approval_replay E D L = Inr es"
    and "neighbours_ok E"
  shows "journal_extends E D L es L'"
proof (cases "L' = L")
  case False
  with assms(1) obtain es0 e x res' where es0: "open_journal E D F L t = Inr es0"
    and e: "map_of es0 (lk_seq (kp_root permit)) = Some e"
    and st: "en_root e = kp_root permit" "en_state e = ApClaimed" "en_last_at_ms e \<le> t"
    and x: "finish_disposition E L e outcome receipt = Inr x"
    and app: "approval_append E F L (Some e) (OpDisposed x) t = (res', L')"
    unfolding journal_finish_def by (auto simp: result_inv split: sum.splits prod.splits)
  have es: "es0 = es" using open_journal_replay [OF es0] rep by simp
  from app e [folded st(1), unfolded es] st(3) show ?thesis
    by (rule step_append_extends) (simp add: finish_disposes [OF x st(2) assms(3)])
qed simp

lemma mint_proposed_data:
  assumes "mint_proposed E L agent intent route rev_seq t prov = Inr d"
  shows "pp_intent d = intent" "pp_route d = route" "pp_agent d = agent" "lk_seq (pp_policy d) = rev_seq"
    "pp_cancel_provenance d = prov" "t < pp_expires_at_ms d"
    "validate_proposed E L d t (Suc (length (al_rows L))) = Inr ()"
  using assms
  by (auto simp: mint_proposed_def Let_def next_seq_def ledger_head_def try_u64_def APPROVAL_TTL_MS_def result_inv
           split: if_splits)

lemma find_entry_None: "find_entry p es = None \<longleftrightarrow> \<not> list_ex (\<lambda>(_, e). p e) es"
  by (auto simp: find_entry_def find_None_iff list_ex_iff)

lemma mint_row_replays:
  assumes "mint_proposed E L agent intent route rev_seq t prov = Inr d"
    and "find_entry (\<lambda>e. same_open_request e intent route t) es = None"
    and "lr_key r = Some (mint_key E d (Suc (length (al_rows L))))"
    and "lr_body r = RbApproval None None t (OpProposed d)"
  shows "replay_row E D L (Suc (length (al_rows L))) r es =
           (let k = \<lparr>lk_seq = Suc (length (al_rows L)), lk_hash = lr_hash r\<rparr> in
            Inr (bt_insert (Suc (length (al_rows L)))
              \<lparr>en_data = d, en_root = k, en_last = k, en_minted_at_ms = t, en_last_at_ms = t,
               en_state = ApPending, en_review = None\<rparr> es))"
  using assms(2-4) mint_proposed_data [OF assms(1)]
  by (simp add: replay_row_def replay_proposed_def unavailable_unless_def find_entry_None Let_def)

lemma mint_admission_replay:
  "mint_admission E D F L agent intent route rev_seq t = Inr (es, prov) \<Longrightarrow> approval_replay E D L = Inr es"
  unfolding mint_admission_def by (auto simp: result_inv dest: open_journal_replay)

lemma mint_extends:
  assumes "mint_intent E D F agent intent route rev_seq t L = (res, L')" and rep: "approval_replay E D L = Inr es"
  shows "journal_extends E D L es L'"
proof (cases "L' = L")
  case False
  with assms(1) obtain es0 prov d res' where adm: "mint_admission E D F L agent intent route rev_seq t = Inr (es0, prov)"
    and none: "find_entry (\<lambda>e. same_open_request e intent route t) es0 = None"
    and d: "mint_proposed E L agent intent route rev_seq t prov = Inr d"
    and app: "approval_append E F L None (OpProposed d) t = (res', L')"
    by (auto simp: mint_intent_def split: sum.splits prod.splits option.splits)
  have es: "es0 = es" using mint_admission_replay [OF adm] rep by simp
  from app show ?thesis
  proof (cases rule: approval_append_cases)
    case kept
    then show ?thesis by simp
  next
    case (added r)
    then show ?thesis
      using mint_row_replays [OF d none [unfolded es], of r D]
      by (auto simp: journal_extends_def append_key_def is_approval_def Let_def)
  qed
qed simp

section \<open>Listing and expiring\<close>

definition overdue :: "nat \<Rightarrow> approval_entry \<Rightarrow> bool" where
  "overdue now_ms e = (en_state e = ApPending \<and> pp_expires_at_ms (en_data e) \<le> now_ms)"

lemma filter_bt_insert_less:
  assumes "bt_wf es" "map_of es k = Some e" "p e" "\<not> p v"
  shows "length (filter p (map snd (bt_insert k v es))) < length (filter p (map snd es))"
  using assms(1,2)
proof (induction es)
  case (Cons q es)
  from Cons.prems(1) have wf: "bt_wf es" and lt: "\<forall>x \<in> set (map fst es). fst q < x" by (simp_all add: bt_wf_def)
  show ?case
  proof (cases "fst q = k")
    case True
    with Cons.prems(2) have "snd q = e" by (cases q) simp
    with True assms(3,4) show ?thesis by auto
  next
    case False
    with Cons.prems(2) have "map_of es k = Some e" by (cases q) auto
    then have "k \<in> set (map fst es)" by (force dest: map_of_SomeD)
    with lt have "fst q < k" by blast
    with Cons.IH [OF wf \<open>map_of es k = Some e\<close>] show ?thesis by auto
  qed
qed simp

lemma expire_pass:
  assumes "neighbours_ok E" and rep: "approval_replay E D L = Inr es"
    and e: "find_entry (overdue t) es = Some e" and clock: "en_minted_at_ms e \<le> t"
    and app: "approval_append E F L (Some e) (OpDisposed DpExpired) t = (res, L')" and "L' \<noteq> L"
  obtains es' where "approval_replay E D L' = Inr es'" "approval_step (map_of es) (map_of es')"
    "length (filter (overdue t) (map snd es')) < length (filter (overdue t) (map snd es))" "al_network L' = al_network L"
proof -
  note ok = approval_replay_refines(1) [OF rep]
  note found = find_entry_sound [OF e ok]
  have st: "en_state e = ApPending" "pp_expires_at_ms (en_data e) \<le> t" using found(1) by (simp_all add: overdue_def)
  have last_ms: "en_last_at_ms e \<le> t" using found(3) st clock by (simp add: entry_ok_def)
  obtain l where rep': "approval_replay E D L' =
      Inr (bt_insert (lk_seq (en_root e)) (e\<lparr>en_state := ApDisposed, en_last := l, en_last_at_ms := t\<rparr>) es)"
    and net: "al_network L' = al_network L"
    by (rule step_append_replays [OF assms(1) rep app \<open>L' \<noteq> L\<close> found(2) last_ms])
       (simp add: dispose_expired st, blast)
  define e' where "e' = e\<lparr>en_state := ApDisposed, en_last := l, en_last_at_ms := t\<rparr>"
  show ?thesis
  proof (rule that)
    show "approval_replay E D L' = Inr (bt_insert (lk_seq (en_root e)) e' es)" using rep' by (simp add: e'_def)
    show "approval_step (map_of es) (map_of (bt_insert (lk_seq (en_root e)) e' es))"
      unfolding map_of_bt_insert e'_def using found(2) last_ms st by (auto intro: approval_step.dispose)
    show "length (filter (overdue t) (map snd (bt_insert (lk_seq (en_root e)) e' es)))
            < length (filter (overdue t) (map snd es))"
      using ok found(1,2) by (intro filter_bt_insert_less) (auto simp: entries_ok_def e'_def overdue_def)
  qed (rule net)
qed

text \<open>
  What a listing gives: a ledger that still replays, reached by expiries alone, and when it succeeds
  exactly the proposals that are pending there, none of them overdue.
\<close>

definition lists_pending ::
  "approval_env \<Rightarrow> declib \<Rightarrow> nat \<Rightarrow> network \<Rightarrow> (nat, approval_entry) btree \<Rightarrow>
     ((approval_error + proposal list) \<times> approval_ledger) option \<Rightarrow> bool" where
  "lists_pending E D t network es out =
     (\<exists>res L' es'. out = Some (res, L') \<and> al_network L' = network \<and> approval_replay E D L' = Inr es'
        \<and> approval_step\<^sup>*\<^sup>* (map_of es) (map_of es')
        \<and> (\<forall>ps. res = Inr ps \<longrightarrow>
             ps = map (entry_proposal network) (filter (\<lambda>e. en_state e = ApPending) (map snd es'))
             \<and> \<not> list_ex (\<lambda>(_, e). overdue t e) es'))"

lemma lists_pending_error:
  "approval_replay E D L = Inr es' \<Longrightarrow> approval_step\<^sup>*\<^sup>* (map_of es) (map_of es') \<Longrightarrow> network = al_network L \<Longrightarrow>
     lists_pending E D t network es (Some (Inl err, L))"
  by (auto simp: lists_pending_def)

lemma lists_pending_step:
  "approval_step (map_of es) (map_of es1) \<Longrightarrow> lists_pending E D t network es1 out \<Longrightarrow>
     lists_pending E D t network es out"
  unfolding lists_pending_def by (blast intro: converse_rtranclp_into_rtranclp)

lemma pending_pass:
  assumes "open_journal E D F L t = Inr es"
  shows "journal_pending (Suc n) E D F t L =
           (if list_ex (\<lambda>(_, e). t < en_minted_at_ms e) es
            then Some (Inl (AeUnavailable ''approval clock moved backwards''), L)
            else case find_entry (overdue t) es of
                   Some e \<Rightarrow>
                     (case approval_append E F L (Some e) (OpDisposed DpExpired) t of
                        (Inl err, L') \<Rightarrow> Some (Inl err, L')
                      | (Inr _, L') \<Rightarrow> journal_pending n E D F t L')
                 | None \<Rightarrow>
                     Some (rbind (approval_publish F) (\<lambda>_.
                       Inr (map (entry_proposal (al_network L)) (filter (\<lambda>e. en_state e = ApPending) (map snd es)))), L))"
proof -
  have "(\<lambda>e. en_state e = ApPending \<and> t \<ge> pp_expires_at_ms (en_data e)) = overdue t"
    by (simp add: fun_eq_iff overdue_def)
  with assms show ?thesis by simp
qed

text \<open>One pass per overdue proposal and one to list the others are enough.\<close>

lemma pending_terminates:
  assumes "neighbours_ok E" "approval_replay E D L = Inr es" "length (filter (overdue t) (map snd es)) < n"
  shows "lists_pending E D t (al_network L) es (journal_pending n E D F t L)"
  using assms(2,3)
proof (induction n arbitrary: L es)
  case (Suc n)
  note rep = Suc.prems(1)
  show ?case
  proof (cases "open_journal E D F L t")
    case (Inl err)
    with rep show ?thesis by (simp add: lists_pending_error)
  next
    case (Inr es0)
    then have op: "open_journal E D F L t = Inr es" using open_journal_replay rep by fastforce
    show ?thesis
    proof (cases "\<not> list_ex (\<lambda>(_, e). t < en_minted_at_ms e) es \<and> find_entry (overdue t) es \<noteq> None")
      case False
      with rep show ?thesis
        unfolding pending_pass [OF op]
        by (auto simp: lists_pending_error) (auto simp: lists_pending_def find_entry_None result_inv)
    next
      case True
      then obtain e where clock: "\<not> list_ex (\<lambda>(_, e). t < en_minted_at_ms e) es"
        and e: "find_entry (overdue t) es = Some e" by auto
      have minted: "en_minted_at_ms e \<le> t"
        using clock find_entry_sound(2) [OF e approval_replay_refines(1) [OF rep]]
        by (fastforce simp: list_ex_iff dest: map_of_SomeD)
      obtain res' L1 where app: "approval_append E F L (Some e) (OpDisposed DpExpired) t = (res', L1)" by fastforce
      have pass: "journal_pending (Suc n) E D F t L =
          (case res' of Inl err \<Rightarrow> Some (Inl err, L1) | Inr _ \<Rightarrow> journal_pending n E D F t L1)"
        unfolding pending_pass [OF op] using clock e app by simp
      show ?thesis
      proof (cases "L1 = L")
        case True
        have "\<exists>err. res' = Inl err"
          using app True by (cases rule: approval_append_cases) auto
        with True rep show ?thesis unfolding pass by (auto simp: lists_pending_error)
      next
        case False
        from expire_pass [OF assms(1) rep e minted app False] obtain es1 where
          es1: "approval_replay E D L1 = Inr es1" "approval_step (map_of es) (map_of es1)"
            "length (filter (overdue t) (map snd es1)) < length (filter (overdue t) (map snd es))"
            "al_network L1 = al_network L" .
        have "lists_pending E D t (al_network L) es1 (journal_pending n E D F t L1)"
          using Suc.IH [OF es1(1)] es1(3,4) Suc.prems(2) by simp
        with es1(1,2,4) show ?thesis
          unfolding pass by (auto split: sum.split intro: lists_pending_error lists_pending_step)
      qed
    qed
  qed
qed simp

section \<open>Runs\<close>

text \<open>
  A call of the journal, with the faults it meets; the fuel of a listing is one pass more than the
  ledger has rows. A run interleaves calls with the rows other journals add.
\<close>

datatype approval_call =
    CallMint order_candidate
  | CallMintCancel agent_id cancel_intent authorized_route nat nat
  | CallPending nat
  | CallClaim string nat
  | CallClaimReview review_evidence review_commitment nat
  | CallReject string nat
  | CallFinish claim_permit "refusal + cleared" "link option" nat

definition journal_after ::
  "approval_env \<Rightarrow> declib \<Rightarrow> approval_faults \<Rightarrow> approval_call \<Rightarrow> approval_ledger \<Rightarrow> approval_ledger" where
  "journal_after E D F c L =
     (case c of
        CallMint candidate \<Rightarrow> snd (journal_mint E D F candidate L)
      | CallMintCancel agent intent route policy_revision at_ms \<Rightarrow>
          snd (journal_mint_cancel E D F agent intent route policy_revision at_ms L)
      | CallPending now_ms \<Rightarrow>
          (case journal_pending (Suc (length (al_rows L))) E D F now_ms L of Some (_, L') \<Rightarrow> L' | None \<Rightarrow> L)
      | CallClaim i at_ms \<Rightarrow> snd (journal_claim E D F i at_ms L)
      | CallClaimReview evidence review at_ms \<Rightarrow> snd (journal_claim_review E D F evidence review at_ms L)
      | CallReject i at_ms \<Rightarrow> snd (journal_reject E D F i at_ms L)
      | CallFinish permit outcome receipt at_ms \<Rightarrow> snd (journal_finish E D F permit outcome receipt at_ms L))"

inductive approval_run :: "approval_env \<Rightarrow> declib \<Rightarrow> approval_ledger \<Rightarrow> approval_ledger \<Rightarrow> bool"
  for E :: approval_env and D :: declib and L :: approval_ledger where
  run_start: "approval_run E D L L"
| run_call: "approval_run E D L L1 \<Longrightarrow> approval_run E D L (journal_after E D F c L1)"
| run_other: "approval_run E D L L1 \<Longrightarrow> \<not> is_approval (lr_body r) \<Longrightarrow> still_readable E L1 r \<Longrightarrow>
     approval_run E D L (ledger_snoc L1 r)"

lemma overdue_bound:
  assumes "entries_ok n es"
  shows "length (filter p (map snd es)) \<le> n"
proof -
  have "length (filter p (map snd es)) \<le> length (map fst es)" using length_filter_le [of p "map snd es"] by simp
  also have "\<dots> = card (set (map fst es))"
    using assms by (simp only: distinct_card entries_ok_def bt_wf_distinct)
  also have "\<dots> \<le> card {1..n}"
    using assms by (intro card_mono) (auto simp: entries_ok_def list_all_iff entry_ok_def)
  finally show ?thesis by simp
qed

lemma journal_extends_network: "journal_extends E D L es L' \<Longrightarrow> al_network L' = al_network L"
  by (auto simp: journal_extends_def)

lemma mint_after_extends:
  "approval_replay E D L = Inr es \<Longrightarrow> journal_extends E D L es (snd (mint_intent E D F agent intent route rev_seq t L))"
  by (cases "mint_intent E D F agent intent route rev_seq t L") (simp add: mint_extends)

lemma claim_after_extends:
  "approval_replay E D L = Inr es \<Longrightarrow> journal_extends E D L es (snd (claim_inner E D F i t reviewed L))"
  by (cases "claim_inner E D F i t reviewed L") (simp add: claim_extends)

lemma reject_after_extends:
  "approval_replay E D L = Inr es \<Longrightarrow> journal_extends E D L es (snd (journal_reject E D F i t L))"
  by (cases "journal_reject E D F i t L") (simp add: reject_extends)

lemma finish_after_extends:
  "neighbours_ok E \<Longrightarrow> approval_replay E D L = Inr es \<Longrightarrow>
     journal_extends E D L es (snd (journal_finish E D F permit outcome receipt t L))"
  by (cases "journal_finish E D F permit outcome receipt t L") (simp add: finish_extends)

lemmas after_extends = mint_after_extends claim_after_extends reject_after_extends finish_after_extends

lemma call_extends:
  assumes "neighbours_ok E" "approval_replay E D L = Inr es" "\<And>t. c \<noteq> CallPending t"
  shows "journal_extends E D L es (journal_after E D F c L)"
proof (cases c)
  case (CallMint x1)
  with assms(2) show ?thesis
    by (simp add: journal_after_def journal_mint_def mint_after_extends split: sum.split)
qed (use assms in \<open>simp_all add: journal_after_def journal_mint_cancel_def journal_claim_def journal_claim_review_def after_extends\<close>)

lemma call_refines:
  assumes "neighbours_ok E" "approval_replay E D L = Inr es"
  obtains es' where "approval_replay E D (journal_after E D F c L) = Inr es'"
    "approval_step\<^sup>*\<^sup>* (map_of es) (map_of es')" "al_network (journal_after E D F c L) = al_network L"
proof (cases "\<exists>t. c = CallPending t")
  case True
  then obtain t where c: "c = CallPending t" ..
  have "length (filter (overdue t) (map snd es)) < Suc (length (al_rows L))"
    using overdue_bound [OF approval_replay_refines(1) [OF assms(2)]] by (simp add: less_Suc_eq_le)
  from pending_terminates [OF assms this, of F] obtain res L' es' where
    "journal_pending (Suc (length (al_rows L))) E D F t L = Some (res, L')" "al_network L' = al_network L"
    "approval_replay E D L' = Inr es'" "approval_step\<^sup>*\<^sup>* (map_of es) (map_of es')"
    unfolding lists_pending_def by blast
  then show ?thesis by (intro that [of es']) (simp_all add: journal_after_def c del: journal_pending.simps)
next
  case False
  with assms have ext: "journal_extends E D L es (journal_after E D F c L)" by (blast intro: call_extends)
  from journal_extends_refines [OF assms this] obtain es' where
    "approval_replay E D (journal_after E D F c L) = Inr es'" "approval_step\<^sup>=\<^sup>= (map_of es) (map_of es')" .
  then show ?thesis
    by (intro that [of es'] journal_extends_network [OF ext]) (auto intro: r_into_rtranclp)
qed

lemma other_row_replays:
  assumes "approval_replay E D L = Inr es" "\<not> is_approval (lr_body r)" "still_readable E L r"
  shows "approval_replay E D (ledger_snoc L r) = Inr es"
  using assms(3,1)
  by (rule approval_replay_snoc)
     (use assms(2) in \<open>simp add: replay_row_def is_approval_def split: row_body.splits\<close>)

lemma run_refines:
  assumes "approval_run E D L L'" "neighbours_ok E" "approval_replay E D L = Inr es"
  shows "\<exists>es'. approval_replay E D L' = Inr es' \<and> approval_step\<^sup>*\<^sup>* (map_of es) (map_of es') \<and> al_network L' = al_network L"
  using assms(1)
proof induction
  case run_start
  show ?case using assms(3) by blast
next
  case (run_call L1 F c)
  then obtain es1 where es1: "approval_replay E D L1 = Inr es1" "approval_step\<^sup>*\<^sup>* (map_of es) (map_of es1)"
    "al_network L1 = al_network L" by blast
  obtain es2 where "approval_replay E D (journal_after E D F c L1) = Inr es2" "approval_step\<^sup>*\<^sup>* (map_of es1) (map_of es2)"
    "al_network (journal_after E D F c L1) = al_network L1"
    using call_refines [OF assms(2) es1(1)] .
  with es1(2,3) show ?case by (metis rtranclp_trans)
next
  case (run_other L1 r)
  then show ?case by (auto intro: other_row_replays)
qed

section \<open>One claim\<close>

lemma entry_proposal_id_inj:
  "has_id network i e \<Longrightarrow> has_id network i e' \<Longrightarrow> lk_seq (en_root e) = lk_seq (en_root e')"
  by (auto simp: has_id_def entry_proposal_def dest: nat_digits_inj)

lemma approval_step_spent:
  assumes "approval_step m m'" "m k = Some e" "en_state e \<noteq> ApPending"
  shows "\<exists>e'. m' k = Some e' \<and> en_state e' \<noteq> ApPending \<and> en_root e' = en_root e"
  using assms by (induction rule: approval_step.induct) auto

lemma approval_steps_spent:
  assumes "approval_step\<^sup>*\<^sup>* m m'" "m k = Some e" "en_state e \<noteq> ApPending"
  shows "\<exists>e'. m' k = Some e' \<and> en_state e' \<noteq> ApPending \<and> en_root e' = en_root e"
  using assms by (induction rule: rtranclp_induct) (auto, metis approval_step_spent)

lemma claim_permits:
  assumes "claim_inner E D F i t reviewed L = (Inr (Some permit), L')"
  obtains es e rv where "approval_replay E D L = Inr es" "has_id (al_network L) i e"
    "map_of es (lk_seq (en_root e)) = Some e" "en_state e = ApPending" "t < pp_expires_at_ms (en_data e)"
    "kp_root permit = en_root e" "kp_proposal permit = entry_proposal (al_network L) e"
    "claim_review_checked E D L e t reviewed = Inr rv"
    "approval_append E F L (Some e) (OpClaimed rv) t = (Inr (kp_claimed permit), L')" "en_last_at_ms e \<le> t"
proof -
  from assms obtain es e rv k where es: "open_journal E D F L t = Inr es"
    and e: "find_entry (has_id (al_network L) i) es = Some e" and st: "en_state e = ApPending"
    "t < pp_expires_at_ms (en_data e)" "en_last_at_ms e \<le> t"
    and rv: "claim_review_checked E D L e t reviewed = Inr rv"
    and app: "approval_append E F L (Some e) (OpClaimed rv) t = (Inr k, L')"
    and p: "permit = \<lparr>kp_owner = ev_owner E, kp_proposal = entry_proposal (al_network L) e, kp_root = en_root e, kp_claimed = k\<rparr>"
    by (auto simp: claim_inner_def result_inv split: sum.splits option.splits if_splits prod.splits)
  note found = find_entry_sound [OF e open_journal_entries [OF es]]
  show ?thesis
    by (rule that [OF open_journal_replay [OF es] found(1,2) st(1,2) _ _ rv _ st(3)]) (use p app in simp_all)
qed

lemma claim_spends:
  assumes "neighbours_ok E" and claim: "claim_inner E D F i t reviewed L = (Inr (Some permit), L')"
  obtains es e where "approval_replay E D L' = Inr es" "has_id (al_network L') i e"
    "map_of es (lk_seq (en_root e)) = Some e" "en_state e = ApClaimed" "en_root e = kp_root permit"
    "en_last e = kp_claimed permit" "en_last_at_ms e = t"
proof -
  from claim obtain es e rv where rep: "approval_replay E D L = Inr es" and hid: "has_id (al_network L) i e"
    and e: "map_of es (lk_seq (en_root e)) = Some e" and st: "en_state e = ApPending" "t < pp_expires_at_ms (en_data e)"
    and p: "kp_root permit = en_root e" and rv: "claim_review_checked E D L e t reviewed = Inr rv"
    and app: "approval_append E F L (Some e) (OpClaimed rv) t = (Inr (kp_claimed permit), L')"
    and t: "en_last_at_ms e \<le> t"
    by (rule claim_permits)
  have grown: "L' \<noteq> L" using app by (cases rule: approval_append_cases) auto
  obtain l where rep': "approval_replay E D L' =
      Inr (bt_insert (lk_seq (en_root e)) (e\<lparr>en_review := rv, en_state := ApClaimed, en_last := l, en_last_at_ms := t\<rparr>) es)"
    and "kp_claimed permit = l" "al_network L' = al_network L"
    by (rule step_append_replays [OF assms(1) rep app grown e t]) (simp add: claim_reviewed [OF rv st], auto)
  then show ?thesis
    using hid p by (intro that [OF rep', of "e\<lparr>en_review := rv, en_state := ApClaimed, en_last := l, en_last_at_ms := t\<rparr>"])
      (auto simp: map_of_bt_insert has_id_def entry_proposal_def)
qed

lemma spent_claim_refused:
  assumes "approval_replay E D L = Inr es" "map_of es (lk_seq (en_root e)) = Some e" "has_id (al_network L) i e"
    and "en_state e \<noteq> ApPending"
  shows "fst (claim_inner E D F i t reviewed L) \<noteq> Inr (Some permit)"
proof
  assume "fst (claim_inner E D F i t reviewed L) = Inr (Some permit)"
  then have "claim_inner E D F i t reviewed L = (Inr (Some permit), snd (claim_inner E D F i t reviewed L))"
    by (simp add: prod_eq_iff)
  then obtain es' e' where "approval_replay E D L = Inr es'" "has_id (al_network L) i e'"
    "map_of es' (lk_seq (en_root e')) = Some e'" "en_state e' = ApPending"
    by (rule claim_permits)
  with assms entry_proposal_id_inj [of "al_network L" i e e'] show False by simp
qed

lemma approval_steps_disposed:
  assumes "approval_step\<^sup>*\<^sup>* m m'" "m k = Some e" "en_state e = ApDisposed"
  shows "m' k = Some e"
  using assms by (induction rule: rtranclp_induct) (auto elim!: approval_step.cases)

lemma finish_settles:
  assumes "neighbours_ok E" and fin: "journal_finish E D F permit outcome receipt t L = (Inr (), L')"
  obtains es e where "approval_replay E D L' = Inr es" "map_of es (lk_seq (kp_root permit)) = Some e"
    "en_state e = ApDisposed"
proof -
  from fin obtain es e x k where es: "open_journal E D F L t = Inr es"
    and e: "map_of es (lk_seq (kp_root permit)) = Some e"
    and st: "en_root e = kp_root permit" "en_state e = ApClaimed" "en_last_at_ms e \<le> t"
    and x: "finish_disposition E L e outcome receipt = Inr x"
    and app: "approval_append E F L (Some e) (OpDisposed x) t = (Inr k, L')"
    unfolding journal_finish_def by (auto simp: result_inv split: sum.splits prod.splits)
  have grown: "L' \<noteq> L" using app by (cases rule: approval_append_cases) auto
  obtain l where rep': "approval_replay E D L' =
      Inr (bt_insert (lk_seq (en_root e)) (e\<lparr>en_state := ApDisposed, en_last := l, en_last_at_ms := t\<rparr>) es)"
    by (rule step_append_replays [OF assms(1) open_journal_replay [OF es] app grown e [folded st(1)] st(3)])
       (simp add: finish_disposes [OF x st(2) assms(1)], auto)
  then show ?thesis
    using st(1) by (intro that [OF rep', of "e\<lparr>en_state := ApDisposed, en_last := l, en_last_at_ms := t\<rparr>"])
      (auto simp: map_of_bt_insert)
qed

lemma settled_finish_refused:
  assumes "approval_replay E D L = Inr es" "map_of es (lk_seq (kp_root permit)) = Some e" "en_state e = ApDisposed"
  shows "fst (journal_finish E D F permit outcome receipt t L) \<noteq> Inr ()"
  using assms unfolding journal_finish_def
  by (auto simp: result_inv dest!: open_journal_replay split: sum.splits prod.splits)

section \<open>Retry of a mint\<close>

lemma normalized_same_request_refl: "normalized_same_request n n"
  by (auto simp: normalized_same_request_def split: option.split)

lemma find_entry_unique:
  assumes "find_entry p es = None" "p e"
  shows "find_entry p (bt_insert k e es) = Some e"
  using assms unfolding find_entry_def by (induction es) (auto split: if_splits)

text \<open>The candidate of a mint that was admitted, on the ledger it left.\<close>

lemma mint_again_admitted:
  assumes "neighbours_ok E" "mint_admission E D F L agent (SiOrder n) route rev_seq t = Inr (es, prov)"
    and "is_approval (lr_body r)" "approval_replay E D (ledger_snoc L r) = Inr es'" "ft_lock F' = None"
  shows "mint_admission E D F' (ledger_snoc L r) agent (SiOrder n) route rev_seq t = Inr (es', None)" "prov = None"
  using assms unfolding mint_admission_def
  by (auto simp: result_inv open_journal_def neighbours_ok_def unavailable_unless_def faulty_def is_order_def)

definition healthy :: "approval_faults \<Rightarrow> bool" where
  "healthy F = (ft_lock F = None \<and> ft_note_before F = None \<and> ft_commit F = None \<and> ft_note_after F = None)"

lemma mint_retry_existing:
  assumes "mint_intent E D F agent (SiOrder n) route rev_seq t L = (Inr p, L)" "healthy F'"
  shows "mint_intent E D F' agent (SiOrder n) route rev_seq t L = (Inr p, L)"
proof -
  from assms(1) obtain es prov where adm: "mint_admission E D F L agent (SiOrder n) route rev_seq t = Inr (es, prov)"
    by (cases "mint_admission E D F L agent (SiOrder n) route rev_seq t") (auto simp: mint_intent_def)
  have adm': "mint_admission E D F' L agent (SiOrder n) route rev_seq t = Inr (es, prov)"
    using adm assms(2) unfolding mint_admission_def open_journal_def
    by (auto simp: result_inv faulty_def healthy_def)
  obtain e where e: "find_entry (\<lambda>e. same_open_request e (SiOrder n) route t) es = Some e"
    and "mint_existing F L agent (SiOrder n) route rev_seq t prov e = Inr p"
  proof (cases "find_entry (\<lambda>e. same_open_request e (SiOrder n) route t) es")
    case None
    with assms(1) adm obtain d k where "approval_append E F L None (OpProposed d) t = (Inr k, L)"
      by (auto simp: mint_intent_def split: sum.splits prod.splits)
    then show ?thesis by (cases rule: approval_append_cases) auto
  next
    case (Some e)
    with assms(1) adm that show ?thesis by (simp add: mint_intent_def)
  qed
  then have "mint_existing F' L agent (SiOrder n) route rev_seq t prov e = Inr p"
    using assms(2) by (auto simp: mint_existing_def approval_publish_def result_inv faulty_def healthy_def)
  with adm' e show ?thesis by (simp add: mint_intent_def)
qed

lemma mint_retry_added:
  assumes "neighbours_ok E" "mint_intent E D F agent (SiOrder n) route rev_seq t L = (res, L')" "L' \<noteq> L" "healthy F'"
  shows "\<exists>p. mint_intent E D F' agent (SiOrder n) route rev_seq t L' = (Inr p, L') \<and> (\<forall>q. res = Inr q \<longrightarrow> q = p)"
proof -
  from assms(2,3) obtain es prov d res' where adm: "mint_admission E D F L agent (SiOrder n) route rev_seq t = Inr (es, prov)"
    and none: "find_entry (\<lambda>e. same_open_request e (SiOrder n) route t) es = None"
    and d: "mint_proposed E L agent (SiOrder n) route rev_seq t prov = Inr d"
    and app: "approval_append E F L None (OpProposed d) t = (res', L')"
    and res: "res = (case res' of Inl err \<Rightarrow> Inl err | Inr k \<Rightarrow> Inr (entry_proposal (al_network L)
                \<lparr>en_data = d, en_root = k, en_last = k, en_minted_at_ms = t, en_last_at_ms = t, en_state = ApPending, en_review = None\<rparr>))"
    by (auto simp: mint_intent_def split: sum.splits prod.splits option.splits)
  from app assms(3) obtain r where L': "L' = ledger_snoc L r" and key: "lr_key r = Some (mint_key E d (Suc (length (al_rows L))))"
    and body: "lr_body r = RbApproval None None t (OpProposed d)"
    and k: "\<And>k. res' = Inr k \<Longrightarrow> k = \<lparr>lk_seq = Suc (length (al_rows L)), lk_hash = lr_hash r\<rparr>"
    by (cases rule: approval_append_cases) (auto simp: append_key_def)
  define l where "l = \<lparr>lk_seq = Suc (length (al_rows L)), lk_hash = lr_hash r\<rparr>"
  define e where "e = \<lparr>en_data = d, en_root = l, en_last = l, en_minted_at_ms = t, en_last_at_ms = t,
    en_state = ApPending, en_review = None\<rparr>"
  have ap: "is_approval (lr_body r)" by (simp add: body is_approval_def)
  have readable: "still_readable E L r" using assms(1) ap by (rule neighbours_still_readable)
  have "replay_row E D L (Suc (length (al_rows L))) r es = Inr (bt_insert (Suc (length (al_rows L))) e es)"
    using mint_row_replays [OF d none key body] by (simp add: e_def l_def Let_def)
  then have rep: "approval_replay E D (ledger_snoc L r) = Inr (bt_insert (Suc (length (al_rows L))) e es)"
    by (rule approval_replay_snoc [OF readable mint_admission_replay [OF adm]])
  from assms(4) have lock: "ft_lock F' = None" by (simp add: healthy_def)
  note again = mint_again_admitted [OF assms(1) adm ap rep lock]
  note data = mint_proposed_data [OF d]
  have "same_open_request e (SiOrder n) route t"
    by (simp add: same_open_request_def e_def data same_identity_def is_order_def)
  then have found: "find_entry (\<lambda>e. same_open_request e (SiOrder n) route t) (bt_insert (Suc (length (al_rows L))) e es) = Some e"
    using none by (rule find_entry_unique [rotated])
  have "mint_existing F' L' agent (SiOrder n) route rev_seq t None e = Inr (entry_proposal (al_network L) e)"
    using assms(4) data again(2)
    by (simp add: mint_existing_def e_def same_request_def normalized_same_request_refl unavailable_unless_def
        approval_publish_def faulty_def healthy_def is_order_def L')
  with again(1) found res k show ?thesis
    by (auto simp: mint_intent_def L' e_def l_def split: sum.splits)
qed

section \<open>A concrete journal\<close>

text \<open>A ledger with one grant and one policy, an order candidate for it, and a store without faults.\<close>

definition sample_env :: approval_env where
  "sample_env =
     \<lparr>ev_owner = 1, ev_policy = (\<lambda>_. Inr \<lparr>pv_revision = 4, pv_state = sample_policy\<rparr>),
      ev_route = (\<lambda>_ _. Inr sample_route), ev_registry = (\<lambda>_ _. Inr ()),
      ev_ownership = (\<lambda>_ _ _. Inl ''no submission''), ev_row_hash = (\<lambda>rows _. nat_digits (length rows)),
      ev_digest = (\<lambda>_. ''d''), ev_receipt_digest = (\<lambda>_ _. ''r''), ev_address_text = (\<lambda>_. ''a''),
      ev_intent_hash = (\<lambda>_. ''h''), ev_refusal_text = (\<lambda>_. ''refused'')\<rparr>"

definition sample_ledger :: approval_ledger where
  "sample_ledger =
     \<lparr>al_network = Testnet,
      al_rows = map (\<lambda>(h, b). \<lparr>lr_hash = h, lr_key = None, lr_body = b\<rparr>)
        [(''0'', RbOther), (''1'', RbGrant (Some (rt_binding sample_route))), (''2'', RbOther), (''3'', RbPolicy True)]\<rparr>"

definition sample_candidate :: order_candidate where
  "sample_candidate =
     \<lparr>oc_agent = ''alpha'', oc_intent = sample_intent\<lparr>oi_cloid := Some (Cloid ''c''), oi_original := None\<rparr>,
      oc_route = sample_route, oc_policy_revision = 4, oc_at_ms = 1500\<rparr>"

definition no_store_faults :: approval_faults where
  "no_store_faults = \<lparr>ft_lock = None, ft_note_before = None, ft_commit = None, ft_note_after = None\<rparr>"

abbreviation sample_minted :: approval_ledger where
  "sample_minted \<equiv> snd (journal_mint sample_env exact_declib no_store_faults sample_candidate sample_ledger)"

lemma sample_neighbours: "neighbours_ok sample_env"
  by (simp add: neighbours_ok_def sample_env_def)

lemma sample_replays: "approval_replay sample_env exact_declib sample_ledger = Inr []"
  by code_simp

lemma sample_mint_ok: "is_ok (fst (journal_mint sample_env exact_declib no_store_faults sample_candidate sample_ledger))"
  by code_simp

section \<open>Properties\<close>

text \<open>
  C9: the journal refines the life cycle of a proposal. Whatever calls with whatever faults of the
  store, and whatever rows of other journals, follow one another, a ledger that replays still replays
  (the journal always reads back what it wrote), and its proposals have only been minted under unused
  numbers, claimed while pending and unexpired (a cancellation only with its review), and disposed of.
\<close>

theorem approval_journal_refines_life_cycle:
  assumes "neighbours_ok E" "approval_replay E D L = Inr es" "approval_run E D L L'"
  shows "\<exists>es'. approval_replay E D L' = Inr es' \<and> approval_step\<^sup>*\<^sup>* (map_of es) (map_of es')"
  using run_refines [OF assms(3,1,2)] by blast

theorem approval_journal_refines_life_cycle_witness:
  "\<exists>es'. approval_replay sample_env exact_declib
            (journal_after sample_env exact_declib no_store_faults (CallClaim ''approval-testnet-5'' 1600) sample_minted) = Inr es'
         \<and> approval_step\<^sup>*\<^sup>* Map.empty (map_of es')"
proof -
  have "approval_run sample_env exact_declib sample_ledger
          (journal_after sample_env exact_declib no_store_faults (CallClaim ''approval-testnet-5'' 1600)
             (journal_after sample_env exact_declib no_store_faults (CallMint sample_candidate) sample_ledger))"
    by (intro approval_run.intros)
  from approval_journal_refines_life_cycle [OF sample_neighbours sample_replays this]
  show ?thesis by (simp add: journal_after_def)
qed

text \<open>
  C10: a proposal is claimed at most once. After a claim returned its permit, no later claim of the
  same proposal, direct or reviewed, returns a permit, whatever happened on the ledger in between.
\<close>

theorem proposal_claimed_at_most_once:
  assumes "neighbours_ok E" "claim_inner E D F i t reviewed L = (Inr (Some permit), L1)" "approval_run E D L1 L2"
  shows "fst (claim_inner E D F' i t' reviewed' L2) \<noteq> Inr (Some permit')"
proof -
  from assms(1,2) obtain es e where es: "approval_replay E D L1 = Inr es" and e: "has_id (al_network L1) i e"
    "map_of es (lk_seq (en_root e)) = Some e" "en_state e = ApClaimed"
    by (rule claim_spends)
  from run_refines [OF assms(3,1) es] obtain es' where es': "approval_replay E D L2 = Inr es'"
    and steps: "approval_step\<^sup>*\<^sup>* (map_of es) (map_of es')" and net: "al_network L2 = al_network L1" by blast
  from approval_steps_spent [OF steps e(2)] e(3) obtain e' where
    "map_of es' (lk_seq (en_root e)) = Some e'" "en_state e' \<noteq> ApPending" "en_root e' = en_root e" by auto
  with es' e(1) net show ?thesis
    by (intro spent_claim_refused [of E D L2 es' e']) (auto simp: has_id_def entry_proposal_def)
qed

theorem proposal_claimed_at_most_once_witness:
  "let c = journal_claim sample_env exact_declib no_store_faults ''approval-testnet-5'' 1600 sample_minted
   in (\<exists>permit. fst c = Inr (Some permit))
      \<and> (\<forall>permit. fst (journal_claim sample_env exact_declib no_store_faults ''approval-testnet-5'' 1700 (snd c))
             \<noteq> Inr (Some permit))"
proof -
  let ?claim = "claim_inner sample_env exact_declib no_store_faults ''approval-testnet-5'' 1600 None sample_minted"
  have "(case fst ?claim of Inr (Some _) \<Rightarrow> True | _ \<Rightarrow> False)" by code_simp
  then obtain permit where permit: "?claim = (Inr (Some permit), snd ?claim)"
    by (auto simp: prod_eq_iff split: sum.splits option.splits)
  from proposal_claimed_at_most_once [OF sample_neighbours permit approval_run.run_start] permit
  show ?thesis by (auto simp: journal_claim_def Let_def prod_eq_iff)
qed

text \<open>
  A claim has one outcome. Once a permit was finished, finishing it again is an error, with
  whatever outcome and receipt, whatever happened on the ledger in between.
\<close>

theorem claim_finished_at_most_once:
  assumes "neighbours_ok E" "journal_finish E D F permit outcome receipt t L = (Inr (), L1)" "approval_run E D L1 L2"
  shows "\<exists>err. fst (journal_finish E D F' permit outcome' receipt' t' L2) = Inl err"
proof -
  from assms(1,2) obtain es e where es: "approval_replay E D L1 = Inr es"
    and e: "map_of es (lk_seq (kp_root permit)) = Some e" "en_state e = ApDisposed"
    by (rule finish_settles)
  from run_refines [OF assms(3,1) es] obtain es' where es': "approval_replay E D L2 = Inr es'"
    and steps: "approval_step\<^sup>*\<^sup>* (map_of es) (map_of es')" by blast
  have "fst (journal_finish E D F' permit outcome' receipt' t' L2) \<noteq> Inr ()"
    using es' approval_steps_disposed [OF steps e] e(2) by (rule settled_finish_refused)
  then show ?thesis by (cases "fst (journal_finish E D F' permit outcome' receipt' t' L2)") auto
qed

definition sample_claimed :: "(approval_error + claim_permit option) \<times> approval_ledger" where
  "sample_claimed = journal_claim sample_env exact_declib no_store_faults ''approval-testnet-5'' 1600 sample_minted"

definition sample_permit :: claim_permit where
  "sample_permit =
     (case fst sample_claimed of Inr (Some permit) \<Rightarrow> permit
      | _ \<Rightarrow> \<lparr>kp_owner = 0, kp_proposal = entry_proposal Testnet undefined, kp_root = undefined, kp_claimed = undefined\<rparr>)"

text \<open>The refusal of the claimed order is recorded in row 7.\<close>

definition sample_refused :: approval_ledger where
  "sample_refused =
     ledger_snoc (snd sample_claimed)
       \<lparr>lr_hash = ''6'', lr_key = None,
        lr_body = RbRefusal (Some ''alpha'') (Some (''refused'', Some (RfUnevaluable UnPolicyChanged), [111, 107]))\<rparr>"

theorem claim_finished_at_most_once_witness:
  "let fin = journal_finish sample_env exact_declib no_store_faults sample_permit (Inl (RfUnevaluable UnPolicyChanged))
               (Some \<lparr>lk_seq = 7, lk_hash = ''6''\<rparr>)
   in fst (fin 1700 sample_refused) = Inr () \<and> (\<exists>err. fst (fin 1800 (snd (fin 1700 sample_refused))) = Inl err)"
proof -
  let ?fin = "journal_finish sample_env exact_declib no_store_faults sample_permit (Inl (RfUnevaluable UnPolicyChanged))
               (Some \<lparr>lk_seq = 7, lk_hash = ''6''\<rparr>)"
  have "fst (?fin 1700 sample_refused) = Inr ()" by code_simp
  then have fin: "?fin 1700 sample_refused = (Inr (), snd (?fin 1700 sample_refused))" by (simp add: prod_eq_iff)
  from claim_finished_at_most_once [OF sample_neighbours fin approval_run.run_start] fin
  show ?thesis by (auto simp: Let_def prod_eq_iff)
qed

text \<open>
  C11: listing terminates and is current. The loop that expires overdue proposals ends within one pass
  more than the ledger has proposals, whatever the faults; when it succeeds it lists exactly the
  pending proposals of the ledger it leaves, and none of them is overdue.
\<close>

theorem listing_terminates_and_is_current:
  assumes "neighbours_ok E" "approval_replay E D L = Inr es"
  shows "\<exists>res L' es'. journal_pending (Suc (length es)) E D F t L = Some (res, L') \<and> approval_replay E D L' = Inr es'
           \<and> (\<forall>ps. res = Inr ps \<longrightarrow>
                ps = map (entry_proposal (al_network L)) (filter (\<lambda>e. en_state e = ApPending) (map snd es'))
                \<and> list_all (\<lambda>(_, e). en_state e = ApPending \<longrightarrow> t < pp_expires_at_ms (en_data e)) es')"
proof -
  have "length (filter (overdue t) (map snd es)) < Suc (length es)"
    using length_filter_le [of "overdue t" "map snd es"] by (simp add: less_Suc_eq_le)
  from pending_terminates [OF assms this, of F]
  obtain res L' es' where "journal_pending (Suc (length es)) E D F t L = Some (res, L')" "approval_replay E D L' = Inr es'"
    and ps: "\<forall>ps. res = Inr ps \<longrightarrow> ps = map (entry_proposal (al_network L)) (filter (\<lambda>e. en_state e = ApPending) (map snd es'))
                \<and> \<not> list_ex (\<lambda>(_, e). overdue t e) es'"
    unfolding lists_pending_def by blast
  moreover have "\<not> list_ex (\<lambda>(_, e). overdue t e) es' \<Longrightarrow>
      list_all (\<lambda>(_, e). en_state e = ApPending \<longrightarrow> t < pp_expires_at_ms (en_data e)) es'"
    by (auto simp: list_ex_iff list_all_iff overdue_def not_less)
  ultimately show ?thesis by blast
qed

theorem listing_terminates_and_is_current_witness:
  "\<exists>res L'. journal_pending (Suc (Suc 0)) sample_env exact_declib no_store_faults 999999 sample_minted = Some (res, L')"
proof -
  have "(case approval_replay sample_env exact_declib sample_minted of Inr es \<Rightarrow> length es = 1 | _ \<Rightarrow> False)"
    by code_simp
  then obtain es where es: "approval_replay sample_env exact_declib sample_minted = Inr es" "length es = Suc 0"
    by (auto split: sum.splits)
  from listing_terminates_and_is_current [OF sample_neighbours es(1), of no_store_faults 999999] es(2)
  show ?thesis by (auto simp del: journal_pending.simps)
qed

text \<open>
  Minting an order is idempotent. When a mint returned a proposal, or left its row behind although
  it reported a fault, the same candidate minted again on a healthy store gives that proposal back and
  adds nothing.
\<close>

theorem mint_retry_gives_the_proposal_back:
  assumes "neighbours_ok E" "journal_mint E D F c L = (res, L')" "is_ok res \<or> L' \<noteq> L" "healthy F'"
  shows "\<exists>p. journal_mint E D F' c L' = (Inr p, L') \<and> (\<forall>q. res = Inr q \<longrightarrow> q = p)"
proof (cases "normalized_from_intent (oc_intent c)")
  case (Inl err)
  with assms(2,3) show ?thesis by (auto simp: journal_mint_def)
next
  case (Inr n)
  note mint = assms(2) [unfolded journal_mint_def Inr, simplified]
  show ?thesis
  proof (cases "L' = L")
    case True
    with assms(3) obtain p where "res = Inr p" by (auto simp: is_ok_iff)
    with True mint mint_retry_existing [OF _ assms(4)] show ?thesis by (simp add: journal_mint_def Inr)
  next
    case False
    from mint_retry_added [OF assms(1) mint False assms(4)] show ?thesis by (simp add: journal_mint_def Inr)
  qed
qed

theorem mint_retry_gives_the_proposal_back_witness:
  "let lost = no_store_faults\<lparr>ft_note_after := Some ''anchor''\<rparr>;
       L' = snd (journal_mint sample_env exact_declib lost sample_candidate sample_ledger)
   in \<not> is_ok (fst (journal_mint sample_env exact_declib lost sample_candidate sample_ledger))
      \<and> (\<exists>p. journal_mint sample_env exact_declib no_store_faults sample_candidate L' = (Inr p, L'))"
proof -
  let ?mint = "journal_mint sample_env exact_declib (no_store_faults\<lparr>ft_note_after := Some ''anchor''\<rparr>)
      sample_candidate sample_ledger"
  have err: "\<not> is_ok (fst ?mint)" by code_simp
  have "length (al_rows (snd ?mint)) = 5" "length (al_rows sample_ledger) = 4" by code_simp+
  then have added: "is_ok (fst ?mint) \<or> snd ?mint \<noteq> sample_ledger" by force
  have "healthy no_store_faults" by (simp add: healthy_def no_store_faults_def)
  from mint_retry_gives_the_proposal_back [OF sample_neighbours prod.collapse [symmetric] added this] err
  show ?thesis by (auto simp: Let_def)
qed

end
