(* ===== verification/Review.thy ===== *)
theory Review
  imports Signing Approval_Props
begin

text \<open>
  The operator's review of a proposal in \<open>guardrail/engine.rs\<close>, over the approval journal: preparing a
  review evaluates the proposal without consuming it and freezes what was evaluated; confirming it
  claims the proposal, evaluates again, and clears only what was reviewed. The journal is a part of
  the world the ports of the engine act on; an outer \<open>None\<close> is a panic of the evaluation.
\<close>

section \<open>Reviews\<close>

record order_approval_review_display =
  ord_proposal_id :: string
  ord_agent :: agent_id
  ord_account :: address
  ord_symbol :: string
  ord_original :: "original_request option"
  ord_original_px :: decimal
  ord_reference_px :: decimal
  ord_reference_at_ms :: nat
  ord_drift_bps :: "decimal option"
  ord_asset_index :: nat
  ord_is_buy :: bool
  ord_px :: decimal
  ord_sz :: decimal
  ord_notional_usd :: decimal
  ord_reduce_only :: bool
  ord_order_type :: order_type
  ord_cloid :: cloid
  ord_grouping :: grouping
  ord_builder :: "builder_info option"
  ord_route :: authorized_route
  ord_policy_revision :: nat
  ord_policy_hash :: string
  ord_reviewed_at_ms :: nat
  ord_expires_at_ms :: nat

record cancel_approval_review_display =
  crd_proposal_id :: string
  crd_agent :: agent_id
  crd_account :: address
  crd_targets :: "cancel_target list"
  crd_reason :: ustring
  crd_route :: authorized_route
  crd_policy_revision :: nat
  crd_policy_hash :: string
  crd_reviewed_at_ms :: nat
  crd_expires_at_ms :: nat

datatype approval_review_display =
    RdOrder order_approval_review_display
  | RdCancel cancel_approval_review_display

record approval_review =
  ar_evidence :: review_evidence
  ar_candidate :: proposal_intent
  ar_action :: action
  ar_commitment :: review_commitment
  ar_display :: approval_review_display

definition approval_error_text :: "approval_error \<Rightarrow> string" where
  "approval_error_text e =
     (case e of
        AeLedger d \<Rightarrow> d
      | AeUnavailable d \<Rightarrow> ''approval authority unavailable: '' @ d
      | AeConflict d \<Rightarrow> ''approval conflict: '' @ d)"

abbreviation approval_refused :: "approval_error + 'a \<Rightarrow> refusal + 'a" where
  "approval_refused \<equiv> map_err (\<lambda>e. approval_refusal (approval_error_text e))"

definition commitment_new ::
  "review_evidence \<Rightarrow> order_intent \<Rightarrow> action \<Rightarrow> clearance \<Rightarrow> nat \<Rightarrow> nat \<Rightarrow> approval_error + review_commitment" where
  "commitment_new evidence candidate act cl reviewed_at_ms reference_at_ms =
     (case cr_kind cl of
        CkOrder x \<Rightarrow>
          rbind (ensure (cr_policy_revision cl = ve_policy_revision evidence \<and> cr_route cl = pr_route (ve_proposal evidence))
            (AeConflict ''review authority changed during evaluation'')) (\<lambda>_.
          rbind (normalized_from_intent candidate) (\<lambda>n.
          Inr (RcOrder
            \<lparr>rv_proposal_root = ve_root evidence, rv_route = pr_route (ve_proposal evidence), rv_candidate = n,
             rv_action = act, rv_policy = \<lparr>lk_seq = ve_policy_revision evidence, lk_hash = ve_policy_hash evidence\<rparr>,
             rv_reviewed_at_ms = reviewed_at_ms, rv_reference_at_ms = reference_at_ms,
             rv_expires_at_ms = pr_expires_at_ms (ve_proposal evidence), rv_reference_px = co_reference_px x,
             rv_px = co_px x, rv_sz = co_sz x, rv_notional_usd = co_notional_usd x\<rparr>)))
      | _ \<Rightarrow> Inl (AeUnavailable ''approval review requires an order''))"

definition commitment_new_cancel ::
  "review_evidence \<Rightarrow> cancel_intent \<Rightarrow> action \<Rightarrow> clearance \<Rightarrow> nat \<Rightarrow> nat \<Rightarrow> approval_error + review_commitment" where
  "commitment_new_cancel evidence candidate act cl reviewed_at_ms observed_at_ms =
     (case cr_kind cl of
        CkDiscretionaryCancel targets _ (Some provenance) \<Rightarrow>
          rbind (ensure (targets = ci_targets candidate \<and> cr_policy_revision cl = ve_policy_revision evidence
                         \<and> cr_route cl = pr_route (ve_proposal evidence)
                         \<and> pr_cancel_provenance (ve_proposal evidence) = Some provenance)
            (AeConflict ''cancellation review authority or targets changed'')) (\<lambda>_.
          Inr (RcCancel
            \<lparr>cv_proposal_root = ve_root evidence, cv_route = cr_route cl, cv_candidate = candidate, cv_action = act,
             cv_policy = \<lparr>lk_seq = ve_policy_revision evidence, lk_hash = ve_policy_hash evidence\<rparr>,
             cv_reviewed_at_ms = reviewed_at_ms, cv_observed_at_ms = observed_at_ms,
             cv_expires_at_ms = pr_expires_at_ms (ve_proposal evidence), cv_provenance = Some provenance\<rparr>))
      | _ \<Rightarrow> Inl (AeUnavailable ''cancellation review requires authenticated ownership''))"

text \<open>How far the reference price has moved from the one the agent saw.\<close>

definition review_drift :: "declib \<Rightarrow> order_intent \<Rightarrow> decimal \<Rightarrow> refusal + decimal option" where
  "review_drift D intent reference_px =
     (case Option.bind (oi_original intent) og_reference_px of
        None \<Rightarrow> Inr None
      | Some original \<Rightarrow>
          rbind (checked (Option.bind (checked_sub D reference_px original) (\<lambda>delta.
                          Option.bind (checked_div D delta original) (\<lambda>ratio. checked_mul D ratio BPS)))
                   ''review drift'') (\<lambda>d. Inr (Some d)))"

text \<open>The review of an evaluated order: what the operator is shown and what is frozen with it.\<close>

definition order_review_of ::
  "declib \<Rightarrow> review_evidence \<Rightarrow> order_intent \<Rightarrow> order_intent \<Rightarrow> cleared \<Rightarrow> market_ref \<Rightarrow> nat \<Rightarrow> refusal + approval_review" where
  "order_review_of D evidence intent candidate evaluated market now_ms =
     (let p = ve_proposal evidence in
      rbind (approval_refused (commitment_new evidence candidate (cd_action evaluated) (cd_clearance evaluated) now_ms
               (mk_as_of_ms market))) (\<lambda>commitment.
      rbind (case cr_kind (cd_clearance evaluated) of
               CkOrder x \<Rightarrow> Inr x
             | _ \<Rightarrow> Inl (approval_refusal ''review evaluation did not produce an order'')) (\<lambda>x.
      rbind (case cd_action evaluated of
               ActOrder orders _ _ \<Rightarrow> (case orders of [w] \<Rightarrow> Inr w | _ \<Rightarrow> Inl (approval_refusal ''review requires one order''))
             | _ \<Rightarrow> Inl (approval_refusal ''review evaluation did not produce an order action'')) (\<lambda>wire.
      rbind (review_drift D intent (co_reference_px x)) (\<lambda>drift_bps.
      rbind (ok_or (approval_refusal ''review requires a cloid'') (oi_cloid candidate)) (\<lambda>cloid.
      Inr \<lparr>ar_evidence = evidence, ar_candidate = PiOrder candidate, ar_action = cd_action evaluated,
           ar_commitment = commitment,
           ar_display = RdOrder
             \<lparr>ord_proposal_id = pr_id p, ord_agent = pr_agent p, ord_account = rb_container (rt_binding (pr_route p)),
              ord_symbol = oi_symbol intent, ord_original = oi_original intent, ord_original_px = oi_px intent,
              ord_reference_px = co_reference_px x, ord_reference_at_ms = mk_as_of_ms market, ord_drift_bps = drift_bps,
              ord_asset_index = ow_a wire, ord_is_buy = ow_b wire, ord_px = co_px x, ord_sz = co_sz x,
              ord_notional_usd = co_notional_usd x, ord_reduce_only = ow_r wire, ord_order_type = ow_t wire,
              ord_cloid = cloid, ord_grouping = oi_grouping candidate, ord_builder = oi_builder candidate,
              ord_route = pr_route p, ord_policy_revision = ve_policy_revision evidence,
              ord_policy_hash = ve_policy_hash evidence, ord_reviewed_at_ms = now_ms,
              ord_expires_at_ms = pr_expires_at_ms p\<rparr>\<rparr>))))))"

section \<open>The journal in the engine's world\<close>

text \<open>
  The rows of the ledger are a part of the world: \<open>rp_rows\<close> reads them, \<open>rp_put\<close> writes them back, and
  \<open>rp_receipt\<close> is the row of the last audit entry. The ledger is of the engine's network.
\<close>

record 'w review_ports =
  rp_env :: approval_env
  rp_rows :: "'w \<Rightarrow> ledger_row list"
  rp_put :: "ledger_row list \<Rightarrow> 'w \<Rightarrow> 'w"
  rp_receipt :: "'w \<Rightarrow> link option"

definition journal_of :: "engine_config \<Rightarrow> 'w review_ports \<Rightarrow> 'w sys \<Rightarrow> approval_ledger" where
  "journal_of C R s = \<lparr>al_network = ec_network C, al_rows = rp_rows R (sy_world s)\<rparr>"

definition on_journal ::
  "engine_config \<Rightarrow> 'w review_ports \<Rightarrow> (approval_ledger \<Rightarrow> 'a \<times> approval_ledger) \<Rightarrow> 'w sys \<Rightarrow> 'a \<times> 'w sys" where
  "on_journal C R op s =
     (case op (journal_of C R s) of (res, L) \<Rightarrow> (res, s\<lparr>sy_world := rp_put R (al_rows L) (sy_world s)\<rparr>))"

definition pending_proposals_durable ::
  "nat \<Rightarrow> engine_config \<Rightarrow> declib \<Rightarrow> 'w review_ports \<Rightarrow> approval_faults \<Rightarrow> nat \<Rightarrow> 'w sys \<Rightarrow>
     ((guardrail_error + proposal list) \<times> 'w sys) option" where
  "pending_proposals_durable fuel C D R F now_ms s =
     (case journal_pending fuel (rp_env R) D F now_ms (journal_of C R s) of
        None \<Rightarrow> None
      | Some (res, L) \<Rightarrow>
          Some (map_err (\<lambda>e. GeApproval (approval_error_text e)) res,
                s\<lparr>sy_world := rp_put R (al_rows L) (sy_world s)\<rparr>))"

definition operator_reject_durable ::
  "engine_config \<Rightarrow> declib \<Rightarrow> 'w review_ports \<Rightarrow> approval_faults \<Rightarrow> string \<Rightarrow> nat \<Rightarrow> 'w sys \<Rightarrow> (guardrail_error + bool) \<times> 'w sys" where
  "operator_reject_durable C D R F approval_id now_ms s =
     (case on_journal C R (journal_reject (rp_env R) D F approval_id now_ms) s of
        (res, s1) \<Rightarrow> (map_err (\<lambda>e. GeApproval (approval_error_text e)) res, s1))"

text \<open>The receipt \<open>record\<close> returns: the row of the entry, or none when a refusal was not recorded.\<close>

definition outcome_receipt ::
  "'w ports \<Rightarrow> 'w review_ports \<Rightarrow> agent_id \<Rightarrow> nat \<Rightarrow> audit_reason \<Rightarrow> refusal + cleared \<Rightarrow> 'w sys \<Rightarrow> link option" where
  "outcome_receipt P R agent now_ms reason outcome s =
     (case po_record P
        \<lparr>ae_agent = Some agent, ae_at_ms = now_ms, ae_reason = reason,
         ae_outcome = (case outcome of Inr c \<Rightarrow> AoCleared (cd_clearance c) | Inl r \<Rightarrow> AoRefused r)\<rparr> (sy_world s) of
        (Inr _, w) \<Rightarrow> rp_receipt R w
      | (Inl _, _) \<Rightarrow> None)"

text \<open>A claimed proposal's outcome is recorded, then disposed of with the receipt of that record.\<close>

definition settle_claim ::
  "engine_config \<Rightarrow> declib \<Rightarrow> 'w ports \<Rightarrow> 'w review_ports \<Rightarrow> approval_faults \<Rightarrow> agent_id \<Rightarrow> nat \<Rightarrow> ustring \<Rightarrow> bool \<Rightarrow> claim_permit \<Rightarrow>
     refusal + cleared \<Rightarrow> 'w sys \<Rightarrow> (refusal + cleared) \<times> 'w sys" where
  "settle_claim C D P R F agent now_ms reason needs_receipt permit outcome s =
     (let receipt = outcome_receipt P R agent now_ms (AgentReason reason) outcome s in
      case record_outcome P agent now_ms (AgentReason reason) outcome s of
        (Inl r, s1) \<Rightarrow> (Inl r, s1)
      | (Inr _, s1) \<Rightarrow>
          if needs_receipt \<and> receipt = None
          then (Inl (approval_refusal ''approval evaluation audit receipt unavailable''), s1)
          else case on_journal C R (journal_finish (rp_env R) D F permit outcome receipt now_ms) s1 of
                 (Inl e, s2) \<Rightarrow> (Inl (approval_refusal (approval_error_text e)), s2)
               | (Inr _, s2) \<Rightarrow> (outcome, s2))"

section \<open>Orders\<close>

definition operator_prepare_proposal ::
  "declib \<Rightarrow> engine_config \<Rightarrow> 'w ports \<Rightarrow> 'w review_ports option \<Rightarrow> approval_faults \<Rightarrow> feed_inner \<Rightarrow> string \<Rightarrow> asset \<Rightarrow>
     market_ref \<Rightarrow> exposure \<Rightarrow> nat \<Rightarrow> 'w sys \<Rightarrow> ((refusal + approval_review) \<times> 'w sys) option" where
  "operator_prepare_proposal D C P journal F f i asset market ex now_ms s =
     (case rbind (ok_or (approval_refusal ''durable approval authority required for review'') journal) (\<lambda>R.
           rbind (approval_refused (journal_prepare (rp_env R) D F i now_ms (journal_of C R s))) (\<lambda>found.
           rbind (ok_or (RfUnevaluable (UnUnknownProposal i)) found) (\<lambda>evidence.
           rbind (case pr_intent (ve_proposal evidence) of
                    PiOrder intent \<Rightarrow> Inr intent
                  | PiCancel _ \<Rightarrow> Inl (approval_refusal ''order review requires an order proposal'')) (\<lambda>intent.
           Inr (evidence, intent))))) of
        Inl r \<Rightarrow> Some (Inl r, s)
      | Inr (evidence, intent) \<Rightarrow>
          Option.bind (review_candidate D intent asset market ex) (\<lambda>reviewed.
          case reviewed of
            Inl r \<Rightarrow> Some (Inl r, s)
          | Inr candidate \<Rightarrow>
              map_option (\<lambda>(outcome, s1).
                  (rbind outcome (\<lambda>evaluated. order_review_of D evidence intent candidate evaluated market now_ms), s1))
                (decide D C P f (pr_agent (ve_proposal evidence)) candidate asset market ex now_ms
                   (MApproved (pr_route (ve_proposal evidence))) s)))"

text \<open>What confirmation makes of the second evaluation: the reviewed action under the reviewed policy, or a refusal.\<close>

definition confirm_order ::
  "approval_env \<Rightarrow> approval_review \<Rightarrow> order_approval_review_display \<Rightarrow> refusal + cleared \<Rightarrow> refusal + cleared" where
  "confirm_order E v d outcome =
     rbind outcome (\<lambda>c.
     rbind (ensure (cd_action c = ar_action v \<and> cr_policy_revision (cd_clearance c) = ord_policy_revision d)
       (RfUnevaluable (UnApprovalReviewChanged ''rounded action or policy changed''))) (\<lambda>_.
     Inr (c\<lparr>cd_approval_deadline_ms := Some (ord_expires_at_ms d),
            cd_clearance := (cd_clearance c)\<lparr>cr_approval_review_digest := Some (ev_digest E (ar_commitment v))\<rparr>\<rparr>)))"

definition confirm_checks ::
  "order_approval_review_display \<Rightarrow> nat \<Rightarrow> refusal + unit" where
  "confirm_checks d now_ms =
     rbind (ensure (now_ms < ord_expires_at_ms d)
       (RfUnevaluable (UnApprovalExpired (ord_expires_at_ms d) now_ms))) (\<lambda>_.
     ensure (ord_reviewed_at_ms d \<le> now_ms)
       (RfUnevaluable (UnApprovalReviewChanged ''review clock moved backwards'')))"

definition operator_confirm_review ::
  "declib \<Rightarrow> engine_config \<Rightarrow> 'w ports \<Rightarrow> 'w review_ports option \<Rightarrow> approval_faults \<Rightarrow> approval_faults \<Rightarrow> feed_inner \<Rightarrow>
     approval_review \<Rightarrow> asset \<Rightarrow> market_ref \<Rightarrow> exposure \<Rightarrow> nat \<Rightarrow> 'w sys \<Rightarrow> ((refusal + cleared) \<times> 'w sys) option" where
  "operator_confirm_review D C P journal F G f v asset market ex now_ms s =
     (case (ar_candidate v, ar_display v) of
        (PiOrder candidate, RdOrder d) \<Rightarrow>
          (case rbind (ok_or (approval_refusal ''durable approval authority required for confirmation'') journal) (\<lambda>R.
                rbind (confirm_checks d now_ms) (\<lambda>_.
                rbind (case pr_intent (ve_proposal (ar_evidence v)) of
                         PiOrder intent \<Rightarrow> Inr intent
                       | PiCancel _ \<Rightarrow> Inl (approval_refusal ''order proposal required'')) (\<lambda>intent.
                Inr (R, intent)))) of
             Inl r \<Rightarrow> Some (Inl r, s)
           | Inr (R, intent) \<Rightarrow>
               Option.bind (review_candidate D intent asset market ex) (\<lambda>reviewed.
               case rbind reviewed (\<lambda>refreshed.
                    ensure (refreshed\<lparr>oi_original := oi_original candidate\<rparr> = candidate)
                      (RfUnevaluable (UnApprovalReviewChanged ''rounded candidate changed''))) of
                 Inl r \<Rightarrow> Some (Inl r, s)
               | Inr _ \<Rightarrow>
                   (case on_journal C R (journal_claim_review (rp_env R) D F (ar_evidence v) (ar_commitment v) now_ms) s of
                      (Inl e, s1) \<Rightarrow> Some (Inl (approval_refusal (approval_error_text e)), s1)
                    | (Inr None, s1) \<Rightarrow> Some (Inl (RfUnevaluable (UnUnknownProposal (ord_proposal_id d))), s1)
                    | (Inr (Some permit), s1) \<Rightarrow>
                        map_option (\<lambda>(outcome, s2).
                            settle_claim C D P R G (ord_agent d) now_ms (oi_reason candidate) False permit
                              (confirm_order (rp_env R) v d outcome) s2)
                          (decide D C P f (ord_agent d) candidate asset market ex now_ms
                             (MApproved (ord_route d)) s1))))
      | _ \<Rightarrow> Some (Inl (approval_refusal ''order confirmation requires an order review''), s))"

text \<open>Direct approval through the journal, without a review.\<close>

definition operator_approve_durable ::
  "declib \<Rightarrow> engine_config \<Rightarrow> 'w ports \<Rightarrow> 'w review_ports \<Rightarrow> approval_faults \<Rightarrow> approval_faults \<Rightarrow> feed_inner \<Rightarrow> string \<Rightarrow>
     asset \<Rightarrow> market_ref \<Rightarrow> exposure \<Rightarrow> nat \<Rightarrow> 'w sys \<Rightarrow> ((refusal + cleared) \<times> 'w sys) option" where
  "operator_approve_durable D C P R F G f approval_id asset market ex now_ms s =
     (case on_journal C R (journal_claim (rp_env R) D F approval_id now_ms) s of
        (Inl e, s1) \<Rightarrow> Some (Inl (approval_refusal (approval_error_text e)), s1)
      | (Inr None, s1) \<Rightarrow> Some (Inl (RfUnevaluable (UnUnknownProposal approval_id)), s1)
      | (Inr (Some permit), s1) \<Rightarrow>
          let p = kp_proposal permit in
          (case pr_intent p of
             PiCancel _ \<Rightarrow> Some (Inl (approval_refusal ''direct approval requires an order proposal''), s1)
           | PiOrder intent \<Rightarrow>
               map_option (\<lambda>(outcome, s2).
                   settle_claim C D P R G (pr_agent p) now_ms (oi_reason intent) True permit
                     (rbind outcome (\<lambda>c. Inr (c\<lparr>cd_approval_deadline_ms := Some (pr_expires_at_ms p)\<rparr>))) s2)
                 (decide D C P f (pr_agent p) intent asset market ex now_ms (MApproved (pr_route p)) s1)))"

section \<open>Cancellations\<close>

definition owned_by :: "cleared_kind \<Rightarrow> cancel_provenance option \<Rightarrow> bool" where
  "owned_by kind expected =
     (case kind of CkDiscretionaryCancel _ _ (Some current) \<Rightarrow> expected = Some current | _ \<Rightarrow> False)"

definition operator_prepare_cancel_proposal ::
  "declib \<Rightarrow> engine_config \<Rightarrow> 'w ports \<Rightarrow> 'w cancel_ports \<Rightarrow> 'w review_ports option \<Rightarrow> approval_faults \<Rightarrow> string \<Rightarrow>
     cancel_context \<Rightarrow> nat \<Rightarrow> 'w sys \<Rightarrow> (refusal + approval_review) \<times> 'w sys" where
  "operator_prepare_cancel_proposal D C P Q journal F i cx now_ms s =
     (case rbind (ok_or (approval_refusal ''durable approval authority required'') journal) (\<lambda>R.
           rbind (approval_refused (journal_prepare (rp_env R) D F i now_ms (journal_of C R s))) (\<lambda>found.
           rbind (ok_or (RfUnevaluable (UnUnknownProposal i)) found) (\<lambda>evidence.
           rbind (case pr_intent (ve_proposal evidence) of
                    PiCancel intent \<Rightarrow> Inr intent
                  | PiOrder _ \<Rightarrow> Inl (approval_refusal ''cancellation proposal required'')) (\<lambda>candidate.
           Inr (evidence, candidate))))) of
        Inl r \<Rightarrow> (Inl r, s)
      | Inr (evidence, candidate) \<Rightarrow>
          let p = ve_proposal evidence in
          (case decide_discretionary_cancel C P Q (pr_agent p) candidate cx now_ms (Some (pr_route p)) True s of
             (outcome, s1) \<Rightarrow>
               (rbind outcome (\<lambda>c.
                rbind (ensure (owned_by (cr_kind (cd_clearance c)) (pr_cancel_provenance p))
                  (submission_refusal ''cancellation proposal lacks matching authenticated ownership'')) (\<lambda>_.
                rbind (approval_refused (commitment_new_cancel evidence candidate (cd_action c) (cd_clearance c) now_ms
                         (cx_observed_at_ms cx))) (\<lambda>commitment.
                Inr \<lparr>ar_evidence = evidence, ar_candidate = PiCancel candidate, ar_action = cd_action c,
                     ar_commitment = commitment,
                     ar_display = RdCancel
                       \<lparr>crd_proposal_id = pr_id p, crd_agent = pr_agent p,
                        crd_account = rb_container (rt_binding (pr_route p)), crd_targets = ci_targets candidate,
                        crd_reason = ci_reason candidate, crd_route = pr_route p,
                        crd_policy_revision = ve_policy_revision evidence, crd_policy_hash = ve_policy_hash evidence,
                        crd_reviewed_at_ms = now_ms, crd_expires_at_ms = pr_expires_at_ms p\<rparr>\<rparr>))), s1)))"

definition confirm_cancel ::
  "approval_env \<Rightarrow> approval_review \<Rightarrow> cancel_approval_review_display \<Rightarrow> refusal + cleared \<Rightarrow> refusal + cleared" where
  "confirm_cancel E v d outcome =
     rbind outcome (\<lambda>c.
     rbind (ensure (cd_action c = ar_action v \<and> cr_policy_revision (cd_clearance c) = crd_policy_revision d
                    \<and> owned_by (cr_kind (cd_clearance c)) (pr_cancel_provenance (ve_proposal (ar_evidence v))))
       (RfUnevaluable (UnApprovalReviewChanged ''cancellation action or policy changed''))) (\<lambda>_.
     Inr (c\<lparr>cd_approval_deadline_ms := Some (crd_expires_at_ms d),
            cd_clearance := (cd_clearance c)\<lparr>cr_approval_review_digest := Some (ev_digest E (ar_commitment v))\<rparr>\<rparr>)))"

definition operator_confirm_cancel_review ::
  "declib \<Rightarrow> engine_config \<Rightarrow> 'w ports \<Rightarrow> 'w cancel_ports \<Rightarrow> 'w review_ports option \<Rightarrow> approval_faults \<Rightarrow> approval_faults \<Rightarrow>
     approval_review \<Rightarrow> cancel_context \<Rightarrow> nat \<Rightarrow> 'w sys \<Rightarrow> (refusal + cleared) \<times> 'w sys" where
  "operator_confirm_cancel_review D C P Q journal F G v cx now_ms s =
     (case (ar_candidate v, ar_display v) of
        (PiCancel candidate, RdCancel d) \<Rightarrow>
          (case rbind (ensure (now_ms < crd_expires_at_ms d)
                  (RfUnevaluable (UnApprovalExpired (crd_expires_at_ms d) now_ms))) (\<lambda>_.
                rbind (ensure (crd_reviewed_at_ms d \<le> now_ms)
                  (RfUnevaluable (UnClockWentBackwards now_ms (crd_reviewed_at_ms d)))) (\<lambda>_.
                ok_or (approval_refusal ''durable approval authority required'') journal)) of
             Inl r \<Rightarrow> (Inl r, s)
           | Inr R \<Rightarrow>
               (case on_journal C R (journal_claim_review (rp_env R) D F (ar_evidence v) (ar_commitment v) now_ms) s of
                  (Inl e, s1) \<Rightarrow> (Inl (approval_refusal (approval_error_text e)), s1)
                | (Inr None, s1) \<Rightarrow> (Inl (RfUnevaluable (UnUnknownProposal (crd_proposal_id d))), s1)
                | (Inr (Some permit), s1) \<Rightarrow>
                    (case decide_discretionary_cancel C P Q (crd_agent d) candidate cx now_ms (Some (crd_route d)) False s1 of
                       (outcome, s2) \<Rightarrow>
                         settle_claim C D P R G (crd_agent d) now_ms (ci_reason candidate) False permit
                           (confirm_cancel (rp_env R) v d outcome) s2)))
      | _ \<Rightarrow> (Inl (approval_refusal ''cancellation confirmation requires a cancellation review''), s))"

end
