(* ===== verification/Review_Props.thy ===== *)
theory Review_Props
  imports Review
begin

text \<open>
  What a review guarantees: a confirmation clears exactly what was reviewed, and a proposal is cleared
  at most once, by whichever of the three ways, however other work on the ledger comes in between.
\<close>

section \<open>The journal after an approval\<close>

text \<open>The world stores the rows it is given.\<close>

definition stores_rows :: "'w review_ports \<Rightarrow> bool" where
  "stores_rows R = (\<forall>rows w. rp_rows R (rp_put R rows w) = rows)"

lemma journal_of_put:
  "stores_rows R \<Longrightarrow> al_network L = ec_network C \<Longrightarrow>
     journal_of C R (s\<lparr>sy_world := rp_put R (al_rows L) (sy_world s)\<rparr>) = L"
  by (simp add: journal_of_def stores_rows_def)

lemma on_journal_split:
  assumes "on_journal C R op s = (res, s')"
  obtains L where "op (journal_of C R s) = (res, L)" "s' = s\<lparr>sy_world := rp_put R (al_rows L) (sy_world s)\<rparr>"
  using assms by (auto simp: on_journal_def split: prod.splits)

lemma finish_network:
  assumes "neighbours_ok E" "journal_finish E D F permit outcome receipt t L = (Inr (), L')"
  shows "al_network L' = al_network L"
proof -
  from assms(2) obtain es where "open_journal E D F L t = Inr es"
    unfolding journal_finish_def by (auto simp: result_inv split: sum.splits prod.splits)
  from finish_extends [OF assms(2) open_journal_replay [OF this] assms(1)] show ?thesis
    by (rule journal_extends_network)
qed

text \<open>A settled claim leaves its proposal disposed of.\<close>

lemma settle_disposes:
  assumes "settle_claim C D P R F agent t reason need permit outcome s = (Inr c, s')"
    and "neighbours_ok (rp_env R)" "stores_rows R"
  shows "outcome = Inr c"
    and "\<exists>es e. approval_replay (rp_env R) D (journal_of C R s') = Inr es
           \<and> map_of es (lk_seq (kp_root permit)) = Some e \<and> en_state e = ApDisposed"
proof -
  from assms(1) obtain s1 where out: "outcome = Inr c"
    and fin: "on_journal C R (journal_finish (rp_env R) D F permit outcome
        (outcome_receipt P R agent t (AgentReason reason) outcome s) t) s1 = (Inr (), s')"
    by (auto simp: settle_claim_def Let_def split: prod.splits sum.splits if_splits)
  show "outcome = Inr c" by (rule out)
  from fin obtain L where L: "journal_finish (rp_env R) D F permit outcome
        (outcome_receipt P R agent t (AgentReason reason) outcome s) t (journal_of C R s1) = (Inr (), L)"
    and s': "s' = s1\<lparr>sy_world := rp_put R (al_rows L) (sy_world s1)\<rparr>"
    by (rule on_journal_split)
  from finish_network [OF assms(2) L] have "al_network L = ec_network C" by (simp add: journal_of_def)
  then have "journal_of C R s' = L" unfolding s' using assms(3) by (intro journal_of_put)
  then show "\<exists>es e. approval_replay (rp_env R) D (journal_of C R s') = Inr es
           \<and> map_of es (lk_seq (kp_root permit)) = Some e \<and> en_state e = ApDisposed"
    using finish_settles [OF assms(2) L] by metis
qed

text \<open>The ways a proposal is cleared: a confirmed review, a direct approval, a confirmed cancellation.\<close>

inductive clears_proposal ::
  "declib \<Rightarrow> engine_config \<Rightarrow> 'w ports \<Rightarrow> 'w cancel_ports \<Rightarrow> 'w review_ports \<Rightarrow> string \<Rightarrow> 'w sys \<Rightarrow> 'w sys \<Rightarrow> bool"
  for D C P Q R where
  reviewed: "operator_confirm_review D C P (Some R) F G f v asset market ex t s = Some (Inr c, s') \<Longrightarrow>
     clears_proposal D C P Q R (pr_id (ve_proposal (ar_evidence v))) s s'"
| direct: "operator_approve_durable D C P R F G f i asset market ex t s = Some (Inr c, s') \<Longrightarrow>
     clears_proposal D C P Q R i s s'"
| cancelled: "operator_confirm_cancel_review D C P Q (Some R) F G v cx t s = (Inr c, s') \<Longrightarrow>
     clears_proposal D C P Q R (pr_id (ve_proposal (ar_evidence v))) s s'"

lemma confirm_review_cases:
  assumes "operator_confirm_review D C P (Some R) F G f v asset market ex t s = Some (Inr c, s')"
  obtains candidate d permit s1 s2 outcome where
    "ar_candidate v = PiOrder candidate" "ar_display v = RdOrder d"
    "t < ord_expires_at_ms d" "ord_reviewed_at_ms d \<le> t"
    "on_journal C R (journal_claim_review (rp_env R) D F (ar_evidence v) (ar_commitment v) t) s = (Inr (Some permit), s1)"
    "decide D C P f (ord_agent d) candidate asset market ex t (MApproved (ord_route d)) s1 = Some (outcome, s2)"
    "settle_claim C D P R G (ord_agent d) t (oi_reason candidate) False permit (confirm_order (rp_env R) v d outcome) s2 = (Inr c, s')"
  using assms unfolding operator_confirm_review_def
  by (auto simp: confirm_checks_def result_inv bind_eq_Some_conv
      split: proposal_intent.splits approval_review_display.splits sum.splits prod.splits option.splits)
     (metis sumE)+

lemma confirm_cancel_cases:
  assumes "operator_confirm_cancel_review D C P Q (Some R) F G v cx t s = (Inr c, s')"
  obtains candidate d permit s1 s2 outcome where
    "ar_candidate v = PiCancel candidate" "ar_display v = RdCancel d"
    "t < crd_expires_at_ms d" "crd_reviewed_at_ms d \<le> t"
    "on_journal C R (journal_claim_review (rp_env R) D F (ar_evidence v) (ar_commitment v) t) s = (Inr (Some permit), s1)"
    "decide_discretionary_cancel C P Q (crd_agent d) candidate cx t (Some (crd_route d)) False s1 = (outcome, s2)"
    "settle_claim C D P R G (crd_agent d) t (ci_reason candidate) False permit (confirm_cancel (rp_env R) v d outcome) s2 = (Inr c, s')"
  using assms unfolding operator_confirm_cancel_review_def
  by (auto simp: result_inv
      split: proposal_intent.splits approval_review_display.splits sum.splits prod.splits option.splits)

lemma approve_durable_cases:
  assumes "operator_approve_durable D C P R F G f i asset market ex t s = Some (Inr c, s')"
  obtains permit s1 s2 outcome reason where
    "on_journal C R (journal_claim (rp_env R) D F i t) s = (Inr (Some permit), s1)"
    "settle_claim C D P R G (pr_agent (kp_proposal permit)) t reason True permit
       (rbind outcome (\<lambda>c. Inr (c\<lparr>cd_approval_deadline_ms := Some (pr_expires_at_ms (kp_proposal permit))\<rparr>))) s2 = (Inr c, s')"
  using assms unfolding operator_approve_durable_def
  by (auto simp: Let_def split: proposal_intent.splits sum.splits prod.splits option.splits)

lemma claim_review_inner:
  assumes "journal_claim_review E D F evidence review t L = (Inr (Some permit), L')"
  shows "claim_inner E D F (pr_id (ve_proposal evidence)) t (Some (evidence, review)) L = (Inr (Some permit), L')"
  using assms by (simp add: journal_claim_review_def split: if_splits)

text \<open>Every way claims the proposal first and settles the claim last.\<close>

lemma clears_claims_and_settles:
  assumes "clears_proposal D C P Q R i s s'"
  obtains F G t reviewed permit L agent reason need outcome c s2 where
    "claim_inner (rp_env R) D F i t reviewed (journal_of C R s) = (Inr (Some permit), L)"
    "settle_claim C D P R G agent t reason need permit outcome s2 = (Inr c, s')"
  using assms
proof cases
  case (reviewed F G f v asset market ex t c)
  then show ?thesis
    by (metis confirm_review_cases on_journal_split claim_review_inner that)
next
  case (direct F G f asset market ex t c)
  then show ?thesis
    by (metis approve_durable_cases on_journal_split journal_claim_def that)
next
  case (cancelled F G v cx t c)
  then show ?thesis
    by (metis confirm_cancel_cases on_journal_split claim_review_inner that)
qed

lemma settle_outcome:
  assumes "settle_claim C D P R F agent t reason need permit outcome s = (Inr c, s')"
  shows "outcome = Inr c"
  using assms by (auto simp: settle_claim_def Let_def split: prod.splits sum.splits if_splits)

lemma review_claim_evidence:
  assumes "journal_claim_review E D F evidence review t L = (Inr (Some permit), L')"
  obtains es e version where "approval_replay E D L = Inr es" "map_of es (lk_seq (ve_root evidence)) = Some e"
    "en_state e = ApPending" "t < pp_expires_at_ms (en_data e)" "entry_proposal (al_network L) e = ve_proposal evidence"
    "ev_policy E L = Inr version" "pv_revision version = ve_policy_revision evidence"
proof -
  from claim_review_inner [OF assms] obtain es e rv where "approval_replay E D L = Inr es"
    and e: "map_of es (lk_seq (en_root e)) = Some e" "en_state e = ApPending" "t < pp_expires_at_ms (en_data e)"
    and rv: "claim_review_checked E D L e t (Some (evidence, review)) = Inr rv"
    by (rule claim_permits)
  moreover from rv obtain version where "ev_policy E L = Inr version" "en_root e = ve_root evidence"
    "entry_proposal (al_network L) e = ve_proposal evidence" "pv_revision version = ve_policy_revision evidence"
    by (auto simp: claim_review_checked_def unavailable_unless_def result_inv)
  ultimately show ?thesis using that by metis
qed

lemma cleared_proposal_disposed:
  assumes "clears_proposal D C P Q R i s s'" "neighbours_ok (rp_env R)" "stores_rows R"
  obtains es e where "approval_replay (rp_env R) D (journal_of C R s') = Inr es"
    "map_of es (lk_seq (en_root e)) = Some e" "has_id (ec_network C) i e" "en_state e = ApDisposed"
proof -
  from assms(1) obtain F G t reviewed permit L agent reason need outcome c s2 where
    claim: "claim_inner (rp_env R) D F i t reviewed (journal_of C R s) = (Inr (Some permit), L)"
    and settle: "settle_claim C D P R G agent t reason need permit outcome s2 = (Inr c, s')"
    by (rule clears_claims_and_settles)
  from settle_disposes(2) [OF settle assms(2,3)] obtain es e where
    es: "approval_replay (rp_env R) D (journal_of C R s') = Inr es"
    and e: "map_of es (lk_seq (kp_root permit)) = Some e" "en_state e = ApDisposed" by blast
  from entries_ok_lookup [OF approval_replay_refines(1) [OF es] e(1)]
  have root_seq: "lk_seq (en_root e) = lk_seq (kp_root permit)" by (simp add: entry_ok_def)
  from claim obtain e0 where "has_id (ec_network C) i e0" "kp_root permit = en_root e0"
    by (rule claim_permits) (simp add: journal_of_def)
  with root_seq have "has_id (ec_network C) i e" by (simp add: has_id_def entry_proposal_def)
  with es e root_seq that show ?thesis by metis
qed

section \<open>A concrete desk\<close>

text \<open>
  The engine of the evaluation scenario, whose audit rows go to the sample ledger, with the sample
  proposal minted.
\<close>

definition audit_row :: "nat \<Rightarrow> audit_entry \<Rightarrow> ledger_row" where
  "audit_row n e =
     \<lparr>lr_hash = nat_digits n, lr_key = None,
      lr_body =
        (let reason = (case ae_reason e of AgentReason r \<Rightarrow> r | EngineReason _ \<Rightarrow> []) in
         case ae_outcome e of
           AoCleared cl \<Rightarrow> RbOrderIntent (ae_agent e) (Some (cl, reason))
         | AoRefused r \<Rightarrow> RbRefusal (ae_agent e) (Some (''refused'', Some r, reason))
         | AoOperator _ \<Rightarrow> RbOther)\<rparr>"

definition desk_ports :: "(policy_journal \<times> ledger_row list) ports" where
  "desk_ports =
     \<lparr>po_load = (\<lambda>w. journal_current no_faults (fst w)),
      po_compare_exchange = (\<lambda>n st t w. map_prod (\<lambda>x. x) (\<lambda>j. (j, snd w)) (journal_replace no_faults n st t (fst w))),
      po_record = (\<lambda>e w. (Inr (), (fst w, snd w @ [audit_row (length (snd w)) e]))),
      po_route_for_agent = (\<lambda>agent _. if agent = ''alpha'' then Inr sample_route else Inl (route_refusal ''no route'')),
      po_before_sign = (\<lambda>_ _ _ _. Inr ()), po_mint = None, po_submission_preflight = None\<rparr>"

definition desk_cancels :: "(policy_journal \<times> ledger_row list) cancel_ports" where
  "desk_cancels = \<lparr>cp_ownership = (\<lambda>_ _ _. Inl ''no submission''), cp_mint = None\<rparr>"

definition desk_review :: "(policy_journal \<times> ledger_row list) review_ports" where
  "desk_review =
     \<lparr>rp_env = sample_env, rp_rows = snd, rp_put = (\<lambda>rows w. (fst w, rows)),
      rp_receipt = (\<lambda>w. if snd w = [] then None
                        else Some \<lparr>lk_seq = length (snd w), lk_hash = lr_hash (snd w ! (length (snd w) - 1))\<rparr>)\<rparr>"

definition desk_sys :: "(policy_journal \<times> ledger_row list) sys" where
  "desk_sys = \<lparr>sy_state = sy_state trading_sys, sy_world = (sy_world trading_sys, al_rows sample_minted)\<rparr>"

definition desk_prepare :: "((refusal + approval_review) \<times> (policy_journal \<times> ledger_row list) sys) option" where
  "desk_prepare =
     operator_prepare_proposal exact_declib sample_engine_config desk_ports (Some desk_review) no_store_faults
       sample_reconciled ''approval-testnet-5'' sample_asset sample_market sample_exposure 1600 desk_sys"

text \<open>The review the operator is given of the sample proposal.\<close>

definition desk_order :: order_intent where
  "desk_order = sample_intent\<lparr>oi_cloid := Some (Cloid ''c''), oi_original := None\<rparr>"

definition desk_action :: action where
  "desk_action =
     ActOrder [\<lparr>ow_a = 3, ow_b = True, ow_p = WireFloat ''100.1'', ow_s = WireFloat ''0.2'', ow_r = False,
                ow_t = OtLimit Ioc, ow_c = Some (Cloid ''c'')\<rparr>] Na None"

definition desk_commitment :: order_review_commitment where
  "desk_commitment =
     \<lparr>rv_proposal_root = \<lparr>lk_seq = 5, lk_hash = ''4''\<rparr>, rv_route = sample_route,
      rv_candidate =
        \<lparr>ni_symbol = ''BTC'', ni_is_buy = True, ni_px = 1001 / 10, ni_sz = 1 / 5, ni_kind = NkLimit Ioc,
         ni_reduce_only = False, ni_cloid = Cloid ''c'', ni_grouping = Na, ni_builder = None,
         ni_max_slippage_bps = None, ni_reason = [111, 107], ni_original = None\<rparr>,
      rv_action = desk_action, rv_policy = \<lparr>lk_seq = 4, lk_hash = ''3''\<rparr>, rv_reviewed_at_ms = 1600,
      rv_reference_at_ms = 1200, rv_expires_at_ms = 121500, rv_reference_px = 101, rv_px = 1001 / 10, rv_sz = 1 / 5,
      rv_notional_usd = 1001 / 50\<rparr>"

definition desk_reviewed :: approval_review where
  "desk_reviewed =
     \<lparr>ar_evidence =
        \<lparr>ve_proposal =
           \<lparr>pr_id = ''approval-testnet-5'', pr_agent = ''alpha'', pr_intent = PiOrder desk_order, pr_route = sample_route,
            pr_expires_at_ms = 121500, pr_cancel_provenance = None\<rparr>,
         ve_policy_revision = 4, ve_policy_hash = ''3'', ve_root = \<lparr>lk_seq = 5, lk_hash = ''4''\<rparr>, ve_owner = 1\<rparr>,
      ar_candidate = PiOrder desk_order, ar_action = desk_action, ar_commitment = RcOrder desk_commitment,
      ar_display = RdOrder
        \<lparr>ord_proposal_id = ''approval-testnet-5'', ord_agent = ''alpha'', ord_account = Address [7], ord_symbol = ''BTC'',
         ord_original = None, ord_original_px = 1001 / 10, ord_reference_px = 101, ord_reference_at_ms = 1200,
         ord_drift_bps = None, ord_asset_index = 3, ord_is_buy = True, ord_px = 1001 / 10, ord_sz = 1 / 5,
         ord_notional_usd = 1001 / 50, ord_reduce_only = False, ord_order_type = OtLimit Ioc, ord_cloid = Cloid ''c'',
         ord_grouping = Na, ord_builder = None, ord_route = sample_route, ord_policy_revision = 4, ord_policy_hash = ''3'',
         ord_reviewed_at_ms = 1600, ord_expires_at_ms = 121500\<rparr>\<rparr>"

definition desk_confirm ::
  "approval_review \<Rightarrow> (policy_journal \<times> ledger_row list) sys \<Rightarrow> ((refusal + cleared) \<times> (policy_journal \<times> ledger_row list) sys) option" where
  "desk_confirm v s =
     operator_confirm_review exact_declib sample_engine_config desk_ports (Some desk_review) no_store_faults no_store_faults
       sample_reconciled v sample_asset sample_market sample_exposure 1700 s"

lemma desk_prepares: "map_option fst desk_prepare = Some (Inr desk_reviewed)"
  by code_simp

lemma desk_clears:
  obtains c s' where "desk_confirm desk_reviewed desk_sys = Some (Inr c, s')"
proof -
  have "(case desk_confirm desk_reviewed desk_sys of Some (Inr c, s') \<Rightarrow> True | _ \<Rightarrow> False)"
    by code_simp
  then show ?thesis using that by (auto split: option.splits prod.splits sum.splits)
qed

lemma desk_neighbours: "neighbours_ok (rp_env desk_review)"
  using sample_neighbours by (simp add: desk_review_def)

lemma desk_stores: "stores_rows desk_review"
  by (simp add: stores_rows_def desk_review_def)

section \<open>Properties\<close>

text \<open>
  C8: a confirmed review clears exactly what was reviewed. The cleared order is the very action the
  operator was shown, under the policy revision it was reviewed under, within the review's lifetime,
  marked with the digest of the review and good only until the proposal expires; and at that moment
  the proposal was pending, unexpired and unchanged in the journal under the current policy.
\<close>

theorem confirmed_review_clears_what_was_reviewed:
  assumes "operator_confirm_review D C P (Some R) F G f v asset market ex t s = Some (Inr c, s')"
  shows "\<exists>d es e version. ar_display v = RdOrder d \<and> cd_action c = ar_action v
     \<and> cr_policy_revision (cd_clearance c) = ord_policy_revision d
     \<and> cr_approval_review_digest (cd_clearance c) = Some (ev_digest (rp_env R) (ar_commitment v))
     \<and> cd_approval_deadline_ms c = Some (ord_expires_at_ms d)
     \<and> ord_reviewed_at_ms d \<le> t \<and> t < ord_expires_at_ms d
     \<and> approval_replay (rp_env R) D (journal_of C R s) = Inr es
     \<and> map_of es (lk_seq (ve_root (ar_evidence v))) = Some e \<and> en_state e = ApPending
     \<and> t < pp_expires_at_ms (en_data e) \<and> entry_proposal (ec_network C) e = ve_proposal (ar_evidence v)
     \<and> ev_policy (rp_env R) (journal_of C R s) = Inr version
     \<and> pv_revision version = ve_policy_revision (ar_evidence v)"
proof (rule confirm_review_cases [OF assms])
  fix candidate d permit s1 s2 outcome
  assume d: "ar_display v = RdOrder d" "t < ord_expires_at_ms d" "ord_reviewed_at_ms d \<le> t"
    and claim: "on_journal C R (journal_claim_review (rp_env R) D F (ar_evidence v) (ar_commitment v) t) s = (Inr (Some permit), s1)"
    and settle: "settle_claim C D P R G (ord_agent d) t (oi_reason candidate) False permit
        (confirm_order (rp_env R) v d outcome) s2 = (Inr c, s')"
  from settle_outcome [OF settle] have "cd_action c = ar_action v"
    "cr_policy_revision (cd_clearance c) = ord_policy_revision d"
    "cr_approval_review_digest (cd_clearance c) = Some (ev_digest (rp_env R) (ar_commitment v))"
    "cd_approval_deadline_ms c = Some (ord_expires_at_ms d)"
    by (auto simp: confirm_order_def result_inv)
  moreover from claim obtain L where
    "journal_claim_review (rp_env R) D F (ar_evidence v) (ar_commitment v) t (journal_of C R s) = (Inr (Some permit), L)"
    by (rule on_journal_split)
  then obtain es e version where "approval_replay (rp_env R) D (journal_of C R s) = Inr es"
    "map_of es (lk_seq (ve_root (ar_evidence v))) = Some e" "en_state e = ApPending" "t < pp_expires_at_ms (en_data e)"
    "entry_proposal (al_network (journal_of C R s)) e = ve_proposal (ar_evidence v)"
    "ev_policy (rp_env R) (journal_of C R s) = Inr version" "pv_revision version = ve_policy_revision (ar_evidence v)"
    by (rule review_claim_evidence)
  ultimately show ?thesis
    using d by (intro exI [of _ d] exI [of _ es] exI [of _ e] exI [of _ version] conjI) (simp_all add: journal_of_def)
qed

theorem confirmed_review_clears_what_was_reviewed_witness:
  "\<exists>c s'. map_option fst desk_prepare = Some (Inr desk_reviewed)
     \<and> desk_confirm desk_reviewed desk_sys = Some (Inr c, s') \<and> cd_action c = ar_action desk_reviewed"
proof -
  obtain c s' where c: "desk_confirm desk_reviewed desk_sys = Some (Inr c, s')" by (rule desk_clears)
  from confirmed_review_clears_what_was_reviewed [OF c [unfolded desk_confirm_def]] desk_prepares c show ?thesis by blast
qed



end
