(* ===== verification/Submission.thy ===== *)
theory Submission
  imports Journal
begin

text \<open>
  \<open>ledger/submission.rs\<close>: the durable reservation of an account for one submission. A reservation
  begins with a row that links the recorded intent of a cleared order, and only a recorded outcome
  resolves it; a client order id is used once per account. The chain walk, the evidence of the
  registry, the pilot's admission, hashing and the faults of the store are parameters.
\<close>

section \<open>Receipts and the replayed state\<close>

datatype submission_error =
    SxPilot string
  | SxLedger string
  | SxBusy string
  | SxDuplicateCloid
  | SxStaleRevision
  | SxMissingIntent
  | SxWrongNetwork
  | SxInvalidRecord string

record submission_receipt =
  sc_chain :: string
  sc_seq :: nat
  sc_hash :: string
  sc_agent :: agent_id
  sc_start :: started

record submission_state =
  ss_revision :: nat
  ss_pending :: "submission_receipt option"

definition submission_state_default :: submission_state where
  "submission_state_default = \<lparr>ss_revision = 0, ss_pending = None\<rparr>"

record pilot_submission =
  pb_seq :: nat
  pb_account :: address
  pb_agent :: agent_id
  pb_cloid :: cloid
  pb_intent :: "clearance \<times> ustring"
  pb_resolution :: "submission_resolution option"

record submission_replay =
  sr_accounts :: "address \<rightharpoonup> submission_state"
  sr_starts :: "nat \<rightharpoonup> submission_receipt"
  sr_resolved :: "nat list"
  sr_used :: "(address \<times> cloid) list"
  sr_pilot :: "(nat, pilot_submission) btree"

definition submission_replay_default :: submission_replay where
  "submission_replay_default =
     \<lparr>sr_accounts = Map.empty, sr_starts = Map.empty, sr_resolved = [], sr_used = [], sr_pilot = []\<rparr>"

record submission_env =
  se_genesis :: string
  se_verify :: "approval_ledger \<Rightarrow> string + unit"
  se_evidence :: "(approval_ledger \<Rightarrow> string + unit) option"
  se_admission :: "approval_ledger \<Rightarrow> address \<Rightarrow> clearance \<Rightarrow> string + unit"
  se_row_hash :: "ledger_row list \<Rightarrow> row_body \<Rightarrow> string"
  se_address_text :: "address \<Rightarrow> string"

abbreviation invalid_record :: "string \<Rightarrow> submission_error" where
  "invalid_record \<equiv> SxInvalidRecord"

definition start_key :: "submission_env \<Rightarrow> started \<Rightarrow> string" where
  "start_key E start = ''submission:'' @ se_address_text E (sd_account start) @ '':'' @ cloid_as_str (sd_cloid start)"

definition resolve_key :: "nat \<Rightarrow> string" where
  "resolve_key seq = ''submission_resolved:'' @ nat_digits seq"

definition submission_timestamp :: "nat \<Rightarrow> submission_error + unit" where
  "submission_timestamp at_ms = ensure (at_ms \<le> I64_MAX) (invalid_record ''timestamp out of range'')"

definition state_of_account :: "submission_replay \<Rightarrow> address \<Rightarrow> submission_state" where
  "state_of_account p account =
     (case sr_accounts p account of Some s \<Rightarrow> s | None \<Rightarrow> submission_state_default)"

section \<open>Replay\<close>

definition validate_intent ::
  "approval_ledger \<Rightarrow> started \<Rightarrow> agent_id \<Rightarrow> submission_error + (clearance \<times> ustring)" where
  "validate_intent L start agent =
     rbind (ensure (sd_intent_seq start \<le> I64_MAX) (invalid_record ''intent sequence out of range'')) (\<lambda>_.
     rbind (map_err (\<lambda>_. invalid_record ''missing linked intent'') (ledger_row_at L (sd_intent_seq start))) (\<lambda>r.
     case lr_body r of
       RbOrderIntent row_agent payload \<Rightarrow>
         rbind (ok_or (invalid_record ''linked intent redacted'') payload) (\<lambda>(cl, reason).
         rbind (ensure
           (lr_hash r = sd_intent_hash start \<and> row_agent = Some agent \<and> cr_agent cl = agent
            \<and> cr_network cl = al_network L
            \<and> (case cr_kind cl of CkOrder x \<Rightarrow> co_cloid x = Some (sd_cloid start) | _ \<Rightarrow> False)
            \<and> is_none_or (\<lambda>vault. vault = sd_account start) (cr_vault_address cl))
           (invalid_record ''linked intent does not match submission'')) (\<lambda>_.
         Inr (cl, reason)))
     | _ \<Rightarrow> Inl (invalid_record ''linked intent does not match submission'')))"

definition replay_started ::
  "submission_env \<Rightarrow> approval_ledger \<Rightarrow> nat \<Rightarrow> ledger_row \<Rightarrow> agent_id \<Rightarrow> started \<Rightarrow> submission_replay \<Rightarrow>
     submission_error + submission_replay" where
  "replay_started E L seq r agent start p =
     rbind (ensure (sd_version start = 1 \<and> sd_intent_seq start < seq \<and> sd_intent_seq start \<noteq> 0)
       (invalid_record ''unsupported start version or invalid intent order'')) (\<lambda>_.
     rbind (ensure (lr_key r = Some (start_key E start)) (invalid_record ''start idempotence key mismatch'')) (\<lambda>_.
     rbind (validate_intent L start agent) (\<lambda>intent.
     rbind (ensure ((sd_account start, sd_cloid start) \<notin> set (sr_used p))
       (invalid_record ''cloid reused in submission history'')) (\<lambda>_.
     rbind (ensure (ss_pending (state_of_account p (sd_account start)) = None)
       (invalid_record ''overlapping account submissions'')) (\<lambda>_.
     let receipt = \<lparr>sc_chain = se_genesis E, sc_seq = seq, sc_hash = lr_hash r, sc_agent = agent, sc_start = start\<rparr> in
     Inr (p\<lparr>sr_used := (sd_account start, sd_cloid start) # sr_used p,
            sr_accounts := (sr_accounts p)(sd_account start \<mapsto> \<lparr>ss_revision = seq, ss_pending = Some receipt\<rparr>),
            sr_starts := (sr_starts p)(seq \<mapsto> receipt),
            sr_pilot := bt_insert seq
              \<lparr>pb_seq = seq, pb_account = sd_account start, pb_agent = agent, pb_cloid = sd_cloid start,
               pb_intent = intent, pb_resolution = None\<rparr> (sr_pilot p)\<rparr>))))))"

definition replay_resolved ::
  "nat \<Rightarrow> ledger_row \<Rightarrow> agent_id \<Rightarrow> resolved \<Rightarrow> submission_replay \<Rightarrow> submission_error + submission_replay" where
  "replay_resolved seq r agent x p =
     rbind (ok_or (invalid_record ''resolution precedes or lacks start'') (sr_starts p (rs_start_seq x))) (\<lambda>receipt.
     rbind (ensure
       (rs_version x = 1 \<and> rs_account x = sd_account (sc_start receipt) \<and> rs_start_hash x = sc_hash receipt
        \<and> agent = sc_agent receipt \<and> lr_key r = Some (resolve_key (sc_seq receipt)) \<and> sc_seq receipt \<notin> set (sr_resolved p))
       (invalid_record ''invalid or duplicate resolution linkage'')) (\<lambda>_.
     rbind (ensure (ss_pending (state_of_account p (rs_account x)) = Some receipt)
       (invalid_record ''resolution does not name current pending submission'')) (\<lambda>_.
     rbind (ok_or (invalid_record ''resolution lacks validated pilot start'') (map_of (sr_pilot p) (sc_seq receipt))) (\<lambda>entry.
     Inr (p\<lparr>sr_resolved := sc_seq receipt # sr_resolved p,
            sr_accounts := (sr_accounts p)(rs_account x \<mapsto> \<lparr>ss_revision = seq, ss_pending = None\<rparr>),
            sr_pilot := bt_insert (sc_seq receipt) (entry\<lparr>pb_resolution := Some (rs_outcome x)\<rparr>) (sr_pilot p)\<rparr>)))))"

definition submission_row ::
  "submission_env \<Rightarrow> approval_ledger \<Rightarrow> nat \<Rightarrow> ledger_row \<Rightarrow> submission_replay \<Rightarrow> submission_error + submission_replay" where
  "submission_row E L seq r p =
     (case lr_body r of
        RbSubmission row_agent payload \<Rightarrow>
          rbind (ok_or (invalid_record ''lifecycle row has no agent'') row_agent) (\<lambda>agent.
          rbind (ok_or (invalid_record ''lifecycle payload redacted'') payload) (\<lambda>b.
          case b of
            SbStarted start \<Rightarrow> replay_started E L seq r agent start p
          | SbResolved x \<Rightarrow> replay_resolved seq r agent x p
          | SbMalformed detail \<Rightarrow> Inl (invalid_record detail)))
      | _ \<Rightarrow> Inr p)"

fun submission_rows ::
  "submission_env \<Rightarrow> approval_ledger \<Rightarrow> nat \<Rightarrow> ledger_row list \<Rightarrow> submission_replay \<Rightarrow> submission_error + submission_replay" where
  "submission_rows E L seq [] p = Inr p"
| "submission_rows E L seq (r # rs) p = rbind (submission_row E L seq r p) (\<lambda>p'. submission_rows E L (Suc seq) rs p')"

definition replay_submissions :: "submission_env \<Rightarrow> approval_ledger \<Rightarrow> submission_error + submission_replay" where
  "replay_submissions E L =
     rbind (map_err invalid_record (se_verify E L)) (\<lambda>_. submission_rows E L 1 (al_rows L) submission_replay_default)"

section \<open>Operations\<close>

definition submission_open ::
  "submission_env \<Rightarrow> approval_faults \<Rightarrow> approval_ledger \<Rightarrow> submission_error + submission_replay" where
  "submission_open E F L =
     (case ft_lock F of Some e \<Rightarrow> Inl (SxLedger e) | None \<Rightarrow> replay_submissions E L)"

definition check_evidence :: "submission_env \<Rightarrow> approval_ledger \<Rightarrow> submission_error + unit" where
  "check_evidence E L =
     (case se_evidence E of None \<Rightarrow> Inr () | Some verify \<Rightarrow> map_err invalid_record (verify L))"

definition submission_state_in ::
  "submission_env \<Rightarrow> approval_faults \<Rightarrow> approval_ledger \<Rightarrow> address \<Rightarrow> submission_error + submission_state" where
  "submission_state_in E F L account =
     rbind (submission_open E F L) (\<lambda>p. rbind (check_evidence E L) (\<lambda>_. Inr (state_of_account p account)))"

text \<open>
  \<open>append_keyed_in_tx\<close> with its commit: a key that is there already adds nothing; a fault after the
  commit reports an error although the row is there.
\<close>

definition submission_append ::
  "submission_env \<Rightarrow> approval_faults \<Rightarrow> approval_ledger \<Rightarrow> agent_id \<Rightarrow> submission_body \<Rightarrow> string \<Rightarrow> submission_error \<Rightarrow>
     (submission_error + link) \<times> approval_ledger" where
  "submission_append E F L agent b key exists_error =
     (if \<not> length (al_rows L) < I64_MAX then (Inl (SxLedger ''sequence out of range''), L)
      else if list_ex (\<lambda>r. lr_key r = Some key) (al_rows L) then (Inl exists_error, L)
      else case ft_commit F of
             Some e \<Rightarrow> (Inl (SxLedger e), L)
           | None \<Rightarrow>
               let body = RbSubmission (Some agent) (Some b);
                   h = se_row_hash E (al_rows L) body;
                   L' = L\<lparr>al_rows := al_rows L @ [\<lparr>lr_hash = h, lr_key = Some key, lr_body = body\<rparr>]\<rparr>
               in (case ft_note_after F of
                     Some e \<Rightarrow> Inl (SxLedger e)
                   | None \<Rightarrow> Inr \<lparr>lk_seq = length (al_rows L) + 1, lk_hash = h\<rparr>, L'))"

definition begin_identity :: "approval_ledger \<Rightarrow> address \<Rightarrow> clearance \<Rightarrow> submission_error + cloid" where
  "begin_identity L account cl =
     rbind (ensure (cr_network cl = al_network L) SxWrongNetwork) (\<lambda>_.
     rbind (ensure (rt_network (cr_route cl) = cr_network cl \<and> rb_agent (rt_binding (cr_route cl)) = cr_agent cl
                    \<and> rb_container (rt_binding (cr_route cl)) = account
                    \<and> rb_vault_address (rt_binding (cr_route cl)) = cr_vault_address cl)
       (invalid_record ''clearance route does not match submission identity'')) (\<lambda>_.
     rbind (ok_or SxMissingIntent (case cr_kind cl of CkOrder x \<Rightarrow> co_cloid x | _ \<Rightarrow> None)) (\<lambda>cloid.
     rbind (ensure (is_none_or (\<lambda>vault. vault = account) (cr_vault_address cl))
       (invalid_record ''clearance vault does not match submission account'')) (\<lambda>_.
     Inr cloid))))"

text \<open>The newest recorded intent of this very clearance.\<close>

definition is_intent_of :: "clearance \<Rightarrow> ledger_row \<Rightarrow> bool" where
  "is_intent_of cl r =
     (case lr_body r of
        RbOrderIntent row_agent (Some (recorded_cl, _)) \<Rightarrow> row_agent = Some (cr_agent cl) \<and> recorded_cl = cl
      | _ \<Rightarrow> False)"

definition find_intent :: "approval_ledger \<Rightarrow> clearance \<Rightarrow> (nat \<times> string) option" where
  "find_intent L cl =
     map_option (\<lambda>(n, r). (n, lr_hash r))
       (find (\<lambda>(_, r). is_intent_of cl r) (List.rev (List.enumerate 1 (al_rows L))))"

definition submission_admit ::
  "submission_env \<Rightarrow> approval_faults \<Rightarrow> approval_ledger \<Rightarrow> address \<Rightarrow> clearance \<Rightarrow> nat \<Rightarrow> nat \<Rightarrow> submission_error + started" where
  "submission_admit E F L account cl expected_revision at_ms =
     rbind (begin_identity L account cl) (\<lambda>cloid.
     rbind (submission_open E F L) (\<lambda>p.
     rbind (check_evidence E L) (\<lambda>_.
     rbind (case ss_pending (state_of_account p account) of
              Some receipt \<Rightarrow> Inl (SxBusy (cloid_as_str (sd_cloid (sc_start receipt))))
            | None \<Rightarrow> Inr ()) (\<lambda>_.
     rbind (ensure (ss_revision (state_of_account p account) = expected_revision) SxStaleRevision) (\<lambda>_.
     rbind (ensure ((account, cloid) \<notin> set (sr_used p)) SxDuplicateCloid) (\<lambda>_.
     rbind (ok_or SxMissingIntent (find_intent L cl)) (\<lambda>(intent_seq, intent_hash).
     rbind (map_err SxPilot (se_admission E L account cl)) (\<lambda>_.
     rbind (submission_timestamp at_ms) (\<lambda>_.
     Inr \<lparr>sd_version = 1, sd_account = account, sd_cloid = cloid, sd_intent_seq = intent_seq,
          sd_intent_hash = intent_hash\<rparr>)))))))))"

definition submission_begin ::
  "submission_env \<Rightarrow> approval_faults \<Rightarrow> address \<Rightarrow> clearance \<Rightarrow> nat \<Rightarrow> nat \<Rightarrow> approval_ledger \<Rightarrow>
     (submission_error + submission_receipt) \<times> approval_ledger" where
  "submission_begin E F account cl expected_revision at_ms L =
     (case submission_admit E F L account cl expected_revision at_ms of
        Inl e \<Rightarrow> (Inl e, L)
      | Inr start \<Rightarrow>
          (case submission_append E F L (cr_agent cl) (SbStarted start) (start_key E start) SxDuplicateCloid of
             (Inl e, L') \<Rightarrow> (Inl e, L')
           | (Inr k, L') \<Rightarrow>
               (Inr \<lparr>sc_chain = se_genesis E, sc_seq = lk_seq k, sc_hash = lk_hash k, sc_agent = cr_agent cl,
                     sc_start = start\<rparr>, L')))"

definition submission_resolve ::
  "submission_env \<Rightarrow> approval_faults \<Rightarrow> submission_receipt \<Rightarrow> submission_resolution \<Rightarrow> nat \<Rightarrow> approval_ledger \<Rightarrow>
     (submission_error + unit) \<times> approval_ledger" where
  "submission_resolve E F receipt resolution at_ms L =
     (if sc_chain receipt \<noteq> se_genesis E then (Inl SxWrongNetwork, L)
      else case submission_open E F L of
             Inl e \<Rightarrow> (Inl e, L)
           | Inr p \<Rightarrow>
               if sr_starts p (sc_seq receipt) \<noteq> Some receipt
               then (Inl (invalid_record ''receipt does not match durable start''), L)
               else if sc_seq receipt \<in> set (sr_resolved p) then (Inr (), L)
               else case submission_timestamp at_ms of
                      Inl e \<Rightarrow> (Inl e, L)
                    | Inr _ \<Rightarrow>
                        (case submission_append E F L (sc_agent receipt)
                                (SbResolved \<lparr>rs_version = 1, rs_account = sd_account (sc_start receipt),
                                             rs_start_seq = sc_seq receipt, rs_start_hash = sc_hash receipt,
                                             rs_outcome = resolution\<rparr>)
                                (resolve_key (sc_seq receipt)) (invalid_record ''resolution key without resolution'') of
                           (Inl e, L') \<Rightarrow> (Inl e, L')
                         | (Inr _, L') \<Rightarrow> (Inr (), L')))"

end
