(* ===== verification/Submission_Props.thy ===== *)
theory Submission_Props
  imports Submission Approval_Props
begin

text \<open>
  What the submission journal guarantees: an account holds at most one unresolved submission, a client
  order id is never submitted twice, a resolution releases only its own reservation, and every
  reservation names the recorded intent of the cleared order; all of it in every run with faults.
\<close>

section \<open>The journal as an event-sourced fold\<close>

definition chain_readable :: "submission_env \<Rightarrow> approval_ledger \<Rightarrow> ledger_row \<Rightarrow> bool" where
  "chain_readable E L r = (is_ok (se_verify E L) \<longrightarrow> is_ok (se_verify E (ledger_snoc L r)))"

lemma ensure_le [keep_intros]: "(b \<Longrightarrow> b') \<Longrightarrow> result_le (ensure b e) (ensure b' e)"
  by (auto simp: result_le_def ensure_def)

lemma validate_intent_keep [keep_intros]:
  "result_le (validate_intent L start agent) (validate_intent (ledger_snoc L r) start agent)"
  unfolding validate_intent_def
  by (intro keep_intros) (auto split: row_body.split intro!: keep_intros)

lemma replay_started_keep [keep_intros]:
  "result_le (replay_started E L n x agent start p) (replay_started E (ledger_snoc L r) n x agent start p)"
  unfolding replay_started_def by (intro keep_intros)

lemma submission_row_keep:
  "result_le (submission_row E L n x p) (submission_row E (ledger_snoc L r) n x p)"
  unfolding submission_row_def
  by (auto split: row_body.split submission_body.split intro!: keep_intros)

interpretation sj: event_journal "submission_row E" "submission_rows E" "\<lambda>_ _. True" for E
  by unfold_locales (simp_all add: submission_row_keep)

lemma replay_submissions_snoc:
  assumes "chain_readable E L r" "replay_submissions E L = Inr p"
    and "submission_row E L (Suc (length (al_rows L))) r p = Inr p'"
  shows "replay_submissions E (ledger_snoc L r) = Inr p'"
proof -
  from assms(2) have ok: "is_ok (se_verify E L)" and p: "submission_rows E L 1 (al_rows L) submission_replay_default = Inr p"
    by (auto simp: replay_submissions_def result_inv is_ok_iff)
  from ok assms(1) obtain u where "se_verify E (ledger_snoc L r) = Inr u" by (auto simp: chain_readable_def is_ok_iff)
  with sj.fold_snoc [OF TrueI p assms(3)] show ?thesis by (simp add: replay_submissions_def)
qed

section \<open>The reservations\<close>

text \<open>
  The abstract specification: what is reserved (the pending receipt of each account), what was ever
  started and what was resolved. A start takes a free account and an unused client order id; a
  resolution frees exactly the account of its start.
\<close>

record reservations =
  rz_pending :: "address \<rightharpoonup> submission_receipt"
  rz_starts :: "nat \<rightharpoonup> submission_receipt"
  rz_resolved :: "nat set"
  rz_used :: "(address \<times> cloid) set"

definition reservations_of :: "submission_replay \<Rightarrow> reservations" where
  "reservations_of p =
     \<lparr>rz_pending = (\<lambda>a. ss_pending (state_of_account p a)), rz_starts = sr_starts p,
      rz_resolved = set (sr_resolved p), rz_used = set (sr_used p)\<rparr>"

inductive reservation_step :: "reservations \<Rightarrow> reservations \<Rightarrow> bool" where
  start: "sc_start c = st \<Longrightarrow> rz_pending z (sd_account st) = None \<Longrightarrow> (sd_account st, sd_cloid st) \<notin> rz_used z \<Longrightarrow>
     rz_starts z (sc_seq c) = None \<Longrightarrow> sc_seq c \<notin> rz_resolved z \<Longrightarrow>
     reservation_step z
       \<lparr>rz_pending = (rz_pending z)(sd_account st \<mapsto> c), rz_starts = (rz_starts z)(sc_seq c \<mapsto> c),
        rz_resolved = rz_resolved z, rz_used = insert (sd_account st, sd_cloid st) (rz_used z)\<rparr>"
| resolve: "rz_pending z (sd_account (sc_start c)) = Some c \<Longrightarrow> sc_seq c \<notin> rz_resolved z \<Longrightarrow>
     reservation_step z
       (z\<lparr>rz_pending := (rz_pending z)(sd_account (sc_start c) := None), rz_resolved := insert (sc_seq c) (rz_resolved z)\<rparr>)"

text \<open>The invariant: an unresolved start is exactly what its account has pending.\<close>

definition start_ok :: "nat \<Rightarrow> submission_replay \<Rightarrow> nat \<Rightarrow> submission_receipt \<Rightarrow> bool" where
  "start_ok n p k c =
     (sc_seq c = k \<and> k \<le> n \<and> (sd_account (sc_start c), sd_cloid (sc_start c)) \<in> set (sr_used p)
      \<and> map_of (sr_pilot p) k \<noteq> None
      \<and> (k \<notin> set (sr_resolved p) \<longrightarrow> ss_pending (state_of_account p (sd_account (sc_start c))) = Some c))"

definition replay_ok :: "nat \<Rightarrow> submission_replay \<Rightarrow> bool" where
  "replay_ok n p =
     ((\<forall>k c. sr_starts p k = Some c \<longrightarrow> start_ok n p k c)
      \<and> (\<forall>a c. ss_pending (state_of_account p a) = Some c \<longrightarrow>
            sr_starts p (sc_seq c) = Some c \<and> sd_account (sc_start c) = a \<and> sc_seq c \<notin> set (sr_resolved p))
      \<and> (\<forall>k \<in> set (sr_resolved p). k \<le> n))"

lemma replay_okI:
  assumes "\<And>k c. sr_starts p k = Some c \<Longrightarrow> start_ok n p k c"
    and "\<And>a c. ss_pending (state_of_account p a) = Some c \<Longrightarrow>
            sr_starts p (sc_seq c) = Some c \<and> sd_account (sc_start c) = a \<and> sc_seq c \<notin> set (sr_resolved p)"
    and "\<And>k. k \<in> set (sr_resolved p) \<Longrightarrow> k \<le> n"
  shows "replay_ok n p"
  using assms by (simp add: replay_ok_def)

lemma replay_ok_default: "replay_ok 0 submission_replay_default"
  by (simp add: replay_ok_def submission_replay_default_def state_of_account_def submission_state_default_def)

lemma replay_ok_weaken: "replay_ok n p \<Longrightarrow> n \<le> m \<Longrightarrow> replay_ok m p"
  by (fastforce simp: replay_ok_def start_ok_def)

lemma pending_start: "replay_ok n p \<Longrightarrow> ss_pending (state_of_account p a) = Some c \<Longrightarrow>
    sr_starts p (sc_seq c) = Some c \<and> sd_account (sc_start c) = a \<and> sc_seq c \<notin> set (sr_resolved p)"
  by (simp add: replay_ok_def)

lemma started_ok: "replay_ok n p \<Longrightarrow> sr_starts p k = Some c \<Longrightarrow> start_ok n p k c"
  by (simp add: replay_ok_def)

lemma resolved_le: "replay_ok n p \<Longrightarrow> k \<in> set (sr_resolved p) \<Longrightarrow> k \<le> n"
  by (simp add: replay_ok_def)

text \<open>What a start and a resolution make of the state.\<close>

definition after_start :: "submission_receipt \<Rightarrow> pilot_submission \<Rightarrow> submission_replay \<Rightarrow> submission_replay" where
  "after_start c q p =
     p\<lparr>sr_used := (sd_account (sc_start c), sd_cloid (sc_start c)) # sr_used p,
       sr_accounts := (sr_accounts p)(sd_account (sc_start c) \<mapsto> \<lparr>ss_revision = sc_seq c, ss_pending = Some c\<rparr>),
       sr_starts := (sr_starts p)(sc_seq c \<mapsto> c), sr_pilot := bt_insert (sc_seq c) q (sr_pilot p)\<rparr>"

definition after_resolve :: "nat \<Rightarrow> submission_receipt \<Rightarrow> pilot_submission \<Rightarrow> submission_replay \<Rightarrow> submission_replay" where
  "after_resolve seq c q p =
     p\<lparr>sr_resolved := sc_seq c # sr_resolved p,
       sr_accounts := (sr_accounts p)(sd_account (sc_start c) \<mapsto> \<lparr>ss_revision = seq, ss_pending = None\<rparr>),
       sr_pilot := bt_insert (sc_seq c) q (sr_pilot p)\<rparr>"

lemma after_start_simps [simp]:
  "sr_used (after_start c q p) = (sd_account (sc_start c), sd_cloid (sc_start c)) # sr_used p"
  "sr_starts (after_start c q p) = (sr_starts p)(sc_seq c \<mapsto> c)"
  "sr_resolved (after_start c q p) = sr_resolved p"
  "sr_pilot (after_start c q p) = bt_insert (sc_seq c) q (sr_pilot p)"
  "state_of_account (after_start c q p) a =
     (if a = sd_account (sc_start c) then \<lparr>ss_revision = sc_seq c, ss_pending = Some c\<rparr> else state_of_account p a)"
  by (simp_all add: after_start_def state_of_account_def)

lemma after_resolve_simps [simp]:
  "sr_used (after_resolve seq c q p) = sr_used p"
  "sr_starts (after_resolve seq c q p) = sr_starts p"
  "sr_resolved (after_resolve seq c q p) = sc_seq c # sr_resolved p"
  "sr_pilot (after_resolve seq c q p) = bt_insert (sc_seq c) q (sr_pilot p)"
  "state_of_account (after_resolve seq c q p) a =
     (if a = sd_account (sc_start c) then \<lparr>ss_revision = seq, ss_pending = None\<rparr> else state_of_account p a)"
  by (simp_all add: after_resolve_def state_of_account_def)

lemma replay_started_Inr:
  assumes "replay_started E L seq r agent start p = Inr p'"
  obtains q where
    "p' = after_start \<lparr>sc_chain = se_genesis E, sc_seq = seq, sc_hash = lr_hash r, sc_agent = agent, sc_start = start\<rparr> q p"
    "(sd_account start, sd_cloid start) \<notin> set (sr_used p)" "ss_pending (state_of_account p (sd_account start)) = None"
  using assms by (auto simp: replay_started_def after_start_def result_inv Let_def)

lemma replay_resolved_Inr:
  assumes "replay_resolved seq r agent x p = Inr p'"
  obtains c q where "sr_starts p (rs_start_seq x) = Some c" "p' = after_resolve seq c q p"
    "ss_pending (state_of_account p (sd_account (sc_start c))) = Some c" "sc_seq c \<notin> set (sr_resolved p)"
  using assms by (auto simp: replay_resolved_def after_resolve_def result_inv)

lemma after_start_refines:
  assumes ok: "replay_ok n p" and seq: "sc_seq c = Suc n"
    and free: "(sd_account (sc_start c), sd_cloid (sc_start c)) \<notin> set (sr_used p)"
      "ss_pending (state_of_account p (sd_account (sc_start c))) = None"
  shows "replay_ok (Suc n) (after_start c q p)" "reservation_step (reservations_of p) (reservations_of (after_start c q p))"
proof -
  have "sr_starts p (Suc n) = None"
    using started_ok [OF ok, of "Suc n"] by (cases "sr_starts p (Suc n)") (auto simp: start_ok_def)
  moreover have "Suc n \<notin> set (sr_resolved p)" using resolved_le [OF ok, of "Suc n"] by auto
  ultimately have fresh: "sr_starts p (Suc n) = None" "Suc n \<notin> set (sr_resolved p)" .
  show "replay_ok (Suc n) (after_start c q p)"
  proof (rule replay_okI)
    fix k d
    assume d: "sr_starts (after_start c q p) k = Some d"
    show "start_ok (Suc n) (after_start c q p) k d"
    proof (cases "k = Suc n")
      case True
      with d seq show ?thesis by (simp add: start_ok_def map_of_bt_insert)
    next
      case False
      with d seq have "sr_starts p k = Some d" by simp
      note old = started_ok [OF ok this]
      with free(2) have "k \<in> set (sr_resolved p)" if "sd_account (sc_start d) = sd_account (sc_start c)"
        using that by (auto simp: start_ok_def)
      with old False seq show ?thesis by (auto simp: start_ok_def map_of_bt_insert)
    qed
  next
    fix a d
    assume d: "ss_pending (state_of_account (after_start c q p) a) = Some d"
    show "sr_starts (after_start c q p) (sc_seq d) = Some d \<and> sd_account (sc_start d) = a
        \<and> sc_seq d \<notin> set (sr_resolved (after_start c q p))"
    proof (cases "a = sd_account (sc_start c)")
      case True
      with d fresh seq show ?thesis by simp
    next
      case False
      with d have "ss_pending (state_of_account p a) = Some d" by simp
      note old = pending_start [OF ok this]
      with fresh(1) have "sc_seq d \<noteq> Suc n" by auto
      with old seq show ?thesis by simp
    qed
  next
    fix k
    assume "k \<in> set (sr_resolved (after_start c q p))"
    then show "k \<le> Suc n" using resolved_le [OF ok, of k] by simp
  qed
  have eq: "reservations_of (after_start c q p) =
      \<lparr>rz_pending = (rz_pending (reservations_of p))(sd_account (sc_start c) \<mapsto> c),
       rz_starts = (rz_starts (reservations_of p))(sc_seq c \<mapsto> c),
       rz_resolved = rz_resolved (reservations_of p),
       rz_used = insert (sd_account (sc_start c), sd_cloid (sc_start c)) (rz_used (reservations_of p))\<rparr>"
    by (auto simp: reservations_of_def fun_eq_iff)
  show "reservation_step (reservations_of p) (reservations_of (after_start c q p))"
    unfolding eq by (rule reservation_step.start [OF refl]) (use fresh free seq in \<open>simp_all add: reservations_of_def\<close>)
qed

lemma after_resolve_refines:
  assumes ok: "replay_ok n p" and pending: "ss_pending (state_of_account p (sd_account (sc_start c))) = Some c"
    and fresh: "sc_seq c \<notin> set (sr_resolved p)"
  shows "replay_ok (Suc n) (after_resolve seq c q p)"
    "reservation_step (reservations_of p) (reservations_of (after_resolve seq c q p))"
proof -
  have c: "sr_starts p (sc_seq c) = Some c" using pending_start [OF ok pending] by simp
  then have "start_ok n p (sc_seq c) c" by (rule started_ok [OF ok])
  then have le: "sc_seq c \<le> n" by (simp add: start_ok_def)
  show "replay_ok (Suc n) (after_resolve seq c q p)"
  proof (rule replay_okI)
    fix k d
    assume "sr_starts (after_resolve seq c q p) k = Some d"
    then have d: "sr_starts p k = Some d" by simp
    show "start_ok (Suc n) (after_resolve seq c q p) k d"
    proof (cases "k = sc_seq c")
      case True
      with started_ok [OF ok d] show ?thesis by (simp add: start_ok_def map_of_bt_insert)
    next
      case False
      note old = started_ok [OF ok d]
      have "k \<in> set (sr_resolved p)" if same: "sd_account (sc_start d) = sd_account (sc_start c)"
      proof (rule ccontr)
        assume "k \<notin> set (sr_resolved p)"
        with old same pending have "d = c" by (simp add: start_ok_def)
        with old False show False by (simp add: start_ok_def)
      qed
      with old False show ?thesis by (simp add: start_ok_def map_of_bt_insert)
    qed
  next
    fix a d
    assume "ss_pending (state_of_account (after_resolve seq c q p) a) = Some d"
    then have a: "a \<noteq> sd_account (sc_start c)" and d: "ss_pending (state_of_account p a) = Some d"
      by (simp_all split: if_splits)
    note d = pending_start [OF ok d]
    with a c have "sc_seq d \<noteq> sc_seq c" by (metis option.inject)
    with d show "sr_starts (after_resolve seq c q p) (sc_seq d) = Some d \<and> sd_account (sc_start d) = a
        \<and> sc_seq d \<notin> set (sr_resolved (after_resolve seq c q p))"
      by simp
  next
    fix k
    assume "k \<in> set (sr_resolved (after_resolve seq c q p))"
    then show "k \<le> Suc n" using resolved_le [OF ok, of k] le by auto
  qed
  have eq: "reservations_of (after_resolve seq c q p) =
      (reservations_of p)\<lparr>rz_pending := (rz_pending (reservations_of p))(sd_account (sc_start c) := None),
        rz_resolved := insert (sc_seq c) (rz_resolved (reservations_of p))\<rparr>"
    by (auto simp: reservations_of_def fun_eq_iff)
  show "reservation_step (reservations_of p) (reservations_of (after_resolve seq c q p))"
    unfolding eq by (rule reservation_step.resolve) (use pending fresh in \<open>simp_all add: reservations_of_def\<close>)
qed

lemma submission_row_refines:
  assumes ok: "replay_ok n p" and row: "submission_row E L (Suc n) r p = Inr p'"
  shows "replay_ok (Suc n) p' \<and> reservation_step\<^sup>=\<^sup>= (reservations_of p) (reservations_of p')"
proof (cases "\<exists>agent b. lr_body r = RbSubmission (Some agent) (Some b)")
  case False
  with row have "p' = p" by (auto simp: submission_row_def result_inv split: row_body.splits)
  with ok show ?thesis by (auto intro: replay_ok_weaken)
next
  case True
  then obtain agent b where body: "lr_body r = RbSubmission (Some agent) (Some b)" by blast
  show ?thesis
  proof (cases b)
    case (SbStarted start)
    with row body have "replay_started E L (Suc n) r agent start p = Inr p'" by (simp add: submission_row_def)
    then obtain q where p': "p' = after_start \<lparr>sc_chain = se_genesis E, sc_seq = Suc n, sc_hash = lr_hash r,
        sc_agent = agent, sc_start = start\<rparr> q p"
      and "(sd_account start, sd_cloid start) \<notin> set (sr_used p)" "ss_pending (state_of_account p (sd_account start)) = None"
      by (rule replay_started_Inr)
    then show ?thesis unfolding p' using after_start_refines [OF ok] by simp
  next
    case (SbResolved x)
    with row body have "replay_resolved (Suc n) r agent x p = Inr p'" by (simp add: submission_row_def)
    then obtain c q where p': "p' = after_resolve (Suc n) c q p"
      and "ss_pending (state_of_account p (sd_account (sc_start c))) = Some c" "sc_seq c \<notin> set (sr_resolved p)"
      by (rule replay_resolved_Inr)
    then show ?thesis unfolding p' using after_resolve_refines [OF ok] by simp
  next
    case (SbMalformed d)
    with row body show ?thesis by (simp add: submission_row_def)
  qed
qed

lemma replay_submissions_refines:
  assumes "replay_submissions E L = Inr p"
  shows "replay_ok (length (al_rows L)) p"
    "reservation_step\<^sup>*\<^sup>* (reservations_of submission_replay_default) (reservations_of p)"
proof -
  from assms have rows: "submission_rows E L (Suc 0) (al_rows L) submission_replay_default = Inr p"
    by (auto simp: replay_submissions_def result_inv)
  from replay_ok_default rows have "replay_ok (0 + length (al_rows L)) p \<and>
      reservation_step\<^sup>*\<^sup>* (reservations_of submission_replay_default) (reservations_of p)"
    by (rule sj.fold_refines [where keeps = replay_ok and view = reservations_of, rotated]) (rule submission_row_refines)
  then show "replay_ok (length (al_rows L)) p"
    "reservation_step\<^sup>*\<^sup>* (reservations_of submission_replay_default) (reservations_of p)" by simp_all
qed

section \<open>The journal reads back what it wrote\<close>

definition chain_grows :: "submission_env \<Rightarrow> bool" where
  "chain_grows E = (\<forall>L r. lr_hash r = se_row_hash E (al_rows L) (lr_body r) \<longrightarrow> chain_readable E L r)"

lemma submission_append_cases [consumes 1, case_names same added]:
  assumes "submission_append E F L agent b key err = (res, L')"
  obtains e where "L' = L" "res = Inl e"
  | r where "L' = ledger_snoc L r" "lr_body r = RbSubmission (Some agent) (Some b)" "lr_key r = Some key"
      "lr_hash r = se_row_hash E (al_rows L) (lr_body r)" "length (al_rows L) < I64_MAX"
      "res = (case ft_note_after F of Some e \<Rightarrow> Inl (SxLedger e)
              | None \<Rightarrow> Inr \<lparr>lk_seq = Suc (length (al_rows L)), lk_hash = lr_hash r\<rparr>)"
proof (cases "L' = L")
  case True
  with assms that(1) show ?thesis
    by (auto simp: submission_append_def Let_def simp flip: ledger_snoc_def split: if_splits option.splits)
next
  case False
  let ?body = "RbSubmission (Some agent) (Some b)"
  from assms False show ?thesis
    by (intro that(2) [of "\<lparr>lr_hash = se_row_hash E (al_rows L) ?body, lr_key = Some key, lr_body = ?body\<rparr>"])
      (auto simp: submission_append_def ledger_snoc_def Let_def split: if_splits option.splits)
qed

lemma find_intent_Some:
  assumes "find_intent L cl = Some (n, h)"
  shows "0 < n" "n \<le> length (al_rows L)" "is_intent_of cl (al_rows L ! (n - 1))" "h = lr_hash (al_rows L ! (n - 1))"
proof -
  from assms obtain r where r: "find (\<lambda>(_, r). is_intent_of cl r) (List.rev (List.enumerate 1 (al_rows L))) = Some (n, r)"
    "h = lr_hash r" by (auto simp: find_intent_def)
  then have "is_intent_of cl r" "(n, r) \<in> set (List.rev (List.enumerate 1 (al_rows L)))"
    by (auto simp: find_Some_iff in_set_conv_nth simp del: set_rev)
  with r(2) show "0 < n" "n \<le> length (al_rows L)" "is_intent_of cl (al_rows L ! (n - 1))"
    "h = lr_hash (al_rows L ! (n - 1))"
    by (auto simp: in_set_enumerate_eq)
qed

lemma submission_admit_Inr:
  assumes "submission_admit E F L account cl revision at_ms = Inr start"
  obtains p where "replay_submissions E L = Inr p" "sd_version start = 1" "sd_account start = account"
    "ss_pending (state_of_account p account) = None" "(account, sd_cloid start) \<notin> set (sr_used p)"
    "begin_identity L account cl = Inr (sd_cloid start)"
    "find_intent L cl = Some (sd_intent_seq start, sd_intent_hash start)"
  using assms
  by (auto simp: submission_admit_def submission_open_def result_inv split: option.splits if_splits)

lemma begin_identity_Inr:
  assumes "begin_identity L account cl = Inr cloid"
  shows "cr_network cl = al_network L" "rb_container (rt_binding (cr_route cl)) = account"
    "\<exists>x. cr_kind cl = CkOrder x \<and> co_cloid x = Some cloid" "is_none_or (\<lambda>vault. vault = account) (cr_vault_address cl)"
  using assms by (auto simp: begin_identity_def result_inv split: cleared_kind.splits)

lemma validate_found_intent:
  assumes "begin_identity L (sd_account start) cl = Inr (sd_cloid start)" "length (al_rows L) < I64_MAX"
    and "find_intent L cl = Some (sd_intent_seq start, sd_intent_hash start)"
  shows "\<exists>intent. validate_intent L start (cr_agent cl) = Inr intent"
proof -
  note found = find_intent_Some [OF assms(3)] and ident = begin_identity_Inr [OF assms(1)]
  let ?r = "al_rows L ! (sd_intent_seq start - 1)"
  from found assms(2) have row: "ledger_row_at L (sd_intent_seq start) = Inr ?r" "sd_intent_seq start \<le> I64_MAX"
    by (simp_all add: ledger_row_at_def timestamp_def)
  from found(3) obtain reason where "lr_body ?r = RbOrderIntent (Some (cr_agent cl)) (Some (cl, reason))"
    by (auto simp: is_intent_of_def split: row_body.splits option.splits)
  with row found(4) ident show ?thesis by (auto simp: validate_intent_def ensure_def)
qed

lemma begin_row_replays:
  assumes "submission_admit E F L account cl revision at_ms = Inr start" "length (al_rows L) < I64_MAX"
    and body: "lr_body r = RbSubmission (Some (cr_agent cl)) (Some (SbStarted start))"
    and key: "lr_key r = Some (start_key E start)"
  obtains p q where "replay_submissions E L = Inr p" "submission_row E L (Suc (length (al_rows L))) r p =
      Inr (after_start \<lparr>sc_chain = se_genesis E, sc_seq = Suc (length (al_rows L)), sc_hash = lr_hash r,
        sc_agent = cr_agent cl, sc_start = start\<rparr> q p)"
proof -
  from assms(1) obtain p where p: "replay_submissions E L = Inr p" "sd_version start = 1" "sd_account start = account"
    "ss_pending (state_of_account p account) = None" "(account, sd_cloid start) \<notin> set (sr_used p)"
    "begin_identity L account cl = Inr (sd_cloid start)"
    "find_intent L cl = Some (sd_intent_seq start, sd_intent_hash start)"
    by (rule submission_admit_Inr)
  note found = find_intent_Some [OF p(7)]
  obtain intent where "validate_intent L start (cr_agent cl) = Inr intent"
    using validate_found_intent [OF _ assms(2) p(7)] p(3,6) by blast
  with p found body key show ?thesis
    by (intro that [of p]) (auto simp: submission_row_def replay_started_def ensure_def after_start_def Let_def)
qed

lemma resolve_row_replays:
  assumes "replay_submissions E L = Inr p" "sr_starts p (sc_seq c) = Some c" "sc_seq c \<notin> set (sr_resolved p)"
    and body: "lr_body r = RbSubmission (Some (sc_agent c)) (Some (SbResolved
          \<lparr>rs_version = 1, rs_account = sd_account (sc_start c), rs_start_seq = sc_seq c, rs_start_hash = sc_hash c,
           rs_outcome = resolution\<rparr>))"
    and key: "lr_key r = Some (resolve_key (sc_seq c))"
  obtains q where "submission_row E L n r p = Inr (after_resolve n c q p)"
proof -
  have "start_ok (length (al_rows L)) p (sc_seq c) c"
    using replay_submissions_refines(1) [OF assms(1)] assms(2) by (rule started_ok)
  with assms(3) obtain entry where "map_of (sr_pilot p) (sc_seq c) = Some entry"
    "ss_pending (state_of_account p (sd_account (sc_start c))) = Some c" by (auto simp: start_ok_def)
  with assms(2,3) body key that show ?thesis
    by (auto simp: submission_row_def replay_resolved_def ensure_def after_resolve_def)
qed

text \<open>A ledger after a call: unchanged, or grown by one row that replays.\<close>

definition submission_extends ::
  "submission_env \<Rightarrow> approval_ledger \<Rightarrow> submission_replay \<Rightarrow> approval_ledger \<Rightarrow> submission_replay \<Rightarrow> bool" where
  "submission_extends E L p L' p' =
     ((L' = L \<and> p' = p) \<or>
      (\<exists>r. L' = ledger_snoc L r \<and> lr_hash r = se_row_hash E (al_rows L) (lr_body r)
           \<and> submission_row E L (Suc (length (al_rows L))) r p = Inr p'))"

lemma extends_replays:
  assumes "chain_grows E" "replay_submissions E L = Inr p" "submission_extends E L p L' p'"
  shows "replay_submissions E L' = Inr p'" "reservation_step\<^sup>=\<^sup>= (reservations_of p) (reservations_of p')"
    "al_network L' = al_network L"
proof -
  from assms show "replay_submissions E L' = Inr p'" "al_network L' = al_network L"
    by (auto simp: submission_extends_def chain_grows_def intro: replay_submissions_snoc)
  show "reservation_step\<^sup>=\<^sup>= (reservations_of p) (reservations_of p')"
    using assms(3) submission_row_refines [OF replay_submissions_refines(1) [OF assms(2)]]
    by (auto simp: submission_extends_def)
qed

text \<open>What a reservation leaves on the ledger, also when its acknowledgement was lost.\<close>

lemma begin_cases:
  assumes "submission_begin E F account cl revision at_ms L = (res, L')"
  obtains (refused) e where "L' = L" "res = Inl e"
  | (reserved) p c q where "replay_submissions E L = Inr p" "submission_extends E L p L' (after_start c q p)"
      "submission_admit E F L account cl revision at_ms = Inr (sc_start c)" "sc_seq c = Suc (length (al_rows L))"
      "res = (case ft_note_after F of Some e \<Rightarrow> Inl (SxLedger e) | None \<Rightarrow> Inr c)"
proof (cases "submission_admit E F L account cl revision at_ms")
  case (Inl e)
  with assms that(1) show ?thesis by (auto simp: submission_begin_def)
next
  case (Inr start)
  obtain res' where app: "submission_append E F L (cr_agent cl) (SbStarted start) (start_key E start) SxDuplicateCloid = (res', L')"
    and res: "res = (case res' of Inl e \<Rightarrow> Inl e | Inr k \<Rightarrow>
      Inr \<lparr>sc_chain = se_genesis E, sc_seq = lk_seq k, sc_hash = lk_hash k, sc_agent = cr_agent cl, sc_start = start\<rparr>)"
    using assms Inr by (auto simp: submission_begin_def split: prod.splits sum.splits)
  from app show ?thesis
  proof (cases rule: submission_append_cases)
    case (same e)
    with res that(1) show ?thesis by simp
  next
    case (added r)
    obtain p q where "replay_submissions E L = Inr p" "submission_row E L (Suc (length (al_rows L))) r p =
      Inr (after_start \<lparr>sc_chain = se_genesis E, sc_seq = Suc (length (al_rows L)), sc_hash = lr_hash r,
        sc_agent = cr_agent cl, sc_start = start\<rparr> q p)"
      using Inr added(5,2,3) by (rule begin_row_replays)
    with Inr added(1,4,6) res show ?thesis
      by (intro that(2) [of p _ q]) (auto simp: submission_extends_def split: option.splits)
  qed
qed

lemma resolve_cases:
  assumes "submission_resolve E F c resolution at_ms L = (res, L')"
  obtains (refused) e where "L' = L" "res = Inl e"
  | (again) p where "replay_submissions E L = Inr p" "sc_seq c \<in> set (sr_resolved p)" "L' = L" "res = Inr ()"
  | (released) p q where "replay_submissions E L = Inr p" "sr_starts p (sc_seq c) = Some c" "sc_seq c \<notin> set (sr_resolved p)"
      "submission_extends E L p L' (after_resolve (Suc (length (al_rows L))) c q p)"
      "res = (case ft_note_after F of Some e \<Rightarrow> Inl (SxLedger e) | None \<Rightarrow> Inr ())"
proof (cases "submission_open E F L")
  case (Inl e)
  with assms that(1) show ?thesis by (auto simp: submission_resolve_def split: if_splits)
next
  case (Inr p)
  then have p: "replay_submissions E L = Inr p" by (auto simp: submission_open_def split: option.splits)
  show ?thesis
  proof (cases "L' = L")
    case True
    with assms Inr p that(1,2) show ?thesis
      by (cases "submission_timestamp at_ms")
        (auto simp: submission_resolve_def dest: sym split: if_splits sum.splits prod.splits elim!: submission_append_cases)
  next
    case False
    with assms Inr obtain res' where c: "sr_starts p (sc_seq c) = Some c" "sc_seq c \<notin> set (sr_resolved p)"
      and app: "submission_append E F L (sc_agent c)
          (SbResolved \<lparr>rs_version = 1, rs_account = sd_account (sc_start c), rs_start_seq = sc_seq c,
             rs_start_hash = sc_hash c, rs_outcome = resolution\<rparr>)
          (resolve_key (sc_seq c)) (invalid_record ''resolution key without resolution'') = (res', L')"
      and res: "res = (case res' of Inl e \<Rightarrow> Inl e | Inr k \<Rightarrow> Inr ())"
      by (auto simp: submission_resolve_def split: if_splits sum.splits prod.splits)
    from app show ?thesis
    proof (cases rule: submission_append_cases)
      case (same e)
      with False show ?thesis by simp
    next
      case (added r)
      obtain q where "submission_row E L (Suc (length (al_rows L))) r p =
          Inr (after_resolve (Suc (length (al_rows L))) c q p)"
        using p c added(2,3) by (rule resolve_row_replays)
      with p c added(1,4,6) res show ?thesis
        by (intro that(3) [of p q]) (auto simp: submission_extends_def split: option.splits)
    qed
  qed
qed

lemma begin_extends:
  assumes "replay_submissions E L = Inr p"
  shows "\<exists>p'. submission_extends E L p (snd (submission_begin E F account cl revision at_ms L)) p'"
  using assms by (cases rule: begin_cases [OF prod.collapse [symmetric], of E F account cl revision at_ms L])
    (auto simp: submission_extends_def)

lemma resolve_extends:
  assumes "replay_submissions E L = Inr p"
  shows "\<exists>p'. submission_extends E L p (snd (submission_resolve E F c resolution at_ms L)) p'"
  using assms by (cases rule: resolve_cases [OF prod.collapse [symmetric], of E F c resolution at_ms L])
    (auto simp: submission_extends_def)

section \<open>Runs\<close>

definition is_submission :: "row_body \<Rightarrow> bool" where
  "is_submission b = (case b of RbSubmission _ _ \<Rightarrow> True | _ \<Rightarrow> False)"

lemma other_row_extends:
  assumes "\<not> is_submission (lr_body r)" "lr_hash r = se_row_hash E (al_rows L) (lr_body r)"
  shows "submission_extends E L p (ledger_snoc L r) p"
  using assms by (auto simp: submission_extends_def submission_row_def is_submission_def split: row_body.splits)

text \<open>Reservations and resolutions with any faults, and rows of the other journals.\<close>

inductive submission_run :: "submission_env \<Rightarrow> approval_ledger \<Rightarrow> approval_ledger \<Rightarrow> bool" for E where
  sub_start: "submission_run E L L"
| sub_begin: "submission_run E L L1 \<Longrightarrow> submission_run E L (snd (submission_begin E F account cl revision at_ms L1))"
| sub_resolve: "submission_run E L L1 \<Longrightarrow> submission_run E L (snd (submission_resolve E F c resolution at_ms L1))"
| sub_other: "submission_run E L L1 \<Longrightarrow> \<not> is_submission (lr_body r) \<Longrightarrow>
     lr_hash r = se_row_hash E (al_rows L1) (lr_body r) \<Longrightarrow> submission_run E L (ledger_snoc L1 r)"

lemma submission_run_refines:
  assumes "submission_run E L L'" "chain_grows E" "replay_submissions E L = Inr p"
  shows "\<exists>p'. replay_submissions E L' = Inr p' \<and> reservation_step\<^sup>*\<^sup>* (reservations_of p) (reservations_of p')"
  using assms(1,3)
proof (induction rule: submission_run.induct)
  case (sub_start L)
  then show ?case by blast
next
  case (sub_begin L L1 F account cl revision at_ms)
  then obtain p1 where p1: "replay_submissions E L1 = Inr p1"
    "reservation_step\<^sup>*\<^sup>* (reservations_of p) (reservations_of p1)" by blast
  from begin_extends [OF p1(1)] obtain p2
    where "submission_extends E L1 p1 (snd (submission_begin E F account cl revision at_ms L1)) p2" by blast
  from extends_replays [OF assms(2) p1(1) this] p1(2) show ?case by (auto intro: rtranclp.rtrancl_into_rtrancl)
next
  case (sub_resolve L L1 F c resolution at_ms)
  then obtain p1 where p1: "replay_submissions E L1 = Inr p1"
    "reservation_step\<^sup>*\<^sup>* (reservations_of p) (reservations_of p1)" by blast
  from resolve_extends [OF p1(1)] obtain p2
    where "submission_extends E L1 p1 (snd (submission_resolve E F c resolution at_ms L1)) p2" by blast
  from extends_replays [OF assms(2) p1(1) this] p1(2) show ?case by (auto intro: rtranclp.rtrancl_into_rtrancl)
next
  case (sub_other L L1 r)
  then obtain p1 where p1: "replay_submissions E L1 = Inr p1"
    "reservation_step\<^sup>*\<^sup>* (reservations_of p) (reservations_of p1)" by blast
  from extends_replays [OF assms(2) p1(1) other_row_extends] sub_other p1(2)
  show ?case by (auto intro: rtranclp.rtrancl_into_rtrancl)
qed

lemma reservation_steps_keep:
  assumes "reservation_step\<^sup>*\<^sup>* z z'"
  shows "rz_starts z k = Some c \<Longrightarrow> rz_starts z' k = Some c" "rz_used z \<subseteq> rz_used z'" "rz_resolved z \<subseteq> rz_resolved z'"
proof -
  have step: "(rz_starts z k = Some c \<longrightarrow> rz_starts z' k = Some c) \<and> rz_used z \<subseteq> rz_used z' \<and> rz_resolved z \<subseteq> rz_resolved z'"
    if "reservation_step z z'" for z z'
    using that by (cases rule: reservation_step.cases) auto
  from assms have "(rz_starts z k = Some c \<longrightarrow> rz_starts z' k = Some c) \<and> rz_used z \<subseteq> rz_used z' \<and> rz_resolved z \<subseteq> rz_resolved z'"
    by (induction rule: rtranclp_induct) (use step in blast)+
  then show "rz_starts z k = Some c \<Longrightarrow> rz_starts z' k = Some c" "rz_used z \<subseteq> rz_used z'" "rz_resolved z \<subseteq> rz_resolved z'"
    by blast+
qed

text \<open>A start that replayed once stays, and its account stays taken until a resolution of it is there.\<close>

lemma start_stays:
  assumes "chain_grows E" "replay_submissions E L = Inr p" "sr_starts p (sc_seq c) = Some c" "submission_run E L L'"
  obtains p' where "replay_submissions E L' = Inr p'" "sr_starts p' (sc_seq c) = Some c"
    "start_ok (length (al_rows L')) p' (sc_seq c) c" "set (sr_resolved p) \<subseteq> set (sr_resolved p')"
proof -
  from submission_run_refines [OF assms(4,1,2)] obtain p' where p': "replay_submissions E L' = Inr p'"
    "reservation_step\<^sup>*\<^sup>* (reservations_of p) (reservations_of p')" by blast
  from reservation_steps_keep(1,3) [OF p'(2)] assms(3)
  have c: "sr_starts p' (sc_seq c) = Some c" and sub: "set (sr_resolved p) \<subseteq> set (sr_resolved p')"
    by (simp_all add: reservations_of_def)
  with p'(1) started_ok [OF replay_submissions_refines(1) [OF p'(1)] c] show ?thesis by (intro that)
qed

definition resolution_recorded :: "approval_ledger \<Rightarrow> nat \<Rightarrow> bool" where
  "resolution_recorded L seq =
     list_ex (\<lambda>r. case lr_body r of RbSubmission _ (Some (SbResolved x)) \<Rightarrow> rs_start_seq x = seq | _ \<Rightarrow> False) (al_rows L)"

lemma row_resolved_recorded:
  assumes "submission_row E L n r p = Inr p'" "\<And>k c. sr_starts p k = Some c \<Longrightarrow> sc_seq c = k"
    and "k \<in> set (sr_resolved p')" "k \<notin> set (sr_resolved p)"
  shows "case lr_body r of RbSubmission _ (Some (SbResolved x)) \<Rightarrow> rs_start_seq x = k | _ \<Rightarrow> False"
proof (cases "\<exists>agent b. lr_body r = RbSubmission (Some agent) (Some b)")
  case False
  with assms(1) have "p' = p" by (auto simp: submission_row_def result_inv split: row_body.splits)
  with assms(3,4) show ?thesis by simp
next
  case True
  then obtain agent b where "lr_body r = RbSubmission (Some agent) (Some b)" by blast
  with assms show ?thesis
    by (cases b) (auto simp: submission_row_def elim!: replay_started_Inr replay_resolved_Inr)
qed

lemma rows_resolved_recorded:
  assumes "submission_rows E L (Suc n) rs p = Inr p'" "replay_ok n p" "k \<in> set (sr_resolved p')" "k \<notin> set (sr_resolved p)"
  shows "list_ex (\<lambda>r. case lr_body r of RbSubmission _ (Some (SbResolved x)) \<Rightarrow> rs_start_seq x = k | _ \<Rightarrow> False) rs"
  using assms
proof (induction rs arbitrary: n p)
  case Nil
  then show ?case by simp
next
  case (Cons r rs)
  then obtain p1 where p1: "submission_row E L (Suc n) r p = Inr p1" "submission_rows E L (Suc (Suc n)) rs p1 = Inr p'"
    by (auto simp: result_inv)
  have seqs: "\<And>k c. sr_starts p k = Some c \<Longrightarrow> sc_seq c = k"
    using started_ok [OF Cons.prems(2)] by (auto simp: start_ok_def)
  have "replay_ok (Suc n) p1" using submission_row_refines [OF Cons.prems(2) p1(1)] by simp
  with Cons.IH [OF p1(2)] Cons.prems(3) row_resolved_recorded [OF p1(1) seqs _ Cons.prems(4)] show ?case
    by (cases "k \<in> set (sr_resolved p1)") auto
qed

lemma resolved_recorded:
  assumes "replay_submissions E L = Inr p" "k \<in> set (sr_resolved p)"
  shows "resolution_recorded L k"
  using assms rows_resolved_recorded [OF _ replay_ok_default, of E L "al_rows L" p k]
  by (auto simp: replay_submissions_def resolution_recorded_def result_inv submission_replay_default_def)

lemma begin_reserves:
  assumes "chain_grows E" "submission_begin E F account cl revision at_ms L = (Inr c, L')"
  obtains p where "replay_submissions E L' = Inr p" "sr_starts p (sc_seq c) = Some c" "sd_account (sc_start c) = account"
    "sc_seq c = Suc (length (al_rows L))" "(account, sd_cloid (sc_start c)) \<in> set (sr_used p)"
    "ss_pending (state_of_account p account) = Some c"
  using assms(2)
proof (cases rule: begin_cases)
  case (reserved p d q)
  then have "d = c" by (auto split: option.splits)
  with reserved have "sd_account (sc_start c) = account" by (auto elim: submission_admit_Inr)
  with extends_replays(1) [OF assms(1) reserved(1,2)] reserved(4) \<open>d = c\<close> show ?thesis by (intro that [of "after_start c q p"]) simp_all
qed auto

section \<open>A concrete journal\<close>

text \<open>Rows whose hashes are their numbers, a walk that checks them, and two cleared orders of one account.\<close>

definition sample_submissions :: submission_env where
  "sample_submissions =
     \<lparr>se_genesis = ''g'',
      se_verify = (\<lambda>L. if list_all (\<lambda>i. lr_hash (al_rows L ! i) = nat_digits i) [0..<length (al_rows L)]
                      then Inr () else Inl ''broken''),
      se_evidence = None, se_admission = (\<lambda>_ _ _. Inr ()), se_row_hash = (\<lambda>rows _. nat_digits (length rows)),
      se_address_text = (\<lambda>_. ''a'')\<rparr>"

definition sample_clearance :: "string \<Rightarrow> clearance" where
  "sample_clearance c =
     \<lparr>cr_approval_review_digest = None, cr_agent = ''alpha'', cr_route = sample_route, cr_policy_revision = 4,
      cr_vault_address = None, cr_network = Testnet, cr_evaluated_at_ms = 1500,
      cr_kind = CkOrder \<lparr>co_symbol = ''BTC'', co_is_buy = True, co_px = 100, co_sz = 1, co_notional_usd = 100,
        co_reduce_only = False, co_slippage_bps = 0, co_reference_px = 100, co_slippage_reference_px = 100,
        co_cloid = Some (Cloid c), co_snapshot_id = None, co_snapshot_hash = None\<rparr>,
      cr_utilization = utilization_none_with_global 0\<rparr>"

definition sample_intents :: approval_ledger where
  "sample_intents =
     \<lparr>al_network = Testnet,
      al_rows = map (\<lambda>(h, b). \<lparr>lr_hash = h, lr_key = None, lr_body = b\<rparr>)
        [(''0'', RbOther), (''1'', RbOrderIntent (Some ''alpha'') (Some (sample_clearance ''c'', []))),
         (''2'', RbOrderIntent (Some ''alpha'') (Some (sample_clearance ''d'', [])))]\<rparr>"

lemma sample_chain_grows: "chain_grows sample_submissions"
  by (auto simp: chain_grows_def chain_readable_def sample_submissions_def nth_append is_ok_iff list_all_iff less_Suc_eq)

abbreviation sample_begin :: "string \<Rightarrow> nat \<Rightarrow> approval_ledger \<Rightarrow> (submission_error + submission_receipt) \<times> approval_ledger" where
  "sample_begin c revision \<equiv>
     submission_begin sample_submissions no_store_faults (Address [7]) (sample_clearance c) revision 1600"

abbreviation sample_release :: "submission_receipt \<Rightarrow> approval_ledger \<Rightarrow> (submission_error + unit) \<times> approval_ledger" where
  "sample_release c \<equiv> submission_resolve sample_submissions no_store_faults c (SrRejected ''no'') 1700"

definition sample_receipt :: "string \<Rightarrow> nat \<Rightarrow> nat \<Rightarrow> submission_receipt" where
  "sample_receipt c seq intent =
     \<lparr>sc_chain = ''g'', sc_seq = seq, sc_hash = nat_digits (seq - 1), sc_agent = ''alpha'',
      sc_start = \<lparr>sd_version = 1, sd_account = Address [7], sd_cloid = Cloid c, sd_intent_seq = intent,
                  sd_intent_hash = nat_digits (intent - 1)\<rparr>\<rparr>"

abbreviation receipt_c :: submission_receipt where "receipt_c \<equiv> sample_receipt ''c'' 4 2"
abbreviation receipt_d :: submission_receipt where "receipt_d \<equiv> sample_receipt ''d'' 6 3"

definition sample_reserved :: "string \<Rightarrow> submission_receipt \<Rightarrow> approval_ledger \<Rightarrow> approval_ledger" where
  "sample_reserved c receipt L =
     ledger_snoc L \<lparr>lr_hash = sc_hash receipt, lr_key = Some (''submission:a:'' @ c),
       lr_body = RbSubmission (Some ''alpha'') (Some (SbStarted (sc_start receipt)))\<rparr>"

definition ledger_c :: approval_ledger where
  "ledger_c = sample_reserved ''c'' receipt_c sample_intents"

definition ledger_free :: approval_ledger where
  "ledger_free =
     ledger_snoc ledger_c \<lparr>lr_hash = ''4'', lr_key = Some (''submission_resolved:4''),
       lr_body = RbSubmission (Some ''alpha'') (Some (SbResolved
         \<lparr>rs_version = 1, rs_account = Address [7], rs_start_seq = 4, rs_start_hash = ''3'',
          rs_outcome = SrRejected ''no''\<rparr>))\<rparr>"

definition ledger_d :: approval_ledger where
  "ledger_d = sample_reserved ''d'' receipt_d ledger_free"

lemma sample_no_evidence: "se_evidence sample_submissions = None"
  by (simp add: sample_submissions_def)

lemma sample_begin_c: "sample_begin ''c'' 0 sample_intents = (Inr receipt_c, ledger_c)"
  by code_simp

lemma sample_release_c: "sample_release receipt_c ledger_c = (Inr (), ledger_free)"
  by code_simp

lemma sample_begin_d: "sample_begin ''d'' 5 ledger_free = (Inr receipt_d, ledger_d)"
  by code_simp

section \<open>Properties\<close>



text \<open>
  C25: an account has at most one submission under way. After a reservation was given, another one on
  the same account is given only when the resolution of the first is on the ledger, and never with the
  same client order id, whatever happened in between.
\<close>

theorem one_submission_per_account:
  assumes "chain_grows E" "submission_begin E F account cl revision at_ms L = (Inr c, L1)" "submission_run E L1 L2"
    and again: "submission_begin E F' account cl' revision' at_ms' L2 = (Inr c', L3)"
  shows "resolution_recorded L2 (sc_seq c) \<and> sd_cloid (sc_start c') \<noteq> sd_cloid (sc_start c)"
proof -
  from assms(1,2) obtain p1 where p1: "replay_submissions E L1 = Inr p1" "sr_starts p1 (sc_seq c) = Some c"
    "sd_account (sc_start c) = account" by (rule begin_reserves)
  from assms(1) p1(1,2) assms(3) obtain p2 where p2: "replay_submissions E L2 = Inr p2"
    "start_ok (length (al_rows L2)) p2 (sc_seq c) c" by (rule start_stays)
  from again have "ss_pending (state_of_account p2 account) = None \<and> (account, sd_cloid (sc_start c')) \<notin> set (sr_used p2)"
  proof (cases rule: begin_cases)
    case (reserved p d q)
    with p2(1) have "submission_admit E F' L2 account cl' revision' at_ms' = Inr (sc_start c')" by (auto split: option.splits)
    then show ?thesis by (rule submission_admit_Inr) (use p2(1) in simp)
  qed auto
  with p2 p1(3) show ?thesis by (auto simp: start_ok_def intro: resolved_recorded)
qed

theorem one_submission_per_account_witness:
  "sample_begin ''c'' 0 sample_intents = (Inr receipt_c, ledger_c)
   \<and> fst (sample_begin ''d'' 4 ledger_c) = Inl (SxBusy ''c'')
   \<and> sample_begin ''d'' 5 ledger_free = (Inr receipt_d, ledger_d) \<and> resolution_recorded ledger_free 4"
proof -
  have busy: "fst (sample_begin ''d'' 4 ledger_c) = Inl (SxBusy ''c'')" by code_simp
  have "submission_run sample_submissions ledger_c (snd (sample_release receipt_c ledger_c))" by (intro submission_run.intros)
  then have "submission_run sample_submissions ledger_c ledger_free" by (simp add: sample_release_c)
  from one_submission_per_account [OF sample_chain_grows sample_begin_c this sample_begin_d]
  have "resolution_recorded ledger_free (sc_seq receipt_c)" by simp
  with busy show ?thesis by (simp add: sample_begin_c sample_begin_d sample_receipt_def)
qed

text \<open>
  A resolution releases its own reservation and nothing else, and repeating it is harmless. After
  it succeeds its submission is resolved, every account holds what it held before except that the one
  holding this very receipt is free, and resolving again, with any outcome, succeeds and adds nothing;
  so a late copy never frees an account that holds a newer submission.
\<close>

theorem resolution_releases_only_its_own:
  assumes "chain_grows E" "submission_resolve E F c resolution at_ms L = (Inr (), L')"
  shows "\<exists>p p'. replay_submissions E L = Inr p \<and> replay_submissions E L' = Inr p' \<and> sc_seq c \<in> set (sr_resolved p')
           \<and> (\<forall>a. ss_pending (state_of_account p' a) =
                  (if ss_pending (state_of_account p a) = Some c then None else ss_pending (state_of_account p a)))
           \<and> (ft_lock F' = None \<longrightarrow> submission_resolve E F' c resolution' at_ms' L' = (Inr (), L'))"
proof -
  have chain: "sc_chain c = se_genesis E" using assms(2) by (auto simp: submission_resolve_def split: if_splits)
  have again: "submission_resolve E F' c resolution' at_ms' L' = (Inr (), L')"
    if "ft_lock F' = None" "replay_submissions E L' = Inr p'" "sr_starts p' (sc_seq c) = Some c" "sc_seq c \<in> set (sr_resolved p')"
    for p' using that chain by (simp add: submission_resolve_def submission_open_def)
  from assms(2) show ?thesis
  proof (cases rule: resolve_cases)
    case (again p)
    note ok = replay_submissions_refines(1) [OF again(1)]
    have start: "sr_starts p (sc_seq c) = Some c"
      using assms(2) again(1) by (auto simp: submission_resolve_def submission_open_def split: if_splits option.splits)
    have "ss_pending (state_of_account p a) \<noteq> Some c" for a using pending_start [OF ok, of a c] again(2) by blast
    with again start chain show ?thesis by (auto simp: submission_resolve_def submission_open_def)
  next
    case (released p q)
    note replays = extends_replays(1) [OF assms(1) released(1,4)]
    have "start_ok (length (al_rows L)) p (sc_seq c) c"
      using replay_submissions_refines(1) [OF released(1)] released(2) by (rule started_ok)
    with released(3) have held: "ss_pending (state_of_account p (sd_account (sc_start c))) = Some c" by (simp add: start_ok_def)
    have own: "a = sd_account (sc_start c)" if "ss_pending (state_of_account p a) = Some c" for a
      using pending_start [OF replay_submissions_refines(1) [OF released(1)] that] by simp
    have "ss_pending (state_of_account (after_resolve (Suc (length (al_rows L))) c q p) a) =
        (if ss_pending (state_of_account p a) = Some c then None else ss_pending (state_of_account p a))" for a
    proof (cases "a = sd_account (sc_start c)")
      case True
      with held show ?thesis by simp
    next
      case False
      with own have "ss_pending (state_of_account p a) \<noteq> Some c" by blast
      with False show ?thesis by simp
    qed
    with released(1,2) replays again [OF _ replays] show ?thesis by simp
  qed simp
qed

theorem resolution_releases_only_its_own_witness:
  "sample_release receipt_c ledger_d = (Inr (), ledger_d) \<and>
   (\<exists>p. replay_submissions sample_submissions ledger_d = Inr p
        \<and> ss_pending (state_of_account p (Address [7])) = Some receipt_d)"
proof -
  have late: "sample_release receipt_c ledger_d = (Inr (), ledger_d)" by code_simp
  have held: "map_sum (\<lambda>e. ()) ss_pending (submission_state_in sample_submissions no_store_faults ledger_d (Address [7]))
      = Inr (Some receipt_d)" by code_simp
  from resolution_releases_only_its_own [OF sample_chain_grows late, of no_store_faults "SrRejected ''no''" 0]
  obtain p where p: "replay_submissions sample_submissions ledger_d = Inr p" "sc_seq receipt_c \<in> set (sr_resolved p)" by auto
  have "submission_state_in sample_submissions no_store_faults ledger_d (Address [7]) = Inr (state_of_account p (Address [7]))"
    by (simp add: submission_state_in_def submission_open_def check_evidence_def p(1) sample_no_evidence no_store_faults_def)
  with held have "ss_pending (state_of_account p (Address [7])) = Some receipt_d" by simp
  with p late show ?thesis by blast
qed

text \<open>
  C26: a failed reservation either left the ledger as it was, or only its acknowledgement was lost. In
  that case the error is the fault of the store after the commit, and the account stays reserved: no
  later reservation on it succeeds, whatever happens, until the resolution of that row is on the ledger.
\<close>

theorem failed_begin_leaves_nothing_or_a_reservation:
  assumes "chain_grows E" "submission_begin E F account cl revision at_ms L = (Inl e, L')" "L' \<noteq> L"
  shows "(\<exists>fault. ft_note_after F = Some fault \<and> e = SxLedger fault)
         \<and> (\<forall>L2 F' cl' revision' at_ms'. submission_run E L' L2 \<longrightarrow>
              is_ok (fst (submission_begin E F' account cl' revision' at_ms' L2)) \<longrightarrow>
              resolution_recorded L2 (Suc (length (al_rows L))))"
  using assms(2)
proof (cases rule: begin_cases)
  case (reserved p c q)
  have account: "sd_account (sc_start c) = account" using reserved(3) by (auto elim: submission_admit_Inr)
  have start: "sr_starts (after_start c q p) (sc_seq c) = Some c" by simp
  have "resolution_recorded L2 (sc_seq c)"
    if run: "submission_run E L' L2" and ok: "is_ok (fst (submission_begin E F' account cl' revision' at_ms' L2))"
    for L2 F' cl' revision' at_ms'
  proof -
    from assms(1) extends_replays(1) [OF assms(1) reserved(1,2)] start run obtain p2
      where p2: "replay_submissions E L2 = Inr p2" "start_ok (length (al_rows L2)) p2 (sc_seq c) c" by (rule start_stays)
    from ok obtain start' where "submission_admit E F' L2 account cl' revision' at_ms' = Inr start'"
      by (auto simp: submission_begin_def is_ok_iff split: sum.splits)
    then have "ss_pending (state_of_account p2 account) = None" by (rule submission_admit_Inr) (use p2(1) in simp)
    with p2 account show ?thesis by (auto simp: start_ok_def intro: resolved_recorded)
  qed
  with reserved(4,5) show ?thesis by (auto split: option.splits)
qed (use assms(3) in simp)

theorem failed_begin_leaves_nothing_or_a_reservation_witness:
  "let lost = no_store_faults\<lparr>ft_note_after := Some ''anchor''\<rparr>;
       b = submission_begin sample_submissions lost (Address [7]) (sample_clearance ''c'') 0 1600 sample_intents
   in \<not> is_ok (fst b) \<and> \<not> is_ok (fst (sample_begin ''d'' 4 (snd b)))"
proof -
  let ?b = "submission_begin sample_submissions (no_store_faults\<lparr>ft_note_after := Some ''anchor''\<rparr>) (Address [7])
      (sample_clearance ''c'') 0 1600 sample_intents"
  have err: "\<not> is_ok (fst ?b)" by code_simp
  then have b: "?b = (Inl (projl (fst ?b)), snd ?b)" by (cases "fst ?b") (auto simp: prod_eq_iff is_ok_iff)
  have "length (al_rows (snd ?b)) = 4" "length (al_rows sample_intents) = 3" by code_simp+
  then have added: "snd ?b \<noteq> sample_intents" by force
  have "\<not> resolution_recorded (snd ?b) 4" by code_simp
  then have open_row: "\<not> resolution_recorded (snd ?b) (Suc (length (al_rows sample_intents)))"
    by (simp add: \<open>length (al_rows sample_intents) = 3\<close>)
  from failed_begin_leaves_nothing_or_a_reservation [OF sample_chain_grows b added] open_row submission_run.sub_start
  have "\<not> is_ok (fst (sample_begin ''d'' 4 (snd ?b)))" by blast
  with err show ?thesis by (simp add: Let_def)
qed

end
