(* ===== verification/Candle_Interval.thy ===== *)
theory Candle_Interval
  imports Prelude
begin

text \<open>
  \<open>candles.rs\<close>, the time axis: interval strings, their canonical form, which of the three cases a
  requested interval falls into, and epoch-aligned buckets. An \<open>i64\<close> is an \<open>int\<close> with the saturation of
  the code written out; text is a list of one-byte characters.
\<close>

section \<open>Intervals\<close>

definition sat_i64 :: "int \<Rightarrow> int" where
  "sat_i64 x = max (- (2 ^ 63)) (min x (2 ^ 63 - 1))"

definition as_u32 :: "int \<Rightarrow> nat" where
  "as_u32 x = nat (x mod 2 ^ 32)"

definition MS_PER_SECOND :: int where "MS_PER_SECOND = 1000"
definition MONTH_MS :: int where "MONTH_MS = 30 * 24 * 60 * 60 * MS_PER_SECOND"
definition MAX_INTERVAL_MS :: int where "MAX_INTERVAL_MS = MONTH_MS"
definition LOCAL_RETENTION_MS :: int where "LOCAL_RETENTION_MS = 30 * 24 * 60 * 60 * MS_PER_SECOND"
definition MAX_FILL_BARS :: int where "MAX_FILL_BARS = 10000"
definition MIN_TIME_MS :: int where "MIN_TIME_MS = 0"
definition MAX_TIME_MS :: int where "MAX_TIME_MS = 253402300799999"
definition VENUE_HISTORY_INTERVALS :: nat where "VENUE_HISTORY_INTERVALS = 5000"

datatype interval_unit = Second | Minute | Hour | Day | Week | Month

fun unit_millis :: "interval_unit \<Rightarrow> int" where
  "unit_millis Second = MS_PER_SECOND"
| "unit_millis Minute = 60 * MS_PER_SECOND"
| "unit_millis Hour = 60 * 60 * MS_PER_SECOND"
| "unit_millis Day = 24 * 60 * 60 * MS_PER_SECOND"
| "unit_millis Week = 7 * 24 * 60 * 60 * MS_PER_SECOND"
| "unit_millis Month = MONTH_MS"

fun unit_suffix :: "interval_unit \<Rightarrow> char" where
  "unit_suffix Second = CHR ''s''"
| "unit_suffix Minute = CHR ''m''"
| "unit_suffix Hour = CHR ''h''"
| "unit_suffix Day = CHR ''d''"
| "unit_suffix Week = CHR ''w''"
| "unit_suffix Month = CHR ''M''"

definition unit_from_suffix :: "char \<Rightarrow> interval_unit option" where
  "unit_from_suffix c =
     (if c = CHR ''s'' then Some Second
      else if c = CHR ''m'' then Some Minute
      else if c = CHR ''h'' then Some Hour
      else if c = CHR ''d'' then Some Day
      else if c = CHR ''w'' then Some Week
      else if c = CHR ''M'' then Some Month
      else None)"

record interval =
  iv_count :: nat
  iv_unit :: interval_unit

definition known :: "nat \<Rightarrow> interval_unit \<Rightarrow> interval" where
  "known count unit = \<lparr>iv_count = count, iv_unit = unit\<rparr>"

definition NATIVE_INTERVALS :: "interval list" where
  "NATIVE_INTERVALS =
     [known 1 Minute, known 3 Minute, known 5 Minute, known 15 Minute, known 30 Minute, known 1 Hour, known 2 Hour,
      known 4 Hour, known 8 Hour, known 12 Hour, known 1 Day, known 3 Day, known 1 Week, known 1 Month]"

datatype interval_error =
    IeEmpty
  | IeMissingCount string
  | IeNotAnInteger string
  | IeUnknownUnit char
  | IeZero
  | IeTooLarge string

definition interval_millis :: "interval \<Rightarrow> int" where
  "interval_millis i = int (iv_count i) * unit_millis (iv_unit i)"

text \<open>The order of intervals is the order of their widths.\<close>

definition interval_le :: "interval \<Rightarrow> interval \<Rightarrow> bool" where
  "interval_le i j = (interval_millis i \<le> interval_millis j)"

definition interval_canonical :: "int \<Rightarrow> interval" where
  "interval_canonical millis =
     (case find (\<lambda>u. millis mod unit_millis u = 0) [Month, Week, Day, Hour, Minute] of
        Some u \<Rightarrow> known (as_u32 (millis div unit_millis u)) u
      | None \<Rightarrow> known (as_u32 (millis div MS_PER_SECOND)) Second)"

definition is_ascii_digit :: "char \<Rightarrow> bool" where
  "is_ascii_digit c = (48 \<le> (of_char c :: nat) \<and> (of_char c :: nat) \<le> 57)"

definition interval_parse :: "string \<Rightarrow> interval_error + interval" where
  "interval_parse input =
     (if input = [] then Inl IeEmpty
      else let suffix = List.last input; digits = butlast input in
        rbind (ok_or (IeUnknownUnit suffix) (unit_from_suffix suffix)) (\<lambda>unit.
        rbind (ensure (digits \<noteq> []) (IeMissingCount input)) (\<lambda>_.
        rbind (ensure (list_all is_ascii_digit digits) (IeNotAnInteger digits)) (\<lambda>_.
        let count = digits_value 0 digits in
        rbind (ensure (count \<le> U32_MAX) (IeTooLarge input)) (\<lambda>_.
        rbind (ensure (count \<noteq> 0) IeZero) (\<lambda>_.
        let millis = int count * unit_millis unit in
        rbind (ensure (millis \<le> 2 ^ 63 - 1) (IeTooLarge input)) (\<lambda>_.
        rbind (ensure (\<not> millis > MAX_INTERVAL_MS) (IeTooLarge input)) (\<lambda>_.
        Inr (interval_canonical millis)))))))))"

definition interval_to_string :: "interval \<Rightarrow> string" where
  "interval_to_string i = nat_digits (iv_count i) @ [unit_suffix (iv_unit i)]"

section \<open>The three cases\<close>

datatype horizon = HzFull | HzRolling nat

definition span_ms :: "horizon \<Rightarrow> interval \<Rightarrow> int option" where
  "span_ms h i = (case h of HzFull \<Rightarrow> None | HzRolling intervals \<Rightarrow> Some (sat_i64 (int intervals * interval_millis i)))"

datatype local_reason = SubMinute | NotAMultipleOfAnyNative

datatype resolution =
    ReNative
  | ReResampled interval horizon
  | ReLocal local_reason

definition is_native :: "interval \<Rightarrow> bool" where
  "is_native i = (i \<in> set NATIVE_INTERVALS)"

definition venue_history :: "interval \<Rightarrow> horizon" where
  "venue_history i = (if interval_millis i \<ge> unit_millis Day then HzFull else HzRolling VENUE_HISTORY_INTERVALS)"

definition interval_resolve :: "interval \<Rightarrow> resolution" where
  "interval_resolve i =
     (if is_native i then ReNative
      else let millis = interval_millis i in
        if millis < unit_millis Minute then ReLocal SubMinute
        else case find (\<lambda>n. interval_millis n < millis \<and> millis mod interval_millis n = 0) (List.rev NATIVE_INTERVALS) of
               Some n \<Rightarrow> ReResampled n (venue_history n)
             | None \<Rightarrow> ReLocal NotAMultipleOfAnyNative)"

definition compact_span :: "int \<Rightarrow> string" where
  "compact_span ms =
     (let minute = 60 * MS_PER_SECOND; hour = 60 * minute; day = 24 * hour in
      if ms \<ge> day then nat_digits (nat (ms div day)) @ ''d''
      else if ms \<ge> hour then nat_digits (nat (ms div hour)) @ ''h''
      else nat_digits (nat (ms div minute)) @ ''m'')"

definition resolution_label :: "resolution \<Rightarrow> string" where
  "resolution_label r =
     (case r of
        ReNative \<Rightarrow> ''NATIVE''
      | ReResampled i h \<Rightarrow>
          (case span_ms h i of
             None \<Rightarrow> ''RESAMPLED FROM '' @ interval_to_string i
           | Some ms \<Rightarrow> ''RESAMPLED FROM '' @ interval_to_string i @ '' '' @ [CHR 0xB7] @ '' '' @ compact_span ms)
      | ReLocal _ \<Rightarrow> ''LOCAL '' @ [CHR 0xB7] @ '' FORWARD ONLY'')"

section \<open>Buckets\<close>

definition bucket_start_ms :: "interval \<Rightarrow> int \<Rightarrow> int" where
  "bucket_start_ms i t_ms = sat_i64 (t_ms div interval_millis i * interval_millis i)"

definition bucket_close_ms :: "interval \<Rightarrow> int \<Rightarrow> int" where
  "bucket_close_ms i t_ms = sat_i64 (bucket_start_ms i t_ms + (interval_millis i - 1))"

section \<open>Canonical intervals\<close>

lemma sat_i64_nonneg: "0 \<le> x \<Longrightarrow> 0 \<le> sat_i64 x"
  by (simp add: sat_i64_def)

lemma sat_i64_le: "0 \<le> x \<Longrightarrow> sat_i64 x \<le> x"
  by (simp add: sat_i64_def)

lemmas millis_consts = MS_PER_SECOND_def MONTH_MS_def MAX_INTERVAL_MS_def

lemma unit_millis_pos: "0 < unit_millis u"
  by (cases u) (simp_all add: millis_consts)

lemma unit_millis_inj: "unit_millis u = unit_millis v \<Longrightarrow> u = v"
  by (cases u; cases v) (simp_all add: millis_consts)

lemma unit_from_suffix_suffix: "unit_from_suffix (unit_suffix u) = Some u"
  by (cases u) (simp_all add: unit_from_suffix_def)

lemma unit_millis_seconds: "1000 dvd unit_millis u" "1000 \<le> unit_millis u"
  by (cases u; simp add: millis_consts)+

text \<open>What every runtime interval satisfies: it is the canonical form of an accepted width.\<close>

definition interval_wf :: "interval \<Rightarrow> bool" where
  "interval_wf i = (0 < interval_millis i \<and> interval_millis i \<le> MAX_INTERVAL_MS \<and> interval_canonical (interval_millis i) = i)"

lemma find_NoneD: "find P xs = None \<Longrightarrow> x \<in> set xs \<Longrightarrow> \<not> P x"
  by (auto simp: find_None_iff)

lemma find_unit_millis:
  "find (\<lambda>u. ms mod unit_millis u = 0) [Month, Week, Day, Hour, Minute] = Some u \<Longrightarrow> ms mod unit_millis u = 0"
  by (metis (mono_tags, lifting) find_Some_iff)

lemma canonical_millis:
  assumes "0 < ms" "ms \<le> MAX_INTERVAL_MS" "ms mod 1000 = 0"
  shows "interval_millis (interval_canonical ms) = ms"
proof -
  have exact: "int (as_u32 (ms div w)) * w = ms" if "ms mod w = 0" "1000 \<le> w" for w
  proof -
    have "ms div w \<le> ms div 1000" using that assms(1) by (intro zdiv_mono2) simp_all
    also have "\<dots> \<le> MAX_INTERVAL_MS div 1000" using assms(2) by (intro zdiv_mono1) simp_all
    finally have "ms div w < 2 ^ 32" by (simp add: millis_consts)
    moreover have "0 \<le> ms div w" using that assms(1) by (simp add: pos_imp_zdiv_nonneg_iff)
    ultimately have "int (as_u32 (ms div w)) = ms div w" by (simp add: as_u32_def)
    with that show ?thesis by auto
  qed
  show ?thesis
  proof (cases "find (\<lambda>u. ms mod unit_millis u = 0) [Month, Week, Day, Hour, Minute]")
    case None
    with exact [of 1000] assms(3) show ?thesis
      by (simp add: interval_canonical_def interval_millis_def known_def MS_PER_SECOND_def)
  next
    case (Some u)
    with exact [OF find_unit_millis [OF Some] unit_millis_seconds(2)] show ?thesis
      by (simp add: interval_canonical_def interval_millis_def known_def)
  qed
qed

lemma canonical_wf: "0 < ms \<Longrightarrow> ms \<le> MAX_INTERVAL_MS \<Longrightarrow> ms mod 1000 = 0 \<Longrightarrow> interval_wf (interval_canonical ms)"
  by (simp add: interval_wf_def canonical_millis)

lemma interval_wfD:
  assumes "interval_wf i"
  shows "1000 \<le> interval_millis i" "interval_millis i \<le> MAX_INTERVAL_MS" "interval_millis i mod 1000 = 0"
    "0 < iv_count i" "iv_count i \<le> U32_MAX"
proof -
  from assms have pos: "0 < interval_millis i" and le: "interval_millis i \<le> MAX_INTERVAL_MS"
    by (simp_all add: interval_wf_def)
  then show count: "0 < iv_count i" using unit_millis_pos [of "iv_unit i"]
    by (simp add: interval_millis_def zero_less_mult_iff)
  show "interval_millis i \<le> MAX_INTERVAL_MS" by (rule le)
  have "1000 dvd interval_millis i" unfolding interval_millis_def by (rule dvd_mult [OF unit_millis_seconds(1)])
  then show mod: "interval_millis i mod 1000 = 0" by simp
  with pos show "1000 \<le> interval_millis i" by (auto dest: zdvd_imp_le simp: mod_eq_0_iff_dvd)
  have "int (iv_count i) * 1000 \<le> interval_millis i"
    unfolding interval_millis_def by (intro mult_left_mono unit_millis_seconds) simp
  with le show "iv_count i \<le> U32_MAX" by (simp add: millis_consts U32_MAX_def)
qed

lemma native_wf: "list_all interval_wf NATIVE_INTERVALS"
  by code_simp

lemma native_sorted: "sorted_wrt (\<lambda>i j. interval_millis i < interval_millis j) NATIVE_INTERVALS"
  by code_simp

text \<open>Equal widths are equal intervals, so the order by width agrees with equality.\<close>

lemma interval_le_antisym:
  "interval_wf i \<Longrightarrow> interval_wf j \<Longrightarrow> interval_le i j \<Longrightarrow> interval_le j i \<Longrightarrow> i = j"
  by (metis interval_le_def interval_wf_def order_antisym)

section \<open>Text\<close>

lemma nat_digits_ascii: "list_all is_ascii_digit (nat_digits n)"
proof (induction n rule: nat_digits.induct)
  case (1 n)
  have digit: "is_ascii_digit (char_of (48 + d))" if "d < 10" for d :: nat
  proof -
    have "(48 + d) mod 256 = 48 + d" using that by simp
    with that show ?thesis by (simp add: is_ascii_digit_def)
  qed
  show ?case
  proof (cases "n < 10")
    case True
    with digit [OF True] show ?thesis by (simp add: nat_digits.simps [of n])
  next
    case False
    with 1 digit [of "n mod 10"] show ?thesis by (simp add: nat_digits.simps [of n])
  qed
qed

lemma nat_digits_nonempty: "nat_digits n \<noteq> []"
  by (subst nat_digits.simps) simp

lemma interval_parse_Inr:
  assumes "interval_parse s = Inr i"
  obtains u where "unit_from_suffix (List.last s) = Some u" "s \<noteq> []" "list_all is_ascii_digit (butlast s)"
    "interval_millis i = int (digits_value 0 (butlast s)) * unit_millis u" "interval_wf i"
proof -
  from assms obtain u where u: "unit_from_suffix (List.last s) = Some u" "s \<noteq> []" "list_all is_ascii_digit (butlast s)"
    and count: "digits_value 0 (butlast s) \<noteq> 0"
    and le: "int (digits_value 0 (butlast s)) * unit_millis u \<le> MAX_INTERVAL_MS"
    and i: "i = interval_canonical (int (digits_value 0 (butlast s)) * unit_millis u)"
    by (auto simp: interval_parse_def result_inv Let_def not_less split: if_splits)
  have pos: "0 < int (digits_value 0 (butlast s)) * unit_millis u"
    using count unit_millis_pos [of u] by (simp add: zero_less_mult_iff)
  have "1000 dvd int (digits_value 0 (butlast s)) * unit_millis u" by (rule dvd_mult [OF unit_millis_seconds(1)])
  with pos le i u that show ?thesis by (simp add: canonical_millis canonical_wf)
qed

lemma interval_parse_text: "interval_wf i \<Longrightarrow> interval_parse (interval_to_string i) = Inr i"
  using interval_wfD [of i]
  by (auto simp: interval_parse_def interval_to_string_def unit_from_suffix_suffix nat_digits_ascii nat_digits_nonempty
      digits_value_nat_digits ensure_def Let_def interval_wf_def millis_consts simp flip: interval_millis_def)

text \<open>
  Interval text round-trips. Every accepted interval text gives a canonical interval of at most a
  month whose width is the count times the unit that was written, and its own text parses back to it;
  so two spellings of one width are one interval.
\<close>

theorem interval_text_roundtrip:
  assumes "interval_parse s = Inr i"
  shows "interval_wf i \<and> interval_parse (interval_to_string i) = Inr i
         \<and> (\<exists>u. unit_from_suffix (List.last s) = Some u \<and> interval_millis i = int (digits_value 0 (butlast s)) * unit_millis u)
         \<and> (\<forall>s' j. interval_parse s' = Inr j \<and> interval_millis j = interval_millis i \<longrightarrow> j = i)"
proof -
  have same: "j = i" if "interval_wf j" "interval_wf i" "interval_millis j = interval_millis i" for j
    using that by (metis interval_wf_def)
  from assms obtain u where u: "unit_from_suffix (List.last s) = Some u"
    "interval_millis i = int (digits_value 0 (butlast s)) * unit_millis u" and wf: "interval_wf i" by (rule interval_parse_Inr)
  have "j = i" if "interval_parse s' = Inr j" "interval_millis j = interval_millis i" for s' j
    using that(1) by (rule interval_parse_Inr) (rule same [OF _ wf that(2)])
  with u wf interval_parse_text [OF wf] show ?thesis by blast
qed

theorem interval_text_roundtrip_witness:
  "interval_parse ''120s'' = Inr (known 2 Minute) \<and> interval_parse (interval_to_string (known 2 Minute)) = Inr (known 2 Minute)"
proof -
  have "interval_parse ''120s'' = Inr (known 2 Minute)" by code_simp
  from interval_text_roundtrip [OF this] this show ?thesis by simp
qed

text \<open>
  The resolution of an interval is exact. A native interval is on the venue's menu; a resampled one
  names the largest menu interval that divides it, which is narrower, with that one's history; the
  rest is below a minute or a multiple of no menu interval.
\<close>

theorem resolution_names_the_largest_divisor:
  assumes "interval_wf i"
  shows "case interval_resolve i of
           ReNative \<Rightarrow> i \<in> set NATIVE_INTERVALS
         | ReResampled n h \<Rightarrow> i \<notin> set NATIVE_INTERVALS \<and> n \<in> set NATIVE_INTERVALS
             \<and> interval_millis n dvd interval_millis i \<and> interval_millis n < interval_millis i \<and> h = venue_history n
             \<and> (\<forall>m \<in> set NATIVE_INTERVALS. interval_millis m dvd interval_millis i \<longrightarrow> interval_le m n)
         | ReLocal SubMinute \<Rightarrow> interval_millis i < unit_millis Minute
         | ReLocal NotAMultipleOfAnyNative \<Rightarrow> unit_millis Minute \<le> interval_millis i
             \<and> (\<forall>m \<in> set NATIVE_INTERVALS. \<not> interval_millis m dvd interval_millis i)"
proof -
  let ?ms = "interval_millis i"
  let ?P = "\<lambda>n. interval_millis n < ?ms \<and> ?ms mod interval_millis n = 0"
  have pos: "0 < ?ms" using assms by (simp add: interval_wf_def)
  have narrower: "interval_millis m < ?ms" if "m \<in> set NATIVE_INTERVALS" "interval_millis m dvd ?ms" "\<not> is_native i" for m
  proof -
    have "interval_wf m" using native_wf that(1) by (simp add: list_all_iff)
    with that assms have "interval_millis m \<noteq> ?ms"
      by (metis interval_wf_def is_native_def)
    with zdvd_imp_le [OF that(2) pos] show ?thesis by simp
  qed
  show ?thesis
  proof (cases "is_native i \<or> ?ms < unit_millis Minute")
    case True
    then show ?thesis by (auto simp: interval_resolve_def is_native_def)
  next
    case False
    show ?thesis
    proof (cases "find ?P (List.rev NATIVE_INTERVALS)")
      case None
      with False have "interval_resolve i = ReLocal NotAMultipleOfAnyNative"
        by (simp add: interval_resolve_def Let_def)
      moreover have "\<not> interval_millis m dvd ?ms" if "m \<in> set NATIVE_INTERVALS" for m
      proof
        assume "interval_millis m dvd ?ms"
        with narrower [OF that this] False have "?P m" by simp
        moreover have "\<not> ?P m" by (rule find_NoneD [OF None]) (simp add: that)
        ultimately show False by contradiction
      qed
      ultimately show ?thesis using False by (simp add: not_less)
    next
      case (Some n)
      then obtain k where k: "k < length NATIVE_INTERVALS" "?P n" "n = List.rev NATIVE_INTERVALS ! k"
        "\<forall>j < k. \<not> ?P (List.rev NATIVE_INTERVALS ! j)"
        by (auto simp: find_Some_iff)
      have "interval_le m n" if m: "m \<in> set NATIVE_INTERVALS" "interval_millis m dvd ?ms" for m
      proof -
        have Pm: "?P m" using narrower [OF m] False m(2) by simp
        from m(1) obtain j where j: "j < length NATIVE_INTERVALS" "m = List.rev NATIVE_INTERVALS ! j"
          by (metis in_set_conv_nth length_rev set_rev)
        with Pm k(4) have "k \<le> j" by (meson leI)
        moreover have "sorted_wrt (\<lambda>a b. interval_millis b < interval_millis a) (List.rev NATIVE_INTERVALS)"
          using native_sorted by (simp add: sorted_wrt_rev)
        ultimately show ?thesis using j k(3) sorted_wrt_nth_less [of "\<lambda>a b. interval_millis b < interval_millis a" _ k j]
          by (cases "k = j") (auto simp: interval_le_def intro: less_imp_le)
      qed
      moreover have "n \<in> set NATIVE_INTERVALS" using k(1,3) by (metis length_rev nth_mem set_rev)
      moreover have "interval_resolve i = ReResampled n (venue_history n)"
        using Some False by (simp add: interval_resolve_def Let_def)
      ultimately show ?thesis using False k(2) by (simp add: is_native_def mod_eq_0_iff_dvd)
    qed
  qed
qed

theorem resolution_names_the_largest_divisor_witness:
  "interval_resolve (known 45 Minute) = ReResampled (known 15 Minute) (HzRolling 5000)
   \<and> (\<forall>m \<in> set NATIVE_INTERVALS. interval_millis m dvd interval_millis (known 45 Minute) \<longrightarrow> interval_le m (known 15 Minute))"
proof -
  have wf: "interval_wf (known 45 Minute)" by code_simp
  have r: "interval_resolve (known 45 Minute) = ReResampled (known 15 Minute) (HzRolling 5000)" by code_simp
  from resolution_names_the_largest_divisor [OF wf] r show ?thesis by simp
qed

section \<open>The time axis\<close>

lemma floor_multiple:
  fixes t w :: int
  assumes "0 < w" "0 \<le> t"
  shows "0 \<le> t div w * w" "t div w * w \<le> t" "t < t div w * w + w"
proof -
  have "t = t div w * w + t mod w" "0 \<le> t mod w" "t mod w < w" using assms by simp_all
  then show "t div w * w \<le> t" "t < t div w * w + w" by linarith+
  show "0 \<le> t div w * w" using assms by (simp add: pos_imp_zdiv_nonneg_iff)
qed

lemma bucket_start_exact:
  assumes "interval_wf i" "0 \<le> t" "t \<le> MAX_TIME_MS + MAX_INTERVAL_MS"
  shows "bucket_start_ms i t = t div interval_millis i * interval_millis i"
proof -
  note w = interval_wfD(1) [OF assms(1)]
  have "t div interval_millis i * interval_millis i \<le> t" "0 \<le> t div interval_millis i * interval_millis i"
    using w assms(2) floor_multiple [of "interval_millis i" t] by linarith+
  with assms(3) show ?thesis by (simp add: bucket_start_ms_def sat_i64_def MAX_TIME_MS_def millis_consts)
qed

lemma bucket_close_exact:
  assumes "interval_wf i" "0 \<le> t" "t \<le> MAX_TIME_MS + MAX_INTERVAL_MS"
  shows "bucket_close_ms i t = bucket_start_ms i t + interval_millis i - 1"
proof -
  note w = interval_wfD(1,2) [OF assms(1)]
  have "t div interval_millis i * interval_millis i \<le> t" "0 \<le> t div interval_millis i * interval_millis i"
    using w assms(2) floor_multiple [of "interval_millis i" t] by linarith+
  with assms(3) w show ?thesis
    by (simp add: bucket_close_ms_def bucket_start_exact [OF assms] sat_i64_def MAX_TIME_MS_def millis_consts)
qed

text \<open>
  Buckets partition the time axis. Every accepted time lies in exactly one aligned bucket, from its
  start to its close, the buckets of an interval are one width long and follow on without gap, and
  neither bound saturates.
\<close>

theorem buckets_partition_time:
  assumes "interval_wf i" "MIN_TIME_MS \<le> t" "t \<le> MAX_TIME_MS"
  shows "bucket_start_ms i t \<le> t \<and> t \<le> bucket_close_ms i t \<and> interval_millis i dvd bucket_start_ms i t
         \<and> bucket_close_ms i t = bucket_start_ms i t + interval_millis i - 1
         \<and> bucket_start_ms i (bucket_close_ms i t + 1) = bucket_close_ms i t + 1
         \<and> (\<forall>s. interval_millis i dvd s \<and> s \<le> t \<and> t \<le> s + interval_millis i - 1 \<longrightarrow> s = bucket_start_ms i t)"
proof -
  note w = interval_wfD(1,2) [OF assms(1)]
  let ?w = "interval_millis i"
  have t: "0 \<le> t" "t \<le> MAX_TIME_MS + MAX_INTERVAL_MS" using assms w by (simp_all add: MIN_TIME_MS_def)
  note start = bucket_start_exact [OF assms(1) t] and close = bucket_close_exact [OF assms(1) t]
  have parts: "0 \<le> t div ?w * ?w" "t div ?w * ?w \<le> t" "t < t div ?w * ?w + ?w"
    using floor_multiple [of ?w t] w t(1) by linarith+
  have next_start: "bucket_start_ms i (bucket_close_ms i t + 1) = bucket_close_ms i t + 1"
  proof -
    have range: "0 \<le> bucket_close_ms i t + 1" "bucket_close_ms i t + 1 \<le> MAX_TIME_MS + MAX_INTERVAL_MS"
      using close start parts w assms(3) t(1) by linarith+
    have "bucket_close_ms i t + 1 = (t div ?w + 1) * ?w" using close start by (simp add: algebra_simps)
    with bucket_start_exact [OF assms(1) range] w show ?thesis by simp
  qed
  have only: "s = bucket_start_ms i t" if s: "?w dvd s" "s \<le> t" "t \<le> s + ?w - 1" for s
  proof -
    obtain k where k: "s = ?w * k" using s(1) by blast
    have "t div ?w = k"
      by (rule int_div_pos_eq [where r = "t - s"]) (use s k in simp_all)
    with start k show ?thesis by simp
  qed
  show ?thesis using start close parts next_start only by auto
qed

theorem buckets_partition_time_witness:
  "bucket_start_ms (known 90 Second) 1000000 = 990000 \<and> bucket_close_ms (known 90 Second) 1000000 = 1079999
   \<and> bucket_start_ms (known 90 Second) 1080000 = 1080000"
proof -
  have wf: "interval_wf (known 90 Second)" by code_simp
  have times: "MIN_TIME_MS \<le> 1000000" "1000000 \<le> MAX_TIME_MS" by (simp_all add: MIN_TIME_MS_def MAX_TIME_MS_def)
  have start: "bucket_start_ms (known 90 Second) 1000000 = 990000" by code_simp
  have width: "interval_millis (known 90 Second) = 90000" by code_simp
  note part = buckets_partition_time [OF wf times, unfolded start width]
  then have close: "bucket_close_ms (known 90 Second) 1000000 = 1079999" by simp
  from part have "bucket_start_ms (known 90 Second) (1079999 + 1) = 1079999 + 1" unfolding close by blast
  with start close show ?thesis by simp
qed

end
