(* ===== verification/Candles.thy ===== *)
theory Candles
  imports Candle_Interval
begin

text \<open>
  \<open>candles.rs\<close>, the bars: venue rows turned into bars, exact resampling into a coarser interval, and the
  aggregator that builds bars from trades. An outer \<open>None\<close> is the panic of an overflowing decimal sum.
\<close>

section \<open>Bars\<close>

datatype bar_source = SoVenue | SoResampled | SoLocal

fun source_as_str :: "bar_source \<Rightarrow> string" where
  "source_as_str SoVenue = ''venue''"
| "source_as_str SoResampled = ''resampled''"
| "source_as_str SoLocal = ''local''"

record bar =
  br_open_time_ms :: int
  br_close_time_ms :: int
  br_open :: decimal
  br_high :: decimal
  br_low :: decimal
  br_close :: decimal
  br_volume :: decimal
  br_trades :: nat

record candle =
  cn_t :: nat
  cn_t_close :: nat
  cn_i :: string
  cn_o :: decimal
  cn_h :: decimal
  cn_l :: decimal
  cn_c :: decimal
  cn_v :: decimal
  cn_n :: nat

datatype bar_error =
    BeIntervalMismatch string string
  | BeTimestamp nat
  | BeTradeTime int
  | BeMisaligned int string
  | BeWrongWidth int int int

definition checked_time_ms :: "nat \<Rightarrow> bar_error + int" where
  "checked_time_ms raw =
     rbind (ensure (raw \<le> I64_MAX) (BeTimestamp raw)) (\<lambda>_.
     rbind (ensure (MIN_TIME_MS \<le> int raw \<and> int raw \<le> MAX_TIME_MS) (BeTimestamp raw)) (\<lambda>_.
     Inr (int raw)))"

definition bar_from_candle :: "candle \<Rightarrow> bar_error + bar" where
  "bar_from_candle c =
     rbind (checked_time_ms (cn_t c)) (\<lambda>open_time.
     rbind (checked_time_ms (cn_t_close c)) (\<lambda>close_time.
     Inr \<lparr>br_open_time_ms = open_time, br_close_time_ms = close_time, br_open = cn_o c, br_high = cn_h c,
          br_low = cn_l c, br_close = cn_c c, br_volume = cn_v c, br_trades = cn_n c\<rparr>))"

definition bar_empty_at :: "int \<Rightarrow> int \<Rightarrow> decimal \<Rightarrow> bar" where
  "bar_empty_at open_time width price =
     \<lparr>br_open_time_ms = open_time, br_close_time_ms = sat_i64 (open_time + (width - 1)), br_open = price,
      br_high = price, br_low = price, br_close = price, br_volume = 0, br_trades = 0\<rparr>"

definition checked_bar :: "interval \<Rightarrow> candle \<Rightarrow> bar_error + bar" where
  "checked_bar i c =
     rbind (ensure (cn_i c = interval_to_string i) (BeIntervalMismatch (interval_to_string i) (cn_i c))) (\<lambda>_.
     rbind (bar_from_candle c) (\<lambda>b.
     rbind (ensure (br_open_time_ms b mod interval_millis i = 0) (BeMisaligned (br_open_time_ms b) (interval_to_string i))) (\<lambda>_.
     let actual = br_close_time_ms b - br_open_time_ms b + 1 in
     rbind (ensure (actual = interval_millis i) (BeWrongWidth (br_open_time_ms b) actual (interval_millis i))) (\<lambda>_.
     Inr b))))"

fun bars_from_candles :: "candle list \<Rightarrow> interval \<Rightarrow> bar_error + bar list" where
  "bars_from_candles [] i = Inr []"
| "bars_from_candles (c # cs) i =
     rbind (checked_bar i c) (\<lambda>b. rbind (bars_from_candles cs i) (\<lambda>bs. Inr (b # bs)))"

section \<open>Resampling\<close>

datatype resample_error =
    RxNotAMultiple string string
  | RxNotCoarser string string
  | RxMisaligned string int
  | RxOutOfOrder int
  | RxIncompleteBucket int int int

record pending_bucket =
  pk_bar :: bar
  pk_got :: int
  pk_opened_on_boundary :: bool
  pk_last_open_ms :: int

definition pending_seal :: "int \<Rightarrow> bool \<Rightarrow> pending_bucket \<Rightarrow> resample_error + bar option" where
  "pending_seal want leading_resolved q =
     (if pk_got q = want then Inr (Some (pk_bar q))
      else if \<not> leading_resolved \<and> \<not> pk_opened_on_boundary q then Inr None
      else Inl (RxIncompleteBucket (br_open_time_ms (pk_bar q)) (pk_got q) want))"

definition is_contiguous_prefix :: "int \<Rightarrow> pending_bucket \<Rightarrow> bool" where
  "is_contiguous_prefix source_ms q =
     (pk_last_open_ms q = sat_i64 (br_open_time_ms (pk_bar q) + sat_i64 (sat_i64 (pk_got q - 1) * source_ms)))"

record resample_state =
  rm_out :: "bar list"
  rm_pending :: "pending_bucket option"
  rm_previous_open :: "int option"
  rm_leading_resolved :: bool

definition sat_add_u32 :: "nat \<Rightarrow> nat \<Rightarrow> nat" where
  "sat_add_u32 a b = min (a + b) U32_MAX"

definition fold_bar :: "declib \<Rightarrow> bar \<Rightarrow> bar \<Rightarrow> bar option" where
  "fold_bar D current b =
     map_option (\<lambda>volume. current\<lparr>br_close := br_close b, br_high := max (br_high current) (br_high b),
        br_low := min (br_low current) (br_low b), br_volume := volume,
        br_trades := sat_add_u32 (br_trades current) (br_trades b)\<rparr>)
      (checked_add D (br_volume current) (br_volume b))"

definition pending_open :: "interval \<Rightarrow> int \<Rightarrow> bar \<Rightarrow> pending_bucket" where
  "pending_open target bucket b =
     \<lparr>pk_bar = b\<lparr>br_open_time_ms := bucket, br_close_time_ms := bucket_close_ms target bucket\<rparr>, pk_got = 1,
      pk_opened_on_boundary = (br_open_time_ms b = bucket), pk_last_open_ms = br_open_time_ms b\<rparr>"

definition resample_check :: "interval \<Rightarrow> bar \<Rightarrow> int option \<Rightarrow> resample_error + unit" where
  "resample_check source b previous =
     rbind (ensure (br_open_time_ms b mod interval_millis source = 0)
       (RxMisaligned (interval_to_string source) (br_open_time_ms b))) (\<lambda>_.
     ensure (\<not> is_some_and (\<lambda>p. br_open_time_ms b \<le> p) previous) (RxOutOfOrder (br_open_time_ms b)))"

definition resample_next :: "interval \<Rightarrow> int \<Rightarrow> bar \<Rightarrow> resample_state \<Rightarrow> resample_error + resample_state" where
  "resample_next target want b st =
     (let bucket = bucket_start_ms target (br_open_time_ms b);
          fresh = Some (pending_open target bucket b);
          seen = Some (br_open_time_ms b)
      in case rm_pending st of
           None \<Rightarrow> Inr (st\<lparr>rm_pending := fresh, rm_previous_open := seen\<rparr>)
         | Some q \<Rightarrow>
             rbind (pending_seal want (rm_leading_resolved st) q) (\<lambda>kept.
             Inr \<lparr>rm_out = rm_out st @ (case kept of Some k \<Rightarrow> [k] | None \<Rightarrow> []), rm_pending = fresh,
                  rm_previous_open = seen, rm_leading_resolved = True\<rparr>))"

definition resample_step ::
  "declib \<Rightarrow> interval \<Rightarrow> interval \<Rightarrow> int \<Rightarrow> bar \<Rightarrow> resample_state \<Rightarrow> (resample_error + resample_state) option" where
  "resample_step D source target want b st =
     (case resample_check source b (rm_previous_open st) of
        Inl e \<Rightarrow> Some (Inl e)
      | Inr _ \<Rightarrow>
          (case rm_pending st of
             Some q \<Rightarrow>
               if br_open_time_ms (pk_bar q) = bucket_start_ms target (br_open_time_ms b) then
                 map_option (\<lambda>folded.
                   Inr (st\<lparr>rm_pending := Some (q\<lparr>pk_bar := folded, pk_got := pk_got q + 1,
                                                 pk_last_open_ms := br_open_time_ms b\<rparr>),
                           rm_previous_open := Some (br_open_time_ms b)\<rparr>))
                  (fold_bar D (pk_bar q) b)
               else Some (resample_next target want b st)
           | None \<Rightarrow> Some (resample_next target want b st)))"

fun resample_loop ::
  "declib \<Rightarrow> interval \<Rightarrow> interval \<Rightarrow> int \<Rightarrow> bar list \<Rightarrow> resample_state \<Rightarrow> (resample_error + resample_state) option" where
  "resample_loop D source target want [] st = Some (Inr st)"
| "resample_loop D source target want (b # bs) st =
     Option.bind (resample_step D source target want b st)
       (\<lambda>r. case r of Inl e \<Rightarrow> Some (Inl e) | Inr st' \<Rightarrow> resample_loop D source target want bs st')"

definition resample_finish :: "int \<Rightarrow> int \<Rightarrow> resample_state \<Rightarrow> resample_error + bar list" where
  "resample_finish source_ms want st =
     (case rm_pending st of
        None \<Rightarrow> Inr (rm_out st)
      | Some q \<Rightarrow>
          if rm_leading_resolved st \<or> pk_opened_on_boundary q then
            (if \<not> is_contiguous_prefix source_ms q
             then Inl (RxIncompleteBucket (br_open_time_ms (pk_bar q)) (pk_got q) want)
             else Inr (rm_out st @ [pk_bar q]))
          else Inr (rm_out st))"

definition resample :: "declib \<Rightarrow> bar list \<Rightarrow> interval \<Rightarrow> interval \<Rightarrow> (resample_error + bar list) option" where
  "resample D source_bars source target =
     (let source_ms = interval_millis source; target_ms = interval_millis target;
          s = interval_to_string source; t = interval_to_string target
      in if target_ms \<le> source_ms then Some (Inl (RxNotCoarser s t))
         else if target_ms mod source_ms \<noteq> 0 then Some (Inl (RxNotAMultiple s t))
         else let want = target_ms div source_ms in
           map_option (\<lambda>r. rbind r (\<lambda>st. resample_finish source_ms want st))
             (resample_loop D source target want source_bars
               \<lparr>rm_out = [], rm_pending = None, rm_previous_open = None, rm_leading_resolved = False\<rparr>))"

section \<open>The local aggregator\<close>

record trade =
  td_time_ms :: int
  td_price :: decimal
  td_size :: decimal

definition trade_checked :: "int \<Rightarrow> decimal \<Rightarrow> decimal \<Rightarrow> bar_error + trade" where
  "trade_checked time_ms price sz =
     rbind (ensure (MIN_TIME_MS \<le> time_ms \<and> time_ms \<le> MAX_TIME_MS) (BeTradeTime time_ms)) (\<lambda>_.
     Inr \<lparr>td_time_ms = time_ms, td_price = price, td_size = sz\<rparr>)"

record local_aggregator =
  la_interval :: interval
  la_no_history_before_ms :: int
  la_accepts_from_ms :: int
  la_bucket :: "int option"
  la_newest_bucket_ms :: "int option"
  la_forming :: "bar option"
  la_last_close :: "decimal option"
  la_late :: nat
  la_before_history :: nat
  la_skipped_fills :: nat
  la_out_of_range :: nat
  la_gaps :: nat

definition clamp_time :: "int \<Rightarrow> int" where
  "clamp_time t = max MIN_TIME_MS (min t MAX_TIME_MS)"

definition first_whole_bucket :: "interval \<Rightarrow> int \<Rightarrow> int" where
  "first_whole_bucket i from_ms =
     (let t = clamp_time from_ms; start = bucket_start_ms i t in
      if start = t then start else sat_i64 (start + interval_millis i))"

definition aggregator_new :: "interval \<Rightarrow> int \<Rightarrow> local_aggregator" where
  "aggregator_new i listening_since_ms =
     \<lparr>la_interval = i, la_no_history_before_ms = first_whole_bucket i listening_since_ms,
      la_accepts_from_ms = first_whole_bucket i listening_since_ms, la_bucket = None, la_newest_bucket_ms = None,
      la_forming = None, la_last_close = None, la_late = 0, la_before_history = 0, la_skipped_fills = 0,
      la_out_of_range = 0, la_gaps = 0\<rparr>"

definition aggregator_resume :: "interval \<Rightarrow> int \<Rightarrow> int \<Rightarrow> decimal option \<Rightarrow> local_aggregator" where
  "aggregator_resume i listening_since_ms no_history_before_ms last_close =
     (aggregator_new i listening_since_ms)
       \<lparr>la_no_history_before_ms := no_history_before_ms, la_last_close := last_close\<rparr>"

definition feed_interrupted :: "local_aggregator \<Rightarrow> local_aggregator" where
  "feed_interrupted a =
     a\<lparr>la_gaps := (if la_bucket a \<noteq> None \<or> la_forming a \<noteq> None then la_gaps a + 1 else la_gaps a),
       la_bucket := None, la_forming := None\<rparr>"

definition forming_bar :: "local_aggregator \<Rightarrow> bar option" where
  "forming_bar a =
     (case la_forming a of
        Some b \<Rightarrow> Some b
      | None \<Rightarrow>
          Option.bind (la_bucket a) (\<lambda>open_time.
          Option.bind (la_last_close a) (\<lambda>close.
          Some (bar_empty_at open_time (interval_millis (la_interval a)) close))))"

definition enter_bucket :: "int \<Rightarrow> local_aggregator \<Rightarrow> local_aggregator" where
  "enter_bucket target a =
     a\<lparr>la_bucket := Some target,
       la_newest_bucket_ms := Some (case la_newest_bucket_ms a of None \<Rightarrow> target | Some n \<Rightarrow> max n target)\<rparr>"

text \<open>What closing \<open>current\<close> emits, and the close it leaves behind.\<close>

definition close_current :: "int \<Rightarrow> int \<Rightarrow> local_aggregator \<Rightarrow> bar list \<times> local_aggregator" where
  "close_current current fill_through a =
     (case la_forming a of
        Some b \<Rightarrow> ([b], a\<lparr>la_last_close := Some (br_close b), la_forming := None\<rparr>)
      | None \<Rightarrow>
          (case la_last_close a of
             Some close \<Rightarrow>
               (if current \<le> fill_through then [bar_empty_at current (interval_millis (la_interval a)) close] else [], a)
           | None \<Rightarrow> ([], a)))"

text \<open>Division of \<open>i64\<close> rounds toward zero.\<close>

definition i64_div :: "int \<Rightarrow> int \<Rightarrow> int" where
  "i64_div a b = sgn a * sgn b * (\<bar>a\<bar> div \<bar>b\<bar>)"

definition fill_gap :: "int \<Rightarrow> int \<Rightarrow> int \<Rightarrow> local_aggregator \<Rightarrow> bar list \<times> local_aggregator" where
  "fill_gap current target fill_through a =
     (case la_last_close a of
        None \<Rightarrow> ([], a)
      | Some close \<Rightarrow>
          let width = interval_millis (la_interval a);
              newest_fill = min (target - width) fill_through;
              gap = i64_div (newest_fill - current) width
          in if gap > MAX_FILL_BARS then ([], a\<lparr>la_skipped_fills := la_skipped_fills a + 1\<rparr>)
             else (map (\<lambda>step. bar_empty_at (current + step * width) width close) [1..gap], a))"

definition advance_to :: "int \<Rightarrow> int \<Rightarrow> local_aggregator \<Rightarrow> bar list \<times> local_aggregator" where
  "advance_to target fill_through a =
     (case la_bucket a of
        None \<Rightarrow> ([], enter_bucket target a)
      | Some current \<Rightarrow>
          if target \<le> current then ([], a)
          else let (closed, a1) = close_current current fill_through (enter_bucket target a);
                   (filled, a2) = fill_gap current target fill_through a1
               in (closed @ filled, a2))"

definition fold_trade :: "declib \<Rightarrow> trade \<Rightarrow> bar \<Rightarrow> bar option" where
  "fold_trade D x b =
     map_option (\<lambda>volume. b\<lparr>br_high := max (br_high b) (td_price x), br_low := min (br_low b) (td_price x),
        br_close := td_price x, br_volume := volume, br_trades := sat_add_u32 (br_trades b) 1\<rparr>)
      (checked_add D (br_volume b) (td_size x))"

definition aggregator_push :: "declib \<Rightarrow> trade \<Rightarrow> local_aggregator \<Rightarrow> (bar list \<times> local_aggregator) option" where
  "aggregator_push D x a =
     (if \<not> (MIN_TIME_MS \<le> td_time_ms x \<and> td_time_ms x \<le> MAX_TIME_MS)
      then Some ([], a\<lparr>la_out_of_range := la_out_of_range a + 1\<rparr>)
      else if td_time_ms x < la_accepts_from_ms a
      then Some ([], a\<lparr>la_before_history := la_before_history a + 1\<rparr>)
      else let bucket = bucket_start_ms (la_interval a) (td_time_ms x) in
        if is_some_and (\<lambda>newest. bucket < newest) (la_newest_bucket_ms a)
        then Some ([], a\<lparr>la_late := la_late a + 1\<rparr>)
        else let (closed, a1) = advance_to bucket bucket a;
                 b = (case la_forming a1 of Some b \<Rightarrow> b
                      | None \<Rightarrow> bar_empty_at bucket (interval_millis (la_interval a)) (td_price x))
             in map_option (\<lambda>b'. (closed, a1\<lparr>la_forming := Some b'\<rparr>)) (fold_trade D x b))"

definition close_through :: "int \<Rightarrow> int \<Rightarrow> local_aggregator \<Rightarrow> bar list \<times> local_aggregator" where
  "close_through now_ms feed_live_through_ms a =
     (if now_ms < la_accepts_from_ms a \<or> now_ms > MAX_TIME_MS then ([], a)
      else advance_to (bucket_start_ms (la_interval a) now_ms)
             (bucket_start_ms (la_interval a) (clamp_time feed_live_through_ms)) a)"

end
