(* ===== verification/Resample_Props.thy ===== *)
theory Resample_Props
  imports Candles
begin

text \<open>
  Resampling against its specification: a resampled bar is the aggregate of all source bars of its
  bucket, and every bucket that is returned is covered without a hole.
\<close>

section \<open>The aggregate of a bucket\<close>

definition sum_decimals :: "declib \<Rightarrow> decimal list \<Rightarrow> decimal option" where
  "sum_decimals D vs =
     (case vs of [] \<Rightarrow> Some 0 | v # ws \<Rightarrow> foldl (\<lambda>acc x. Option.bind acc (\<lambda>a. checked_add D a x)) (Some v) ws)"

definition bucket_of :: "interval \<Rightarrow> bar \<Rightarrow> int" where
  "bucket_of target b = bucket_start_ms target (br_open_time_ms b)"

definition bucket_bar :: "declib \<Rightarrow> interval \<Rightarrow> bar list \<Rightarrow> bar option" where
  "bucket_bar D target g =
     map_option (\<lambda>volume.
       \<lparr>br_open_time_ms = bucket_of target (hd g), br_close_time_ms = bucket_close_ms target (bucket_of target (hd g)),
        br_open = br_open (hd g), br_high = Max (set (map br_high g)), br_low = Min (set (map br_low g)),
        br_close = br_close (List.last g), br_volume = volume, br_trades = min (sum_list (map br_trades g)) U32_MAX\<rparr>)
      (sum_decimals D (map br_volume g))"

lemma sum_decimals_snoc: "vs \<noteq> [] \<Longrightarrow> sum_decimals D (vs @ [x]) = Option.bind (sum_decimals D vs) (\<lambda>a. checked_add D a x)"
  by (cases vs) (simp_all add: sum_decimals_def)

lemma bucket_bar_single:
  "br_trades b \<le> U32_MAX \<Longrightarrow> bucket_bar D target [b] = Some (pk_bar (pending_open target (bucket_of target b) b))"
  by (simp add: bucket_bar_def sum_decimals_def pending_open_def)

lemma bucket_bar_start: "bucket_bar D target g = Some c \<Longrightarrow> br_open_time_ms c = bucket_of target (hd g)"
  by (auto simp: bucket_bar_def)

lemma bucket_bar_snoc:
  assumes "g \<noteq> []" "bucket_bar D target g = Some c"
  shows "bucket_bar D target (g @ [b]) = fold_bar D c b"
proof -
  have "Max (insert (br_high b) (br_high ` set g)) = max (Max (br_high ` set g)) (br_high b)"
    "Min (insert (br_low b) (br_low ` set g)) = min (Min (br_low ` set g)) (br_low b)"
    using assms(1) by (simp_all add: max.commute min.commute)
  with assms show ?thesis
    by (auto simp: bucket_bar_def fold_bar_def sum_decimals_snoc sat_add_u32_def intro!: option.map_cong)
qed

section \<open>Groups\<close>

definition bucket_group :: "interval \<Rightarrow> bar list \<Rightarrow> bool" where
  "bucket_group target g = (g \<noteq> [] \<and> (\<forall>b \<in> set g. bucket_of target b = bucket_of target (hd g)))"

lemma bucket_groupD: "bucket_group target g \<Longrightarrow> b \<in> set g \<Longrightarrow> bucket_of target b = bucket_of target (hd g)"
  unfolding bucket_group_def by blast

lemma bucket_group_nonempty: "bucket_group target g \<Longrightarrow> g \<noteq> []"
  unfolding bucket_group_def by blast

lemma bucket_group_single [simp]: "bucket_group target [b]"
  by (simp add: bucket_group_def)

lemma bucket_group_snoc:
  "bucket_group target g \<Longrightarrow> bucket_of target b = bucket_of target (hd g) \<Longrightarrow> bucket_group target (g @ [b])"
  unfolding bucket_group_def by (metis Un_iff append_is_Nil_conv empty_iff empty_set hd_append2 set_ConsD set_append)

lemma filter_same_bucket: "bucket_group target g \<Longrightarrow> filter (\<lambda>b. bucket_of target b = bucket_of target (hd g)) g = g"
  by (intro filter_True ballI) (rule bucket_groupD)

lemma filter_other_bucket:
  "bucket_group target g \<Longrightarrow> s \<noteq> bucket_of target (hd g) \<Longrightarrow> filter (\<lambda>b. bucket_of target b = s) g = []"
  by (intro filter_False ballI) (metis bucket_groupD)

abbreviation groups_ascend :: "interval \<Rightarrow> bar list list \<Rightarrow> bool" where
  "groups_ascend target \<equiv> sorted_wrt (\<lambda>g h. bucket_of target (hd g) < bucket_of target (hd h))"

lemma group_is_its_bucket:
  assumes "groups_ascend target gs" "\<forall>g \<in> set gs. bucket_group target g" "g \<in> set gs"
  shows "filter (\<lambda>b. bucket_of target b = bucket_of target (hd g)) (concat gs) = g"
  using assms
proof (induction gs)
  case Nil
  then show ?case by simp
next
  case (Cons h gs)
  have h: "bucket_group target h" and above: "\<forall>k \<in> set gs. bucket_of target (hd h) < bucket_of target (hd k)"
    and gs: "groups_ascend target gs" "\<forall>k \<in> set gs. bucket_group target k" using Cons.prems by simp_all
  show ?case
  proof (cases "g = h")
    case True
    have "filter (\<lambda>b. bucket_of target b = bucket_of target (hd h)) (concat gs) = []"
      using gs(2) above filter_other_bucket [of target _ "bucket_of target (hd h)"]
      by (induction gs) (simp_all add: less_le)
    with True filter_same_bucket [OF h] show ?thesis by simp
  next
    case False
    with Cons.prems(3) have g: "g \<in> set gs" by simp
    with above have "bucket_of target (hd g) \<noteq> bucket_of target (hd h)" by fastforce
    with filter_other_bucket [OF h] Cons.IH [OF gs g] show ?thesis by simp
  qed
qed

text \<open>Strictly ascending multiples of a width that end in time leave no slot out.\<close>

definition slots :: "int \<Rightarrow> int \<Rightarrow> nat \<Rightarrow> int list" where
  "slots s w n = map (\<lambda>k. s + int k * w) [0..<n]"

lemma next_multiple: "w dvd a - s \<Longrightarrow> w dvd b - s \<Longrightarrow> a < b \<Longrightarrow> a + w \<le> (b::int)"
proof -
  assume "w dvd a - s" "w dvd b - s" "a < b"
  then have "w dvd b - a" by (metis diff_diff_eq2 dvd_diff diff_add_cancel)
  with \<open>a < b\<close> zdvd_imp_le [of w "b - a"] show "a + w \<le> b" by simp
qed

lemma tight_slots:
  assumes "sorted_wrt (<) xs" "\<forall>x \<in> set xs. w dvd x - s" "xs \<noteq> []" "s \<le> hd xs"
    and "List.last xs \<le> s + int (length xs - 1) * w"
  shows "xs = slots s w (length xs)"
  using assms
proof (induction xs rule: rev_induct)
  case Nil
  then show ?case by simp
next
  case (snoc x xs)
  show ?case
  proof (cases "xs = []")
    case True
    with snoc.prems show ?thesis by (simp add: slots_def)
  next
    case False
    then have step: "List.last xs + w \<le> x"
      using snoc.prems(1,2) by (intro next_multiple [of w _ s]) (auto simp: sorted_wrt_append)
    then have "List.last xs \<le> s + int (length xs - 1) * w"
      using snoc.prems(5) False by (simp add: of_nat_diff algebra_simps Suc_leI)
    with snoc.IH snoc.prems False have xs: "xs = slots s w (length xs)" by (simp add: sorted_wrt_append)
    have "List.last xs = s + int (length xs - 1) * w"
      using False by (subst xs) (simp add: slots_def last_map)
    with step snoc.prems(5) False have "x = s + int (length xs) * w" by (simp add: of_nat_diff algebra_simps Suc_leI)
    with xs show ?thesis by (simp add: slots_def)
  qed
qed

section \<open>The loop invariant\<close>

definition bars_ok :: "interval \<Rightarrow> bar list \<Rightarrow> bool" where
  "bars_ok source bs =
     (sorted_wrt (<) (map br_open_time_ms bs) \<and> (\<forall>b \<in> set bs. interval_millis source dvd br_open_time_ms b))"

definition pending_for :: "declib \<Rightarrow> interval \<Rightarrow> bar list \<Rightarrow> pending_bucket \<Rightarrow> bool" where
  "pending_for D target g q =
     (bucket_bar D target g = Some (pk_bar q) \<and> pk_got q = int (length g)
      \<and> pk_opened_on_boundary q = (br_open_time_ms (hd g) = bucket_of target (hd g))
      \<and> pk_last_open_ms q = br_open_time_ms (List.last g))"

definition left_out :: "interval \<Rightarrow> bar list list \<Rightarrow> bool" where
  "left_out target dropped = (dropped = [] \<or> (\<exists>d. dropped = [d] \<and> br_open_time_ms (hd d) \<noteq> bucket_of target (hd d)))"

definition resample_inv ::
  "declib \<Rightarrow> interval \<Rightarrow> interval \<Rightarrow> int \<Rightarrow> bar list \<Rightarrow> bar list list \<Rightarrow> bar list list \<Rightarrow> bar list \<Rightarrow> pending_bucket \<Rightarrow> resample_state \<Rightarrow> bool" where
  "resample_inv D source target want seen dropped ks g q st =
     (seen = concat (dropped @ ks @ [g]) \<and> bars_ok source seen \<and> groups_ascend target (dropped @ ks @ [g])
      \<and> (\<forall>h \<in> set (dropped @ ks @ [g]). bucket_group target h) \<and> left_out target dropped
      \<and> (\<forall>k \<in> set ks. int (length k) = want) \<and> map Some (rm_out st) = map (bucket_bar D target) ks
      \<and> rm_pending st = Some q \<and> pending_for D target g q \<and> rm_previous_open st = Some (br_open_time_ms (List.last g))
      \<and> rm_leading_resolved st = (dropped @ ks \<noteq> []))"

lemma sat_i64_mono: "x \<le> y \<Longrightarrow> sat_i64 x \<le> sat_i64 y"
  by (simp add: sat_i64_def)

lemma bucket_start_mono: "interval_wf target \<Longrightarrow> t \<le> t' \<Longrightarrow> bucket_start_ms target t \<le> bucket_start_ms target t'"
  unfolding bucket_start_ms_def
  by (intro sat_i64_mono mult_right_mono zdiv_mono1) (auto simp: interval_wf_def)

lemma bars_ok_snoc:
  assumes "bars_ok source seen" "seen \<noteq> []" "resample_check source b (Some (br_open_time_ms (List.last seen))) = Inr ()"
  shows "bars_ok source (seen @ [b])"
proof -
  from assms(3) have "interval_millis source dvd br_open_time_ms b" "br_open_time_ms (List.last seen) < br_open_time_ms b"
    by (auto simp: resample_check_def result_inv is_some_and_def mod_eq_0_iff_dvd)
  moreover have "br_open_time_ms x \<le> br_open_time_ms (List.last seen)" if "x \<in> set seen" for x
    using assms(1,2) that unfolding bars_ok_def
    by (induction seen rule: rev_induct) (auto simp: sorted_wrt_append less_imp_le)
  ultimately show ?thesis using assms(1) by (fastforce simp: bars_ok_def sorted_wrt_append)
qed

lemma start_inv:
  assumes "resample_check source b None = Inr ()" "br_trades b \<le> U32_MAX" "rm_out st = []" "\<not> rm_leading_resolved st"
  shows "resample_inv D source target want [b] [] [] [b] (pending_open target (bucket_of target b) b)
    (st\<lparr>rm_pending := Some (pending_open target (bucket_of target b) b), rm_previous_open := Some (br_open_time_ms b)\<rparr>)"
  using assms bucket_bar_single [OF assms(2), of D target]
  by (auto simp: resample_inv_def bars_ok_def left_out_def pending_for_def pending_open_def
      resample_check_def result_inv mod_eq_0_iff_dvd)

lemma same_bucket_inv:
  assumes inv: "resample_inv D source target want seen dropped ks g q st"
    and check: "resample_check source b (rm_previous_open st) = Inr ()"
    and same: "br_open_time_ms (pk_bar q) = bucket_of target b" and fold: "fold_bar D (pk_bar q) b = Some c"
  shows "resample_inv D source target want (seen @ [b]) dropped ks (g @ [b])
    (q\<lparr>pk_bar := c, pk_got := pk_got q + 1, pk_last_open_ms := br_open_time_ms b\<rparr>)
    (st\<lparr>rm_pending := Some (q\<lparr>pk_bar := c, pk_got := pk_got q + 1, pk_last_open_ms := br_open_time_ms b\<rparr>),
        rm_previous_open := Some (br_open_time_ms b)\<rparr>)"
proof -
  from inv have g: "g \<noteq> []" "bucket_bar D target g = Some (pk_bar q)" "bucket_group target g"
    and seen: "seen \<noteq> []" "List.last seen = List.last g" and bars: "bars_ok source seen"
    and previous: "rm_previous_open st = Some (br_open_time_ms (List.last g))"
    by (auto simp: resample_inv_def pending_for_def dest: bucket_group_nonempty)
  from g(2) have "br_open_time_ms (pk_bar q) = bucket_of target (hd g)" by (rule bucket_bar_start)
  with same g(3) have "bucket_group target (g @ [b])" by (intro bucket_group_snoc) simp_all
  moreover have "bars_ok source (seen @ [b])"
    using bars_ok_snoc [OF bars seen(1)] check previous seen(2) by simp
  moreover have "bucket_bar D target (g @ [b]) = Some c" using bucket_bar_snoc [OF g(1,2)] fold by simp
  ultimately show ?thesis using inv g(1) by (auto simp: resample_inv_def pending_for_def sorted_wrt_append)
qed

lemma next_bucket_inv:
  assumes wf: "interval_wf target" and inv: "resample_inv D source target want seen dropped ks g q st"
    and check: "resample_check source b (rm_previous_open st) = Inr ()" and trades: "br_trades b \<le> U32_MAX"
    and diff: "br_open_time_ms (pk_bar q) \<noteq> bucket_of target b"
    and nxt: "resample_next target want b st = Inr st'"
  shows "\<exists>dropped' ks'. resample_inv D source target want (seen @ [b]) dropped' ks' [b] (pending_open target (bucket_of target b) b) st'"
proof -
  from inv have g: "g \<noteq> []" "bucket_bar D target g = Some (pk_bar q)" "bucket_group target g"
    and seen: "seen \<noteq> []" "List.last seen = List.last g" and bars: "bars_ok source seen"
    and previous: "rm_previous_open st = Some (br_open_time_ms (List.last g))"
    by (auto simp: resample_inv_def pending_for_def dest: bucket_group_nonempty)
  from g(2) have start: "br_open_time_ms (pk_bar q) = bucket_of target (hd g)" by (rule bucket_bar_start)
  have bars': "bars_ok source (seen @ [b])" using bars_ok_snoc [OF bars seen(1)] check previous seen(2) by simp
  have "bucket_of target x \<le> bucket_of target b" if "x \<in> set seen" for x
    using bars' that wf by (auto simp: bars_ok_def sorted_wrt_append bucket_of_def intro: bucket_start_mono less_imp_le)
  with g(1) inv have "bucket_of target (hd g) \<le> bucket_of target b" by (simp add: resample_inv_def)
  with diff start have above: "bucket_of target (hd g) < bucket_of target b" by simp
  have asc: "groups_ascend target (dropped @ ks @ [g, [b]])"
    using inv above by (fastforce simp: resample_inv_def sorted_wrt_append)
  from inv nxt obtain kept where kept: "pending_seal want (dropped @ ks \<noteq> []) q = Inr kept"
    and st': "st' = \<lparr>rm_out = rm_out st @ (case kept of Some k \<Rightarrow> [k] | None \<Rightarrow> []),
      rm_pending = Some (pending_open target (bucket_of target b) b), rm_previous_open = Some (br_open_time_ms b),
      rm_leading_resolved = True\<rparr>"
    by (auto simp: resample_next_def resample_inv_def bucket_of_def result_inv Let_def)
  have fresh: "pending_for D target [b] (pending_open target (bucket_of target b) b)"
    using bucket_bar_single [OF trades, of D target] by (simp add: pending_for_def pending_open_def)
  show ?thesis
  proof (cases kept)
    case None
    with kept inv have empty: "dropped = []" "ks = []" and off: "br_open_time_ms (hd g) \<noteq> bucket_of target (hd g)"
      by (auto simp: pending_seal_def resample_inv_def pending_for_def split: if_splits)
    with inv bars' asc fresh g None st' show ?thesis
      by (intro exI [of _ "[g]"] exI [of _ "[]"]) (auto simp: resample_inv_def left_out_def)
  next
    case (Some k)
    with kept inv g(2) have "k = pk_bar q" "int (length g) = want"
      by (auto simp: pending_seal_def resample_inv_def pending_for_def split: if_splits)
    with inv bars' asc fresh g Some st' show ?thesis
      by (intro exI [of _ dropped] exI [of _ "ks @ [g]"]) (auto simp: resample_inv_def)
  qed
qed

lemma resample_step_inv:
  assumes wf: "interval_wf target" and inv: "resample_inv D source target want seen dropped ks g q st"
    and trades: "br_trades b \<le> U32_MAX" and step: "resample_step D source target want b st = Some (Inr st')"
  shows "\<exists>dropped' ks' g' q'. resample_inv D source target want (seen @ [b]) dropped' ks' g' q' st'"
proof -
  from step have check: "resample_check source b (rm_previous_open st) = Inr ()"
    by (auto simp: resample_step_def split: sum.splits)
  from inv have q: "rm_pending st = Some q" by (simp add: resample_inv_def)
  show ?thesis
  proof (cases "br_open_time_ms (pk_bar q) = bucket_of target b")
    case True
    with step check q obtain c where "fold_bar D (pk_bar q) b = Some c"
      and "st' = st\<lparr>rm_pending := Some (q\<lparr>pk_bar := c, pk_got := pk_got q + 1, pk_last_open_ms := br_open_time_ms b\<rparr>),
                   rm_previous_open := Some (br_open_time_ms b)\<rparr>"
      by (auto simp: resample_step_def bucket_of_def)
    with same_bucket_inv [OF inv check True] show ?thesis by blast
  next
    case False
    with step check q have "resample_next target want b st = Inr st'"
      by (auto simp: resample_step_def bucket_of_def)
    with next_bucket_inv [OF wf inv check trades False] show ?thesis by blast
  qed
qed

lemma resample_loop_Cons_Inr:
  "resample_loop D source target want (b # bs) st = Some (Inr st') \<longleftrightarrow>
     (\<exists>st1. resample_step D source target want b st = Some (Inr st1) \<and> resample_loop D source target want bs st1 = Some (Inr st'))"
  by (cases "resample_step D source target want b st") (auto split: sum.split)

lemma resample_loop_inv:
  assumes "interval_wf target" "resample_inv D source target want seen dropped ks g q st"
    and "\<forall>b \<in> set bs. br_trades b \<le> U32_MAX" "resample_loop D source target want bs st = Some (Inr st')"
  shows "\<exists>dropped' ks' g' q'. resample_inv D source target want (seen @ bs) dropped' ks' g' q' st'"
  using assms(2-4)
proof (induction bs arbitrary: seen dropped ks g q st)
  case Nil
  then show ?case by auto
next
  case (Cons b bs)
  from Cons.prems(3) obtain st1 where st1: "resample_step D source target want b st = Some (Inr st1)"
    "resample_loop D source target want bs st1 = Some (Inr st')"
    by (auto simp: resample_loop_Cons_Inr simp del: resample_loop.simps)
  from resample_step_inv [OF assms(1) Cons.prems(1) _ st1(1)] Cons.prems(2)
  obtain dropped' ks' g' q' where "resample_inv D source target want (seen @ [b]) dropped' ks' g' q' st1" by auto
  from Cons.IH [OF this _ st1(2)] Cons.prems(2) show ?case by simp
qed

lemma resample_cases:
  assumes "interval_wf target" "\<forall>b \<in> set bars. br_trades b \<le> U32_MAX" "bars \<noteq> []"
    and "resample D bars source target = Some (Inr out)"
  obtains dropped ks g q st where
    "resample_inv D source target (interval_millis target div interval_millis source) bars dropped ks g q st"
    "resample_finish (interval_millis source) (interval_millis target div interval_millis source) st = Inr out"
    "interval_millis source < interval_millis target" "interval_millis source dvd interval_millis target"
proof -
  let ?want = "interval_millis target div interval_millis source"
  let ?init = "\<lparr>rm_out = [], rm_pending = None, rm_previous_open = None, rm_leading_resolved = False\<rparr>"
  from assms(3) obtain b bs where bars: "bars = b # bs" by (cases bars) auto
  from assms(4) have widths: "interval_millis source < interval_millis target" "interval_millis source dvd interval_millis target"
    by (auto simp: resample_def Let_def mod_eq_0_iff_dvd not_le split: if_splits)
  from assms(4) obtain st where loop: "resample_loop D source target ?want bars ?init = Some (Inr st)"
    and fin: "resample_finish (interval_millis source) ?want st = Inr out"
    by (auto simp: resample_def Let_def result_inv split: if_splits)
  from loop bars obtain st1 where st1: "resample_step D source target ?want b ?init = Some (Inr st1)"
    "resample_loop D source target ?want bs st1 = Some (Inr st)"
    by (auto simp: resample_loop_Cons_Inr simp del: resample_loop.simps)
  from st1(1) have check: "resample_check source b None = Inr ()"
    and st1': "st1 = ?init\<lparr>rm_pending := Some (pending_open target (bucket_of target b) b), rm_previous_open := Some (br_open_time_ms b)\<rparr>"
    by (auto simp: resample_step_def resample_next_def bucket_of_def Let_def split: sum.splits)
  from assms(2) bars have "resample_inv D source target ?want [b] [] [] [b] (pending_open target (bucket_of target b) b) st1"
    unfolding st1' by (intro start_inv check) simp_all
  from resample_loop_inv [OF assms(1) this _ st1(2)] assms(2) bars fin widths that show ?thesis by auto
qed

section \<open>Resampling is exact\<close>

definition in_range :: "bar list \<Rightarrow> bool" where
  "in_range bars = (\<forall>b \<in> set bars. MIN_TIME_MS \<le> br_open_time_ms b \<and> br_open_time_ms b \<le> MAX_TIME_MS
     \<and> br_trades b \<le> U32_MAX)"

text \<open>The bars of a group are the first slots of its bucket.\<close>

definition covers :: "interval \<Rightarrow> interval \<Rightarrow> bar list \<Rightarrow> bool" where
  "covers source target g =
     (map br_open_time_ms g = slots (bucket_of target (hd g)) (interval_millis source) (length g))"

lemma bucket_of_bounds:
  assumes "interval_wf target" "in_range bars" "b \<in> set bars"
  shows "bucket_of target b \<le> br_open_time_ms b" "br_open_time_ms b < bucket_of target b + interval_millis target"
    "interval_millis target dvd bucket_of target b"
  using buckets_partition_time [OF assms(1), of "br_open_time_ms b"] assms(2,3)
  by (auto simp: in_range_def bucket_of_def)

lemma bars_ok_last: "bars_ok source g \<Longrightarrow> b \<in> set g \<Longrightarrow> br_open_time_ms b \<le> br_open_time_ms (List.last g)"
  unfolding bars_ok_def by (induction g rule: rev_induct) (auto simp: sorted_wrt_append less_imp_le)

lemma bars_ok_part: "bars_ok source (concat gs) \<Longrightarrow> g \<in> set gs \<Longrightarrow> bars_ok source g"
  by (induction gs) (auto simp: bars_ok_def sorted_wrt_append)

lemma group_covers:
  assumes wf: "interval_wf target" and dv: "interval_millis source dvd interval_millis target"
    and g: "bucket_group target g" "bars_ok source g" "in_range g"
    and end_in: "br_open_time_ms (List.last g) \<le> bucket_of target (hd g) + int (length g - 1) * interval_millis source"
  shows "covers source target g"
proof -
  let ?w = "interval_millis source" and ?s = "bucket_of target (hd g)"
  have ne: "g \<noteq> []" using g(1) by (rule bucket_group_nonempty)
  then have hd: "hd g \<in> set g" by simp
  note bounds = bucket_of_bounds [OF wf g(3) hd]
  have "?w dvd ?s" using dv bounds(3) by (rule dvd_trans)
  then have "\<forall>x \<in> set (map br_open_time_ms g). ?w dvd x - ?s" using g(2) by (auto simp: bars_ok_def)
  moreover have "sorted_wrt (<) (map br_open_time_ms g)" using g(2) by (simp add: bars_ok_def)
  ultimately have "map br_open_time_ms g = slots ?s ?w (length (map br_open_time_ms g))"
    using ne bounds(1) end_in by (intro tight_slots) (simp_all add: hd_map last_map)
  then show ?thesis by (simp add: covers_def)
qed

lemma full_group_covers:
  assumes wf: "interval_wf target" "interval_wf source" and dv: "interval_millis source dvd interval_millis target"
    and g: "bucket_group target g" "bars_ok source g" "in_range g"
    and full: "int (length g) = interval_millis target div interval_millis source"
  shows "covers source target g"
proof (rule group_covers [OF wf(1) dv g])
  let ?w = "interval_millis source" and ?s = "bucket_of target (hd g)"
  have ne: "g \<noteq> []" using g(1) by (rule bucket_group_nonempty)
  then have l: "List.last g \<in> set g" "hd g \<in> set g" by simp_all
  have "br_open_time_ms (List.last g) < ?s + interval_millis target"
    using bucket_of_bounds(2) [OF wf(1) g(3) l(1)] bucket_groupD [OF g(1) l(1)] by simp
  moreover have "?w dvd ?s" using dv bucket_of_bounds(3) [OF wf(1) g(3) l(2)] by (rule dvd_trans)
  then have "?w dvd br_open_time_ms (List.last g) - ?s" "?w dvd ?s + interval_millis target - ?s"
    using g(2) l(1) dv by (auto simp: bars_ok_def)
  ultimately have "br_open_time_ms (List.last g) + ?w \<le> ?s + interval_millis target" by (intro next_multiple [of ?w _ ?s])
  moreover have "interval_millis target = int (length g) * ?w" using full dv by simp
  ultimately show "br_open_time_ms (List.last g) \<le> ?s + int (length g - 1) * ?w"
    using ne by (simp add: of_nat_diff Suc_leI algebra_simps)
qed

lemma prefix_group_covers:
  assumes wf: "interval_wf target" "interval_wf source" and dv: "interval_millis source dvd interval_millis target"
    and g: "bucket_group target g" "bars_ok source g" "in_range g"
    and q: "pending_for D target g q" "is_contiguous_prefix (interval_millis source) q"
  shows "covers source target g"
proof (rule group_covers [OF wf(1) dv g])
  have ne: "g \<noteq> []" using g(1) by (rule bucket_group_nonempty)
  note le = sat_i64_le and pos = sat_i64_nonneg
  have w: "0 < interval_millis source" using wf(2) by (simp add: interval_wf_def)
  have n: "0 \<le> int (length g) - 1" using ne by (simp add: Suc_leI)
  have s: "0 \<le> bucket_of target (hd g)"
    unfolding bucket_of_def bucket_start_ms_def using g(3) ne interval_wfD(1) [OF wf(1)]
    by (intro pos mult_nonneg_nonneg) (simp_all add: in_range_def MIN_TIME_MS_def pos_imp_zdiv_nonneg_iff)
  have "br_open_time_ms (List.last g) = sat_i64 (bucket_of target (hd g) + sat_i64 (sat_i64 (int (length g) - 1) * interval_millis source))"
    using q bucket_bar_start [of D target g "pk_bar q"] by (simp add: pending_for_def is_contiguous_prefix_def)
  also have "\<dots> \<le> bucket_of target (hd g) + sat_i64 (sat_i64 (int (length g) - 1) * interval_millis source)"
    using s n w by (intro le add_nonneg_nonneg pos mult_nonneg_nonneg) simp_all
  also have "\<dots> \<le> bucket_of target (hd g) + sat_i64 (int (length g) - 1) * interval_millis source"
    using n w by (intro add_left_mono le mult_nonneg_nonneg pos) simp_all
  also have "\<dots> \<le> bucket_of target (hd g) + (int (length g) - 1) * interval_millis source"
    using n w by (intro add_left_mono mult_right_mono le) simp_all
  finally show "br_open_time_ms (List.last g) \<le> bucket_of target (hd g) + int (length g - 1) * interval_millis source"
    using ne by (simp add: of_nat_diff Suc_leI)
qed

lemma in_range_part: "in_range (concat gs) \<Longrightarrow> g \<in> set gs \<Longrightarrow> in_range g"
  by (auto simp: in_range_def)

text \<open>The groups behind a successful resampling.\<close>

lemma resample_groups:
  assumes wf: "interval_wf source" "interval_wf target" and ok: "in_range bars"
    and res: "resample D bars source target = Some (Inr out)"
  obtains dropped ks where "bars = concat (dropped @ ks)" "groups_ascend target (dropped @ ks)"
    "\<forall>h \<in> set (dropped @ ks). bucket_group target h" "left_out target dropped"
    "map Some out = map (bucket_bar D target) ks" "\<forall>k \<in> set ks. covers source target k"
    "\<forall>k \<in> set (butlast ks). int (length k) = interval_millis target div interval_millis source"
proof (cases "bars = []")
  case True
  with res have "out = []" by (auto simp: resample_def resample_finish_def Let_def split: if_splits)
  with True show ?thesis by (intro that [of "[]" "[]"]) (simp_all add: left_out_def)
next
  case False
  have trades: "\<forall>b \<in> set bars. br_trades b \<le> U32_MAX" using ok by (simp add: in_range_def)
  let ?want = "interval_millis target div interval_millis source"
  obtain dropped ks g q st where inv: "resample_inv D source target ?want bars dropped ks g q st"
    and fin: "resample_finish (interval_millis source) ?want st = Inr out"
    and dv: "interval_millis source dvd interval_millis target"
    using wf(2) trades False res by (rule resample_cases)
  have bars: "bars = concat (dropped @ ks @ [g])" "bars_ok source bars"
    and groups: "\<forall>h \<in> set (dropped @ ks @ [g]). bucket_group target h"
    and rest: "groups_ascend target (dropped @ ks @ [g])" "left_out target dropped" "\<forall>k \<in> set ks. int (length k) = ?want"
      "map Some (rm_out st) = map (bucket_bar D target) ks" "rm_pending st = Some q" "pending_for D target g q"
      "rm_leading_resolved st = (dropped @ ks \<noteq> [])"
    using inv unfolding resample_inv_def by blast+
  have part: "bars_ok source h" "in_range h" "bucket_group target h" if "h \<in> set (dropped @ ks @ [g])" for h
    using bars_ok_part [OF _ that, of source] in_range_part [OF _ that] bars ok bspec [OF groups that] by simp_all
  have ks: "\<forall>k \<in> set ks. covers source target k"
    using full_group_covers [OF wf(2,1) dv] part rest(3) by simp
  show ?thesis
  proof (cases "rm_leading_resolved st \<or> pk_opened_on_boundary q")
    case True
    with fin rest(5) have prefix: "is_contiguous_prefix (interval_millis source) q" and out: "out = rm_out st @ [pk_bar q]"
      by (auto simp: resample_finish_def split: if_splits)
    have "covers source target g" using prefix_group_covers [OF wf(2,1) dv _ _ _ rest(6) prefix] part [of g] by simp
    with bars groups rest ks out show ?thesis
      by (intro that [of dropped "ks @ [g]"]) (simp_all add: pending_for_def butlast_append)
  next
    case False
    with fin rest have "out = []" "dropped = []" "ks = []" "br_open_time_ms (hd g) \<noteq> bucket_of target (hd g)"
      by (auto simp: resample_finish_def pending_for_def)
    with bars groups show ?thesis by (intro that [of "[g]" "[]"]) (simp_all add: left_out_def)
  qed
qed

lemma out_starts:
  assumes "map Some out = map (bucket_bar D target) ks"
  shows "map br_open_time_ms out = map (\<lambda>k. bucket_of target (hd k)) ks"
proof -
  have "list_all2 (\<lambda>x k. bucket_bar D target k = Some x) out ks"
    using assms by (auto simp: list_all2_conv_all_nth list_eq_iff_nth_eq)
  then show ?thesis by induction (auto dest: bucket_bar_start)
qed

text \<open>
  C27: resampling is exact. The resampled bars ascend; each is the aggregate of precisely the source
  bars of its bucket (first open, last close, maximum, minimum, sums), which fill the bucket from its
  start without a hole, and all of it except for the last bar; and every source bar is in a returned
  bucket, unless it is in the first bucket of the window and the window missed its start.
\<close>

theorem resample_is_exact:
  assumes "interval_wf source" "interval_wf target" "in_range bars" "resample D bars source target = Some (Inr out)"
  shows "sorted_wrt (<) (map br_open_time_ms out)
         \<and> (\<forall>x \<in> set out. bucket_bar D target (filter (\<lambda>b. bucket_of target b = br_open_time_ms x) bars) = Some x
              \<and> covers source target (filter (\<lambda>b. bucket_of target b = br_open_time_ms x) bars)
              \<and> (x \<noteq> List.last out \<longrightarrow> int (length (filter (\<lambda>b. bucket_of target b = br_open_time_ms x) bars))
                    = interval_millis target div interval_millis source))
         \<and> (\<forall>b \<in> set bars. bucket_of target b \<in> set (map br_open_time_ms out)
              \<or> bucket_of target b = bucket_of target (hd bars) \<and> br_open_time_ms (hd bars) \<noteq> bucket_of target (hd bars))"
proof -
  from assms obtain dropped ks where bars: "bars = concat (dropped @ ks)" and asc: "groups_ascend target (dropped @ ks)"
    and groups: "\<forall>h \<in> set (dropped @ ks). bucket_group target h" and left: "left_out target dropped"
    and out: "map Some out = map (bucket_bar D target) ks" and cov: "\<forall>k \<in> set ks. covers source target k"
    and full: "\<forall>k \<in> set (butlast ks). int (length k) = interval_millis target div interval_millis source"
    by (rule resample_groups)
  note starts = out_starts [OF out]
  have "sorted_wrt (<) (map br_open_time_ms out)"
    unfolding starts using asc by (simp add: sorted_wrt_append sorted_wrt_map)
  moreover have "bucket_bar D target (filter (\<lambda>b. bucket_of target b = br_open_time_ms x) bars) = Some x
      \<and> covers source target (filter (\<lambda>b. bucket_of target b = br_open_time_ms x) bars)
      \<and> (x \<noteq> List.last out \<longrightarrow> int (length (filter (\<lambda>b. bucket_of target b = br_open_time_ms x) bars))
            = interval_millis target div interval_millis source)" if "x \<in> set out" for x
  proof -
    from that obtain n where n: "n < length out" "x = out ! n" by (metis in_set_conv_nth)
    have len: "length out = length ks" using out by (metis length_map)
    have k: "ks ! n \<in> set (dropped @ ks)" "ks ! n \<in> set ks" using n len by simp_all
    have bar: "bucket_bar D target (ks ! n) = Some x" using out n len by (metis nth_map)
    have "filter (\<lambda>b. bucket_of target b = br_open_time_ms x) bars = ks ! n"
      unfolding bars bucket_bar_start [OF bar] by (rule group_is_its_bucket [OF asc groups k(1)])
    moreover have "int (length (ks ! n)) = interval_millis target div interval_millis source" if "x \<noteq> List.last out"
    proof -
      have "out \<noteq> []" using n(1) by auto
      then have "n \<noteq> length out - 1" using that n(2) by (auto simp: last_conv_nth)
      then have "n < length ks - 1" using n(1) len by simp
      then have "ks ! n \<in> set (butlast ks)" by (metis length_butlast nth_butlast nth_mem)
      with full show ?thesis by simp
    qed
    ultimately show ?thesis using bar cov k(2) by simp
  qed
  moreover have "bucket_of target b \<in> set (map br_open_time_ms out)
      \<or> bucket_of target b = bucket_of target (hd bars) \<and> br_open_time_ms (hd bars) \<noteq> bucket_of target (hd bars)"
    if "b \<in> set bars" for b
  proof -
    from that bars obtain h where h: "h \<in> set (dropped @ ks)" "b \<in> set h" by auto
    with groups have hb: "bucket_of target b = bucket_of target (hd h)" by (intro bucket_groupD) simp_all
    show ?thesis
    proof (cases "h \<in> set ks")
      case True
      with hb starts show ?thesis by simp
    next
      case False
      with h left have d: "dropped = [h]" "br_open_time_ms (hd h) \<noteq> bucket_of target (hd h)" by (auto simp: left_out_def)
      moreover have "hd bars = hd h" using bars d(1) h(2) by (cases h) simp_all
      ultimately show ?thesis using hb by simp
    qed
  qed
  ultimately show ?thesis by blast
qed

text \<open>Seven minutes of one-minute bars from 00:01 on, into five-minute bars.\<close>

definition sample_bar :: "int \<Rightarrow> decimal \<Rightarrow> bar" where
  "sample_bar minute price =
     \<lparr>br_open_time_ms = minute * 60000, br_close_time_ms = minute * 60000 + 59999, br_open = price, br_high = price + 1,
      br_low = price - 1, br_close = price, br_volume = 2, br_trades = 3\<rparr>"

definition sample_minutes :: "bar list" where
  "sample_minutes = map (\<lambda>m. sample_bar m (of_int m)) [3..11]"

definition sample_five :: "bar list" where
  "sample_five =
     [\<lparr>br_open_time_ms = 300000, br_close_time_ms = 599999, br_open = 5, br_high = 10, br_low = 4, br_close = 9,
       br_volume = 10, br_trades = 15\<rparr>,
      \<lparr>br_open_time_ms = 600000, br_close_time_ms = 899999, br_open = 10, br_high = 12, br_low = 9, br_close = 11,
       br_volume = 4, br_trades = 6\<rparr>]"

theorem resample_is_exact_witness:
  "resample exact_declib sample_minutes (known 1 Minute) (known 5 Minute) = Some (Inr sample_five)
   \<and> covers (known 1 Minute) (known 5 Minute) (filter (\<lambda>b. bucket_of (known 5 Minute) b = 300000) sample_minutes)"
proof -
  have wf: "interval_wf (known 1 Minute)" "interval_wf (known 5 Minute)" by code_simp+
  have ok: "in_range sample_minutes" by code_simp
  have res: "resample exact_declib sample_minutes (known 1 Minute) (known 5 Minute) = Some (Inr sample_five)" by code_simp
  from resample_is_exact [OF wf ok res] have "\<forall>x \<in> set sample_five. covers (known 1 Minute) (known 5 Minute)
      (filter (\<lambda>b. bucket_of (known 5 Minute) b = br_open_time_ms x) sample_minutes)" by blast
  with res show ?thesis by (simp add: sample_five_def)
qed

section \<open>A window without holes\<close>

definition gapless :: "interval \<Rightarrow> bar list \<Rightarrow> bool" where
  "gapless source = successively (\<lambda>a b. br_open_time_ms b = br_open_time_ms a + interval_millis source)"

lemma gapless_last:
  "gapless source g \<Longrightarrow> g \<noteq> [] \<Longrightarrow>
     br_open_time_ms (List.last g) = br_open_time_ms (hd g) + int (length g - 1) * interval_millis source"
proof (induction g rule: rev_induct)
  case Nil
  then show ?case by simp
next
  case (snoc b g)
  then show ?case
    by (cases "g = []") (auto simp: gapless_def successively_append_iff of_nat_diff Suc_leI algebra_simps)
qed

text \<open>In a gapless window only the first bucket can start off its boundary.\<close>

definition progress_inv :: "interval \<Rightarrow> bar list \<Rightarrow> bar list \<Rightarrow> pending_bucket \<Rightarrow> resample_state \<Rightarrow> bool" where
  "progress_inv source seen g q st = (gapless source seen \<and> (rm_leading_resolved st \<longrightarrow> pk_opened_on_boundary q))"

lemma group_gapless:
  "resample_inv D source target want seen dropped ks g q st \<Longrightarrow> progress_inv source seen g q st \<Longrightarrow> gapless source g"
  by (auto simp: resample_inv_def progress_inv_def gapless_def successively_append_iff)

lemma boundary_seals:
  assumes wf: "interval_wf source" "interval_wf target" and dv: "interval_millis source dvd interval_millis target"
    and inv: "resample_inv D source target (interval_millis target div interval_millis source) seen dropped ks g q st"
    and prog: "progress_inv source seen g q st" and ok: "in_range (seen @ [b])"
    and b: "br_open_time_ms b = br_open_time_ms (List.last g) + interval_millis source" "bucket_of target b \<noteq> bucket_of target (hd g)"
  shows "br_open_time_ms b = bucket_of target b"
    "pk_opened_on_boundary q \<Longrightarrow> pk_got q = interval_millis target div interval_millis source"
proof -
  let ?w = "interval_millis source" and ?T = "interval_millis target" and ?s = "bucket_of target (hd g)"
  have w: "0 < ?w" using wf(1) by (simp add: interval_wf_def)
  from inv have g: "bucket_group target g" "bars_ok source g" "set g \<subseteq> set seen"
    using bars_ok_part [of source "dropped @ ks @ [g]" g] by (auto simp: resample_inv_def)
  have ne: "g \<noteq> []" using g(1) by (rule bucket_group_nonempty)
  then have l: "List.last g \<in> set g" "hd g \<in> set g" by simp_all
  have range: "List.last g \<in> set (seen @ [b])" "hd g \<in> set (seen @ [b])" "b \<in> set (seen @ [b])" using l g(3) by auto
  note bl = bucket_of_bounds [OF wf(2) ok range(1)] and bh = bucket_of_bounds [OF wf(2) ok range(2)]
    and bb = bucket_of_bounds [OF wf(2) ok range(3)]
  have same: "bucket_of target (List.last g) = ?s" by (rule bucket_groupD [OF g(1) l(1)])
  have "?s \<le> bucket_of target b" using bucket_start_mono [OF wf(2), of "br_open_time_ms (List.last g)" "br_open_time_ms b"] b(1) w same
    by (simp add: bucket_of_def)
  with b(2) have above: "?s + ?T \<le> bucket_of target b" using bh(3) bb(3) by (intro next_multiple [of ?T _ 0]) simp_all
  have aligned: "?w dvd ?s" "?w dvd br_open_time_ms (List.last g)"
    using dv bh(3) g(2) l(1) by (auto simp: bars_ok_def intro: dvd_trans)
  have "br_open_time_ms (List.last g) + ?w \<le> ?s + ?T"
    using bl(2) same aligned dv by (intro next_multiple [of ?w _ 0]) simp_all
  with above bb(1) b(1) have at_end: "br_open_time_ms (List.last g) + ?w = ?s + ?T" "bucket_of target b = ?s + ?T" by simp_all
  with b(1) show "br_open_time_ms b = bucket_of target b" by simp
  assume "pk_opened_on_boundary q"
  with inv have "br_open_time_ms (hd g) = ?s" "pk_got q = int (length g)" by (simp_all add: resample_inv_def pending_for_def)
  with gapless_last [OF group_gapless [OF inv prog] ne] at_end(1) ne
  have "int (length g) * ?w = ?T" by (simp add: of_nat_diff Suc_leI algebra_simps)
  with \<open>pk_got q = int (length g)\<close> w show "pk_got q = ?T div ?w" by (metis nonzero_mult_div_cancel_right less_irrefl)
qed

lemma resample_progress:
  assumes wf: "interval_wf source" "interval_wf target" and dv: "interval_millis source dvd interval_millis target"
    and adds: "\<And>x y. checked_add D x y \<noteq> None"
    and inv: "resample_inv D source target (interval_millis target div interval_millis source) seen dropped ks g q st"
    and prog: "progress_inv source seen g q st" and ok: "in_range (seen @ [b])"
    and b: "br_open_time_ms b = br_open_time_ms (List.last g) + interval_millis source"
  shows "\<exists>dropped' ks' g' q' st'. resample_step D source target (interval_millis target div interval_millis source) b st = Some (Inr st')
     \<and> resample_inv D source target (interval_millis target div interval_millis source) (seen @ [b]) dropped' ks' g' q' st'
     \<and> progress_inv source (seen @ [b]) g' q' st' \<and> List.last g' = b"
proof -
  let ?w = "interval_millis source" and ?want = "interval_millis target div interval_millis source"
  have w: "0 < ?w" using wf(1) by (simp add: interval_wf_def)
  from inv have q: "rm_pending st = Some q" "rm_previous_open st = Some (br_open_time_ms (List.last g))"
    "bucket_bar D target g = Some (pk_bar q)" and g: "bars_ok source g" "bucket_group target g"
    and seen: "seen \<noteq> []" "List.last seen = List.last g" and lead: "rm_leading_resolved st = (dropped @ ks \<noteq> [])"
    using bars_ok_part [of source "dropped @ ks @ [g]" g]
    by (auto simp: resample_inv_def pending_for_def dest: bucket_group_nonempty)
  have start: "br_open_time_ms (pk_bar q) = bucket_of target (hd g)" using q(3) by (rule bucket_bar_start)
  have "?w dvd br_open_time_ms (List.last g)"
    using g(1) bucket_group_nonempty [OF g(2)] by (simp add: bars_ok_def)
  then have check: "resample_check source b (rm_previous_open st) = Inr ()"
    using b q(2) w by (simp add: resample_check_def is_some_and_def)
  have trades: "br_trades b \<le> U32_MAX" using ok by (simp add: in_range_def)
  have run: "gapless source (seen @ [b])" using prog seen b by (simp add: progress_inv_def gapless_def successively_append_iff)
  show ?thesis
  proof (cases "bucket_of target b = bucket_of target (hd g)")
    case True
    obtain c where c: "fold_bar D (pk_bar q) b = Some c"
      using adds [of "br_volume (pk_bar q)" "br_volume b"] by (auto simp: fold_bar_def)
    let ?q = "q\<lparr>pk_bar := c, pk_got := pk_got q + 1, pk_last_open_ms := br_open_time_ms b\<rparr>"
    let ?st = "st\<lparr>rm_pending := Some ?q, rm_previous_open := Some (br_open_time_ms b)\<rparr>"
    have "resample_step D source target ?want b st = Some (Inr ?st)"
      using check q(1) c True start by (simp add: resample_step_def bucket_of_def)
    moreover have "resample_inv D source target ?want (seen @ [b]) dropped ks (g @ [b]) ?q ?st"
      using same_bucket_inv [OF inv check _ c] True start by simp
    moreover have "progress_inv source (seen @ [b]) (g @ [b]) ?q ?st"
      using run prog by (simp add: progress_inv_def)
    ultimately show ?thesis by (metis last_snoc)
  next
    case False
    note ends = boundary_seals [OF wf dv inv prog ok b False]
    have "\<exists>kept. pending_seal ?want (rm_leading_resolved st) q = Inr kept"
      using ends(2) prog by (auto simp: pending_seal_def progress_inv_def)
    then obtain st' where nxt: "resample_next target ?want b st = Inr st'" "rm_leading_resolved st'"
      using q(1) by (auto simp: resample_next_def Let_def)
    moreover have "resample_step D source target ?want b st = Some (Inr st')"
      using check q(1) False start nxt(1) by (simp add: resample_step_def bucket_of_def)
    moreover obtain dropped' ks' where
      "resample_inv D source target ?want (seen @ [b]) dropped' ks' [b] (pending_open target (bucket_of target b) b) st'"
      using next_bucket_inv [OF wf(2) inv check trades _ nxt(1)] False start by auto
    moreover have "progress_inv source (seen @ [b]) [b] (pending_open target (bucket_of target b) b) st'"
      using run ends(1) by (simp add: progress_inv_def pending_open_def)
    ultimately show ?thesis by (metis last.simps)
  qed
qed

lemma gapless_loop:
  assumes wf: "interval_wf source" "interval_wf target" and dv: "interval_millis source dvd interval_millis target"
    and adds: "\<And>x y. checked_add D x y \<noteq> None"
    and "resample_inv D source target (interval_millis target div interval_millis source) seen dropped ks g q st"
    and "progress_inv source seen g q st" "in_range (seen @ bs)" "gapless source (List.last g # bs)"
  shows "\<exists>st' dropped' ks' g' q'. resample_loop D source target (interval_millis target div interval_millis source) bs st = Some (Inr st')
     \<and> resample_inv D source target (interval_millis target div interval_millis source) (seen @ bs) dropped' ks' g' q' st'
     \<and> progress_inv source (seen @ bs) g' q' st'"
  using assms(5-8)
proof (induction bs arbitrary: seen dropped ks g q st)
  case Nil
  then show ?case by auto
next
  case (Cons b bs)
  let ?want = "interval_millis target div interval_millis source"
  have b: "br_open_time_ms b = br_open_time_ms (List.last g) + interval_millis source" and run: "gapless source (b # bs)"
    using Cons.prems(4) by (simp_all add: gapless_def)
  have "in_range (seen @ [b])" using Cons.prems(3) by (simp add: in_range_def)
  from resample_progress [OF wf dv adds Cons.prems(1,2) this b] obtain dropped' ks' g' q' st1 where
    st1: "resample_step D source target ?want b st = Some (Inr st1)"
    and inv: "resample_inv D source target ?want (seen @ [b]) dropped' ks' g' q' st1"
    and prog: "progress_inv source (seen @ [b]) g' q' st1" and l: "List.last g' = b" by blast
  from Cons.IH [OF inv prog] Cons.prems(3) run l st1 show ?case by simp
qed

lemma gapless_finish:
  assumes wf: "interval_wf source" "interval_wf target"
    and inv: "resample_inv D source target want seen dropped ks g q st" and prog: "progress_inv source seen g q st"
    and ok: "in_range seen"
  shows "\<exists>out. resample_finish (interval_millis source) want st = Inr out"
proof (cases "rm_leading_resolved st \<or> pk_opened_on_boundary q")
  case False
  with inv show ?thesis by (simp add: resample_finish_def resample_inv_def)
next
  case True
  with prog have "pk_opened_on_boundary q" by (auto simp: progress_inv_def)
  with inv have q: "rm_pending st = Some q" "bucket_bar D target g = Some (pk_bar q)" "pk_got q = int (length g)"
    "pk_last_open_ms q = br_open_time_ms (List.last g)" "br_open_time_ms (hd g) = bucket_of target (hd g)"
    and ne: "g \<noteq> []" and sub: "set g \<subseteq> set seen"
    by (auto simp: resample_inv_def pending_for_def dest: bucket_group_nonempty)
  have w: "0 < interval_millis source" using wf(1) by (simp add: interval_wf_def)
  let ?n = "int (length g) - 1" and ?w = "interval_millis source" and ?s = "br_open_time_ms (hd g)"
  have last_eq: "br_open_time_ms (List.last g) = ?s + ?n * ?w"
    using gapless_last [OF group_gapless [OF inv prog] ne] ne by (simp add: of_nat_diff Suc_leI)
  have "hd g \<in> set seen" "List.last g \<in> set seen" using sub ne by auto
  with ok have times: "0 \<le> ?s" "?s + ?n * ?w \<le> MAX_TIME_MS"
    unfolding last_eq [symmetric] by (simp_all add: in_range_def MIN_TIME_MS_def)
  have n: "0 \<le> ?n" using ne by (simp add: Suc_leI)
  obtain m where m: "m = ?n * ?w" by blast
  have "?n * 1 \<le> ?n * ?w" using n w by (intro mult_left_mono) simp_all
  with times(2) m have "?n \<le> m" "?s + m \<le> MAX_TIME_MS" by simp_all
  with times(1) n have bounds: "?n \<le> MAX_TIME_MS" "0 \<le> m" "m \<le> MAX_TIME_MS" by linarith+
  note bounds = bounds [unfolded m]
  have id: "sat_i64 x = x" if "0 \<le> x" "x \<le> MAX_TIME_MS" for x
    using that by (simp add: sat_i64_def MAX_TIME_MS_def)
  have "is_contiguous_prefix ?w q"
    using q(3,4) bucket_bar_start [OF q(2)] q(5) last_eq id n bounds times by (simp add: is_contiguous_prefix_def)
  with q(1) show ?thesis by (simp add: resample_finish_def)
qed

text \<open>
  Resampling never refuses an unbroken window. Consecutive aligned source bars, wherever the window
  starts and ends, resample into every coarser multiple of their interval, as long as no sum
  overflows: only holes, disorder and foreign widths are refused.
\<close>

theorem gapless_window_resamples:
  assumes wf: "interval_wf source" "interval_wf target" and width: "interval_millis source < interval_millis target"
      "interval_millis source dvd interval_millis target"
    and bars: "in_range bars" "gapless source bars" "\<forall>b \<in> set bars. interval_millis source dvd br_open_time_ms b"
    and adds: "\<forall>x y. checked_add D x y \<noteq> None"
  shows "\<exists>out. resample D bars source target = Some (Inr out)"
proof (cases bars)
  case Nil
  with width show ?thesis by (simp add: resample_def resample_finish_def Let_def mod_eq_0_iff_dvd)
next
  case (Cons b bs)
  let ?want = "interval_millis target div interval_millis source"
  let ?init = "\<lparr>rm_out = [], rm_pending = None, rm_previous_open = None, rm_leading_resolved = False\<rparr>"
  let ?q = "pending_open target (bucket_of target b) b"
  let ?st = "?init\<lparr>rm_pending := Some ?q, rm_previous_open := Some (br_open_time_ms b)\<rparr>"
  have check: "resample_check source b None = Inr ()"
    using bars(3) Cons by (simp add: resample_check_def is_some_and_def)
  then have first: "resample_step D source target ?want b ?init = Some (Inr ?st)"
    by (simp add: resample_step_def resample_next_def bucket_of_def)
  have inv0: "resample_inv D source target ?want [b] [] [] [b] ?q ?st"
    using bars(1) Cons by (intro start_inv check) (simp_all add: in_range_def)
  have prog0: "progress_inv source [b] [b] ?q ?st" by (simp add: progress_inv_def gapless_def)
  have "\<exists>st' dropped' ks' g' q'. resample_loop D source target ?want bs ?st = Some (Inr st')
     \<and> resample_inv D source target ?want ([b] @ bs) dropped' ks' g' q' st' \<and> progress_inv source ([b] @ bs) g' q' st'"
    using bars(1,2) Cons adds by (intro gapless_loop [OF wf width(2) _ inv0 prog0]) simp_all
  then obtain st' dropped' ks' g' q' where loop: "resample_loop D source target ?want bs ?st = Some (Inr st')"
    and inv: "resample_inv D source target ?want bars dropped' ks' g' q' st'" "progress_inv source bars g' q' st'"
    using Cons by auto
  from gapless_finish [OF wf inv bars(1)] obtain out
    where "resample_finish (interval_millis source) ?want st' = Inr out" by blast
  with loop first width Cons show ?thesis by (simp add: resample_def Let_def mod_eq_0_iff_dvd not_le)
qed

theorem gapless_window_resamples_witness:
  "\<exists>out. resample exact_declib (map (\<lambda>m. sample_bar m 1) [3..11]) (known 1 Minute) (known 5 Minute) = Some (Inr out)"
proof -
  let ?bars = "map (\<lambda>m. sample_bar m 1) [3..11]"
  have wf: "interval_wf (known 1 Minute)" "interval_wf (known 5 Minute)" by code_simp+
  have width: "interval_millis (known 1 Minute) < interval_millis (known 5 Minute)"
    "interval_millis (known 1 Minute) dvd interval_millis (known 5 Minute)" by code_simp+
  have bars: "in_range ?bars" "gapless (known 1 Minute) ?bars"
    "\<forall>b \<in> set ?bars. interval_millis (known 1 Minute) dvd br_open_time_ms b" by code_simp+
  have "\<forall>x y. checked_add exact_declib x y \<noteq> None" by (simp add: exact_declib_def)
  from gapless_window_resamples [OF wf width bars this] show ?thesis .
qed

end
