(* ===== verification/Aggregator_Props.thy ===== *)
theory Aggregator_Props
  imports Candles
begin

text \<open>
  The local aggregator: its invariant, what each call emits, that a run never emits a bucket twice, that
  no trade is lost or counted twice, and that no bar is invented past the live feed.
\<close>

section \<open>The invariant\<close>

definition on_axis :: "interval \<Rightarrow> int \<Rightarrow> bool" where
  "on_axis i t = (interval_millis i dvd t \<and> 0 \<le> t \<and> t \<le> MAX_TIME_MS)"

definition bar_wf :: "interval \<Rightarrow> bar \<Rightarrow> bool" where
  "bar_wf i b =
     (on_axis i (br_open_time_ms b) \<and> br_close_time_ms b = br_open_time_ms b + interval_millis i - 1
      \<and> br_low b \<le> br_open b \<and> br_open b \<le> br_high b \<and> br_low b \<le> br_close b \<and> br_close b \<le> br_high b)"

definition aggregator_ok :: "local_aggregator \<Rightarrow> bool" where
  "aggregator_ok a =
     (interval_wf (la_interval a) \<and> 0 \<le> la_accepts_from_ms a
      \<and> (\<forall>n. la_newest_bucket_ms a = Some n \<longrightarrow> on_axis (la_interval a) n)
      \<and> (\<forall>c. la_bucket a = Some c \<longrightarrow> on_axis (la_interval a) c \<and> is_some_and (\<lambda>n. c \<le> n) (la_newest_bucket_ms a))
      \<and> (\<forall>b. la_forming a = Some b \<longrightarrow> bar_wf (la_interval a) b \<and> la_bucket a = Some (br_open_time_ms b) \<and> 0 < br_trades b))"

lemma aggregator_okD:
  assumes "aggregator_ok a"
  shows "interval_wf (la_interval a)" "0 \<le> la_accepts_from_ms a"
    "la_newest_bucket_ms a = Some n \<Longrightarrow> on_axis (la_interval a) n"
    "la_bucket a = Some c \<Longrightarrow> on_axis (la_interval a) c" "la_bucket a = Some c \<Longrightarrow> is_some_and (\<lambda>n. c \<le> n) (la_newest_bucket_ms a)"
    "la_forming a = Some b \<Longrightarrow> bar_wf (la_interval a) b" "la_forming a = Some b \<Longrightarrow> la_bucket a = Some (br_open_time_ms b)"
    "la_forming a = Some b \<Longrightarrow> 0 < br_trades b"
  using assms by (simp_all add: aggregator_ok_def)

lemma start_on_axis:
  assumes "interval_wf i" "0 \<le> t" "t \<le> MAX_TIME_MS"
  shows "on_axis i (bucket_start_ms i t)"
  using buckets_partition_time [OF assms(1), of t] bucket_start_exact [OF assms(1,2)] assms(3) interval_wfD(1,2) [OF assms(1)]
    floor_multiple(1) [of "interval_millis i" t] assms(2)
  by (auto simp: on_axis_def MIN_TIME_MS_def)

lemma empty_bar_wf:
  assumes "interval_wf i" "on_axis i t"
  shows "bar_wf i (bar_empty_at t (interval_millis i) price)"
proof -
  note w = interval_wfD(1,2) [OF assms(1)]
  have "sat_i64 (t + (interval_millis i - 1)) = t + interval_millis i - 1"
    using assms(2) w by (simp add: sat_i64_def on_axis_def MAX_TIME_MS_def millis_consts)
  with assms(2) show ?thesis by (simp add: bar_wf_def bar_empty_at_def)
qed

lemma empty_bar_simps [simp]:
  "br_open_time_ms (bar_empty_at t w price) = t" "br_trades (bar_empty_at t w price) = 0"
  "br_volume (bar_empty_at t w price) = 0"
  by (simp_all add: bar_empty_at_def)

lemma first_whole_nonneg: "interval_wf i \<Longrightarrow> 0 \<le> first_whole_bucket i t"
proof -
  assume wf: "interval_wf i"
  have "0 \<le> clamp_time t" "clamp_time t \<le> MAX_TIME_MS"
    by (simp_all add: clamp_time_def MIN_TIME_MS_def MAX_TIME_MS_def)
  from start_on_axis [OF wf this] interval_wfD(1) [OF wf] show ?thesis
    by (auto simp: first_whole_bucket_def Let_def on_axis_def intro!: sat_i64_nonneg)
qed

lemma aggregator_new_ok: "interval_wf i \<Longrightarrow> aggregator_ok (aggregator_new i t)"
  by (simp add: aggregator_ok_def aggregator_new_def first_whole_nonneg)

lemma aggregator_resume_ok: "interval_wf i \<Longrightarrow> aggregator_ok (aggregator_resume i t floor_ms close)"
  by (simp add: aggregator_ok_def aggregator_new_def aggregator_resume_def first_whole_nonneg)

lemma feed_interrupted_ok: "aggregator_ok a \<Longrightarrow> aggregator_ok (feed_interrupted a)"
  by (simp add: aggregator_ok_def feed_interrupted_def)

lemma enter_bucket_simps [simp]:
  "la_interval (enter_bucket t a) = la_interval a" "la_bucket (enter_bucket t a) = Some t"
  "la_forming (enter_bucket t a) = la_forming a" "la_last_close (enter_bucket t a) = la_last_close a"
  "la_newest_bucket_ms (enter_bucket t a) = Some (case la_newest_bucket_ms a of None \<Rightarrow> t | Some n \<Rightarrow> max n t)"
  "la_accepts_from_ms (enter_bucket t a) = la_accepts_from_ms a"
  "la_late (enter_bucket t a) = la_late a" "la_before_history (enter_bucket t a) = la_before_history a"
  "la_out_of_range (enter_bucket t a) = la_out_of_range a"
  by (simp_all add: enter_bucket_def)

section \<open>What an advance emits\<close>

lemma i64_div_pos: "0 \<le> a \<Longrightarrow> 0 < b \<Longrightarrow> i64_div a b = a div b"
  by (cases "a = 0") (simp_all add: i64_div_def)

lemma i64_div_neg: "a < 0 \<Longrightarrow> 0 < b \<Longrightarrow> i64_div a b \<le> 0"
  by (simp add: i64_div_def pos_imp_zdiv_nonneg_iff)

text \<open>Flat bars of one price for the buckets after \<open>current\<close>, none of them after \<open>newest\<close>.\<close>

definition flat_run :: "interval \<Rightarrow> int \<Rightarrow> int \<Rightarrow> bar list \<Rightarrow> bool" where
  "flat_run i current newest out =
     (\<exists>close n. out = map (\<lambda>k. bar_empty_at (current + k * interval_millis i) (interval_millis i) close) [1..n]
        \<and> (0 < n \<longrightarrow> current + n * interval_millis i \<le> newest))"

lemma flat_run_Nil: "flat_run i current newest []"
  unfolding flat_run_def by (rule exI [of _ "0 :: decimal"], rule exI [of _ "0 :: int"]) simp

lemma fill_gap_cases:
  assumes "fill_gap current target fill a = (out, a')" "0 < interval_millis (la_interval a)"
  shows "flat_run (la_interval a) current (min (target - interval_millis (la_interval a)) fill) out"
    "\<exists>m. a' = a\<lparr>la_skipped_fills := m\<rparr>"
proof -
  let ?w = "interval_millis (la_interval a)"
  let ?gap = "i64_div (min (target - ?w) fill - current) ?w"
  have fits: "current + g * ?w \<le> m" if "g = i64_div (m - current) ?w" "0 < g" for g m
  proof -
    have pos: "0 \<le> m - current" using that i64_div_neg [of "m - current" ?w] assms(2) by fastforce
    have "g * ?w \<le> m - current" using floor_multiple(2) [OF assms(2) pos] that(1) i64_div_pos [OF pos assms(2)] by simp
    then show ?thesis by simp
  qed
  have run: "flat_run (la_interval a) current (min (target - ?w) fill)
      (map (\<lambda>k. bar_empty_at (current + k * ?w) ?w close) [1..?gap])" for close
    unfolding flat_run_def using fits [of ?gap "min (target - ?w) fill"] by blast
  with assms(1) flat_run_Nil show "flat_run (la_interval a) current (min (target - ?w) fill) out"
    by (auto simp: fill_gap_def Let_def split: option.splits if_splits)
  show "\<exists>m. a' = a\<lparr>la_skipped_fills := m\<rparr>"
    using assms(1) by (auto simp: fill_gap_def Let_def split: option.splits if_splits intro: exI [of _ "la_skipped_fills a"])
qed

lemma fill_bars:
  assumes wf: "interval_wf i" and c: "on_axis i current" and t: "on_axis i target"
    and run: "flat_run i current (min (target - interval_millis i) fill) out"
  shows "sorted_wrt (<) (map br_open_time_ms out)"
    "\<forall>b \<in> set out. bar_wf i b \<and> current < br_open_time_ms b \<and> br_open_time_ms b < target \<and> br_open_time_ms b \<le> fill
        \<and> br_trades b = 0 \<and> br_volume b = 0"
proof -
  note w = interval_wfD(1) [OF wf]
  from run obtain close n where n: "0 < n \<longrightarrow> current + n * interval_millis i \<le> min (target - interval_millis i) fill"
    and out_def: "out = map (\<lambda>k. bar_empty_at (current + k * interval_millis i) (interval_millis i) close) [1..n]"
    unfolding flat_run_def by blast
  have "sorted_wrt (<) [1..n]" by (simp add: sorted_wrt_upto)
  then show "sorted_wrt (<) (map br_open_time_ms out)"
    using w by (simp add: out_def sorted_wrt_map comp_def)
  show "\<forall>b \<in> set out. bar_wf i b \<and> current < br_open_time_ms b \<and> br_open_time_ms b < target \<and> br_open_time_ms b \<le> fill
      \<and> br_trades b = 0 \<and> br_volume b = 0"
  proof
    fix b
    assume "b \<in> set out"
    then obtain k where k: "1 \<le> k" "k \<le> n" and b: "b = bar_empty_at (current + k * interval_millis i) (interval_millis i) close"
      by (auto simp: out_def)
    have mono: "k * interval_millis i \<le> n * interval_millis i" "1 * interval_millis i \<le> k * interval_millis i"
      using k w by (intro mult_right_mono; simp)+
    from n k have ends: "current + n * interval_millis i \<le> target - interval_millis i" "current + n * interval_millis i \<le> fill"
      by auto
    have le: "current + k * interval_millis i \<le> target - interval_millis i" "current + k * interval_millis i \<le> fill"
      "current < current + k * interval_millis i" using mono ends w by linarith+
    with c t w have "on_axis i (current + k * interval_millis i)" by (auto simp: on_axis_def)
    from empty_bar_wf [OF wf this] le w b show "bar_wf i b \<and> current < br_open_time_ms b \<and> br_open_time_ms b < target
        \<and> br_open_time_ms b \<le> fill \<and> br_trades b = 0 \<and> br_volume b = 0" by simp
  qed
qed

definition forming_volume :: "local_aggregator \<Rightarrow> decimal" where
  "forming_volume a = (case la_forming a of None \<Rightarrow> 0 | Some b \<Rightarrow> br_volume b)"

text \<open>What a call may emit while it moves on to \<open>target\<close>: bars of closed buckets, invented ones only up to \<open>fill\<close>.\<close>

definition emits :: "local_aggregator \<Rightarrow> int \<Rightarrow> int \<Rightarrow> bar list \<Rightarrow> bool" where
  "emits a target fill out =
     (sorted_wrt (<) (map br_open_time_ms out)
      \<and> (\<forall>b \<in> set out. bar_wf (la_interval a) b \<and> is_some_and (\<lambda>c. c \<le> br_open_time_ms b) (la_bucket a)
            \<and> br_open_time_ms b < target \<and> (br_trades b = 0 \<longrightarrow> br_open_time_ms b \<le> fill)))"

definition same_setting :: "local_aggregator \<Rightarrow> local_aggregator \<Rightarrow> bool" where
  "same_setting a a' =
     (la_interval a' = la_interval a \<and> la_accepts_from_ms a' = la_accepts_from_ms a \<and> la_late a' = la_late a
      \<and> la_before_history a' = la_before_history a \<and> la_out_of_range a' = la_out_of_range a)"

lemma close_current_emits:
  assumes ok: "aggregator_ok a" and c: "la_bucket a = Some c"
    and eq: "close_current c fill (enter_bucket target a) = (out, a')"
  shows "\<forall>b \<in> set out. bar_wf (la_interval a) b \<and> br_open_time_ms b = c \<and> (br_trades b = 0 \<longrightarrow> c \<le> fill)" "length out \<le> 1"
    "sum_list (map br_volume out) = forming_volume a" "la_forming a' = None"
    "\<exists>close. a' = (enter_bucket target a)\<lparr>la_last_close := close, la_forming := None\<rparr>"
proof -
  note wf = aggregator_okD(1) [OF ok]
  have flat: "bar_wf (la_interval a) (bar_empty_at c (interval_millis (la_interval a)) price)" for price
    by (rule empty_bar_wf [OF wf aggregator_okD(4) [OF ok c]])
  show "\<forall>b \<in> set out. bar_wf (la_interval a) b \<and> br_open_time_ms b = c \<and> (br_trades b = 0 \<longrightarrow> c \<le> fill)"
    using eq flat aggregator_okD(6,7,8) [OF ok] c
    by (auto simp: close_current_def split: option.splits if_splits)
  show "length out \<le> 1" "sum_list (map br_volume out) = forming_volume a" "la_forming a' = None"
    using eq by (auto simp: close_current_def forming_volume_def split: option.splits if_splits)
  show "\<exists>close. a' = (enter_bucket target a)\<lparr>la_last_close := close, la_forming := None\<rparr>"
  proof (cases "la_forming a")
    case None
    with eq have "a' = enter_bucket target a" by (auto simp: close_current_def split: option.splits)
    with None show ?thesis by (intro exI [of _ "la_last_close a"]) (simp add: enter_bucket_def)
  next
    case (Some b)
    with eq show ?thesis by (auto simp: close_current_def)
  qed
qed

lemma enter_bucket_ok:
  assumes "aggregator_ok a" "on_axis (la_interval a) target"
  shows "aggregator_ok ((enter_bucket target a)\<lparr>la_last_close := close, la_forming := None\<rparr>)"
  using assms by (auto simp: aggregator_ok_def is_some_and_def max_def split: option.splits)

lemma advance_to_emits:
  assumes ok: "aggregator_ok a" and t: "on_axis (la_interval a) target" and adv: "advance_to target fill a = (out, a')"
  shows "aggregator_ok a'" "emits a target fill out" "same_setting a a'"
    "sum_list (map br_volume out) + forming_volume a' = forming_volume a"
    "la_bucket a' = Some (case la_bucket a of None \<Rightarrow> target | Some c \<Rightarrow> max c target)"
    "la_newest_bucket_ms a' = Some (case la_newest_bucket_ms a of None \<Rightarrow> target | Some n \<Rightarrow>
        if is_some_and (\<lambda>c. target \<le> c) (la_bucket a) then n else max n target)"
proof -
  note wf = aggregator_okD(1) [OF ok]
  have "aggregator_ok a' \<and> emits a target fill out \<and> same_setting a a'
      \<and> sum_list (map br_volume out) + forming_volume a' = forming_volume a
      \<and> la_bucket a' = Some (case la_bucket a of None \<Rightarrow> target | Some c \<Rightarrow> max c target)
      \<and> la_newest_bucket_ms a' = Some (case la_newest_bucket_ms a of None \<Rightarrow> target | Some n \<Rightarrow>
        if is_some_and (\<lambda>c. target \<le> c) (la_bucket a) then n else max n target)"
  proof (cases "la_bucket a")
    case None
    then have forming: "la_forming a = None" using aggregator_okD(7) [OF ok] by (cases "la_forming a") auto
    then have "enter_bucket target a = (enter_bucket target a)\<lparr>la_last_close := la_last_close a, la_forming := None\<rparr>"
      by (simp add: enter_bucket_def)
    then have "aggregator_ok (enter_bucket target a)" using enter_bucket_ok [OF ok t, of "la_last_close a"] by simp
    with adv None forming show ?thesis
      by (auto simp: advance_to_def emits_def same_setting_def forming_volume_def is_some_and_def split: option.split)
  next
    case (Some c)
    show ?thesis
    proof (cases "target \<le> c")
      case True
      from aggregator_okD(5) [OF ok Some] obtain n where "la_newest_bucket_ms a = Some n"
        by (auto simp: is_some_and_def split: option.splits)
      with adv Some True ok show ?thesis
        by (auto simp: advance_to_def emits_def same_setting_def is_some_and_def max_def)
    next
      case False
      obtain closed a1 where a1: "close_current c fill (enter_bucket target a) = (closed, a1)" by fastforce
      obtain filled a2 where a2: "fill_gap c target fill a1 = (filled, a2)" by fastforce
      from adv Some False a1 a2 have out: "out = closed @ filled" "a' = a2" by (auto simp: advance_to_def)
      note close = close_current_emits [OF ok Some a1]
      from close(5) obtain cl where a1_eq: "a1 = (enter_bucket target a)\<lparr>la_last_close := cl, la_forming := None\<rparr>" by blast
      have i: "la_interval a1 = la_interval a" by (simp add: a1_eq)
      have w: "0 < interval_millis (la_interval a1)" using wf i by (simp add: interval_wf_def)
      from fill_gap_cases(2) [OF a2 w] obtain m where a2_eq: "a2 = a1\<lparr>la_skipped_fills := m\<rparr>" by blast
      note fills = fill_bars [OF wf aggregator_okD(4) [OF ok Some] t fill_gap_cases(1) [OF a2 w, unfolded i]]
      have "aggregator_ok a1" unfolding a1_eq by (rule enter_bucket_ok [OF ok t])
      then have "aggregator_ok a'" by (simp add: out a2_eq aggregator_ok_def)
      moreover have "emits a target fill out"
      proof -
        have "sorted_wrt (<) (map br_open_time_ms closed)" using close(2) by (cases closed) (auto simp: Suc_le_eq)
        then show ?thesis using close(1) fills False Some
          by (auto simp: emits_def out sorted_wrt_append is_some_and_def)
      qed
      moreover have "sum_list (map br_volume filled) = 0"
        using fills(2) by (induction filled) simp_all
      then have "sum_list (map br_volume out) + forming_volume a' = forming_volume a"
        using close(3,4) by (simp add: out a2_eq forming_volume_def)
      ultimately show ?thesis using Some False
        by (auto simp: out a2_eq a1_eq same_setting_def is_some_and_def split: option.splits)
    qed
  qed
  then show "aggregator_ok a'" "emits a target fill out" "same_setting a a'"
    "sum_list (map br_volume out) + forming_volume a' = forming_volume a"
    "la_bucket a' = Some (case la_bucket a of None \<Rightarrow> target | Some c \<Rightarrow> max c target)"
    "la_newest_bucket_ms a' = Some (case la_newest_bucket_ms a of None \<Rightarrow> target | Some n \<Rightarrow>
        if is_some_and (\<lambda>c. target \<le> c) (la_bucket a) then n else max n target)" by blast+
qed

section \<open>Trades and ticks\<close>

definition accepts :: "local_aggregator \<Rightarrow> trade \<Rightarrow> bool" where
  "accepts a x =
     (MIN_TIME_MS \<le> td_time_ms x \<and> td_time_ms x \<le> MAX_TIME_MS \<and> la_accepts_from_ms a \<le> td_time_ms x
      \<and> is_none_or (\<lambda>n. n \<le> bucket_start_ms (la_interval a) (td_time_ms x)) (la_newest_bucket_ms a))"

definition exact_sums :: "declib \<Rightarrow> bool" where
  "exact_sums D = (\<forall>x y z. checked_add D x y = Some z \<longrightarrow> z = x + y)"

lemma push_rejected:
  assumes "aggregator_push D x a = Some (out, a')" "\<not> accepts a x"
  shows "out = []" "aggregator_ok a' = aggregator_ok a" "la_interval a' = la_interval a" "la_accepts_from_ms a' = la_accepts_from_ms a"
    "la_bucket a' = la_bucket a" "la_newest_bucket_ms a' = la_newest_bucket_ms a" "forming_volume a' = forming_volume a"
proof -
  from assms have "out = []" "a' = a\<lparr>la_out_of_range := la_out_of_range a + 1\<rparr> \<or>
      a' = a\<lparr>la_before_history := la_before_history a + 1\<rparr> \<or> a' = a\<lparr>la_late := la_late a + 1\<rparr>"
    by (auto simp: aggregator_push_def accepts_def is_none_or_def is_some_and_def not_le Let_def split: if_splits option.splits)
  then show "out = []" "aggregator_ok a' = aggregator_ok a" "la_interval a' = la_interval a"
    "la_accepts_from_ms a' = la_accepts_from_ms a" "la_bucket a' = la_bucket a"
    "la_newest_bucket_ms a' = la_newest_bucket_ms a" "forming_volume a' = forming_volume a"
    by (auto simp: aggregator_ok_def forming_volume_def)
qed

lemma push_accepted:
  assumes "aggregator_push D x a = Some (out, a')" "accepts a x"
  obtains a1 b b' where "advance_to (bucket_start_ms (la_interval a) (td_time_ms x)) (bucket_start_ms (la_interval a) (td_time_ms x)) a = (out, a1)"
    "b = (case la_forming a1 of Some b \<Rightarrow> b
          | None \<Rightarrow> bar_empty_at (bucket_start_ms (la_interval a) (td_time_ms x)) (interval_millis (la_interval a)) (td_price x))"
    "fold_trade D x b = Some b'" "a' = a1\<lparr>la_forming := Some b'\<rparr>"
proof -
  let ?t = "bucket_start_ms (la_interval a) (td_time_ms x)"
  obtain o1 a1 where adv: "advance_to ?t ?t a = (o1, a1)" by fastforce
  from assms(2) have "\<not> is_some_and (\<lambda>newest. ?t < newest) (la_newest_bucket_ms a)"
    by (auto simp: accepts_def is_none_or_def is_some_and_def split: option.splits)
  with assms adv that show ?thesis
    by (auto simp: aggregator_push_def accepts_def Let_def)
qed

lemma fold_trade_bar:
  assumes "fold_trade D x b = Some b'" "bar_wf i b"
  shows "bar_wf i b'" "br_open_time_ms b' = br_open_time_ms b" "0 < br_trades b'"
    "exact_sums D \<Longrightarrow> br_volume b' = br_volume b + td_size x"
  using assms
  by (auto simp: fold_trade_def bar_wf_def sat_add_u32_def U32_MAX_def exact_sums_def max_def min_def)

lemma push_emits:
  assumes ok: "aggregator_ok a" and push: "aggregator_push D x a = Some (out, a')" and acc: "accepts a x"
  defines "t \<equiv> bucket_start_ms (la_interval a) (td_time_ms x)"
  shows "aggregator_ok a'" "emits a t t out" "la_interval a' = la_interval a" "la_accepts_from_ms a' = la_accepts_from_ms a"
    "la_bucket a' = Some t" "la_newest_bucket_ms a' = Some t"
    "exact_sums D \<Longrightarrow> sum_list (map br_volume out) + forming_volume a' = forming_volume a + td_size x"
proof -
  note wf = aggregator_okD(1) [OF ok]
  have times: "0 \<le> td_time_ms x" "td_time_ms x \<le> MAX_TIME_MS" using acc by (simp_all add: accepts_def MIN_TIME_MS_def)
  have t: "on_axis (la_interval a) t" unfolding t_def by (rule start_on_axis [OF wf times])
  have newest: "is_none_or (\<lambda>n. n \<le> t) (la_newest_bucket_ms a)" using acc by (simp add: accepts_def t_def)
  obtain a1 b b' where adv: "advance_to t t a = (out, a1)"
    and b: "b = (case la_forming a1 of Some b \<Rightarrow> b | None \<Rightarrow> bar_empty_at t (interval_millis (la_interval a)) (td_price x))"
    and b': "fold_trade D x b = Some b'" and a': "a' = a1\<lparr>la_forming := Some b'\<rparr>"
    using push acc unfolding t_def by (rule push_accepted)
  note adv = advance_to_emits [OF ok t adv]
  have below: "c \<le> t" if "la_bucket a = Some c" for c
    using aggregator_okD(5) [OF ok that] newest by (auto simp: is_some_and_def is_none_or_def split: option.splits)
  have bucket: "la_bucket a1 = Some t" using adv(5) below by (auto simp: max_def split: option.splits)
  have i: "la_interval a1 = la_interval a" using adv(3) by (simp add: same_setting_def)
  have bar: "bar_wf (la_interval a) b" "br_open_time_ms b = t" and vol: "br_volume b = forming_volume a1"
    using b aggregator_okD(6,7) [OF adv(1)] bucket i empty_bar_wf [OF wf t]
    by (auto simp: forming_volume_def split: option.splits)
  note folded = fold_trade_bar [OF b' bar(1)]
  show "aggregator_ok a'" using adv(1) folded bar(2) bucket i by (simp add: aggregator_ok_def a')
  show "emits a t t out" by (rule adv(2))
  show "la_interval a' = la_interval a" "la_accepts_from_ms a' = la_accepts_from_ms a" "la_bucket a' = Some t"
    using adv(3) bucket by (simp_all add: a' same_setting_def)
  show "la_newest_bucket_ms a' = Some t"
    using adv(6) newest below aggregator_okD(5) [OF ok]
    by (auto simp: a' is_none_or_def is_some_and_def max_def split: option.splits)
  show "sum_list (map br_volume out) + forming_volume a' = forming_volume a + td_size x" if "exact_sums D"
    using folded(4) [OF that] adv(4) vol by (simp add: a' forming_volume_def)
qed

lemma close_through_emits:
  assumes ok: "aggregator_ok a" and close: "close_through now live a = (out, a')"
  defines "t \<equiv> bucket_start_ms (la_interval a) now"
  shows "aggregator_ok a'" "emits a t (bucket_start_ms (la_interval a) (clamp_time live)) out"
    "la_interval a' = la_interval a" "la_accepts_from_ms a' = la_accepts_from_ms a"
    "sum_list (map br_volume out) + forming_volume a' = forming_volume a"
    "(out = [] \<and> a' = a) \<or>
     la_bucket a' = Some (case la_bucket a of None \<Rightarrow> t | Some c \<Rightarrow> max c t)
     \<and> la_newest_bucket_ms a' = Some (case la_newest_bucket_ms a of None \<Rightarrow> t | Some n \<Rightarrow>
        if is_some_and (\<lambda>c. t \<le> c) (la_bucket a) then n else max n t)"
proof -
  have "aggregator_ok a' \<and> emits a t (bucket_start_ms (la_interval a) (clamp_time live)) out \<and> same_setting a a'
    \<and> sum_list (map br_volume out) + forming_volume a' = forming_volume a \<and> ((out = [] \<and> a' = a) \<or>
     la_bucket a' = Some (case la_bucket a of None \<Rightarrow> t | Some c \<Rightarrow> max c t)
     \<and> la_newest_bucket_ms a' = Some (case la_newest_bucket_ms a of None \<Rightarrow> t | Some n \<Rightarrow>
        if is_some_and (\<lambda>c. t \<le> c) (la_bucket a) then n else max n t))"
  proof (cases "now < la_accepts_from_ms a \<or> now > MAX_TIME_MS")
    case True
    with close ok show ?thesis by (auto simp: close_through_def emits_def same_setting_def)
  next
    case False
    with aggregator_okD(1,2) [OF ok] have t: "on_axis (la_interval a) t" by (auto simp: t_def intro!: start_on_axis)
    from close False have adv: "advance_to t (bucket_start_ms (la_interval a) (clamp_time live)) a = (out, a')"
      by (simp add: close_through_def t_def)
    from advance_to_emits [OF ok t adv] show ?thesis by blast
  qed
  then show "aggregator_ok a'" "emits a t (bucket_start_ms (la_interval a) (clamp_time live)) out"
    "la_interval a' = la_interval a" "la_accepts_from_ms a' = la_accepts_from_ms a"
    "sum_list (map br_volume out) + forming_volume a' = forming_volume a"
    "(out = [] \<and> a' = a) \<or>
     la_bucket a' = Some (case la_bucket a of None \<Rightarrow> t | Some c \<Rightarrow> max c t)
     \<and> la_newest_bucket_ms a' = Some (case la_newest_bucket_ms a of None \<Rightarrow> t | Some n \<Rightarrow>
        if is_some_and (\<lambda>c. t \<le> c) (la_bucket a) then n else max n t)" by (auto simp: same_setting_def)
qed

section \<open>Runs\<close>

datatype feed_event = EvTrade trade | EvInterrupted | EvClose int int

fun feed_step :: "declib \<Rightarrow> feed_event \<Rightarrow> local_aggregator \<Rightarrow> (bar list \<times> local_aggregator) option" where
  "feed_step D (EvTrade x) a = aggregator_push D x a"
| "feed_step D EvInterrupted a = Some ([], feed_interrupted a)"
| "feed_step D (EvClose now live) a = Some (close_through now live a)"

fun feed_run :: "declib \<Rightarrow> feed_event list \<Rightarrow> local_aggregator \<Rightarrow> (bar list \<times> local_aggregator) option" where
  "feed_run D [] a = Some ([], a)"
| "feed_run D (e # es) a =
     Option.bind (feed_step D e a) (\<lambda>(out, a1). map_option (\<lambda>(rest, a2). (out @ rest, a2)) (feed_run D es a1))"

lemma feed_run_Cons:
  "feed_run D (e # es) a = Some (out, a') \<longleftrightarrow>
     (\<exists>o1 o2 a1. feed_step D e a = Some (o1, a1) \<and> feed_run D es a1 = Some (o2, a') \<and> out = o1 @ o2)"
  by (cases "feed_step D e a") (auto split: prod.splits)

text \<open>A tick between an interruption and the next trade must not lie before buckets that were entered already.\<close>

definition tick_current :: "local_aggregator \<Rightarrow> feed_event \<Rightarrow> bool" where
  "tick_current a e =
     (case e of
        EvClose now _ \<Rightarrow> la_bucket a \<noteq> None \<or> is_none_or (\<lambda>n. n \<le> bucket_start_ms (la_interval a) now) (la_newest_bucket_ms a)
      | _ \<Rightarrow> True)"

fun ticks_current :: "declib \<Rightarrow> feed_event list \<Rightarrow> local_aggregator \<Rightarrow> bool" where
  "ticks_current D [] a = True"
| "ticks_current D (e # es) a = (tick_current a e \<and> (case feed_step D e a of None \<Rightarrow> True | Some (_, a1) \<Rightarrow> ticks_current D es a1))"

definition ahead :: "local_aggregator \<Rightarrow> bar list \<Rightarrow> bool" where
  "ahead a seen =
     (aggregator_ok a \<and> (la_bucket a \<noteq> None \<longrightarrow> la_bucket a = la_newest_bucket_ms a)
      \<and> sorted_wrt (<) (map br_open_time_ms seen) \<and> (\<forall>b \<in> set seen. bar_wf (la_interval a) b)
      \<and> (\<forall>b \<in> set seen. is_some_and (\<lambda>n. br_open_time_ms b < n) (la_newest_bucket_ms a)))"

lemma ahead_emits:
  assumes inv: "ahead a seen" and out: "emits a t fill out" and a': "aggregator_ok a'" "la_interval a' = la_interval a"
    and bucket: "la_bucket a' = Some t" "la_newest_bucket_ms a' = Some t" and le: "is_none_or (\<lambda>n. n \<le> t) (la_newest_bucket_ms a)"
  shows "ahead a' (seen @ out)"
proof -
  have old: "br_open_time_ms b < t" if "b \<in> set seen" for b
    using inv le that by (auto simp: ahead_def is_some_and_def is_none_or_def split: option.splits)
  have between: "br_open_time_ms b < br_open_time_ms c" if "b \<in> set seen" "c \<in> set out" for b c
    using inv out that by (fastforce simp: ahead_def emits_def is_some_and_def split: option.splits)
  from inv out a' bucket old between show ?thesis
    by (auto simp: ahead_def emits_def is_some_and_def sorted_wrt_append)
qed

lemma ahead_step:
  assumes inv: "ahead a seen" and step: "feed_step D e a = Some (out, a')" and tick: "tick_current a e"
  shows "ahead a' (seen @ out)" "la_interval a' = la_interval a"
proof -
  have ok: "aggregator_ok a" using inv by (simp add: ahead_def)
  have "ahead a' (seen @ out) \<and> la_interval a' = la_interval a"
  proof (cases e)
    case (EvTrade x)
    with step have push: "aggregator_push D x a = Some (out, a')" by simp
    show ?thesis
    proof (cases "accepts a x")
      case True
      note emitted = push_emits [OF ok push True]
      from ahead_emits [OF inv emitted(2,1,3,5,6)] True emitted(3) show ?thesis by (simp add: accepts_def)
    next
      case False
      from push_rejected [OF push False] inv show ?thesis by (simp add: ahead_def)
    qed
  next
    case EvInterrupted
    with step inv feed_interrupted_ok [OF ok] show ?thesis by (auto simp: ahead_def feed_interrupted_def)
  next
    case (EvClose now live)
    with step have close: "close_through now live a = (out, a')" by simp
    let ?t = "bucket_start_ms (la_interval a) now"
    note emitted = close_through_emits [OF ok close]
    show ?thesis
    proof (cases "out = [] \<and> a' = a")
      case True
      with inv show ?thesis by simp
    next
      case False
      with emitted(6) have moved: "la_bucket a' = Some (case la_bucket a of None \<Rightarrow> ?t | Some c \<Rightarrow> max c ?t)"
        "la_newest_bucket_ms a' = Some (case la_newest_bucket_ms a of None \<Rightarrow> ?t | Some n \<Rightarrow>
           if is_some_and (\<lambda>c. ?t \<le> c) (la_bucket a) then n else max n ?t)" by blast+
      show ?thesis
      proof (cases "is_some_and (\<lambda>c. ?t \<le> c) (la_bucket a)")
        case True
        then obtain c where c: "la_bucket a = Some c" "?t \<le> c" by (auto simp: is_some_and_def split: option.splits)
        with inv have "la_newest_bucket_ms a = Some c" by (auto simp: ahead_def)
        with moved c have "la_bucket a' = la_bucket a" "la_newest_bucket_ms a' = la_newest_bucket_ms a"
          by (simp_all add: is_some_and_def max_def)
        moreover have "out = []" using emitted(2) c by (cases out) (auto simp: emits_def is_some_and_def)
        ultimately show ?thesis using inv emitted(1,3) by (simp add: ahead_def)
      next
        case behind: False
        have le: "is_none_or (\<lambda>n. n \<le> ?t) (la_newest_bucket_ms a)"
          using tick EvClose inv behind
          by (auto simp: tick_current_def ahead_def is_some_and_def is_none_or_def split: option.splits)
        have "la_bucket a' = Some ?t" "la_newest_bucket_ms a' = Some ?t"
          using moved behind le by (auto simp: is_some_and_def is_none_or_def max_def split: option.splits if_splits)
        from ahead_emits [OF inv emitted(2,1,3) this le] emitted(3) show ?thesis by simp
      qed
    qed
  qed
  then show "ahead a' (seen @ out)" "la_interval a' = la_interval a" by blast+
qed

lemma ahead_run:
  assumes "ahead a seen" "feed_run D es a = Some (out, a')" "ticks_current D es a"
  shows "ahead a' (seen @ out) \<and> la_interval a' = la_interval a"
  using assms
proof (induction es arbitrary: a seen out)
  case Nil
  then show ?case by simp
next
  case (Cons e es)
  from Cons.prems(2) obtain o1 o2 a1 where step: "feed_step D e a = Some (o1, a1)"
    and rest: "feed_run D es a1 = Some (o2, a')" and out: "out = o1 @ o2" by (auto simp only: feed_run_Cons)
  from Cons.prems(3) step have ticks: "tick_current a e" "ticks_current D es a1" by auto
  note one = ahead_step [OF Cons.prems(1) step ticks(1)]
  from Cons.IH [OF one(1) rest ticks(2)] one(2) out show ?case by simp
qed

text \<open>
  C28: the bars of a local series only move forward. Over any run of trades, interruptions and ticks in
  which no tick falls behind, the emitted bars ascend strictly, so no bucket is emitted twice even
  across interruptions and replayed trades, and each is aligned, one width wide, and has its open and
  close between its low and its high.
\<close>

theorem local_bars_only_move_forward:
  assumes "interval_wf i" "feed_run D es (aggregator_new i t) = Some (out, a)" "ticks_current D es (aggregator_new i t)"
  shows "sorted_wrt (<) (map br_open_time_ms out) \<and> list_all (bar_wf i) out"
proof -
  have "ahead (aggregator_new i t) []"
    using aggregator_new_ok [OF assms(1)] by (simp add: ahead_def aggregator_new_def)
  from ahead_run [OF this assms(2,3)] show ?thesis
    by (auto simp: ahead_def list_all_iff aggregator_new_def)
qed

definition sample_trade :: "int \<Rightarrow> trade" where
  "sample_trade t = \<lparr>td_time_ms = t, td_price = 5, td_size = 2\<rparr>"

definition sample_feed :: "feed_event list" where
  "sample_feed =
     [EvTrade (sample_trade 10500), EvTrade (sample_trade 12300), EvInterrupted, EvTrade (sample_trade 10700),
      EvTrade (sample_trade 12800), EvClose 14100 14100]"

theorem local_bars_only_move_forward_witness:
  "map_option (\<lambda>(out, _). map (\<lambda>b. (br_open_time_ms b, br_trades b)) out)
     (feed_run exact_declib sample_feed (aggregator_new (known 1 Second) 9800))
     = Some [(10000, 1), (11000, 0), (12000, 1), (13000, 0)]
   \<and> sorted_wrt (<) (map br_open_time_ms (fst (the (feed_run exact_declib sample_feed (aggregator_new (known 1 Second) 9800)))))"
proof -
  let ?run = "feed_run exact_declib sample_feed (aggregator_new (known 1 Second) 9800)"
  have wf: "interval_wf (known 1 Second)" by code_simp
  have bars: "map_option (\<lambda>(out, _). map (\<lambda>b. (br_open_time_ms b, br_trades b)) out) ?run
      = Some [(10000, 1), (11000, 0), (12000, 1), (13000, 0)]" by code_simp
  then obtain out a where run: "?run = Some (out, a)" by auto
  have "ticks_current exact_declib sample_feed (aggregator_new (known 1 Second) 9800)" by code_simp
  from local_bars_only_move_forward [OF wf run this] bars run show ?thesis by simp
qed

section \<open>Volume\<close>

text \<open>What an event adds: the size of an accepted trade; an interruption discards the partial bucket.\<close>

definition event_volume :: "feed_event \<Rightarrow> local_aggregator \<Rightarrow> decimal" where
  "event_volume e a =
     (case e of
        EvTrade x \<Rightarrow> if accepts a x then td_size x else 0
      | EvInterrupted \<Rightarrow> - forming_volume a
      | EvClose _ _ \<Rightarrow> 0)"

fun run_volume :: "declib \<Rightarrow> feed_event list \<Rightarrow> local_aggregator \<Rightarrow> decimal" where
  "run_volume D [] a = 0"
| "run_volume D (e # es) a = event_volume e a + (case feed_step D e a of None \<Rightarrow> 0 | Some (_, a1) \<Rightarrow> run_volume D es a1)"

lemma step_volume:
  assumes "exact_sums D" "aggregator_ok a" "feed_step D e a = Some (out, a')"
  shows "sum_list (map br_volume out) + forming_volume a' = forming_volume a + event_volume e a" "aggregator_ok a'"
proof -
  have "sum_list (map br_volume out) + forming_volume a' = forming_volume a + event_volume e a \<and> aggregator_ok a'"
  proof (cases e)
    case (EvTrade x)
    with assms(3) have push: "aggregator_push D x a = Some (out, a')" by simp
    show ?thesis
      using push_emits(1,7) [OF assms(2) push] push_rejected [OF push] assms(1,2) EvTrade
      by (cases "accepts a x") (simp_all add: event_volume_def)
  next
    case EvInterrupted
    with assms(2,3) feed_interrupted_ok [OF assms(2)] show ?thesis
      by (auto simp: event_volume_def feed_interrupted_def forming_volume_def)
  next
    case (EvClose now live)
    with assms(3) have "close_through now live a = (out, a')" by simp
    from close_through_emits(1,5) [OF assms(2) this] EvClose show ?thesis by (simp add: event_volume_def)
  qed
  then show "sum_list (map br_volume out) + forming_volume a' = forming_volume a + event_volume e a" "aggregator_ok a'" by blast+
qed

text \<open>
  C29: no trade is lost or counted twice. Over any run, the volume of the emitted bars and of the bar
  that is forming is what was forming before plus the sizes of the accepted trades, less the partial
  buckets that interruptions discard; flat bars add nothing.
\<close>

theorem volume_is_conserved:
  assumes "exact_sums D" "aggregator_ok a" "feed_run D es a = Some (out, a')"
  shows "sum_list (map br_volume out) + forming_volume a' = forming_volume a + run_volume D es a"
  using assms(2,3)
proof (induction es arbitrary: a out)
  case Nil
  then show ?case by simp
next
  case (Cons e es)
  from Cons.prems(2) obtain o1 o2 a1 where step: "feed_step D e a = Some (o1, a1)"
    and rest: "feed_run D es a1 = Some (o2, a')" and out: "out = o1 @ o2" by (auto simp only: feed_run_Cons)
  note one = step_volume [OF assms(1) Cons.prems(1) step]
  from Cons.IH [OF one(2) rest] one(1) out step show ?case by (simp add: algebra_simps)
qed

theorem volume_is_conserved_witness:
  "case feed_run exact_declib sample_feed (aggregator_new (known 1 Second) 9800) of
     Some (out, a) \<Rightarrow> sum_list (map br_volume out) + forming_volume a = 4 | None \<Rightarrow> False"
proof -
  let ?run = "feed_run exact_declib sample_feed (aggregator_new (known 1 Second) 9800)"
  have exact: "exact_sums exact_declib" by (simp add: exact_sums_def exact_declib_def)
  have "interval_wf (known 1 Second)" by code_simp
  then have ok: "aggregator_ok (aggregator_new (known 1 Second) 9800)" by (rule aggregator_new_ok)
  have "?run \<noteq> None" by code_simp
  then obtain out a where run: "?run = Some (out, a)" by auto
  have "forming_volume (aggregator_new (known 1 Second) 9800) + run_volume exact_declib sample_feed (aggregator_new (known 1 Second) 9800) = 4"
    by code_simp
  with volume_is_conserved [OF exact ok run] run show ?thesis by simp
qed

text \<open>
  A tick invents nothing past the live feed. Whatever the clock says, a bar without trades is
  emitted only for a bucket that the feed is known to have covered, and the bar that has trades is
  emitted as it was observed.
\<close>

theorem tick_invents_nothing_past_the_feed:
  assumes "aggregator_ok a" "close_through now live a = (out, a')"
  shows "(\<forall>b \<in> set out. br_trades b = 0 \<longrightarrow> br_open_time_ms b \<le> bucket_start_ms (la_interval a) (clamp_time live))
         \<and> sum_list (map br_volume out) + forming_volume a' = forming_volume a"
  using close_through_emits(2,5) [OF assms] by (simp add: emits_def)

theorem tick_invents_nothing_past_the_feed_witness:
  "case aggregator_push exact_declib (sample_trade 10500) (aggregator_new (known 1 Second) 9800) of
     Some (_, a) \<Rightarrow> \<forall>b \<in> set (fst (close_through 90000 12100 a)). br_trades b = 0 \<longrightarrow> br_open_time_ms b \<le> 12000
   | None \<Rightarrow> False"
proof -
  let ?a = "aggregator_new (known 1 Second) 9800"
  have wf: "interval_wf (known 1 Second)" by code_simp
  have "(case aggregator_push exact_declib (sample_trade 10500) ?a of Some (_, a) \<Rightarrow> la_interval a = known 1 Second | None \<Rightarrow> False)"
    by code_simp
  then obtain o1 a where a: "aggregator_push exact_declib (sample_trade 10500) ?a = Some (o1, a)" "la_interval a = known 1 Second"
    by (auto split: option.splits)
  have "accepts ?a (sample_trade 10500)" by code_simp
  from push_emits(1) [OF aggregator_new_ok [OF wf] a(1) this] have "aggregator_ok a" .
  from tick_invents_nothing_past_the_feed [OF this prod.collapse [symmetric], of 90000 12100]
  have "\<forall>b \<in> set (fst (close_through 90000 12100 a)). br_trades b = 0 \<longrightarrow>
      br_open_time_ms b \<le> bucket_start_ms (known 1 Second) (clamp_time 12100)" unfolding a(2) by blast
  moreover have "bucket_start_ms (known 1 Second) (clamp_time 12100) = 12000" by code_simp
  ultimately show ?thesis using a(1) by simp
qed

text \<open>
  Without the condition on ticks the series can go back: a tick after an interruption enters a bucket,
  and the next trade fills flat bars from there, over the outage and over buckets that were emitted
  with trades before.
\<close>

definition outage_feed :: "int \<Rightarrow> feed_event list" where
  "outage_feed tick =
     [EvTrade (sample_trade 10500), EvTrade (sample_trade 11500), EvTrade (sample_trade 12500), EvInterrupted,
      EvClose tick 12500, EvTrade (sample_trade 15200)]"

theorem tick_in_an_outage_fabricates_bars:
  "map_option (\<lambda>(out, _). map (\<lambda>b. (br_open_time_ms b, br_trades b)) out)
     (feed_run exact_declib (outage_feed 13900) (aggregator_new (known 1 Second) 9800))
     = Some [(10000, 1), (11000, 1), (13000, 0), (14000, 0)]
   \<and> map_option (\<lambda>(out, _). map (\<lambda>b. (br_open_time_ms b, br_trades b)) out)
     (feed_run exact_declib (outage_feed 11200) (aggregator_new (known 1 Second) 9800))
     = Some [(10000, 1), (11000, 1), (11000, 0), (12000, 0), (13000, 0), (14000, 0)]"
  by code_simp

end
