(* ===== verification/Candle_Store.thy ===== *)
theory Candle_Store
  imports Candles
begin

text \<open>
  \<open>candles.rs\<close>, the candle side tables: bars keyed by coin, interval and open time, and the history floor
  of each local series. A statement of the store can fail; what ran before it in the savepoint is
  rolled back. Prices are stored as text.
\<close>

section \<open>Tables\<close>

datatype store_error = KeSqlite string | KeDecimal string

record candle_row =
  kr_coin :: string
  kr_interval :: string
  kr_open_time_ms :: int
  kr_close_time_ms :: int
  kr_source :: string
  kr_open :: string
  kr_high :: string
  kr_low :: string
  kr_close :: string
  kr_volume :: string
  kr_trades :: nat

record candle_tables =
  kt_bars :: "candle_row list"
  kt_history :: "((string \<times> string) \<times> int) list"

definition row_key :: "candle_row \<Rightarrow> string \<times> string \<times> int" where
  "row_key r = (kr_coin r, kr_interval r, kr_open_time_ms r)"

definition row_of_bar :: "declib \<Rightarrow> string \<Rightarrow> interval \<Rightarrow> bar_source \<Rightarrow> bar \<Rightarrow> candle_row" where
  "row_of_bar D coin i source b =
     \<lparr>kr_coin = coin, kr_interval = interval_to_string i, kr_open_time_ms = br_open_time_ms b,
      kr_close_time_ms = br_close_time_ms b, kr_source = source_as_str source, kr_open = dec_to_string D (br_open b),
      kr_high = dec_to_string D (br_high b), kr_low = dec_to_string D (br_low b), kr_close = dec_to_string D (br_close b),
      kr_volume = dec_to_string D (br_volume b), kr_trades = br_trades b\<rparr>"

definition parse_decimal :: "declib \<Rightarrow> string \<Rightarrow> store_error + decimal" where
  "parse_decimal D raw = ok_or (KeDecimal raw) (dec_parse D raw)"

definition bar_of_row :: "declib \<Rightarrow> candle_row \<Rightarrow> store_error + bar" where
  "bar_of_row D r =
     rbind (parse_decimal D (kr_open r)) (\<lambda>open_px.
     rbind (parse_decimal D (kr_high r)) (\<lambda>high.
     rbind (parse_decimal D (kr_low r)) (\<lambda>low.
     rbind (parse_decimal D (kr_close r)) (\<lambda>close.
     rbind (parse_decimal D (kr_volume r)) (\<lambda>volume.
     Inr \<lparr>br_open_time_ms = kr_open_time_ms r, br_close_time_ms = kr_close_time_ms r, br_open = open_px,
          br_high = high, br_low = low, br_close = close, br_volume = volume, br_trades = kr_trades r\<rparr>)))))"

definition insert_or_replace :: "candle_row \<Rightarrow> candle_row list \<Rightarrow> candle_row list" where
  "insert_or_replace r rs = r # filter (\<lambda>x. row_key x \<noteq> row_key r) rs"

section \<open>Operations\<close>

text \<open>\<open>in_savepoint\<close>: the error of a failed statement, with its writes undone.\<close>

definition in_savepoint ::
  "string option \<Rightarrow> (candle_tables \<Rightarrow> 'a \<times> candle_tables) \<Rightarrow> candle_tables \<Rightarrow> (store_error + 'a) \<times> candle_tables" where
  "in_savepoint fault f T =
     (case fault of Some e \<Rightarrow> (Inl (KeSqlite e), T) | None \<Rightarrow> let (v, T') = f T in (Inr v, T'))"

definition put_bars ::
  "declib \<Rightarrow> string option \<Rightarrow> string \<Rightarrow> interval \<Rightarrow> bar_source \<Rightarrow> bar list \<Rightarrow> candle_tables \<Rightarrow> (store_error + unit) \<times> candle_tables" where
  "put_bars D fault coin i source bs =
     in_savepoint fault (\<lambda>T. ((), T\<lparr>kt_bars := fold (\<lambda>b. insert_or_replace (row_of_bar D coin i source b)) bs (kt_bars T)\<rparr>))"

fun rows_to_bars :: "declib \<Rightarrow> candle_row list \<Rightarrow> store_error + bar list" where
  "rows_to_bars D [] = Inr []"
| "rows_to_bars D (r # rs) = rbind (bar_of_row D r) (\<lambda>b. rbind (rows_to_bars D rs) (\<lambda>bs. Inr (b # bs)))"

definition select_rows :: "candle_tables \<Rightarrow> string \<Rightarrow> interval \<Rightarrow> int \<Rightarrow> int \<Rightarrow> candle_row list" where
  "select_rows T coin i from_ms to_ms =
     sort_key kr_open_time_ms
       (filter (\<lambda>r. kr_coin r = coin \<and> kr_interval r = interval_to_string i
                    \<and> from_ms \<le> kr_open_time_ms r \<and> kr_open_time_ms r \<le> to_ms) (kt_bars T))"

definition store_bars ::
  "declib \<Rightarrow> string option \<Rightarrow> candle_tables \<Rightarrow> string \<Rightarrow> interval \<Rightarrow> int \<Rightarrow> int \<Rightarrow> store_error + bar list" where
  "store_bars D fault T coin i from_ms to_ms =
     (case fault of Some e \<Rightarrow> Inl (KeSqlite e) | None \<Rightarrow> rows_to_bars D (select_rows T coin i from_ms to_ms))"

definition latest_bar ::
  "declib \<Rightarrow> string option \<Rightarrow> candle_tables \<Rightarrow> string \<Rightarrow> interval \<Rightarrow> store_error + bar option" where
  "latest_bar D fault T coin i =
     (case fault of
        Some e \<Rightarrow> Inl (KeSqlite e)
      | None \<Rightarrow>
          (case map kr_open_time_ms (filter (\<lambda>r. kr_coin r = coin \<and> kr_interval r = interval_to_string i) (kt_bars T)) of
             [] \<Rightarrow> Inr None
           | t # ts \<Rightarrow>
               let newest = fold max ts t in
               rbind (store_bars D None T coin i newest newest) (\<lambda>bs.
               Inr (case bs of [] \<Rightarrow> None | b # _ \<Rightarrow> Some b))))"

definition raise_floor :: "string \<times> string \<Rightarrow> int \<Rightarrow> ((string \<times> string) \<times> int) list \<Rightarrow> ((string \<times> string) \<times> int) list" where
  "raise_floor k ms h =
     (case map_of h k of None \<Rightarrow> (k, ms) # h | Some old \<Rightarrow> map (\<lambda>(k', v). (k', if k' = k then max v ms else v)) h)"

definition set_no_history_before ::
  "string option \<Rightarrow> string \<Rightarrow> interval \<Rightarrow> int \<Rightarrow> candle_tables \<Rightarrow> (store_error + unit) \<times> candle_tables" where
  "set_no_history_before fault coin i ms T =
     (case fault of
        Some e \<Rightarrow> (Inl (KeSqlite e), T)
      | None \<Rightarrow> (Inr (), T\<lparr>kt_history := raise_floor (coin, interval_to_string i) ms (kt_history T)\<rparr>))"

definition no_history_before :: "string option \<Rightarrow> candle_tables \<Rightarrow> string \<Rightarrow> interval \<Rightarrow> store_error + int option" where
  "no_history_before fault T coin i =
     (case fault of Some e \<Rightarrow> Inl (KeSqlite e) | None \<Rightarrow> Inr (map_of (kt_history T) (coin, interval_to_string i)))"

definition prunable :: "int \<Rightarrow> candle_row \<Rightarrow> bool" where
  "prunable cutoff r = (kr_source r = source_as_str SoLocal \<and> kr_open_time_ms r < cutoff)"

definition prune_local :: "string option \<Rightarrow> int \<Rightarrow> candle_tables \<Rightarrow> (store_error + nat) \<times> candle_tables" where
  "prune_local fault now_ms =
     (let cutoff = sat_i64 (now_ms - LOCAL_RETENTION_MS) in
      in_savepoint fault (\<lambda>T.
        let gone = filter (prunable cutoff) (kt_bars T);
            series = remdups (map (\<lambda>r. (kr_coin r, kr_interval r)) gone)
        in (length gone,
            T\<lparr>kt_history := fold (\<lambda>k. raise_floor k cutoff) series (kt_history T),
              kt_bars := filter (\<lambda>r. \<not> prunable cutoff r) (kt_bars T)\<rparr>)))"

section \<open>Reading back\<close>

definition tables_ok :: "candle_tables \<Rightarrow> bool" where
  "tables_ok T = distinct (map row_key (kt_bars T))"

text \<open>Assumed of the decimal library: the text of a decimal parses back to it.\<close>

definition text_exact :: "declib \<Rightarrow> bool" where
  "text_exact D = (\<forall>x. dec_parse D (dec_to_string D x) = Some x)"

lemma row_key_inj: "interval_wf i \<Longrightarrow> interval_wf j \<Longrightarrow> interval_to_string i = interval_to_string j \<Longrightarrow> i = j"
  by (metis Inr_inject interval_parse_text)

lemma bar_of_row_of_bar: "text_exact D \<Longrightarrow> bar_of_row D (row_of_bar D coin i source b) = Inr b"
  by (simp add: text_exact_def bar_of_row_def row_of_bar_def parse_decimal_def)

lemma insert_or_replace_distinct:
  "distinct (map row_key rs) \<Longrightarrow> distinct (map row_key (insert_or_replace r rs))"
  by (auto simp: insert_or_replace_def distinct_map inj_on_def)

lemma fold_insert_distinct:
  "distinct (map row_key rs) \<Longrightarrow> distinct (map row_key (fold (\<lambda>b. insert_or_replace (f b)) bs rs))"
  by (induction bs arbitrary: rs) (simp_all add: insert_or_replace_distinct)

lemma put_bars_ok: "tables_ok T \<Longrightarrow> tables_ok (snd (put_bars D fault coin i source bs T))"
  by (cases fault) (simp_all add: put_bars_def in_savepoint_def tables_ok_def fold_insert_distinct)

lemma prune_local_ok: "tables_ok T \<Longrightarrow> tables_ok (snd (prune_local fault now_ms T))"
  by (cases fault) (simp_all add: prune_local_def in_savepoint_def tables_ok_def distinct_map_filter Let_def)

text \<open>A row is stored after a sequence of writes when it is the last written under its key, or none was.\<close>

lemma in_fold_insert:
  "r \<in> set (fold (\<lambda>b. insert_or_replace (f b)) bs rs) \<longleftrightarrow>
     (case find (\<lambda>b. row_key (f b) = row_key r) (List.rev bs) of Some b \<Rightarrow> r = f b | None \<Rightarrow> r \<in> set rs)"
proof (induction bs arbitrary: rs)
  case Nil
  then show ?case by simp
next
  case (Cons b bs)
  have app: "find P (xs @ [x]) = (case find P xs of None \<Rightarrow> if P x then Some x else None | Some y \<Rightarrow> Some y)" for P and xs :: "'a list" and x
    by (induction xs) simp_all
  show ?case using Cons [of "insert_or_replace (f b) rs"]
    by (auto simp: app insert_or_replace_def split: option.splits)
qed

lemma rows_to_bars_Inr: "rows_to_bars D rs = Inr bs \<longleftrightarrow> list_all2 (\<lambda>r b. bar_of_row D r = Inr b) rs bs"
  by (induction rs arbitrary: bs) (auto simp: result_inv list_all2_Cons1)

lemma bar_of_row_open: "bar_of_row D r = Inr b \<Longrightarrow> br_open_time_ms b = kr_open_time_ms r"
  by (auto simp: bar_of_row_def result_inv)

lemma set_select_rows:
  "r \<in> set (select_rows T coin i lo hi) \<longleftrightarrow>
     r \<in> set (kt_bars T) \<and> kr_coin r = coin \<and> kr_interval r = interval_to_string i \<and> lo \<le> kr_open_time_ms r \<and> kr_open_time_ms r \<le> hi"
  by (auto simp: select_rows_def)

lemma select_rows_ascend:
  assumes "tables_ok T"
  shows "sorted_wrt (<) (map kr_open_time_ms (select_rows T coin i lo hi))"
proof -
  let ?P = "\<lambda>r. kr_coin r = coin \<and> kr_interval r = interval_to_string i \<and> lo \<le> kr_open_time_ms r \<and> kr_open_time_ms r \<le> hi"
  from assms have "distinct (map row_key (filter ?P (kt_bars T)))" by (simp add: tables_ok_def distinct_map_filter)
  then have "distinct (map kr_open_time_ms (filter ?P (kt_bars T)))"
    by (auto simp: distinct_map inj_on_def row_key_def)
  then have "distinct (map kr_open_time_ms (select_rows T coin i lo hi))"
    by (simp add: select_rows_def distinct_map)
  moreover have "sorted (map kr_open_time_ms (select_rows T coin i lo hi))" by (simp add: select_rows_def)
  ultimately show ?thesis by (simp add: strict_sorted_iff)
qed

lemma store_bars_Inr:
  "store_bars D None T coin i lo hi = Inr bs \<longleftrightarrow> list_all2 (\<lambda>r b. bar_of_row D r = Inr b) (select_rows T coin i lo hi) bs"
  by (simp add: store_bars_def rows_to_bars_Inr)

lemma all_rows_read:
  assumes "\<forall>r \<in> set rs. \<exists>b. bar_of_row D r = Inr b"
  obtains bs where "list_all2 (\<lambda>r b. bar_of_row D r = Inr b) rs bs"
proof -
  from assms have "\<exists>bs. list_all2 (\<lambda>r b. bar_of_row D r = Inr b) rs bs"
    by (induction rs) (auto simp: list_all2_Cons1)
  then show ?thesis using that by blast
qed

lemma read_ascends:
  assumes "list_all2 (\<lambda>r b. bar_of_row D r = Inr b) rs bs"
  shows "map br_open_time_ms bs = map kr_open_time_ms rs"
  using assms by induction (auto dest: bar_of_row_open)

lemma read_set:
  assumes "list_all2 (\<lambda>r b. bar_of_row D r = Inr b) rs bs"
  shows "b \<in> set bs \<longleftrightarrow> (\<exists>r \<in> set rs. bar_of_row D r = Inr b)"
  using assms by induction auto

lemma filter_insert_other:
  "(\<And>b. \<not> P (f b)) \<Longrightarrow> (\<And>b x. P x \<Longrightarrow> row_key x \<noteq> row_key (f b)) \<Longrightarrow>
     filter P (fold (\<lambda>b. insert_or_replace (f b)) bs rs) = filter P rs"
proof (induction bs arbitrary: rs)
  case Nil
  then show ?case by simp
next
  case (Cons b bs)
  have "filter P (insert_or_replace (f b) rs) = filter P rs"
    using Cons.prems by (auto simp: insert_or_replace_def intro!: filter_cong)
  with Cons show ?case by simp
qed

text \<open>
  C33: what is stored reads back. After bars were put into a series, reading a window of it gives, in
  strictly ascending order, the last bar written for each time and, where none was written, the bar
  that was there; every other series reads as before.
\<close>

theorem stored_bars_read_back:
  assumes exact: "text_exact D" and ok: "tables_ok T" and old: "store_bars D None T coin i lo hi = Inr before"
    and put: "put_bars D None coin i source bs T = (Inr (), T')"
  shows "\<exists>after. store_bars D None T' coin i lo hi = Inr after \<and> sorted_wrt (<) (map br_open_time_ms after)
           \<and> (\<forall>b. b \<in> set after \<longleftrightarrow> lo \<le> br_open_time_ms b \<and> br_open_time_ms b \<le> hi
                \<and> (case find (\<lambda>x. br_open_time_ms x = br_open_time_ms b) (List.rev bs) of
                     Some x \<Rightarrow> b = x | None \<Rightarrow> b \<in> set before))
           \<and> (\<forall>coin' j lo' hi'. (coin', interval_to_string j) \<noteq> (coin, interval_to_string i) \<longrightarrow>
                store_bars D None T' coin' j lo' hi' = store_bars D None T coin' j lo' hi')"
proof -
  let ?f = "row_of_bar D coin i source"
  from put have T': "kt_bars T' = fold (\<lambda>b. insert_or_replace (?f b)) bs (kt_bars T)"
    by (auto simp: put_bars_def in_savepoint_def)
  have ok': "tables_ok T'" using put_bars_ok [OF ok, of D None coin i source bs] put by simp
  note read = old [unfolded store_bars_Inr]
  let ?latest = "\<lambda>t. find (\<lambda>x. br_open_time_ms x = t) (List.rev bs)"
  have row: "r \<in> set (select_rows T' coin i lo hi) \<longleftrightarrow> lo \<le> kr_open_time_ms r \<and> kr_open_time_ms r \<le> hi
      \<and> (case ?latest (kr_open_time_ms r) of Some x \<Rightarrow> r = ?f x | None \<Rightarrow> r \<in> set (select_rows T coin i lo hi))" for r
  proof (cases "kr_coin r = coin \<and> kr_interval r = interval_to_string i")
    case True
    then have "(\<lambda>b. row_key (?f b) = row_key r) = (\<lambda>x. br_open_time_ms x = kr_open_time_ms r)"
      by (auto simp: row_key_def row_of_bar_def)
    with True show ?thesis unfolding set_select_rows T' in_fold_insert by (auto split: option.split)
  next
    case False
    then show ?thesis unfolding set_select_rows by (auto simp: row_of_bar_def split: option.split)
  qed
  have parses: "bar_of_row D (?f x) = Inr x" for x by (rule bar_of_row_of_bar [OF exact])
  have "\<exists>b. bar_of_row D r = Inr b" if "r \<in> set (select_rows T coin i lo hi)" for r
    using read that by (auto simp: list_all2_conv_all_nth in_set_conv_nth)
  then have "\<forall>r \<in> set (select_rows T' coin i lo hi). \<exists>b. bar_of_row D r = Inr b"
    using parses by (auto simp: row split: option.splits)
  then obtain after where after: "list_all2 (\<lambda>r b. bar_of_row D r = Inr b) (select_rows T' coin i lo hi) after"
    by (rule all_rows_read)
  have "store_bars D None T' coin i lo hi = Inr after" using after by (simp add: store_bars_Inr)
  moreover have "sorted_wrt (<) (map br_open_time_ms after)"
    unfolding read_ascends [OF after] by (rule select_rows_ascend [OF ok'])
  moreover have "b \<in> set after \<longleftrightarrow> lo \<le> br_open_time_ms b \<and> br_open_time_ms b \<le> hi
      \<and> (case ?latest (br_open_time_ms b) of Some x \<Rightarrow> b = x | None \<Rightarrow> b \<in> set before)" for b
  proof (cases "?latest (br_open_time_ms b)")
    case None
    have same: "r \<in> set (select_rows T' coin i lo hi) \<longleftrightarrow> r \<in> set (select_rows T coin i lo hi)"
      and range: "r \<in> set (select_rows T coin i lo hi) \<Longrightarrow> lo \<le> br_open_time_ms b \<and> br_open_time_ms b \<le> hi"
      if "bar_of_row D r = Inr b" for r
      using bar_of_row_open [OF that] None row [of r] by (auto simp: set_select_rows)
    from None same range show ?thesis unfolding read_set [OF after] read_set [OF read] by auto
  next
    case (Some x)
    have "(\<exists>r \<in> set (select_rows T' coin i lo hi). bar_of_row D r = Inr b) \<longleftrightarrow>
        lo \<le> br_open_time_ms b \<and> br_open_time_ms b \<le> hi \<and> b = x"
    proof
      assume "\<exists>r \<in> set (select_rows T' coin i lo hi). bar_of_row D r = Inr b"
      then obtain r where r: "r \<in> set (select_rows T' coin i lo hi)" "bar_of_row D r = Inr b" by blast
      from bar_of_row_open [OF r(2)] have "lo \<le> br_open_time_ms b \<and> br_open_time_ms b \<le> hi \<and> r = ?f x"
        using r(1) Some unfolding row by auto
      with r(2) parses [of x] show "lo \<le> br_open_time_ms b \<and> br_open_time_ms b \<le> hi \<and> b = x" by simp
    next
      assume b: "lo \<le> br_open_time_ms b \<and> br_open_time_ms b \<le> hi \<and> b = x"
      then have eq: "b = x" and range: "lo \<le> br_open_time_ms x" "br_open_time_ms x \<le> hi" by auto
      have start: "kr_open_time_ms (?f x) = br_open_time_ms x" by (simp add: row_of_bar_def)
      have "?latest (br_open_time_ms x) = Some x" using Some unfolding eq .
      then have "?f x \<in> set (select_rows T' coin i lo hi)" using range unfolding row start by simp
      with parses [of x] eq show "\<exists>r \<in> set (select_rows T' coin i lo hi). bar_of_row D r = Inr b" by blast
    qed
    with Some show ?thesis unfolding read_set [OF after] by simp
  qed
  moreover have "store_bars D None T' coin' j lo' hi' = store_bars D None T coin' j lo' hi'"
    if "(coin', interval_to_string j) \<noteq> (coin, interval_to_string i)" for coin' j lo' hi'
  proof -
    have "select_rows T' coin' j lo' hi' = select_rows T coin' j lo' hi'"
      unfolding select_rows_def T' using that
      by (intro arg_cong [where f = "sort_key kr_open_time_ms"] filter_insert_other) (auto simp: row_of_bar_def row_key_def)
    then show ?thesis by (simp add: store_bars_def)
  qed
  ultimately show ?thesis by blast
qed

section \<open>Pruning\<close>

lemma raise_floor_lookup:
  "map_of (raise_floor k ms h) k' =
     (if k' = k then Some (case map_of h k of None \<Rightarrow> ms | Some old \<Rightarrow> max old ms) else map_of h k')"
proof (cases "map_of h k")
  case None
  then show ?thesis by (simp add: raise_floor_def)
next
  case (Some old)
  have "map_of (map (\<lambda>(k', v). (k', if k' = k then max v ms else v)) h) k' =
      map_option (\<lambda>v. if k' = k then max v ms else v) (map_of h k')"
    by (induction h) auto
  with Some show ?thesis by (cases "k' = k") (simp_all add: raise_floor_def option.map_ident)
qed

lemma raise_floors_lookup:
  "distinct ks \<Longrightarrow> map_of (fold (\<lambda>k. raise_floor k ms) ks h) k' =
     (if k' \<in> set ks then Some (case map_of h k' of None \<Rightarrow> ms | Some old \<Rightarrow> max old ms) else map_of h k')"
  by (induction ks arbitrary: h) (auto simp: raise_floor_lookup)

text \<open>
  Pruning forgets only old local bars and says so. It removes exactly the local bars that are older
  than the retention and counts them; the floor of a series that lost a bar rises to the cutoff, never
  below what it was, and every other floor stays; a failing store changes nothing.
\<close>

theorem prune_forgets_only_old_local_bars:
  "let cutoff = sat_i64 (now_ms - LOCAL_RETENTION_MS) in
   case prune_local fault now_ms T of
           (Inl e, T') \<Rightarrow> T' = T
         | (Inr n, T') \<Rightarrow>
             kt_bars T' = filter (\<lambda>r. \<not> prunable cutoff r) (kt_bars T)
             \<and> length (kt_bars T') + n = length (kt_bars T)
             \<and> (\<forall>coin i. map_of (kt_history T') (coin, i) =
                  (if \<exists>r \<in> set (kt_bars T). prunable cutoff r \<and> kr_coin r = coin \<and> kr_interval r = i
                   then Some (case map_of (kt_history T) (coin, i) of None \<Rightarrow> cutoff | Some old \<Rightarrow> max old cutoff)
                   else map_of (kt_history T) (coin, i)))"
proof (cases fault)
  case (Some e)
  then show ?thesis by (simp add: prune_local_def in_savepoint_def Let_def)
next
  case None
  define cutoff where "cutoff = sat_i64 (now_ms - LOCAL_RETENTION_MS)"
  have "length (filter (\<lambda>r. \<not> prunable cutoff r) (kt_bars T)) + length (filter (prunable cutoff) (kt_bars T)) = length (kt_bars T)"
    using sum_length_filter_compl [of "prunable cutoff" "kt_bars T"] by simp
  with None show ?thesis
    by (auto simp: prune_local_def in_savepoint_def Let_def raise_floors_lookup cutoff_def [symmetric])
qed

section \<open>A concrete store\<close>

definition stored_bar :: "int \<Rightarrow> decimal \<Rightarrow> bar" where
  "stored_bar second price =
     \<lparr>br_open_time_ms = second * 1000, br_close_time_ms = second * 1000 + 999, br_open = price, br_high = price,
      br_low = price, br_close = price, br_volume = 1, br_trades = 1\<rparr>"

text \<open>A decimal library whose text is a number in unary with its sign and denominator, so that it is exact.\<close>

definition text_of_rat :: "rat \<Rightarrow> string" where
  "text_of_rat x = (let (p, q) = quotient_of x in
     replicate (nat \<bar>p\<bar>) (CHR ''p'') @ (if p < 0 then ''-'' else []) @ replicate (nat q) (CHR ''q''))"

definition rat_of_text :: "string \<Rightarrow> rat option" where
  "rat_of_text s =
     (let p = int (length (filter (\<lambda>c. c = CHR ''p'') s)); q = int (length (filter (\<lambda>c. c = CHR ''q'') s)) in
      Some (Fract (if CHR ''-'' \<in> set s then - p else p) q))"

definition unary_declib :: declib where
  "unary_declib = exact_declib\<lparr>dec_to_string := text_of_rat, dec_parse := rat_of_text\<rparr>"

lemma unary_text_exact: "text_exact unary_declib"
proof -
  have "rat_of_text (text_of_rat x) = Some x" for x
  proof -
    obtain p q where pq: "quotient_of x = (p, q)" by fastforce
    then have q: "0 < q" by (rule quotient_of_denom_pos)
    have "x = Fract p q" using Fract_of_int_quotient quotient_of_div [OF pq] by simp
    with pq q show ?thesis by (auto simp: text_of_rat_def rat_of_text_def Let_def)
  qed
  then show ?thesis by (simp add: text_exact_def unary_declib_def)
qed

definition empty_tables :: candle_tables where
  "empty_tables = \<lparr>kt_bars = [], kt_history = []\<rparr>"

theorem stored_bars_read_back_witness:
  "\<exists>after. store_bars unary_declib None
       (snd (put_bars unary_declib None ''BTC'' (known 1 Second) SoLocal [stored_bar 2 5, stored_bar 1 3, stored_bar 2 7] empty_tables))
       ''BTC'' (known 1 Second) 0 9000 = Inr after \<and> stored_bar 2 7 \<in> set after \<and> stored_bar 2 5 \<notin> set after"
proof -
  let ?bs = "[stored_bar 2 5, stored_bar 1 3, stored_bar 2 7]"
  let ?put = "put_bars unary_declib None ''BTC'' (known 1 Second) SoLocal ?bs empty_tables"
  have ok: "tables_ok empty_tables" by (simp add: tables_ok_def empty_tables_def)
  have old: "store_bars unary_declib None empty_tables ''BTC'' (known 1 Second) 0 9000 = Inr []"
    by (simp add: store_bars_def select_rows_def empty_tables_def)
  have put: "?put = (Inr (), snd ?put)" by (simp add: put_bars_def in_savepoint_def)
  from stored_bars_read_back [OF unary_text_exact ok old put] obtain after
    where after: "store_bars unary_declib None (snd ?put) ''BTC'' (known 1 Second) 0 9000 = Inr after"
      and elems: "\<And>b. b \<in> set after \<longleftrightarrow> 0 \<le> br_open_time_ms b \<and> br_open_time_ms b \<le> 9000
          \<and> (case find (\<lambda>x. br_open_time_ms x = br_open_time_ms b) (List.rev ?bs) of Some x \<Rightarrow> b = x | None \<Rightarrow> b \<in> set [])"
    by blast
  have "stored_bar 2 7 \<in> set after" "stored_bar 2 5 \<notin> set after" unfolding elems by (simp_all add: stored_bar_def)
  with after show ?thesis by blast
qed

end
