(* ===== verification/Alerts.thy ===== *)
theory Alerts
  imports Prelude
begin

text \<open>
  \<open>alert.rs\<close>: condition alerts. An agent arms a condition, a market tick or a fill fires it once, and a
  fired alert stays as history. The per-network table is a list of rows with the row ids SQLite gives
  out; a condition that was stored but does not decode is an error text. Each statement of the store
  can fail.
\<close>

section \<open>Conditions\<close>

datatype direction = Above | Below

fun direction_reached :: "direction \<Rightarrow> decimal \<Rightarrow> decimal \<Rightarrow> bool" where
  "direction_reached Above observed level = (observed \<ge> level)"
| "direction_reached Below observed level = (observed \<le> level)"

datatype condition =
    CnPriceCross string direction decimal
  | CnFill "string option"
  | CnFundingRate string direction decimal

datatype alert_error =
    AtSqlite string
  | AtEncode string
  | AtFull
  | AtEmptySymbol
  | AtNonPositivePrice decimal

definition MAX_ARMED_PER_AGENT :: nat where "MAX_ARMED_PER_AGENT = 100"

definition watched_symbol :: "condition \<Rightarrow> string option" where
  "watched_symbol c = (case c of CnPriceCross s _ _ \<Rightarrow> Some s | CnFundingRate s _ _ \<Rightarrow> Some s | CnFill _ \<Rightarrow> None)"

definition condition_validate :: "condition \<Rightarrow> alert_error + unit" where
  "condition_validate c =
     rbind (ensure (watched_symbol c \<noteq> Some []) AtEmptySymbol) (\<lambda>_.
     case c of CnPriceCross _ _ px \<Rightarrow> ensure (\<not> px \<le> 0) (AtNonPositivePrice px) | _ \<Rightarrow> Inr ())"

record market_tick =
  mt_symbol :: string
  mt_mark_px :: "decimal option"
  mt_funding_hour_to_date_bps :: decimal

text \<open>The fields of a venue fill that alerts read.\<close>

record fill_print =
  fp_coin :: string
  fp_tid :: nat

datatype matched =
    MaPriceCross string decimal
  | MaFill string nat
  | MaFundingRate string decimal

section \<open>The table\<close>

record alert_row =
  wr_id :: int
  wr_agent :: string
  wr_condition :: "string + condition"
  wr_armed_at_ms :: int
  wr_fired_at_ms :: "int option"

record alert_store =
  at_rows :: "alert_row list"
  at_armed_changed :: bool

record alert =
  al_alert_id :: int
  al_condition :: condition
  al_armed_at_ms :: int
  al_fired_at_ms :: "int option"

record fired =
  fd_alert_id :: int
  fd_agent :: string
  fd_condition :: condition
  fd_matched :: matched

definition is_armed :: "alert_row \<Rightarrow> bool" where
  "is_armed r = (wr_fired_at_ms r = None)"

text \<open>An \<open>INTEGER PRIMARY KEY\<close> takes one more than the largest row id in the table.\<close>

definition next_rowid :: "alert_row list \<Rightarrow> int" where
  "next_rowid rs = (case rs of [] \<Rightarrow> 1 | r # rest \<Rightarrow> fold (\<lambda>x m. max (wr_id x) m) rest (wr_id r) + 1)"

definition alert_arm ::
  "string option \<Rightarrow> string \<Rightarrow> condition \<Rightarrow> int \<Rightarrow> alert_store \<Rightarrow> (alert_error + alert) \<times> alert_store" where
  "alert_arm fault agent c now_ms S =
     (case condition_validate c of
        Inl e \<Rightarrow> (Inl e, S)
      | Inr _ \<Rightarrow>
          (case fault of
             Some e \<Rightarrow> (Inl (AtSqlite e), S)
           | None \<Rightarrow>
               if length (filter (\<lambda>r. wr_agent r = agent \<and> is_armed r) (at_rows S)) \<ge> MAX_ARMED_PER_AGENT then (Inl AtFull, S)
               else let i = next_rowid (at_rows S);
                        r = \<lparr>wr_id = i, wr_agent = agent, wr_condition = Inr c, wr_armed_at_ms = now_ms, wr_fired_at_ms = None\<rparr>
                    in (Inr \<lparr>al_alert_id = i, al_condition = c, al_armed_at_ms = now_ms, al_fired_at_ms = None\<rparr>,
                        \<lparr>at_rows = at_rows S @ [r], at_armed_changed = True\<rparr>)))"

definition cancels :: "string \<Rightarrow> int \<Rightarrow> alert_row \<Rightarrow> bool" where
  "cancels agent i r = (wr_id r = i \<and> wr_agent r = agent \<and> is_armed r)"

definition alert_cancel :: "string option \<Rightarrow> string \<Rightarrow> int \<Rightarrow> alert_store \<Rightarrow> (alert_error + bool) \<times> alert_store" where
  "alert_cancel fault agent i S =
     (case fault of
        Some e \<Rightarrow> (Inl (AtSqlite e), S)
      | None \<Rightarrow>
          let removed = length (filter (cancels agent i) (at_rows S)) in
          (Inr (removed = 1),
           \<lparr>at_rows = filter (\<lambda>r. \<not> cancels agent i r) (at_rows S),
            at_armed_changed = (at_armed_changed S \<or> removed = 1)\<rparr>))"

fun collect_alerts :: "alert_row list \<Rightarrow> alert_error + alert list" where
  "collect_alerts [] = Inr []"
| "collect_alerts (r # rs) =
     rbind (map_err AtEncode (wr_condition r)) (\<lambda>c.
     rbind (collect_alerts rs) (\<lambda>as.
     Inr (\<lparr>al_alert_id = wr_id r, al_condition = c, al_armed_at_ms = wr_armed_at_ms r, al_fired_at_ms = wr_fired_at_ms r\<rparr> # as)))"

definition for_agent :: "string option \<Rightarrow> string \<Rightarrow> alert_store \<Rightarrow> alert_error + alert list" where
  "for_agent fault agent S =
     (case fault of
        Some e \<Rightarrow> Inl (AtSqlite e)
      | None \<Rightarrow> collect_alerts (List.rev (sort_key wr_id (filter (\<lambda>r. wr_agent r = agent) (at_rows S)))))"

text \<open>\<open>armed\<close>: what is still watching, with rows that do not decode left out.\<close>

definition alerts_armed :: "string option \<Rightarrow> alert_store \<Rightarrow> alert_error + (int \<times> string \<times> condition) list" where
  "alerts_armed fault S =
     (case fault of
        Some e \<Rightarrow> Inl (AtSqlite e)
      | None \<Rightarrow>
          Inr (List.map_filter
                 (\<lambda>r. case wr_condition r of Inr c \<Rightarrow> Some (wr_id r, wr_agent r, c) | Inl _ \<Rightarrow> None)
                 (sort_key wr_id (filter is_armed (at_rows S)))))"

definition watched_symbols :: "string option \<Rightarrow> alert_store \<Rightarrow> alert_error + string list" where
  "watched_symbols fault S =
     rbind (alerts_armed fault S) (\<lambda>as. Inr (remdups_adj (sort (List.map_filter (\<lambda>(_, _, c). watched_symbol c) as))))"

definition mark_fired :: "string option \<Rightarrow> int \<Rightarrow> int \<Rightarrow> alert_store \<Rightarrow> (alert_error + bool) \<times> alert_store" where
  "mark_fired fault i now_ms S =
     (case fault of
        Some e \<Rightarrow> (Inl (AtSqlite e), S)
      | None \<Rightarrow>
          (Inr (length (filter (\<lambda>r. wr_id r = i \<and> is_armed r) (at_rows S)) = 1),
           S\<lparr>at_rows := map (\<lambda>r. if wr_id r = i \<and> is_armed r then r\<lparr>wr_fired_at_ms := Some now_ms\<rparr> else r) (at_rows S)\<rparr>))"

section \<open>Evaluation\<close>

definition tick_match :: "market_tick \<Rightarrow> condition \<Rightarrow> matched option" where
  "tick_match tick c =
     (case c of
        CnPriceCross symbol d px \<Rightarrow>
          if symbol = mt_symbol tick then
            (case mt_mark_px tick of
               Some mark \<Rightarrow> if direction_reached d mark px then Some (MaPriceCross symbol mark) else None
             | None \<Rightarrow> None)
          else None
      | CnFundingRate symbol d bps \<Rightarrow>
          if symbol = mt_symbol tick \<and> direction_reached d (mt_funding_hour_to_date_bps tick) bps
          then Some (MaFundingRate symbol (mt_funding_hour_to_date_bps tick)) else None
      | CnFill _ \<Rightarrow> None)"

definition fills_match :: "fill_print list \<Rightarrow> condition \<Rightarrow> matched option" where
  "fills_match fills c =
     (case c of
        CnFill symbol \<Rightarrow>
          map_option (\<lambda>f. MaFill (fp_coin f) (fp_tid f)) (find (\<lambda>f. is_none_or (\<lambda>want. want = fp_coin f) symbol) fills)
      | _ \<Rightarrow> None)"

text \<open>The loop of \<open>on_market_tick\<close> and \<open>on_fills\<close>: a failed statement ends it.\<close>

fun fire_loop ::
  "(int \<Rightarrow> string option) \<Rightarrow> (condition \<Rightarrow> matched option) \<Rightarrow> int \<Rightarrow> (int \<times> string \<times> condition) list \<Rightarrow> alert_store \<Rightarrow>
     (alert_error + fired list) \<times> alert_store" where
  "fire_loop faults match now_ms [] S = (Inr [], S)"
| "fire_loop faults match now_ms ((i, agent, c) # rest) S =
     (case match c of
        None \<Rightarrow> fire_loop faults match now_ms rest S
      | Some m \<Rightarrow>
          (case mark_fired (faults i) i now_ms S of
             (Inl e, S1) \<Rightarrow> (Inl e, S1)
           | (Inr changed, S1) \<Rightarrow>
               (case fire_loop faults match now_ms rest S1 of
                  (Inl e, S2) \<Rightarrow> (Inl e, S2)
                | (Inr fs, S2) \<Rightarrow>
                    (Inr (if changed
                          then \<lparr>fd_alert_id = i, fd_agent = agent, fd_condition = c, fd_matched = m\<rparr> # fs else fs), S2))))"

definition evaluate_armed ::
  "string option \<Rightarrow> (int \<Rightarrow> string option) \<Rightarrow> (condition \<Rightarrow> matched option) \<Rightarrow> int \<Rightarrow> alert_store \<Rightarrow>
     (alert_error + fired list) \<times> alert_store" where
  "evaluate_armed fault faults match now_ms S =
     (case alerts_armed fault S of Inl e \<Rightarrow> (Inl e, S) | Inr as \<Rightarrow> fire_loop faults match now_ms as S)"

definition on_market_tick ::
  "string option \<Rightarrow> (int \<Rightarrow> string option) \<Rightarrow> market_tick \<Rightarrow> int \<Rightarrow> alert_store \<Rightarrow> (alert_error + fired list) \<times> alert_store" where
  "on_market_tick fault faults tick = evaluate_armed fault faults (tick_match tick)"

definition on_fills ::
  "string option \<Rightarrow> (int \<Rightarrow> string option) \<Rightarrow> fill_print list \<Rightarrow> int \<Rightarrow> alert_store \<Rightarrow> (alert_error + fired list) \<times> alert_store" where
  "on_fills fault faults fills = evaluate_armed fault faults (fills_match fills)"

definition funding_bps :: "declib \<Rightarrow> decimal \<Rightarrow> decimal option" where
  "funding_bps D rate = checked_mul D rate 10000"

end
