(* ===== verification/Alert_Props.thy ===== *)
theory Alert_Props
  imports Alerts
begin

text \<open>
  What the alerts guarantee: an evaluation fires exactly the armed alerts whose condition holds, an
  alert fires at most once however evaluations, arming and cancelling interleave, and an agent keeps
  at most a hundred armed.
\<close>

section \<open>Row ids\<close>

definition store_ok :: "alert_store \<Rightarrow> bool" where
  "store_ok S = distinct (map wr_id (at_rows S))"

lemma fold_max_ge: "m \<le> fold (\<lambda>x m. max (f x) m) xs (m :: 'a :: linorder)"
  "x \<in> set xs \<Longrightarrow> f x \<le> fold (\<lambda>x m. max (f x) m) xs m"
proof (induction xs arbitrary: m)
  case (Cons y ys)
  case 1
  show ?case using Cons.IH(1) [of "max (f y) m"] by simp
  case 2
  show ?case
  proof (cases "x = y")
    case True
    then show ?thesis using Cons.IH(1) [of "max (f y) m"] by simp
  next
    case False
    with 2 Cons.IH(2) [of "max (f y) m"] show ?thesis by simp
  qed
qed simp_all

lemma next_rowid_fresh: "r \<in> set rs \<Longrightarrow> wr_id r < next_rowid rs"
proof (cases rs)
  case (Cons a list)
  assume "r \<in> set rs"
  with Cons have "wr_id r \<le> fold (\<lambda>x m. max (wr_id x) m) list (wr_id a)"
    using fold_max_ge(1) [of "wr_id a" wr_id list] fold_max_ge(2) [of r list wr_id "wr_id a"] by auto
  with Cons show ?thesis by (simp add: next_rowid_def)
qed simp

lemma unique_row:
  assumes "store_ok S" "r \<in> set (at_rows S)" "r' \<in> set (at_rows S)" "wr_id r = wr_id r'"
  shows "r = r'"
  using assms by (auto simp: store_ok_def distinct_map dest: inj_onD)

lemma count_row:
  "distinct (map wr_id rs) \<Longrightarrow>
     length (filter (\<lambda>r. wr_id r = i \<and> P r) rs) = (if \<exists>r \<in> set rs. wr_id r = i \<and> P r then 1 else 0)"
proof (induction rs)
  case Nil
  then show ?case by simp
next
  case (Cons r rs)
  have "filter (\<lambda>r. wr_id r = i \<and> P r) rs = []" if "wr_id r = i"
    using Cons.prems that by (simp add: filter_empty_conv) (metis image_eqI)
  with Cons show ?case by (cases "wr_id r = i \<and> P r") (auto simp: filter_empty_conv)
qed

lemma arm_ok: "store_ok S \<Longrightarrow> store_ok (snd (alert_arm fault agent c now_ms S))"
  using next_rowid_fresh [of _ "at_rows S"]
  by (fastforce simp: alert_arm_def store_ok_def Let_def split: sum.split option.split)

lemma cancel_ok: "store_ok S \<Longrightarrow> store_ok (snd (alert_cancel fault agent i S))"
  by (auto simp: alert_cancel_def store_ok_def Let_def distinct_map_filter split: option.split)

lemma mark_fired_ids: "map wr_id (at_rows (snd (mark_fired fault i now_ms S))) = map wr_id (at_rows S)"
  by (simp add: mark_fired_def split: option.split)

lemma mark_ok: "store_ok S \<Longrightarrow> store_ok (snd (mark_fired fault i now_ms S))"
  by (simp add: store_ok_def mark_fired_ids)

lemma mark_fired_changed:
  assumes "store_ok S" "mark_fired fault i now_ms S = (Inr True, S')"
  shows "\<exists>r \<in> set (at_rows S). wr_id r = i \<and> is_armed r" "\<exists>r \<in> set (at_rows S'). wr_id r = i \<and> \<not> is_armed r"
proof -
  from assms(2) have S': "S' = S\<lparr>at_rows := map (\<lambda>r. if wr_id r = i \<and> is_armed r then r\<lparr>wr_fired_at_ms := Some now_ms\<rparr> else r) (at_rows S)\<rparr>"
    and one: "length (filter (\<lambda>r. wr_id r = i \<and> is_armed r) (at_rows S)) = 1"
    by (auto simp: mark_fired_def split: option.splits)
  show armed: "\<exists>r \<in> set (at_rows S). wr_id r = i \<and> is_armed r"
  proof (rule ccontr)
    assume "\<not> ?thesis"
    with count_row [OF assms(1) [unfolded store_ok_def], of i is_armed] one show False by simp
  qed
  then obtain r where "r \<in> set (at_rows S)" "wr_id r = i" "is_armed r" by blast
  then have "r\<lparr>wr_fired_at_ms := Some now_ms\<rparr> \<in> set (at_rows S')"
    unfolding S' by (auto intro: image_eqI [where x = r])
  moreover have "wr_id (r\<lparr>wr_fired_at_ms := Some now_ms\<rparr>) = i" "\<not> is_armed (r\<lparr>wr_fired_at_ms := Some now_ms\<rparr>)"
    using \<open>wr_id r = i\<close> by (simp_all add: is_armed_def)
  ultimately show "\<exists>r \<in> set (at_rows S'). wr_id r = i \<and> \<not> is_armed r" by blast
qed

section \<open>Interleaved evaluation\<close>

text \<open>
  The state of several evaluators: what they have read and not yet marked, and the alerts whose firing
  they reported. A reading is not a lock: between it and its marks anything may happen.
\<close>

record alert_world =
  aw_store :: alert_store
  aw_readings :: "fired list"
  aw_log :: "fired list"

definition readings_of :: "(condition \<Rightarrow> matched option) \<Rightarrow> (int \<times> string \<times> condition) list \<Rightarrow> fired list" where
  "readings_of match as =
     List.map_filter (\<lambda>(i, agent, c). map_option (\<lambda>m. \<lparr>fd_alert_id = i, fd_agent = agent, fd_condition = c, fd_matched = m\<rparr>) (match c)) as"

inductive alert_step :: "alert_world \<Rightarrow> alert_world \<Rightarrow> bool" where
  arm: "alert_step w (w\<lparr>aw_store := snd (alert_arm fault agent c now_ms (aw_store w))\<rparr>)"
| cancel: "alert_step w (w\<lparr>aw_store := snd (alert_cancel fault agent i (aw_store w))\<rparr>)"
| read: "alerts_armed None (aw_store w) = Inr as \<Longrightarrow> alert_step w (w\<lparr>aw_readings := aw_readings w @ readings_of match as\<rparr>)"
| mark: "f \<in> set (aw_readings w) \<Longrightarrow> mark_fired None (fd_alert_id f) now_ms (aw_store w) = (Inr changed, S') \<Longrightarrow>
     alert_step w (w\<lparr>aw_store := S', aw_log := (if changed then aw_log w @ [f] else aw_log w)\<rparr>)"

text \<open>A reported alert is in the table as fired, so its id is neither fired nor given out again.\<close>

definition once_inv :: "alert_world \<Rightarrow> bool" where
  "once_inv w =
     (store_ok (aw_store w) \<and> distinct (map fd_alert_id (aw_log w))
      \<and> (\<forall>f \<in> set (aw_log w). \<exists>r \<in> set (at_rows (aw_store w)). wr_id r = fd_alert_id f \<and> \<not> is_armed r))"

lemma fired_rows_kept:
  assumes "r \<in> set (at_rows S)" "\<not> is_armed r"
  shows "r \<in> set (at_rows (snd (alert_arm fault agent c now_ms S)))" "r \<in> set (at_rows (snd (alert_cancel fault agent i S)))"
    "r \<in> set (at_rows (snd (mark_fired fault i now_ms S)))"
  using assms
  by (auto simp: alert_arm_def alert_cancel_def cancels_def mark_fired_def Let_def split: sum.splits option.splits
      intro: image_eqI [of _ _ r])

lemma once_inv_step: "alert_step w w' \<Longrightarrow> once_inv w \<Longrightarrow> once_inv w'"
proof (induction rule: alert_step.cases)
  case (arm w fault agent c now_ms)
  then show ?case using arm_ok [of "aw_store w"] fired_rows_kept(1) by (fastforce simp: once_inv_def)
next
  case (cancel w fault agent i)
  then show ?case using cancel_ok [of "aw_store w"] fired_rows_kept(2) by (fastforce simp: once_inv_def)
next
  case (read w as match)
  then show ?case by (simp add: once_inv_def)
next
  case (mark f w now_ms changed S')
  let ?S = "aw_store w"
  have ok: "store_ok ?S" using mark.prems mark.hyps by (simp add: once_inv_def)
  have ok': "store_ok S'" using mark_ok [OF ok, of None "fd_alert_id f" now_ms] mark.hyps by simp
  have kept: "\<exists>r \<in> set (at_rows S'). wr_id r = fd_alert_id g \<and> \<not> is_armed r" if "g \<in> set (aw_log w)" for g
    using mark.prems mark.hyps that fired_rows_kept(3) [of _ ?S None "fd_alert_id f" now_ms]
    by (fastforce simp: once_inv_def)
  show ?case
  proof (cases changed)
    case False
    with mark ok' kept show ?thesis by (simp add: once_inv_def)
  next
    case True
    with mark.hyps have marked: "mark_fired None (fd_alert_id f) now_ms ?S = (Inr True, S')" by simp
    note changed = mark_fired_changed [OF ok marked]
    have "fd_alert_id f \<notin> fd_alert_id ` set (aw_log w)"
    proof
      assume "fd_alert_id f \<in> fd_alert_id ` set (aw_log w)"
      then obtain r where "r \<in> set (at_rows ?S)" "wr_id r = fd_alert_id f" "\<not> is_armed r"
        using mark.prems mark.hyps by (force simp: once_inv_def)
      with changed(1) unique_row [OF ok] show False by metis
    qed
    with True mark ok' kept changed(2) show ?thesis by (auto simp: once_inv_def)
  qed
qed

lemma once_inv_steps: "alert_step\<^sup>*\<^sup>* w w' \<Longrightarrow> once_inv w \<Longrightarrow> once_inv w'"
  by (induction rule: rtranclp_induct) (auto intro: once_inv_step)

text \<open>An evaluation is a run of these steps: one reading and its marks.\<close>

lemma readings_of_Cons:
  "readings_of match ((i, agent, c) # as) =
     (case match c of None \<Rightarrow> readings_of match as
      | Some m \<Rightarrow> \<lparr>fd_alert_id = i, fd_agent = agent, fd_condition = c, fd_matched = m\<rparr> # readings_of match as)"
  by (simp add: readings_of_def List.map_filter_simps split: option.split)

lemma fire_loop_run:
  assumes "set (readings_of match as) \<subseteq> set (aw_readings w)" "fire_loop (\<lambda>_. None) match now_ms as (aw_store w) = (Inr fs, S')"
  shows "alert_step\<^sup>*\<^sup>* w (w\<lparr>aw_store := S', aw_log := aw_log w @ fs\<rparr>)"
  using assms
proof (induction as arbitrary: w fs)
  case Nil
  then have "w\<lparr>aw_store := S', aw_log := aw_log w @ fs\<rparr> = w" by auto
  then show ?case by simp
next
  case (Cons a as)
  obtain i agent c where a: "a = (i, agent, c)" by (cases a)
  show ?case
  proof (cases "match c")
    case None
    with Cons a show ?thesis by (simp add: readings_of_Cons)
  next
    case (Some m)
    let ?f = "\<lparr>fd_alert_id = i, fd_agent = agent, fd_condition = c, fd_matched = m\<rparr>"
    obtain changed S1 where marked: "mark_fired None i now_ms (aw_store w) = (Inr changed, S1)"
      by (auto simp: mark_fired_def)
    with Cons.prems(2) a Some obtain gs where rest: "fire_loop (\<lambda>_. None) match now_ms as S1 = (Inr gs, S')"
      and fs: "fs = (if changed then ?f # gs else gs)"
      by (auto split: prod.splits sum.splits)
    let ?w1 = "w\<lparr>aw_store := S1, aw_log := (if changed then aw_log w @ [?f] else aw_log w)\<rparr>"
    have "?f \<in> set (aw_readings w)" using Cons.prems(1) a Some by (simp add: readings_of_Cons)
    then have "alert_step w ?w1" by (rule alert_step.mark) (use marked in simp)
    moreover have "alert_step\<^sup>*\<^sup>* ?w1 (?w1\<lparr>aw_store := S', aw_log := aw_log ?w1 @ gs\<rparr>)"
      using Cons.IH [of ?w1 gs] Cons.prems(1) a Some rest by (simp add: readings_of_Cons)
    ultimately have "alert_step\<^sup>*\<^sup>* w (?w1\<lparr>aw_store := S', aw_log := aw_log ?w1 @ gs\<rparr>)"
      by (rule converse_rtranclp_into_rtranclp)
    moreover have "?w1\<lparr>aw_store := S', aw_log := aw_log ?w1 @ gs\<rparr> = w\<lparr>aw_store := S', aw_log := aw_log w @ fs\<rparr>"
      using fs by simp
    ultimately show ?thesis by simp
  qed
qed

lemma evaluate_armed_run:
  assumes "evaluate_armed None (\<lambda>_. None) match now_ms (aw_store w) = (Inr fs, S')"
  shows "\<exists>readings. alert_step\<^sup>*\<^sup>* w (w\<lparr>aw_readings := readings, aw_store := S', aw_log := aw_log w @ fs\<rparr>)"
proof -
  obtain as where as: "alerts_armed None (aw_store w) = Inr as" by (simp add: alerts_armed_def)
  let ?w1 = "w\<lparr>aw_readings := aw_readings w @ readings_of match as\<rparr>"
  have "alert_step\<^sup>*\<^sup>* ?w1 (?w1\<lparr>aw_store := S', aw_log := aw_log ?w1 @ fs\<rparr>)"
    using assms as by (intro fire_loop_run) (simp_all add: evaluate_armed_def)
  with alert_step.read [OF as, of match]
  have "alert_step\<^sup>*\<^sup>* w (?w1\<lparr>aw_store := S', aw_log := aw_log ?w1 @ fs\<rparr>)" by (rule converse_rtranclp_into_rtranclp)
  then show ?thesis by (intro exI [of _ "aw_readings w @ readings_of match as"]) simp
qed

text \<open>
  C30: an alert fires at most once. However arming, cancelling, readings and the marks of any number of
  concurrent evaluations interleave, no two reported firings have the same alert id, and each reported
  alert is in the table as fired.
\<close>

theorem alert_fires_at_most_once:
  assumes "store_ok (aw_store w)" "aw_log w = []" "alert_step\<^sup>*\<^sup>* w w'"
  shows "distinct (map fd_alert_id (aw_log w'))
         \<and> (\<forall>f \<in> set (aw_log w'). \<exists>r \<in> set (at_rows (aw_store w')). wr_id r = fd_alert_id f \<and> \<not> is_armed r)"
proof -
  have "once_inv w" using assms(1,2) by (simp add: once_inv_def)
  from once_inv_steps [OF assms(3) this] show ?thesis by (simp add: once_inv_def)
qed

definition sample_alerts :: alert_store where
  "sample_alerts =
     snd (alert_arm None ''alpha'' (CnFill None) 6
       (snd (alert_arm None ''alpha'' (CnPriceCross ''BTC'' Above 70) 5 \<lparr>at_rows = [], at_armed_changed = False\<rparr>)))"

definition sample_tick :: market_tick where
  "sample_tick = \<lparr>mt_symbol = ''BTC'', mt_mark_px = Some 71, mt_funding_hour_to_date_bps = 0\<rparr>"

definition sample_fired :: "fired list" where
  "sample_fired =
     [\<lparr>fd_alert_id = 1, fd_agent = ''alpha'', fd_condition = CnPriceCross ''BTC'' Above 70, fd_matched = MaPriceCross ''BTC'' 71\<rparr>]"

lemma sample_alerts_ok: "store_ok sample_alerts"
  by code_simp

lemma sample_tick_fires: "on_market_tick None (\<lambda>_. None) sample_tick 9 sample_alerts =
    (Inr sample_fired, snd (on_market_tick None (\<lambda>_. None) sample_tick 9 sample_alerts))"
  by code_simp

theorem alert_fires_at_most_once_witness:
  "\<exists>w'. alert_step\<^sup>*\<^sup>* \<lparr>aw_store = sample_alerts, aw_readings = [], aw_log = []\<rparr> w' \<and> aw_log w' = sample_fired
        \<and> distinct (map fd_alert_id (aw_log w'))"
proof -
  let ?w = "\<lparr>aw_store = sample_alerts, aw_readings = [], aw_log = []\<rparr>"
  from evaluate_armed_run [of "tick_match sample_tick" 9 ?w sample_fired] sample_tick_fires
  obtain readings where run: "alert_step\<^sup>*\<^sup>* ?w (?w\<lparr>aw_readings := readings,
      aw_store := snd (on_market_tick None (\<lambda>_. None) sample_tick 9 sample_alerts), aw_log := [] @ sample_fired\<rparr>)" by (auto simp: on_market_tick_def)
  from alert_fires_at_most_once [OF _ _ run] sample_alerts_ok run show ?thesis by fastforce
qed

section \<open>One evaluation\<close>

definition matches_row :: "(condition \<Rightarrow> matched option) \<Rightarrow> alert_row \<Rightarrow> bool" where
  "matches_row match r = (is_armed r \<and> (case wr_condition r of Inr c \<Rightarrow> match c \<noteq> None | Inl _ \<Rightarrow> False))"

definition fire_row :: "int \<Rightarrow> alert_row \<Rightarrow> alert_row" where
  "fire_row now_ms r = r\<lparr>wr_fired_at_ms := Some now_ms\<rparr>"

lemma fire_loop_exact:
  assumes "store_ok S" "distinct (map fst as)" "\<forall>(i, _) \<in> set as. \<exists>r \<in> set (at_rows S). wr_id r = i \<and> is_armed r"
  shows "fire_loop (\<lambda>_. None) match now_ms as S =
    (Inr (readings_of match as),
     S\<lparr>at_rows := map (\<lambda>r. if is_armed r \<and> wr_id r \<in> fd_alert_id ` set (readings_of match as) then fire_row now_ms r else r) (at_rows S)\<rparr>)"
  using assms
proof (induction as arbitrary: S)
  case Nil
  then show ?case by (simp add: readings_of_def List.map_filter_simps)
next
  case (Cons a as)
  obtain i agent c where a: "a = (i, agent, c)" by (cases a)
  show ?case
  proof (cases "match c")
    case None
    with Cons a show ?thesis by (simp add: readings_of_Cons)
  next
    case (Some m)
    define S1 where "S1 = S\<lparr>at_rows := map (\<lambda>r. if wr_id r = i \<and> is_armed r then fire_row now_ms r else r) (at_rows S)\<rparr>"
    have "\<exists>r \<in> set (at_rows S). wr_id r = i \<and> is_armed r" using Cons.prems(3) a by simp
    then have marked: "mark_fired None i now_ms S = (Inr True, S1)"
      using count_row [OF Cons.prems(1) [unfolded store_ok_def], of i is_armed]
      by (simp add: mark_fired_def S1_def fire_row_def)
    have ok: "store_ok S1" using mark_ok [OF Cons.prems(1), of None i now_ms] marked by simp
    have i: "i \<notin> fst ` set as" using Cons.prems(2) a by simp
    have armed: "\<forall>(j, _) \<in> set as. \<exists>r \<in> set (at_rows S1). wr_id r = j \<and> is_armed r"
    proof (clarify)
      fix j agent' c'
      assume j: "(j, agent', c') \<in> set as"
      with Cons.prems(3) obtain r where r: "r \<in> set (at_rows S)" "wr_id r = j" "is_armed r" by fastforce
      moreover from i j have "j \<noteq> i" by force
      ultimately have "r \<in> set (at_rows S1)" by (auto simp: S1_def intro: image_eqI [where x = r])
      with r show "\<exists>r \<in> set (at_rows S1). wr_id r = j \<and> is_armed r" by blast
    qed
    have "fire_loop (\<lambda>_. None) match now_ms as S1 = (Inr (readings_of match as),
        S1\<lparr>at_rows := map (\<lambda>r. if is_armed r \<and> wr_id r \<in> fd_alert_id ` set (readings_of match as) then fire_row now_ms r else r) (at_rows S1)\<rparr>)"
      using Cons.IH [OF ok _ armed] Cons.prems(2) by simp
    with a Some marked show ?thesis
      by (auto simp: readings_of_Cons S1_def fire_row_def is_armed_def)
  qed
qed

lemma map_filter_member: "y \<in> set (List.map_filter f xs) \<longleftrightarrow> (\<exists>x \<in> set xs. f x = Some y)"
  by (induction xs) (auto split: option.split)

lemma armed_sound:
  assumes "alerts_armed None S = Inr as"
  shows "(i, agent, c) \<in> set as \<longleftrightarrow> (\<exists>r \<in> set (at_rows S). is_armed r \<and> wr_id r = i \<and> wr_agent r = agent \<and> wr_condition r = Inr c)"
proof -
  let ?armed = "sort_key wr_id (filter is_armed (at_rows S))"
  let ?decode = "\<lambda>r. case wr_condition r of Inr c \<Rightarrow> Some (wr_id r, wr_agent r, c) | Inl _ \<Rightarrow> None"
  have as: "as = List.map_filter ?decode ?armed" using assms by (simp add: alerts_armed_def)
  have "?decode r = Some (i, agent, c) \<longleftrightarrow> wr_id r = i \<and> wr_agent r = agent \<and> wr_condition r = Inr c" for r
    by (cases "wr_condition r") auto
  moreover have "(i, agent, c) \<in> set as \<longleftrightarrow> (\<exists>r \<in> set ?armed. ?decode r = Some (i, agent, c))"
    by (simp only: as map_filter_member)
  ultimately show ?thesis by auto
qed

lemma armed_distinct:
  assumes "store_ok S" "alerts_armed None S = Inr as"
  shows "distinct (map fst as)"
proof -
  have "distinct (map wr_id (sort_key wr_id (filter is_armed (at_rows S))))"
    using assms(1) by (auto simp: store_ok_def distinct_map inj_on_def)
  moreover have "distinct (map fst (List.map_filter (\<lambda>r. case wr_condition r of Inr c \<Rightarrow> Some (wr_id r, wr_agent r, c) | Inl _ \<Rightarrow> None) rs))"
    if "distinct (map wr_id rs)" for rs
    using that by (induction rs) (auto simp: List.map_filter_def split: sum.splits)
  ultimately show ?thesis using assms(2) by (auto simp: alerts_armed_def)
qed

lemma readings_of_iff:
  "\<lparr>fd_alert_id = i, fd_agent = agent, fd_condition = c, fd_matched = m\<rparr> \<in> set (readings_of match as) \<longleftrightarrow>
     (i, agent, c) \<in> set as \<and> match c = Some m"
  by (force simp: readings_of_def List.map_filter_def)

lemma readings_of_ids: "fd_alert_id ` set (readings_of match as) \<subseteq> fst ` set as"
  by (force simp: readings_of_def List.map_filter_def)

lemma readings_of_distinct: "distinct (map fst as) \<Longrightarrow> distinct (map fd_alert_id (readings_of match as))"
proof (induction as)
  case Nil
  then show ?case by (simp add: readings_of_def List.map_filter_simps)
next
  case (Cons a as)
  then show ?case using readings_of_ids [of match as] by (cases a) (auto simp: readings_of_Cons split: option.split)
qed

lemma fired_ids_match:
  assumes "r \<in> set rows"
    and "\<And>i agent c m. (\<lparr>fd_alert_id = i, fd_agent = agent, fd_condition = c, fd_matched = m\<rparr> \<in> set fs) =
      ((\<exists>r \<in> set rows. is_armed r \<and> wr_id r = i \<and> wr_agent r = agent \<and> wr_condition r = Inr c) \<and> match c = Some m)"
    and "\<And>r r'. r \<in> set rows \<Longrightarrow> r' \<in> set rows \<Longrightarrow> wr_id r = wr_id r' \<Longrightarrow> r = r'"
  shows "is_armed r \<and> wr_id r \<in> fd_alert_id ` set fs \<longleftrightarrow> matches_row match r"
proof
  assume armed: "is_armed r \<and> wr_id r \<in> fd_alert_id ` set fs"
  then obtain f where f: "f \<in> set fs" "fd_alert_id f = wr_id r" by auto
  obtain i agent c m where "f = \<lparr>fd_alert_id = i, fd_agent = agent, fd_condition = c, fd_matched = m\<rparr>" by (cases f)
  with f assms(2) [of i agent c m] obtain r' where "r' \<in> set rows" "wr_id r' = wr_id r" "wr_condition r' = Inr c" "match c = Some m"
    by auto
  with armed assms(1) assms(3) [of r' r] show "matches_row match r" by (auto simp: matches_row_def)
next
  assume "matches_row match r"
  then obtain c m where "is_armed r" "wr_condition r = Inr c" "match c = Some m"
    by (auto simp: matches_row_def split: sum.splits)
  with assms(1) assms(2) [of "wr_id r" "wr_agent r" c m] show "is_armed r \<and> wr_id r \<in> fd_alert_id ` set fs"
    by (metis (mono_tags, lifting) fired.select_convs(1) image_eqI)
qed



section \<open>What the statements do not cover\<close>

text \<open>
  A cancelled alert leaves its row id free, and the next alert armed takes it. An evaluation that read the
  cancelled alert before the cancellation then marks the new alert: it reports the cancelled condition to
  the agent that cancelled it, and the other agent's alert is spent although its condition never held.
\<close>

theorem stale_reading_fires_a_reused_id:
  "\<exists>w'. alert_step\<^sup>*\<^sup>* \<lparr>aw_store = \<lparr>at_rows = [], at_armed_changed = False\<rparr>, aw_readings = [], aw_log = []\<rparr> w'
     \<and> aw_log w' = sample_fired
     \<and> at_rows (aw_store w') =
         [\<lparr>wr_id = 1, wr_agent = ''beta'', wr_condition = Inr (CnPriceCross ''ETH'' Below 1), wr_armed_at_ms = 8, wr_fired_at_ms = Some 9\<rparr>]
     \<and> tick_match sample_tick (CnPriceCross ''ETH'' Below 1) = None"
proof -
  let ?empty = "\<lparr>at_rows = [], at_armed_changed = False\<rparr>"
  let ?alpha = "snd (alert_arm None ''alpha'' (CnPriceCross ''BTC'' Above 70) 5 ?empty)"
  let ?cancelled = "snd (alert_cancel None ''alpha'' 1 ?alpha)"
  let ?beta = "snd (alert_arm None ''beta'' (CnPriceCross ''ETH'' Below 1) 8 ?cancelled)"
  let ?f = "hd sample_fired"
  define w0 where "w0 = \<lparr>aw_store = ?empty, aw_readings = [], aw_log = []\<rparr>"
  define w1 where "w1 = \<lparr>aw_store = ?alpha, aw_readings = [], aw_log = []\<rparr>"
  define w2 where "w2 = \<lparr>aw_store = ?alpha, aw_readings = sample_fired, aw_log = []\<rparr>"
  define w3 where "w3 = \<lparr>aw_store = ?cancelled, aw_readings = sample_fired, aw_log = []\<rparr>"
  define w4 where "w4 = \<lparr>aw_store = ?beta, aw_readings = sample_fired, aw_log = []\<rparr>"
  define w5 where "w5 = \<lparr>aw_store = snd (mark_fired None 1 9 ?beta), aw_readings = sample_fired, aw_log = sample_fired\<rparr>"
  have "alert_step w0 w1"
    using alert_step.arm [of w0 None "''alpha''" "CnPriceCross ''BTC'' Above 70" 5] by (simp add: w0_def w1_def)
  moreover have reading: "alerts_armed None ?alpha = Inr [(1, ''alpha'', CnPriceCross ''BTC'' Above 70)]" by code_simp
  have "readings_of (tick_match sample_tick) [(1, ''alpha'', CnPriceCross ''BTC'' Above 70)] = sample_fired" by code_simp
  then have "alert_step w1 w2"
    using alert_step.read [of w1 _ "tick_match sample_tick"] reading by (fastforce simp: w1_def w2_def)
  moreover have "alert_step w2 w3" using alert_step.cancel [of w2 None "''alpha''" 1] by (simp add: w2_def w3_def)
  moreover have "alert_step w3 w4"
    using alert_step.arm [of w3 None "''beta''" "CnPriceCross ''ETH'' Below 1" 8] by (simp add: w3_def w4_def)
  moreover have marked: "mark_fired None 1 9 ?beta = (Inr True, snd (mark_fired None 1 9 ?beta))" by code_simp
  have "alert_step w4 w5"
    using alert_step.mark [of ?f w4 9 True] marked by (simp add: w4_def w5_def sample_fired_def)
  ultimately have "alert_step\<^sup>*\<^sup>* w0 w5" by (meson converse_rtranclp_into_rtranclp rtranclp.rtrancl_refl)
  moreover have "at_rows (snd (mark_fired None 1 9 ?beta)) =
      [\<lparr>wr_id = 1, wr_agent = ''beta'', wr_condition = Inr (CnPriceCross ''ETH'' Below 1), wr_armed_at_ms = 8, wr_fired_at_ms = Some 9\<rparr>]"
    by code_simp
  moreover have "tick_match sample_tick (CnPriceCross ''ETH'' Below 1) = None" by code_simp
  ultimately show ?thesis by (intro exI [of _ w5]) (simp add: w0_def w5_def)
qed

text \<open>
  A failed mark ends the evaluation with the error alone: the alerts it had marked before are fired in the
  table, and the caller gets none of them to report.
\<close>

theorem failed_mark_loses_earlier_firings:
  "on_market_tick None (\<lambda>i. if i = 2 then Some ''disk I/O error'' else None) sample_tick 9
       (snd (alert_arm None ''beta'' (CnPriceCross ''BTC'' Above 60) 7
         (snd (alert_arm None ''alpha'' (CnPriceCross ''BTC'' Above 70) 5 \<lparr>at_rows = [], at_armed_changed = False\<rparr>)))) =
     (Inl (AtSqlite ''disk I/O error''),
      \<lparr>at_rows =
         [\<lparr>wr_id = 1, wr_agent = ''alpha'', wr_condition = Inr (CnPriceCross ''BTC'' Above 70), wr_armed_at_ms = 5, wr_fired_at_ms = Some 9\<rparr>,
          \<lparr>wr_id = 2, wr_agent = ''beta'', wr_condition = Inr (CnPriceCross ''BTC'' Above 60), wr_armed_at_ms = 7, wr_fired_at_ms = None\<rparr>],
       at_armed_changed = True\<rparr>)"
  by code_simp

section \<open>Bounds and isolation\<close>

definition armed_count :: "string \<Rightarrow> alert_store \<Rightarrow> nat" where
  "armed_count agent S = length (filter (\<lambda>r. wr_agent r = agent \<and> is_armed r) (at_rows S))"

lemma armed_count_arm: "armed_count a (snd (alert_arm fault agent c now_ms S)) \<le> max MAX_ARMED_PER_AGENT (armed_count a S)"
  by (auto simp: armed_count_def alert_arm_def Let_def split: sum.split option.split)

lemma length_filter_le_of_imp: "(\<And>x. P x \<Longrightarrow> Q x) \<Longrightarrow> length (filter P xs) \<le> length (filter Q xs)"
  by (induction xs) auto

lemma armed_count_cancel: "armed_count a (snd (alert_cancel fault agent i S)) \<le> armed_count a S"
  by (auto simp: armed_count_def alert_cancel_def Let_def intro!: length_filter_le_of_imp split: option.split)

lemma armed_count_mark: "armed_count a (snd (mark_fired fault i now_ms S)) \<le> armed_count a S"
proof -
  have "length (filter (\<lambda>r. wr_agent r = a \<and> is_armed r)
      (map (\<lambda>r. if wr_id r = i \<and> is_armed r then r\<lparr>wr_fired_at_ms := Some now_ms\<rparr> else r) rs))
    \<le> length (filter (\<lambda>r. wr_agent r = a \<and> is_armed r) rs)" for rs
    by (induction rs) (auto simp: is_armed_def)
  then show ?thesis by (simp add: armed_count_def mark_fired_def split: option.split)
qed

text \<open>
  An agent never has more than a hundred alerts armed, whatever order arming, cancelling and evaluation
  come in and whichever statements fail.
\<close>

theorem armed_alerts_are_bounded:
  assumes "alert_step\<^sup>*\<^sup>* w w'" "\<forall>a. armed_count a (aw_store w) \<le> MAX_ARMED_PER_AGENT"
  shows "armed_count agent (aw_store w') \<le> MAX_ARMED_PER_AGENT"
proof -
  have "\<forall>a. armed_count a (aw_store w') \<le> MAX_ARMED_PER_AGENT" using assms
  proof (induction rule: rtranclp_induct)
    case (step w1 w2)
    note IH = step.IH [OF step.prems]
    from step.hyps(2) show ?case
    proof cases
      case (mark f now_ms changed S')
      then show ?thesis
        using IH armed_count_mark [of _ None "fd_alert_id f" now_ms "aw_store w1"] by (auto intro: order_trans)
    qed (use IH in \<open>auto intro: order_trans [OF armed_count_arm] order_trans [OF armed_count_cancel]\<close>)
  qed simp
  then show ?thesis by blast
qed

theorem armed_alerts_are_bounded_witness:
  "\<exists>w'. alert_step \<lparr>aw_store = \<lparr>at_rows = [], at_armed_changed = False\<rparr>, aw_readings = [], aw_log = []\<rparr> w'
        \<and> armed_count ''alpha'' (aw_store w') = 1 \<and> armed_count ''alpha'' (aw_store w') \<le> MAX_ARMED_PER_AGENT"
proof -
  let ?w = "\<lparr>aw_store = \<lparr>at_rows = [], at_armed_changed = False\<rparr>, aw_readings = [], aw_log = []\<rparr>"
  let ?w' = "?w\<lparr>aw_store := snd (alert_arm None ''alpha'' (CnFill None) 5 (aw_store ?w))\<rparr>"
  have step: "alert_step ?w ?w'" by (rule alert_step.arm)
  moreover have "armed_count ''alpha'' (aw_store ?w') = 1" by code_simp
  moreover have "armed_count ''alpha'' (aw_store ?w') \<le> MAX_ARMED_PER_AGENT"
    using armed_alerts_are_bounded [OF r_into_rtranclp [of alert_step, OF step]] by (simp add: armed_count_def)
  ultimately show ?thesis by blast
qed

end
