(* ===== verification/Book.thy ===== *)
theory Book
  imports Prelude
begin

text \<open>
  \<open>book.rs\<close>: walking the resting depth. What a size would fill at, how far the ladder reaches, and the
  largest notional whose average stays within a band of the touch. A bare decimal operator panics when
  its result does not fit: the outer \<open>None\<close>.
\<close>

section \<open>The book\<close>

record level =
  lv_px :: decimal
  lv_sz :: decimal
  lv_n :: nat

record l2_book =
  l2_coin :: string
  l2_time :: nat
  l2_bids :: "level list"
  l2_asks :: "level list"

definition SIZE_BANDS_BPS :: "nat list" where "SIZE_BANDS_BPS = [5, 10, 25]"

record book_walk =
  bw_top_px :: "decimal option"
  bw_avg_px :: "decimal option"
  bw_filled_sz :: decimal
  bw_exhausts_book :: bool
  bw_slip_bps :: "decimal option"
  bw_max_size_usd_within_bps :: "decimal list"

definition best_px :: "level list \<Rightarrow> decimal option" where
  "best_px levels = (case levels of [] \<Rightarrow> None | l # _ \<Rightarrow> Some (lv_px l))"

section \<open>Taking a size\<close>

fun take_loop :: "declib \<Rightarrow> level list \<Rightarrow> decimal \<Rightarrow> decimal \<Rightarrow> decimal \<Rightarrow> (decimal \<times> decimal) option" where
  "take_loop D [] remaining filled notional = Some (filled, notional)"
| "take_loop D (l # ls) remaining filled notional =
     (if remaining \<le> 0 then Some (filled, notional)
      else let taken = min (lv_sz l) remaining in
           Option.bind (checked_add D filled taken) (\<lambda>filled'.
           Option.bind (checked_mul D taken (lv_px l)) (\<lambda>cost.
           Option.bind (checked_add D notional cost) (\<lambda>notional'.
           Option.bind (checked_sub D remaining taken) (\<lambda>remaining'.
           take_loop D ls remaining' filled' notional')))))"

definition book_take :: "declib \<Rightarrow> level list \<Rightarrow> decimal \<Rightarrow> (decimal \<times> decimal) option" where
  "book_take D levels want = take_loop D levels want 0 0"

text \<open>The distance in basis points: a division that does not fit is no reading, the product panics.\<close>

definition adverse_bps :: "declib \<Rightarrow> bool \<Rightarrow> decimal \<Rightarrow> decimal \<Rightarrow> decimal option option" where
  "adverse_bps D is_buy touch px =
     Option.bind (if is_buy then checked_sub D px touch else checked_sub D touch px) (\<lambda>adverse.
     case checked_div D (max adverse 0) touch of
       None \<Rightarrow> Some None
     | Some r \<Rightarrow> map_option Some (checked_mul D r 10000))"

definition ladder_reach_bps :: "declib \<Rightarrow> level list \<Rightarrow> bool \<Rightarrow> decimal option option" where
  "ladder_reach_bps D levels is_buy =
     (if levels = [] then Some None
      else if lv_px (hd levels) \<le> 0 then Some None
      else adverse_bps D is_buy (lv_px (hd levels)) (lv_px (List.last levels)))"

section \<open>The size a band holds\<close>

definition band_limit :: "declib \<Rightarrow> bool \<Rightarrow> nat \<Rightarrow> decimal \<Rightarrow> decimal option" where
  "band_limit D is_buy bps touch =
     Option.bind (checked_mul D touch (of_nat bps)) (\<lambda>scaled.
     Option.bind (checked_div D scaled 10000) (\<lambda>band.
     if is_buy then checked_add D touch band else checked_sub D touch band))"

definition avg_within :: "declib \<Rightarrow> bool \<Rightarrow> decimal \<Rightarrow> decimal \<Rightarrow> decimal \<Rightarrow> bool" where
  "avg_within D is_buy limit filled notional =
     (case checked_div D notional filled of
        Some avg \<Rightarrow> if is_buy then avg \<le> limit else avg \<ge> limit
      | None \<Rightarrow> False)"

definition partial_level :: "declib \<Rightarrow> decimal \<Rightarrow> level \<Rightarrow> decimal \<Rightarrow> decimal \<Rightarrow> decimal option" where
  "partial_level D limit l filled notional =
     Option.bind (checked_sub D (lv_px l) limit) (\<lambda>denominator.
     if denominator = 0 then Some notional
     else Option.bind (checked_mul D limit filled) (\<lambda>at_limit.
          Option.bind (checked_sub D at_limit notional) (\<lambda>room.
          Option.bind (checked_div D room denominator) (\<lambda>x.
          if x > 0
          then Option.bind (checked_mul D (min x (lv_sz l)) (lv_px l)) (checked_add D notional)
          else Some notional))))"

fun band_loop :: "declib \<Rightarrow> bool \<Rightarrow> decimal \<Rightarrow> level list \<Rightarrow> decimal \<Rightarrow> decimal \<Rightarrow> decimal option" where
  "band_loop D is_buy limit [] filled notional = Some notional"
| "band_loop D is_buy limit (l # ls) filled notional =
     Option.bind (checked_add D filled (lv_sz l)) (\<lambda>next_filled.
     Option.bind (checked_mul D (lv_sz l) (lv_px l)) (\<lambda>cost.
     Option.bind (checked_add D notional cost) (\<lambda>next_notional.
     if next_filled \<le> 0 then band_loop D is_buy limit ls filled notional
     else if avg_within D is_buy limit next_filled next_notional then band_loop D is_buy limit ls next_filled next_notional
     else partial_level D limit l filled notional)))"

definition max_notional_within :: "declib \<Rightarrow> level list \<Rightarrow> bool \<Rightarrow> nat \<Rightarrow> decimal option" where
  "max_notional_within D levels is_buy bps =
     (case best_px levels of
        None \<Rightarrow> Some 0
      | Some touch \<Rightarrow>
          if touch \<le> 0 then Some 0
          else Option.bind (band_limit D is_buy bps touch) (\<lambda>limit. band_loop D is_buy limit levels 0 0))"

section \<open>The walk\<close>

fun map_bands :: "('a \<Rightarrow> 'b option) \<Rightarrow> 'a list \<Rightarrow> 'b list option" where
  "map_bands f [] = Some []"
| "map_bands f (x # xs) = Option.bind (f x) (\<lambda>y. map_option (Cons y) (map_bands f xs))"

definition walk_slip :: "declib \<Rightarrow> bool \<Rightarrow> decimal option \<Rightarrow> decimal option \<Rightarrow> decimal option option" where
  "walk_slip D is_buy top_px avg_px =
     (case (top_px, avg_px) of
        (Some touch, Some avg) \<Rightarrow> if touch > 0 then adverse_bps D is_buy touch avg else Some None
      | _ \<Rightarrow> Some None)"

definition book_walk_for :: "declib \<Rightarrow> l2_book \<Rightarrow> bool \<Rightarrow> decimal \<Rightarrow> book_walk option" where
  "book_walk_for D book is_buy sz =
     (let levels = (if is_buy then l2_asks book else l2_bids book); top_px = best_px levels in
      Option.bind (book_take D levels sz) (\<lambda>(filled_sz, notional).
      let avg_px = (if filled_sz > 0 then checked_div D notional filled_sz else None) in
      Option.bind (walk_slip D is_buy top_px avg_px) (\<lambda>slip_bps.
      Option.bind (map_bands (max_notional_within D levels is_buy) SIZE_BANDS_BPS) (\<lambda>bands.
      Some \<lparr>bw_top_px = top_px, bw_avg_px = avg_px, bw_filled_sz = filled_sz, bw_exhausts_book = filled_sz < sz,
            bw_slip_bps = slip_bps, bw_max_size_usd_within_bps = bands\<rparr>))))"

section \<open>The depth curve\<close>

text \<open>What a size takes, in exact arithmetic.\<close>

fun depth :: "level list \<Rightarrow> decimal" where
  "depth [] = 0"
| "depth (l # ls) = lv_sz l + depth ls"

fun curve :: "level list \<Rightarrow> decimal \<Rightarrow> decimal" where
  "curve [] w = 0"
| "curve (l # ls) w = (if w \<le> lv_sz l then w * lv_px l else lv_sz l * lv_px l + curve ls (w - lv_sz l))"

definition resting :: "level list \<Rightarrow> bool" where
  "resting ls = (\<forall>l \<in> set ls. 0 \<le> lv_sz l \<and> 0 < lv_px l)"

lemma resting_Cons [simp]: "resting (l # ls) \<longleftrightarrow> 0 \<le> lv_sz l \<and> 0 < lv_px l \<and> resting ls"
  by (auto simp: resting_def)

lemma depth_nonneg: "resting ls \<Longrightarrow> 0 \<le> depth ls"
  by (induction ls) auto

lemma curve_zero [simp]: "resting ls \<Longrightarrow> curve ls 0 = 0"
  by (induction ls) auto

lemma take_loop_curve:
  assumes "resting ls" "0 \<le> w"
  shows "take_loop exact_declib ls w f n = Some (f + min w (depth ls), n + curve ls (min w (depth ls)))"
  using assms
proof (induction ls arbitrary: w f n)
  case Nil
  then show ?case by simp
next
  case (Cons l ls)
  show ?case
  proof (cases "w \<le> lv_sz l")
    case True
    have "take_loop exact_declib ls 0 f' n' = Some (f', n')" for f' n'
      using Cons.IH [of 0] Cons.prems depth_nonneg [of ls] by simp
    with True Cons.prems depth_nonneg [of ls] show ?thesis by (auto simp: Let_def min_def)
  next
    case False
    with Cons.IH [of "w - lv_sz l"] Cons.prems depth_nonneg [of ls] show ?thesis
      by (auto simp: Let_def min_def algebra_simps)
  qed
qed

lemma book_take_curve:
  assumes "resting ls" "0 \<le> w"
  shows "book_take exact_declib ls w = Some (min w (depth ls), curve ls (min w (depth ls)))"
  using take_loop_curve [OF assms] by (simp add: book_take_def)

lemma curve_mono: "resting ls \<Longrightarrow> 0 \<le> v \<Longrightarrow> v \<le> w \<Longrightarrow> w \<le> depth ls \<Longrightarrow> curve ls v \<le> curve ls w"
proof (induction ls arbitrary: v w)
  case (Cons l ls)
  consider "w \<le> lv_sz l" | "v \<le> lv_sz l" "lv_sz l < w" | "lv_sz l < v" by linarith
  then show ?case
  proof cases
    case 2
    have "0 \<le> curve ls (w - lv_sz l)" using Cons.IH [of 0 "w - lv_sz l"] Cons.prems 2 by simp
    moreover have "v * lv_px l \<le> lv_sz l * lv_px l" using Cons.prems 2 by (simp add: mult_right_mono)
    ultimately show ?thesis using 2 by simp
  qed (use Cons in \<open>auto simp: mult_right_mono\<close>)
qed simp

section \<open>The band\<close>

text \<open>
  The excess over the limit on the side that costs. Prices move away from the touch level by level, so
  the excess of a size is convex and a band holds an initial piece of the curve.
\<close>

definition excess :: "bool \<Rightarrow> decimal \<Rightarrow> decimal \<Rightarrow> decimal \<Rightarrow> decimal" where
  "excess is_buy limit filled notional = (if is_buy then notional - limit * filled else limit * filled - notional)"

definition away :: "bool \<Rightarrow> level list \<Rightarrow> bool" where
  "away is_buy ls = sorted_wrt (\<lambda>l l'. if is_buy then lv_px l \<le> lv_px l' else lv_px l' \<le> lv_px l) ls"

lemma avg_within_excess:
  "0 < filled \<Longrightarrow> avg_within exact_declib is_buy limit filled notional \<longleftrightarrow> excess is_buy limit filled notional \<le> 0"
  by (auto simp: avg_within_def excess_def divide_le_eq le_divide_eq)

lemma excess_add: "excess b limit (f + x) (n + x * px) = excess b limit f n + x * (if b then px - limit else limit - px)"
  by (simp add: excess_def algebra_simps)

text \<open>Past a level beyond the limit every further size costs more.\<close>

lemma excess_grows:
  assumes "resting ls" "\<forall>l \<in> set ls. 0 < (if b then lv_px l - limit else limit - lv_px l)" "0 \<le> w" "w \<le> depth ls"
  shows "0 \<le> excess b limit w (curve ls w)"
  using assms
proof (induction ls arbitrary: w)
  case Nil
  then show ?case by (simp add: excess_def)
next
  case (Cons l ls)
  show ?case
  proof (cases "w \<le> lv_sz l")
    case True
    with Cons.prems excess_add [of b limit 0 w 0 "lv_px l"] show ?thesis by (simp add: excess_def)
  next
    case False
    have "0 \<le> excess b limit (w - lv_sz l) (curve ls (w - lv_sz l))" using Cons False by simp
    moreover have "0 \<le> lv_sz l * (if b then lv_px l - limit else limit - lv_px l)" using Cons.prems by simp
    ultimately show ?thesis
      using False by (simp add: excess_def algebra_simps split: if_splits)
  qed
qed

lemma curve_rest:
  "resting (l # ls) \<Longrightarrow> 0 \<le> w \<Longrightarrow> curve (l # ls) (lv_sz l + w) = lv_sz l * lv_px l + curve ls w"
  by (cases "w = 0") auto

lemma partial_level_exact:
  assumes "e = excess b limit f n" "e \<le> 0" "d = (if b then lv_px l - limit else limit - lv_px l)" "0 < d" "0 < e + lv_sz l * d"
  shows "partial_level exact_declib limit l f n = Some (n + - e / d * lv_px l)"
proof -
  have px: "lv_px l - limit \<noteq> 0" using assms(3,4) by (auto split: if_splits)
  have x: "(limit * f - n) / (lv_px l - limit) = - e / d"
    using assms(1,3) px by (cases b) (simp_all add: excess_def divide_simps, simp_all add: algebra_simps)
  have below: "- e / d < lv_sz l" using assms(4,5) by (simp only: pos_divide_less_eq)
  show ?thesis
  proof (cases "e = 0")
    case True
    then show ?thesis using px x by (simp add: partial_level_def)
  next
    case False
    then have "0 < - e / d" using assms(2,4) by (intro divide_pos_pos) simp_all
    then show ?thesis using px x below by (simp add: partial_level_def min_def)
  qed
qed

text \<open>The sizes the loop keeps: everything up to the size it stops at is in the band, nothing past it.\<close>

definition band_edge :: "bool \<Rightarrow> decimal \<Rightarrow> level list \<Rightarrow> decimal \<Rightarrow> decimal \<Rightarrow> decimal \<Rightarrow> bool" where
  "band_edge b limit ls f n w =
     (0 \<le> w \<and> w \<le> depth ls \<and> excess b limit (f + w) (n + curve ls w) \<le> 0
      \<and> (\<forall>v. w < v \<longrightarrow> v \<le> depth ls \<longrightarrow> 0 < excess b limit (f + v) (n + curve ls v)))"

lemma band_edge_break:
  assumes "resting (l # ls)" "away b (l # ls)" "excess b limit f n \<le> 0" "0 < excess b limit (f + lv_sz l) (n + lv_sz l * lv_px l)"
  shows "\<exists>w. partial_level exact_declib limit l f n = Some (n + curve (l # ls) w) \<and> band_edge b limit (l # ls) f n w"
proof -
  define e where "e = excess b limit f n"
  define d where "d = (if b then lv_px l - limit else limit - lv_px l)"
  let ?w = "- e / d"
  have whole: "0 < e + lv_sz l * d" using assms(4) by (simp add: excess_add e_def d_def)
  have d: "0 < d"
  proof (rule ccontr)
    assume "\<not> 0 < d"
    then have "lv_sz l * d \<le> 0" using assms(1) by (simp add: mult_nonneg_nonpos)
    with whole assms(3) show False by (simp add: e_def)
  qed
  have w: "0 \<le> ?w" using d assms(3) by (simp add: e_def divide_nonpos_pos)
  have "?w < lv_sz l" using d whole by (simp only: pos_divide_less_eq)
  note w = w this
  have reported: "partial_level exact_declib limit l f n = Some (n + curve (l # ls) ?w)"
    using partial_level_exact [of e b limit f n d l] assms(3) d whole w(2) by (simp add: e_def d_def)
  have on_limit: "excess b limit (f + ?w) (n + curve (l # ls) ?w) = 0"
    using w d excess_add [of b limit f ?w n "lv_px l"] by (simp add: e_def d_def split: if_splits)
  have "0 < excess b limit (f + v) (n + curve (l # ls) v)" if v: "?w < v" "v \<le> depth (l # ls)" for v
  proof (cases "v \<le> lv_sz l")
    case True
    have "0 < e + v * d" using v(1) d by (simp only: pos_divide_less_eq)
    with True excess_add [of b limit f v n "lv_px l"] show ?thesis by (simp add: e_def d_def)
  next
    case False
    have "\<forall>l' \<in> set ls. 0 < (if b then lv_px l' - limit else limit - lv_px l')"
      using assms(2) d by (auto simp: away_def d_def split: if_splits)
    then have "0 \<le> excess b limit (v - lv_sz l) (curve ls (v - lv_sz l))"
      using assms(1) False v(2) by (intro excess_grows) simp_all
    with whole False show ?thesis by (simp add: excess_def e_def d_def algebra_simps split: if_splits)
  qed
  with reported w on_limit depth_nonneg [of ls] assms(1) show ?thesis by (intro exI [of _ ?w]) (simp add: band_edge_def)
qed

lemma band_loop_edge:
  assumes "resting ls" "away b ls" "excess b limit f n \<le> 0" "0 \<le> f"
  shows "\<exists>w. band_loop exact_declib b limit ls f n = Some (n + curve ls w) \<and> band_edge b limit ls f n w"
  using assms
proof (induction ls arbitrary: f n)
  case Nil
  then show ?case by (intro exI [of _ 0]) (simp add: band_edge_def)
next
  case (Cons l ls)
  let ?f = "f + lv_sz l" and ?n = "n + lv_sz l * lv_px l"
  have tail: "resting ls" "away b ls" using Cons.prems by (simp_all add: away_def)
  consider "?f \<le> 0" | "0 < ?f" "excess b limit ?f ?n \<le> 0" | "0 < ?f" "0 < excess b limit ?f ?n" by linarith
  then show ?case
  proof cases
    case 1
    with Cons.prems have "f = 0" "lv_sz l = 0" by auto
    moreover have "curve (l # ls) w = curve ls w" if "0 \<le> w" for w
      using curve_rest [OF Cons.prems(1) that] calculation by simp
    ultimately have same: "band_loop exact_declib b limit (l # ls) f n = band_loop exact_declib b limit ls f n"
        "band_edge b limit ls f n w \<Longrightarrow> band_edge b limit (l # ls) f n w" "0 \<le> w \<Longrightarrow> curve (l # ls) w = curve ls w" for w
      using 1 by (simp_all add: band_edge_def del: curve.simps(2))
    from Cons.IH [OF tail Cons.prems(3,4)] obtain w where
      w: "band_loop exact_declib b limit ls f n = Some (n + curve ls w)" "band_edge b limit ls f n w" by blast
    then have "0 \<le> w" by (simp add: band_edge_def)
    with w same(1) same(2,3) [of w] show ?thesis by metis
  next
    case 2
    from Cons.IH [OF tail 2(2)] 2(1) obtain w where
      w: "band_loop exact_declib b limit ls ?f ?n = Some (?n + curve ls w)" "band_edge b limit ls ?f ?n w" by auto
    have "0 < excess b limit (f + v) (n + curve (l # ls) v)" if v: "lv_sz l + w < v" "v \<le> depth (l # ls)" for v
      using w(2) v curve_rest [OF Cons.prems(1), of "v - lv_sz l"] by (auto simp: band_edge_def add.assoc dest: spec [of _ "v - lv_sz l"])
    then have "band_edge b limit (l # ls) f n (lv_sz l + w)"
      using w(2) Cons.prems(1) curve_rest [OF Cons.prems(1), of w] by (simp add: band_edge_def add.assoc)
    with w 2 curve_rest [OF Cons.prems(1), of w] show ?thesis
      by (intro exI [of _ "lv_sz l + w"]) (simp add: avg_within_excess band_edge_def add.assoc)
  next
    case 3
    with band_edge_break [OF Cons.prems(1-3)] show ?thesis by (auto simp: avg_within_excess)
  qed
qed


definition sample_asks :: "level list" where
  "sample_asks = [\<lparr>lv_px = 100, lv_sz = 2, lv_n = 1\<rparr>, \<lparr>lv_px = 101, lv_sz = 3, lv_n = 2\<rparr>]"


end
