(* ===== verification/Canonical_Json.thy ===== *)
theory Canonical_Json
  imports Prelude "HOL-Library.Multiset"
begin

text \<open>
  The canonical payload text of \<open>ledger/hash.rs\<close>. A string is its UTF-8 bytes, one \<open>char\<close> each: the writer
  escapes ASCII only and pushes every other character as it is, and Rust orders strings by bytes. The
  result is the text or the refusal with the pointer to the field it is about.
\<close>

section \<open>Values\<close>

text \<open>\<open>serde_json::Value\<close>. A number is an integer of \<open>i64\<close> or \<open>u64\<close>, or a float; an object has each key once.\<close>

datatype json =
    JNull
  | JBool bool
  | JInt int
  | JFloat string
  | JStr string
  | JArr "json list"
  | JObj "(string \<times> json) list"

datatype json_error = JeFloatInPayload string | JeTooDeep string

definition MAX_DEPTH :: nat where "MAX_DEPTH = 128"

section \<open>The writer\<close>

definition hex_digit :: "nat \<Rightarrow> char" where
  "hex_digit n = (if n < 10 then char_of (48 + n) else char_of (87 + n))"

definition write_char :: "char \<Rightarrow> string" where
  "write_char c =
     (if c = CHR 0x22 then [CHR 0x5C, CHR 0x22]
      else if c = CHR 0x5C then [CHR 0x5C, CHR 0x5C]
      else if c = CHR 0x08 then [CHR 0x5C, CHR ''b'']
      else if c = CHR 0x09 then [CHR 0x5C, CHR ''t'']
      else if c = CHR 0x0A then [CHR 0x5C, CHR ''n'']
      else if c = CHR 0x0C then [CHR 0x5C, CHR ''f'']
      else if c = CHR 0x0D then [CHR 0x5C, CHR ''r'']
      else if of_char c < (32 :: nat)
      then [CHR 0x5C, CHR ''u'', CHR ''0'', CHR ''0'', hex_digit (of_char c div 16), hex_digit (of_char c mod 16)]
      else [c])"

definition write_string :: "string \<Rightarrow> string" where
  "write_string s = CHR 0x22 # concat (map write_char s) @ [CHR 0x22]"

definition push_pointer_token :: "string \<Rightarrow> string" where
  "push_pointer_token key =
     concat (map (\<lambda>c. if c = CHR 0x7E then ''~0'' else if c = CHR 0x2F then ''~1'' else [c]) key)"

definition int_text :: "int \<Rightarrow> string" where
  "int_text i = (if i < 0 then CHR ''-'' # nat_digits (nat (- i)) else nat_digits (nat i))"

definition sorted_fields :: "(string \<times> json) list \<Rightarrow> (string \<times> json) list" where
  "sorted_fields fs = sort_key fst fs"

lemma size_list_mset: "mset xs = mset ys \<Longrightarrow> size_list f xs = size_list f ys"
proof -
  have "size_list f xs = sum_mset (image_mset f (mset xs)) + size (mset xs)" for xs
    by (induction xs) auto
  then show "mset xs = mset ys \<Longrightarrow> size_list f xs = size_list f ys"
    by (metis mset_eq_length size_mset)
qed

lemma size_sorted_fields [simp]: "size_list f (sorted_fields fs) = size_list f fs"
  by (rule size_list_mset) (simp add: sorted_fields_def)

function write_value :: "json \<Rightarrow> string \<Rightarrow> nat \<Rightarrow> json_error + string"
  and write_items :: "json list \<Rightarrow> nat \<Rightarrow> string \<Rightarrow> nat \<Rightarrow> json_error + string"
  and write_fields :: "(string \<times> json) list \<Rightarrow> nat \<Rightarrow> string \<Rightarrow> nat \<Rightarrow> json_error + string" where
  "write_value v pointer depth =
     (if depth > MAX_DEPTH then Inl (JeTooDeep pointer)
      else case v of
        JNull \<Rightarrow> Inr ''null''
      | JBool b \<Rightarrow> Inr (if b then ''true'' else ''false'')
      | JInt i \<Rightarrow> Inr (int_text i)
      | JFloat _ \<Rightarrow> Inl (JeFloatInPayload pointer)
      | JStr text \<Rightarrow> Inr (write_string text)
      | JArr items \<Rightarrow> rbind (write_items items 0 pointer depth) (\<lambda>body. Inr (''['' @ body @ '']''))
      | JObj members \<Rightarrow> rbind (write_fields (sorted_fields members) 0 pointer depth) (\<lambda>body. Inr (''{'' @ body @ ''}'')))"
| "write_items [] index pointer depth = Inr []"
| "write_items (item # items) index pointer depth =
     rbind (write_value item (pointer @ ''/'' @ nat_digits index) (depth + 1)) (\<lambda>text.
     rbind (write_items items (index + 1) pointer depth) (\<lambda>rest.
     Inr ((if index > 0 then '','' else []) @ text @ rest)))"
| "write_fields [] index pointer depth = Inr []"
| "write_fields ((key, item) # members) index pointer depth =
     rbind (write_value item (pointer @ ''/'' @ push_pointer_token key) (depth + 1)) (\<lambda>text.
     rbind (write_fields members (index + 1) pointer depth) (\<lambda>rest.
     Inr ((if index > 0 then '','' else []) @ write_string key @ '':'' @ text @ rest)))"
  by pat_completeness auto
termination
  by (relation "measure (\<lambda>x. case x of Inl (v, _, _) \<Rightarrow> size v
      | Inr (Inl (items, _, _, _)) \<Rightarrow> size_list size items
      | Inr (Inr (members, _, _, _)) \<Rightarrow> size_list (size_prod (\<lambda>_. 0) size) members)") auto

declare write_value.simps [simp del]

definition canonical_json :: "json \<Rightarrow> json_error + string" where
  "canonical_json v = write_value v [] 0"

section \<open>The text determines the value\<close>

text \<open>Values up to the order in which an object lists its fields.\<close>

fun normal :: "json \<Rightarrow> json" where
  "normal (JArr items) = JArr (map normal items)"
| "normal (JObj members) = JObj (sorted_fields (map (\<lambda>(k, v). (k, normal v)) members))"
| "normal v = v"

text \<open>What may follow a value inside a text.\<close>

definition ends :: "string \<Rightarrow> bool" where
  "ends r = (r = [] \<or> hd r \<in> {CHR '','', CHR '']'', CHR ''}''})"

definition hex_value :: "char \<Rightarrow> nat" where
  "hex_value c = (if of_char c < (58 :: nat) then of_char c - 48 else of_char c - 87)"

lemma hex_value_digit: "n < 16 \<Longrightarrow> hex_value (hex_digit n) = n"
  by (auto simp: hex_value_def hex_digit_def)

definition read_char :: "string \<Rightarrow> char \<times> string" where
  "read_char s =
     (if hd s \<noteq> CHR 0x5C then (hd s, tl s)
      else let e = s ! 1 in
        if e = CHR ''b'' then (CHR 0x08, drop 2 s)
        else if e = CHR ''t'' then (CHR 0x09, drop 2 s)
        else if e = CHR ''n'' then (CHR 0x0A, drop 2 s)
        else if e = CHR ''f'' then (CHR 0x0C, drop 2 s)
        else if e = CHR ''r'' then (CHR 0x0D, drop 2 s)
        else if e = CHR ''u'' then (char_of (16 * hex_value (s ! 4) + hex_value (s ! 5)), drop 6 s)
        else (e, drop 2 s))"

lemma read_write_char: "read_char (write_char c @ r) = (c, r)"
proof (cases "of_char c < (32 :: nat)")
  case True
  have "16 * (of_char c div 16) + of_char c mod 16 = (of_char c :: nat)" by (rule mult_div_mod_eq)
  with True have "char_of (16 * hex_value (hex_digit (of_char c div 16)) + hex_value (hex_digit (of_char c mod 16))) = c"
    by (simp add: hex_value_digit)
  with True show ?thesis by (auto simp: write_char_def read_char_def)
next
  case False
  then show ?thesis by (auto simp: write_char_def read_char_def)
qed

lemma write_char_not_quote: "write_char c = x # xs \<Longrightarrow> x \<noteq> CHR 0x22"
  by (auto simp: write_char_def split: if_splits)

lemma write_char_neq_Nil: "write_char c \<noteq> []"
  by (simp add: write_char_def)

lemma write_string_inj: "write_string s @ r = write_string s' @ r' \<Longrightarrow> s = s' \<and> r = r'"
proof -
  have "concat (map write_char s) @ CHR 0x22 # r = concat (map write_char s') @ CHR 0x22 # r' \<Longrightarrow> s = s' \<and> r = r'"
  proof (induction s arbitrary: s')
    case Nil
    then show ?case
      by (cases s') (auto, metis append_Cons list.exhaust list.sel(1) write_char_neq_Nil write_char_not_quote)
  next
    case (Cons c s)
    show ?case
    proof (cases s')
      case Nil
      with Cons.prems show ?thesis
        by simp (metis append_Cons list.exhaust list.sel(1) write_char_neq_Nil write_char_not_quote)
    next
      case (Cons c' s2)
      then have "write_char c @ (concat (map write_char s) @ CHR 0x22 # r) = write_char c' @ (concat (map write_char s2) @ CHR 0x22 # r')"
        using Cons.prems by simp
      then have "c = c'" "concat (map write_char s) @ CHR 0x22 # r = concat (map write_char s2) @ CHR 0x22 # r'"
        by (metis prod.inject read_write_char)+
      with Cons.IH Cons show ?thesis by blast
    qed
  qed
  then show "write_string s @ r = write_string s' @ r' \<Longrightarrow> s = s' \<and> r = r'" by (simp add: write_string_def)
qed

text \<open>Numbers end where the digits end.\<close>

definition is_digit :: "char \<Rightarrow> bool" where
  "is_digit c = (48 \<le> (of_char c :: nat) \<and> of_char c \<le> (57 :: nat))"

lemma nat_digits_are_digits: "list_all is_digit (nat_digits n)"
proof (induction n rule: nat_digits.induct)
  case (1 n)
  have digit: "is_digit (char_of (48 + k))" if "k < 10" for k :: nat
    using that by (simp add: is_digit_def)
  show ?case using 1 digit [of n] digit [of "n mod 10"] by (subst nat_digits.simps) simp
qed

lemma ends_not_digit: "ends r \<Longrightarrow> takeWhile is_digit r = [] \<and> dropWhile is_digit r = r"
  by (cases r) (auto simp: ends_def is_digit_def)

lemma digits_prefix_inj:
  assumes "nat_digits n @ r = nat_digits m @ r'" "ends r" "ends r'"
  shows "n = m \<and> r = r'"
proof -
  have split: "takeWhile is_digit (nat_digits k @ q) = nat_digits k \<and> dropWhile is_digit (nat_digits k @ q) = q" if "ends q" for k q
    using that ends_not_digit [of q] nat_digits_are_digits [of k] by (simp add: list_all_iff)
  have "nat_digits n = nat_digits m" by (metis split assms)
  moreover have "r = r'" by (metis split assms)
  ultimately show ?thesis using nat_digits_inj by blast
qed

lemma nat_digits_head: "\<exists>c cs. nat_digits n = c # cs \<and> is_digit c"
  using nat_digits_are_digits [of n] by (cases "nat_digits n") (auto simp: nat_digits.simps [of n] split: if_splits)

lemma int_text_inj:
  assumes "int_text i @ r = int_text j @ r'" "ends r" "ends r'"
  shows "i = j \<and> r = r'"
proof -
  have sign: "i < 0 \<longleftrightarrow> j < 0"
    using assms(1) nat_digits_head [of "nat i"] nat_digits_head [of "nat j"] by (auto simp: int_text_def is_digit_def split: if_splits)
  show ?thesis
  proof (cases "i < 0")
    case True
    with assms sign digits_prefix_inj [of "nat (- i)" r "nat (- j)" r'] show ?thesis by (auto simp: int_text_def eq_nat_nat_iff)
  next
    case False
    with assms sign digits_prefix_inj [of "nat i" r "nat j" r'] show ?thesis by (auto simp: int_text_def eq_nat_nat_iff)
  qed
qed

text \<open>The first character tells the kind of a value.\<close>

definition kind_of_char :: "char \<Rightarrow> nat" where
  "kind_of_char c =
     (if c = CHR ''n'' then 0 else if c = CHR ''t'' then 1 else if c = CHR ''f'' then 2
      else if c = CHR ''-'' \<or> is_digit c then 3 else if c = CHR 0x22 then 4
      else if c = CHR ''['' then 5 else if c = CHR ''{'' then 6 else 7)"

fun kind :: "json \<Rightarrow> nat" where
  "kind JNull = 0" | "kind (JBool b) = (if b then 1 else 2)" | "kind (JInt i) = 3" | "kind (JFloat t) = 7"
| "kind (JStr t) = 4" | "kind (JArr xs) = 5" | "kind (JObj m) = 6"

lemma write_value_iff:
  "write_value JNull p d = Inr s \<longleftrightarrow> d \<le> MAX_DEPTH \<and> s = ''null''"
  "write_value (JBool b) p d = Inr s \<longleftrightarrow> d \<le> MAX_DEPTH \<and> s = (if b then ''true'' else ''false'')"
  "write_value (JInt i) p d = Inr s \<longleftrightarrow> d \<le> MAX_DEPTH \<and> s = int_text i"
  "write_value (JFloat t) p d \<noteq> Inr s"
  "write_value (JStr t) p d = Inr s \<longleftrightarrow> d \<le> MAX_DEPTH \<and> s = write_string t"
  "write_value (JArr xs) p d = Inr s \<longleftrightarrow> d \<le> MAX_DEPTH \<and> (\<exists>q. write_items xs 0 p d = Inr q \<and> s = ''['' @ q @ '']'')"
  "write_value (JObj m) p d = Inr s \<longleftrightarrow>
     d \<le> MAX_DEPTH \<and> (\<exists>q. write_fields (sorted_fields m) 0 p d = Inr q \<and> s = ''{'' @ q @ ''}'')"
  by (auto simp: rbind_is_Inr write_value.simps [of JNull] write_value.simps [of "JBool b"] write_value.simps [of "JInt i"]
      write_value.simps [of "JFloat t"] write_value.simps [of "JStr t"] write_value.simps [of "JArr xs"] write_value.simps [of "JObj m"])

lemma kind_of_head:
  "kind_of_char (CHR ''n'') = 0" "kind_of_char (CHR ''t'') = 1" "kind_of_char (CHR ''f'') = 2" "kind_of_char (CHR ''-'') = 3"
  "kind_of_char (CHR 0x22) = 4" "kind_of_char (CHR ''['') = 5" "kind_of_char (CHR ''{'') = 6"
  "kind_of_char (CHR '','') = 7" "kind_of_char (CHR '']'') = 7" "kind_of_char (CHR ''}'') = 7"
  by (simp_all add: kind_of_char_def is_digit_def)

lemma kind_of_digit: "is_digit c \<Longrightarrow> kind_of_char c = 3"
  by (auto simp: kind_of_char_def is_digit_def)

lemma write_value_head:
  assumes "write_value v p d = Inr s"
  shows "\<exists>c cs. s = c # cs \<and> kind_of_char c = kind v \<and> kind v < 7"
proof (cases v)
  case (JInt i)
  then show ?thesis
    using assms nat_digits_head [of "nat i"] by (auto simp: write_value_iff int_text_def kind_of_head kind_of_digit)
next
  case (JBool b)
  with assms show ?thesis by (cases b) (simp_all add: write_value_iff kind_of_head)
next
  case (JObj m)
  from assms [unfolded JObj write_value_iff] JObj show ?thesis by (force simp: kind_of_head)
qed (use assms in \<open>simp_all add: write_value_iff write_string_def kind_of_head, (elim conjE exE)?, simp_all add: kind_of_head\<close>)

lemma insort_key_map: "(\<And>x. g (f x) = g x) \<Longrightarrow> insort_key g (f x) (map f ys) = map f (insort_key g x ys)"
  by (induction ys) auto

lemma sorted_fields_map: "sorted_fields (map (\<lambda>(k, v). (k, normal v)) m) = map (\<lambda>(k, v). (k, normal v)) (sorted_fields m)"
proof -
  let ?f = "\<lambda>(k, v). (k, normal v)"
  have "insort_key fst (?f x) (map ?f ys) = map ?f (insort_key fst x ys)" for x ys
    by (rule insort_key_map) auto
  note step = this
  have "sort_key fst (map ?f m) = map ?f (sort_key fst m)"
  proof (induction m)
    case (Cons x m)
    then show ?case by (simp only: list.map sort_key_simps step)
  qed simp
  then show ?thesis unfolding sorted_fields_def .
qed

definition value_unique :: "json \<Rightarrow> bool" where
  "value_unique v =
     (\<forall>p d s v' p' d' s' r r'. write_value v p d = Inr s \<longrightarrow> write_value v' p' d' = Inr s' \<longrightarrow> s @ r = s' @ r' \<longrightarrow>
        ends r \<longrightarrow> ends r' \<longrightarrow> normal v = normal v' \<and> r = r')"

lemma value_uniqueD:
  "value_unique v \<Longrightarrow> write_value v p d = Inr s \<Longrightarrow> write_value v' p' d' = Inr s' \<Longrightarrow> s @ r = s' @ r' \<Longrightarrow>
     ends r \<Longrightarrow> ends r' \<Longrightarrow> normal v = normal v' \<and> r = r'"
  unfolding value_unique_def by blast

lemma write_items_rest: "write_items xs (Suc i) p d = Inr s \<Longrightarrow> ends (s @ CHR '']'' # r)"
  by (cases xs) (auto simp: ends_def result_inv)

lemma write_fields_rest: "write_fields m (Suc i) p d = Inr s \<Longrightarrow> ends (s @ CHR ''}'' # r)"
  by (cases m) (auto simp: ends_def result_inv split_beta)

lemma write_items_unique:
  assumes "\<forall>x \<in> set xs. value_unique x" "write_items xs i p d = Inr s" "write_items ys j p' d' = Inr s'"
    "i = 0 \<longleftrightarrow> j = 0" "s @ CHR '']'' # r = s' @ CHR '']'' # r'"
  shows "map normal xs = map normal ys \<and> r = r'"
  using assms
proof (induction xs arbitrary: ys i j s s')
  case Nil
  then show ?case
  proof (cases ys)
    case (Cons y ys2)
    with Nil.prems(3) obtain t q where t: "write_value y (p' @ ''/'' @ nat_digits j) (d' + 1) = Inr t"
      and s': "s' = (if j > 0 then '','' else []) @ t @ q" by (auto simp: result_inv)
    from write_value_head [OF t] obtain c cs where "t = c # cs" "kind_of_char c < 7" by auto
    with Nil.prems s' show ?thesis by (auto simp: kind_of_head split: if_splits)
  qed auto
next
  case (Cons x xs)
  from Cons.prems(2) obtain t q where t: "write_value x (p @ ''/'' @ nat_digits i) (d + 1) = Inr t"
    and q: "write_items xs (Suc i) p d = Inr q" and s: "s = (if i > 0 then '','' else []) @ t @ q" by (auto simp: result_inv)
  from write_value_head [OF t] obtain c cs where head: "t = c # cs" "kind_of_char c < 7" by auto
  show ?case
  proof (cases ys)
    case Nil
    with Cons.prems s head show ?thesis by (auto simp: kind_of_head split: if_splits)
  next
    case (Cons y ys2)
    with Cons.prems(3) obtain t' q' where t': "write_value y (p' @ ''/'' @ nat_digits j) (d' + 1) = Inr t'"
      and q': "write_items ys2 (Suc j) p' d' = Inr q'" and s': "s' = (if j > 0 then '','' else []) @ t' @ q'"
      by (auto simp: result_inv)
    have "t @ (q @ CHR '']'' # r) = t' @ (q' @ CHR '']'' # r')" using Cons.prems(4,5) s s' by (auto split: if_splits)
    with value_uniqueD [OF _ t t'] Cons.prems(1) write_items_rest [OF q] write_items_rest [OF q']
    have "normal x = normal y" "q @ CHR '']'' # r = q' @ CHR '']'' # r'" by auto
    with Cons.IH [OF _ q q'] Cons.prems(1) Cons show ?thesis by auto
  qed
qed

lemma write_fields_unique:
  assumes "\<forall>(k, v) \<in> set xs. value_unique v" "write_fields xs i p d = Inr s" "write_fields ys j p' d' = Inr s'"
    "i = 0 \<longleftrightarrow> j = 0" "s @ CHR ''}'' # r = s' @ CHR ''}'' # r'"
  shows "map (\<lambda>(k, v). (k, normal v)) xs = map (\<lambda>(k, v). (k, normal v)) ys \<and> r = r'"
  using assms
proof (induction xs arbitrary: ys i j s s')
  case Nil
  show ?case
  proof (cases ys)
    case (Cons y ys2)
    with Nil.prems show ?thesis by (cases y) (auto simp: result_inv write_string_def split: if_splits)
  qed (use Nil.prems in simp)
next
  case (Cons x xs)
  obtain k v where x: "x = (k, v)" by (cases x)
  from Cons.prems(2) obtain t q where t: "write_value v (p @ ''/'' @ push_pointer_token k) (d + 1) = Inr t"
    and q: "write_fields xs (Suc i) p d = Inr q" and s: "s = (if i > 0 then '','' else []) @ write_string k @ '':'' @ t @ q"
    by (auto simp: x result_inv)
  show ?case
  proof (cases ys)
    case Nil
    with Cons.prems s show ?thesis by (auto simp: write_string_def split: if_splits)
  next
    case (Cons y ys2)
    obtain k' v' where y: "y = (k', v')" by (cases y)
    from Cons.prems(3) Cons obtain t' q' where t': "write_value v' (p' @ ''/'' @ push_pointer_token k') (d' + 1) = Inr t'"
      and q': "write_fields ys2 (Suc j) p' d' = Inr q'" and s': "s' = (if j > 0 then '','' else []) @ write_string k' @ '':'' @ t' @ q'"
      by (auto simp: y result_inv)
    have "write_string k @ ('':'' @ t @ q @ CHR ''}'' # r) = write_string k' @ ('':'' @ t' @ q' @ CHR ''}'' # r')"
      using Cons.prems(4,5) s s' by (auto split: if_splits)
    from write_string_inj [OF this] have "k = k'" "t @ (q @ CHR ''}'' # r) = t' @ (q' @ CHR ''}'' # r')" by auto
    moreover have "value_unique v" using Cons.prems(1) x by auto
    ultimately have "k = k'" "normal v = normal v'" "q @ CHR ''}'' # r = q' @ CHR ''}'' # r'"
      using value_uniqueD [OF _ t t'] write_fields_rest [OF q] write_fields_rest [OF q'] by auto
    with Cons.IH [OF _ q q'] Cons.prems(1) Cons x y show ?thesis by auto
  qed
qed

lemma every_value_unique: "value_unique v"
proof (induction v)
  case (JArr xs)
  show ?case unfolding value_unique_def
  proof (intro allI impI)
    fix p d s v' p' d' s' r r'
    assume w: "write_value (JArr xs) p d = Inr s" "write_value v' p' d' = Inr s'" "s @ r = s' @ r'"
    then obtain ys where v': "v' = JArr ys"
      using write_value_head [OF w(1)] write_value_head [OF w(2)] by (cases v') (auto split: if_splits)
    from w [unfolded v' write_value_iff] obtain q q' where
      "write_items xs 0 p d = Inr q" "write_items ys 0 p' d' = Inr q'" "q @ CHR '']'' # r = q' @ CHR '']'' # r'" by auto
    from write_items_unique [OF _ this(1,2) _ this(3)] JArr v' show "normal (JArr xs) = normal v' \<and> r = r'" by auto
  qed
next
  case (JObj m)
  show ?case unfolding value_unique_def
  proof (intro allI impI)
    fix p d s v' p' d' s' r r'
    assume w: "write_value (JObj m) p d = Inr s" "write_value v' p' d' = Inr s'" "s @ r = s' @ r'"
    then obtain m' where v': "v' = JObj m'"
      using write_value_head [OF w(1)] write_value_head [OF w(2)] by (cases v') (auto split: if_splits)
    from w [unfolded v' write_value_iff] obtain q q' where
      q: "write_fields (sorted_fields m) 0 p d = Inr q" "write_fields (sorted_fields m') 0 p' d' = Inr q'"
        "q @ CHR ''}'' # r = q' @ CHR ''}'' # r'" by auto
    have "\<forall>(k, v) \<in> set (sorted_fields m). value_unique v" using JObj by (auto simp: sorted_fields_def)
    from write_fields_unique [OF this q(1,2) _ q(3)] v' show "normal (JObj m) = normal v' \<and> r = r'"
      by (simp add: sorted_fields_map)
  qed
next
  case (JInt i)
  show ?case unfolding value_unique_def
  proof (intro allI impI)
    fix p d s v' p' d' s' r r'
    assume w: "write_value (JInt i) p d = Inr s" "write_value v' p' d' = Inr s'" "s @ r = s' @ r'" "ends r" "ends r'"
    then obtain j where v': "v' = JInt j"
      using write_value_head [OF w(1)] write_value_head [OF w(2)] by (cases v') (auto split: if_splits)
    from w [unfolded v' write_value_iff] int_text_inj [of i r j r'] v' show "normal (JInt i) = normal v' \<and> r = r'" by simp
  qed
next
  case (JStr t)
  show ?case unfolding value_unique_def
  proof (intro allI impI)
    fix p d s v' p' d' s' r r'
    assume w: "write_value (JStr t) p d = Inr s" "write_value v' p' d' = Inr s'" "s @ r = s' @ r'"
    then obtain u where v': "v' = JStr u"
      using write_value_head [OF w(1)] write_value_head [OF w(2)] by (cases v') (auto split: if_splits)
    from w [unfolded v' write_value_iff] write_string_inj [of t r u r'] v' show "normal (JStr t) = normal v' \<and> r = r'" by simp
  qed
next
  case (JBool b)
  show ?case unfolding value_unique_def
  proof (intro allI impI)
    fix p d s v' p' d' s' r r'
    assume w: "write_value (JBool b) p d = Inr s" "write_value v' p' d' = Inr s'" "s @ r = s' @ r'"
    then have v': "v' = JBool b"
      using write_value_head [OF w(1)] write_value_head [OF w(2)] by (cases v') (auto split: if_splits)
    from w [unfolded v' write_value_iff] v' show "normal (JBool b) = normal v' \<and> r = r'" by (simp split: if_splits)
  qed
next
  case JNull
  show ?case unfolding value_unique_def
  proof (intro allI impI)
    fix p d s v' p' d' s' r r'
    assume w: "write_value JNull p d = Inr s" "write_value v' p' d' = Inr s'" "s @ r = s' @ r'"
    then have v': "v' = JNull"
      using write_value_head [OF w(1)] write_value_head [OF w(2)] by (cases v') (auto split: if_splits)
    from w [unfolded v' write_value_iff] v' show "normal JNull = normal v' \<and> r = r'" by simp
  qed
qed (simp add: value_unique_def write_value_iff)

text \<open>And only the value matters: the order of the fields does not.\<close>

lemma write_value_normal: "write_value (normal v) p d = write_value v p d"
  and write_items_normal: "write_items (map normal xs) i p d = write_items xs i p d"
  and write_fields_normal: "write_fields (map (\<lambda>(k, v). (k, normal v)) m) i p d = write_fields m i p d"
proof (induction v p d and xs i p d and m i p d rule: write_value_write_items_write_fields.induct)
  case (1 v p d)
  show ?case
  proof (cases v)
    case (JArr xs)
    with 1 show ?thesis by (auto simp: write_value.simps [of "JArr xs"] write_value.simps [of "JArr (map normal xs)"])
  next
    case (JObj m)
    have "sorted_fields (sorted_fields (map (\<lambda>(k, v). (k, normal v)) m)) = map (\<lambda>(k, v). (k, normal v)) (sorted_fields m)"
      by (simp add: sorted_fields_def sort_key_id_if_sorted flip: sorted_fields_map [unfolded sorted_fields_def])
    with 1 JObj show ?thesis
      by (auto simp: write_value.simps [of "JObj m"] write_value.simps [of "JObj (sorted_fields (map (\<lambda>(k, v). (k, normal v)) m))"])
  qed simp_all
qed simp_all

text \<open>
  C23: the canonical text of a payload is its value. Two payloads have the same canonical text, and so the
  same chained bytes, exactly when they are the same value up to the order their objects list the fields in.
\<close>

theorem canonical_text_is_the_value:
  assumes "canonical_json v = Inr s"
  shows "canonical_json v' = Inr s \<longleftrightarrow> normal v = normal v'"
proof
  assume "canonical_json v' = Inr s"
  with assms value_uniqueD [OF every_value_unique, of v "[]" 0 s v' "[]" 0 s "[]" "[]"] show "normal v = normal v'"
    by (simp add: canonical_json_def ends_def)
next
  assume "normal v = normal v'"
  then have "write_value v' [] 0 = write_value v [] 0" by (metis write_value_normal)
  with assms show "canonical_json v' = Inr s" by (simp add: canonical_json_def)
qed

theorem canonical_text_is_the_value_witness:
  "normal (JObj [(''b'', JArr [JInt (- 5), JStr [CHR 0x0A]]), (''a'', JNull)]) =
     normal (JObj [(''a'', JNull), (''b'', JArr [JInt (- 5), JStr [CHR 0x0A]])])
   \<and> normal (JArr [JStr ''ab'', JStr ''c'']) \<noteq> normal (JArr [JStr ''a'', JStr ''bc''])"
proof -
  let ?v = "JObj [(''b'', JArr [JInt (- 5), JStr [CHR 0x0A]]), (''a'', JNull)]"
  let ?w = "JObj [(''a'', JNull), (''b'', JArr [JInt (- 5), JStr [CHR 0x0A]])]"
  have "canonical_json ?v = canonical_json ?w \<and> is_ok (canonical_json ?w)" by code_simp
  then have "normal ?v = normal ?w" using canonical_text_is_the_value [of ?v _ ?w] by (auto simp: is_ok_iff)
  moreover have "is_ok (canonical_json (JArr [JStr ''ab'', JStr ''c'']))
      \<and> canonical_json (JArr [JStr ''a'', JStr ''bc'']) \<noteq> canonical_json (JArr [JStr ''ab'', JStr ''c''])" by code_simp
  then have "normal (JArr [JStr ''ab'', JStr ''c'']) \<noteq> normal (JArr [JStr ''a'', JStr ''bc''])"
    using canonical_text_is_the_value [of "JArr [JStr ''ab'', JStr ''c'']"] by (auto simp: is_ok_iff)
  ultimately show ?thesis by blast
qed

end
