(* ===== verification/Ledger_Hash.thy ===== *)
theory Ledger_Hash
  imports Canonical_Json
begin

text \<open>
  The preimages of \<open>ledger/hash.rs\<close>: genesis, payload and row. The digest itself, Keccak-256, is a
  parameter \<open>K\<close> from bytes to bytes. What is shown of the hashes is that a preimage determines what was
  hashed, so two different things with one hash exhibit a collision of the digest.
\<close>

section \<open>Preimages\<close>

type_synonym digest = "string \<Rightarrow> string"

definition ROW_DOMAIN :: string where "ROW_DOMAIN = ''oppen.ledger.row.v1''"
definition GENESIS_DOMAIN :: string where "GENESIS_DOMAIN = ''oppen.ledger.genesis.v1''"
definition PAYLOAD_DOMAIN :: string where "PAYLOAD_DOMAIN = ''oppen.ledger.payload.v1''"

definition be_bytes :: "nat \<Rightarrow> string" where
  "be_bytes n = map (\<lambda>k. char_of (n div 256 ^ k mod 256)) [7, 6, 5, 4, 3, 2, 1, 0]"

text \<open>An \<open>i64\<close> is written in two's complement.\<close>

definition i64_bytes :: "int \<Rightarrow> string" where
  "i64_bytes i = be_bytes (nat (i mod 2 ^ 64))"

definition put :: "string \<Rightarrow> string option \<Rightarrow> string" where
  "put tag v =
     be_bytes (length tag) @ tag @ (case v of None \<Rightarrow> [CHR 0x00] | Some b \<Rightarrow> CHR 0x01 # be_bytes (length b) @ b)"

definition hex_encode :: "string \<Rightarrow> string" where
  "hex_encode bs = concat (map (\<lambda>c. [hex_digit (of_char c div 16), hex_digit (of_char c mod 16)]) bs)"

definition genesis_hash :: "digest \<Rightarrow> string \<Rightarrow> string" where
  "genesis_hash K network = hex_encode (K (GENESIS_DOMAIN @ put ''network'' (Some network)))"

definition payload_preimage :: "string \<Rightarrow> string" where
  "payload_preimage text = PAYLOAD_DOMAIN @ put ''payload'' (Some text)"

definition payload_hash :: "digest \<Rightarrow> string \<Rightarrow> string" where
  "payload_hash K text = hex_encode (K (payload_preimage text))"

record row_hash_input =
  rh_prev_hash :: string
  rh_seq :: nat
  rh_kind :: string
  rh_ts_ms :: int
  rh_agent_id :: "string option"
  rh_payload_hash :: string
  rh_snapshot_id :: "string option"
  rh_snapshot_hash :: "string option"

definition row_preimage :: "row_hash_input \<Rightarrow> string" where
  "row_preimage x =
     ROW_DOMAIN @ put ''prev'' (Some (rh_prev_hash x)) @ put ''seq'' (Some (be_bytes (rh_seq x)))
     @ put ''kind'' (Some (rh_kind x)) @ put ''ts_ms'' (Some (i64_bytes (rh_ts_ms x)))
     @ put ''agent_id'' (rh_agent_id x) @ put ''payload_hash'' (Some (rh_payload_hash x))
     @ put ''snapshot_id'' (rh_snapshot_id x) @ put ''snapshot_hash'' (rh_snapshot_hash x)"

definition row_hash :: "digest \<Rightarrow> row_hash_input \<Rightarrow> string" where
  "row_hash K x = hex_encode (K (row_preimage x))"

section \<open>What a preimage determines\<close>

text \<open>Every length in the program fits a \<open>u64\<close>, as do its sequence numbers.\<close>

definition fits :: "string option \<Rightarrow> bool" where
  "fits v = (case v of None \<Rightarrow> True | Some b \<Rightarrow> length b \<le> U64_MAX)"

definition input_fits :: "row_hash_input \<Rightarrow> bool" where
  "input_fits x =
     (length (rh_prev_hash x) \<le> U64_MAX \<and> rh_seq x \<le> U64_MAX \<and> length (rh_kind x) \<le> U64_MAX
      \<and> - (2 ^ 63) \<le> rh_ts_ms x \<and> rh_ts_ms x < 2 ^ 63 \<and> fits (rh_agent_id x)
      \<and> length (rh_payload_hash x) \<le> U64_MAX \<and> fits (rh_snapshot_id x) \<and> fits (rh_snapshot_hash x))"

lemma length_be_bytes [simp]: "length (be_bytes n) = 8"
  by (simp add: be_bytes_def)

definition be_value :: "string \<Rightarrow> nat" where
  "be_value bs = foldl (\<lambda>a c. a * 256 + of_char c) 0 bs"

lemma be_value_bytes:
  assumes "n \<le> U64_MAX"
  shows "be_value (be_bytes n) = n"
proof -
  have step: "n div 256 ^ Suc k * 256 + n div 256 ^ k mod 256 = n div 256 ^ k" for k
    by (metis div_mult2_eq div_mult_mod_eq power_Suc2)
  have "n div 256 ^ 7 mod 256 = n div 256 ^ 7" using assms by (simp add: U64_MAX_val)
  then have "be_value (be_bytes n) = (((((((n div 256 ^ 7) * 256 + n div 256 ^ 6 mod 256) * 256 + n div 256 ^ 5 mod 256) * 256
      + n div 256 ^ 4 mod 256) * 256 + n div 256 ^ 3 mod 256) * 256 + n div 256 ^ 2 mod 256) * 256 + n div 256 ^ 1 mod 256) * 256
      + n div 256 ^ 0 mod 256"
    by (simp only: be_value_def be_bytes_def list.map foldl.simps of_char_of mod_mod_trivial mult_zero_left add_0)
  also have "\<dots> = n"
    using step [of 6] step [of 5] step [of 4] step [of 3] step [of 2] step [of 1] step [of 0] by simp
  finally show ?thesis .
qed

lemma be_bytes_inj: "be_bytes m = be_bytes n \<Longrightarrow> m \<le> U64_MAX \<Longrightarrow> n \<le> U64_MAX \<Longrightarrow> m = n"
  by (metis be_value_bytes)

lemma i64_bytes_inj:
  assumes "i64_bytes i = i64_bytes j" "- (2 ^ 63) \<le> i" "i < 2 ^ 63" "- (2 ^ 63) \<le> j" "j < 2 ^ 63"
  shows "i = j"
proof -
  have low: "nat (k mod 2 ^ 64) \<le> U64_MAX" for k :: int
    using pos_mod_bound [of "2 ^ 64" k] by (simp add: U64_MAX_val)
  have "nat (i mod 2 ^ 64) = nat (j mod 2 ^ 64)" using be_bytes_inj [OF _ low low] assms(1) by (simp add: i64_bytes_def)
  then have "i mod 2 ^ 64 = j mod 2 ^ 64" by (simp add: eq_nat_nat_iff)
  then have "2 ^ 64 dvd i - j" by (simp add: mod_eq_dvd_iff)
  moreover have "\<bar>i - j\<bar> < 2 ^ 64" using assms(2-5) by simp
  ultimately show ?thesis using dvd_imp_le_int [of "i - j" "2 ^ 64"] by force
qed

lemma put_inj:
  assumes "put tag v @ r = put tag v' @ r'" "fits v" "fits v'"
  shows "v = v' \<and> r = r'"
proof (cases v; cases v')
  fix b b' assume v: "v = Some b" "v' = Some b'"
  with assms(1) have eq: "be_bytes (length b) @ (b @ r) = be_bytes (length b') @ (b' @ r')" by (simp add: put_def)
  then have "be_bytes (length b) = be_bytes (length b')" by (simp add: append_eq_append_conv)
  then have "length b = length b'" using assms(2,3) v be_bytes_inj by (simp add: fits_def)
  with eq v show ?thesis by simp
qed (use assms(1) in \<open>simp_all add: put_def\<close>)

lemma of_char_below: "of_char c < (256 :: nat)"
  by (metis char_of_char of_char_mod_256 mod_less_divisor zero_less_numeral)

lemma hex_digit_inj: "m < 16 \<Longrightarrow> n < 16 \<Longrightarrow> hex_digit m = hex_digit n \<Longrightarrow> m = n"
  by (metis hex_value_digit)

lemma hex_encode_inj: "hex_encode a = hex_encode b \<Longrightarrow> a = b"
proof (induction a arbitrary: b)
  case Nil
  then show ?case by (cases b) (simp_all add: hex_encode_def)
next
  case (Cons c a)
  then obtain d b2 where b: "b = d # b2" by (cases b) (simp_all add: hex_encode_def)
  have low: "of_char x div 16 < (16 :: nat)" for x :: char
    using of_char_below [of x] by (simp add: less_mult_imp_div_less)
  from Cons.prems b have "hex_digit (of_char c div 16) = hex_digit (of_char d div 16)"
      "hex_digit (of_char c mod 16) = hex_digit (of_char d mod 16)" "hex_encode a = hex_encode b2"
    by (simp_all add: hex_encode_def)
  then have "of_char c div 16 = (of_char d div 16 :: nat)" "of_char c mod 16 = (of_char d mod 16 :: nat)"
    using hex_digit_inj low by simp_all
  then have "of_char c = (of_char d :: nat)" by (metis div_mult_mod_eq)
  with Cons.IH \<open>hex_encode a = hex_encode b2\<close> b show ?case by simp
qed

definition puts :: "(string \<times> string option) list \<Rightarrow> string" where
  "puts members = concat (map (\<lambda>(tag, v). put tag v) members)"

lemma puts_inj:
  assumes "puts xs = puts ys" "map fst xs = map fst ys" "\<forall>(_, v) \<in> set xs. fits v" "\<forall>(_, v) \<in> set ys. fits v"
  shows "xs = ys"
  using assms
proof (induction xs arbitrary: ys)
  case (Cons x xs)
  obtain tag v where x: "x = (tag, v)" by (cases x)
  from Cons.prems(2) x obtain v' ys2 where ys: "ys = (tag, v') # ys2" by (cases ys) auto
  from Cons.prems x ys have "put tag v @ puts xs = put tag v' @ puts ys2" by (simp add: puts_def)
  from put_inj [OF this] Cons.prems(3,4) x ys have "v = v'" "puts xs = puts ys2" by auto
  with Cons.IH [of ys2] Cons.prems x ys show ?case by auto
qed simp

definition row_fields :: "row_hash_input \<Rightarrow> (string \<times> string option) list" where
  "row_fields x =
     [(''prev'', Some (rh_prev_hash x)), (''seq'', Some (be_bytes (rh_seq x))), (''kind'', Some (rh_kind x)),
      (''ts_ms'', Some (i64_bytes (rh_ts_ms x))), (''agent_id'', rh_agent_id x),
      (''payload_hash'', Some (rh_payload_hash x)), (''snapshot_id'', rh_snapshot_id x), (''snapshot_hash'', rh_snapshot_hash x)]"

lemma row_preimage_puts: "row_preimage x = ROW_DOMAIN @ puts (row_fields x)"
  by (simp add: row_preimage_def puts_def row_fields_def)

lemma row_preimage_inj:
  assumes "row_preimage x = row_preimage y" "input_fits x" "input_fits y"
  shows "x = y"
proof -
  have fit: "\<forall>(_, v) \<in> set (row_fields z). fits v" if "input_fits z" for z
    using that by (auto simp: row_fields_def input_fits_def fits_def i64_bytes_def U64_MAX_val split: option.splits)
  have "puts (row_fields x) = puts (row_fields y)" using assms(1) by (simp add: row_preimage_puts)
  then have "row_fields x = row_fields y" using fit assms(2,3) by (intro puts_inj) (simp_all add: row_fields_def)
  then show ?thesis
    using assms(2,3) be_bytes_inj [of "rh_seq x" "rh_seq y"] i64_bytes_inj [of "rh_ts_ms x" "rh_ts_ms y"]
    by (simp add: row_fields_def input_fits_def)
qed

section \<open>What a hash determines\<close>

definition collides :: "digest \<Rightarrow> bool" where
  "collides K = (\<exists>x y. x \<noteq> y \<and> K x = K y)"

lemma row_hash_binds:
  assumes "row_hash K x = row_hash K y" "input_fits x" "input_fits y"
  shows "x = y \<or> collides K"
  using row_preimage_inj [OF _ assms(2,3)] hex_encode_inj [OF assms(1) [unfolded row_hash_def]] unfolding collides_def by blast

lemma payload_hash_binds:
  assumes "payload_hash K x = payload_hash K y" "length x \<le> U64_MAX" "length y \<le> U64_MAX"
  shows "x = y \<or> collides K"
proof -
  have "K (payload_preimage x) = K (payload_preimage y)" using assms(1) hex_encode_inj by (auto simp: payload_hash_def)
  moreover have "payload_preimage x = payload_preimage y \<Longrightarrow> x = y"
    using put_inj [of "''payload''" "Some x" "[]" "Some y" "[]"] assms(2,3) by (simp add: payload_preimage_def fits_def)
  ultimately show ?thesis by (auto simp: collides_def)
qed

text \<open>The three domains keep the kinds of preimage apart.\<close>

lemma domains_apart:
  "row_preimage x \<noteq> payload_preimage y" "row_preimage x \<noteq> GENESIS_DOMAIN @ z" "payload_preimage y \<noteq> GENESIS_DOMAIN @ z"
  by (simp_all add: row_preimage_def payload_preimage_def ROW_DOMAIN_def PAYLOAD_DOMAIN_def GENESIS_DOMAIN_def)

lemma row_hash_not_genesis: "row_hash K x = genesis_hash K network \<Longrightarrow> collides K"
  unfolding row_hash_def genesis_hash_def collides_def using domains_apart(2) hex_encode_inj by blast

text \<open>
  A row hash commits to every chained field. Two rows with one hash agree in the previous hash, the
  sequence number, the kind, the time, the agent, the payload hash and the snapshot reference (an absent
  field differs from an empty one), or the digest has a collision.
\<close>

theorem row_hash_commits_to_the_row:
  assumes "row_hash K x = row_hash K y" "input_fits x" "input_fits y"
  shows "collides K \<or> x = y"
  using row_hash_binds [OF assms] by blast

theorem row_hash_commits_to_the_row_witness:
  "let x = \<lparr>rh_prev_hash = ''p'', rh_seq = 1, rh_kind = ''fill'', rh_ts_ms = 5, rh_agent_id = None, rh_payload_hash = ''h'',
            rh_snapshot_id = None, rh_snapshot_hash = None\<rparr>
   in \<not> collides id \<and> row_hash id x \<noteq> row_hash id (x\<lparr>rh_agent_id := Some []\<rparr>)"
proof -
  let ?x = "\<lparr>rh_prev_hash = ''p'', rh_seq = 1, rh_kind = ''fill'', rh_ts_ms = 5, rh_agent_id = None, rh_payload_hash = ''h'',
            rh_snapshot_id = None, rh_snapshot_hash = None\<rparr>"
  have free: "\<not> collides id" by (simp add: collides_def)
  have "row_hash id ?x = row_hash id (?x\<lparr>rh_agent_id := Some []\<rparr>) \<Longrightarrow> collides id \<or> ?x = ?x\<lparr>rh_agent_id := Some []\<rparr>"
    by (rule row_hash_commits_to_the_row) (simp_all add: input_fits_def fits_def U64_MAX_val)
  with free show ?thesis by auto
qed

end
