(* ===== verification/Ledger_Chain.thy ===== *)
theory Ledger_Chain
  imports Ledger_Hash
begin

text \<open>
  \<open>ledger/mod.rs\<close>: the event ledger of one network. The database is its tables, a transaction is a
  function on them that either commits as a whole or fails, and the head anchor is the sidecar outside
  the database. Every operation takes the failure its transaction may meet and the failure the anchor
  write after the commit may meet; a failed anchor write leaves the row committed.
\<close>

section \<open>Kinds and errors\<close>

datatype event_kind =
    EkOrderIntent | EkAgentDecision | EkRefusal | EkFill | EkOrderStateChange
  | EkSubmissionStarted | EkSubmissionResolved | EkSubmissionSigned | EkSubmissionAccepted
  | EkPilotAuthorized | EkPilotAdopted | EkPilotHalted | EkPairingIssued | EkPairingRevoked
  | EkRegistryGranted | EkRegistryRetired | EkPolicyInitialized | EkPolicyReplaced
  | EkApprovalProposed | EkApprovalClaimed | EkApprovalDisposed | EkOperatorAction | EkApprovalDecision
  | EkKillSwitchChanged | EkGuardrailTrip | EkWsDisconnected | EkWsReconnected | EkAlert
  | EkAgentWalletExpiryWarning | EkPayloadRedacted

definition EVENT_KINDS :: "(event_kind \<times> string) list" where
  "EVENT_KINDS =
     [(EkOrderIntent, ''order_intent''), (EkAgentDecision, ''agent_decision''), (EkRefusal, ''refusal''), (EkFill, ''fill''),
      (EkOrderStateChange, ''order_state_change''), (EkSubmissionStarted, ''submission_started''),
      (EkSubmissionResolved, ''submission_resolved''), (EkSubmissionSigned, ''submission_signed''),
      (EkSubmissionAccepted, ''submission_accepted''), (EkPilotAuthorized, ''pilot_authorized''),
      (EkPilotAdopted, ''pilot_adopted''), (EkPilotHalted, ''pilot_halted''), (EkPairingIssued, ''pairing_issued''),
      (EkPairingRevoked, ''pairing_revoked''), (EkRegistryGranted, ''registry_granted''),
      (EkRegistryRetired, ''registry_retired''), (EkPolicyInitialized, ''policy_initialized''),
      (EkPolicyReplaced, ''policy_replaced''), (EkApprovalProposed, ''approval_proposed''),
      (EkApprovalClaimed, ''approval_claimed''), (EkApprovalDisposed, ''approval_disposed''),
      (EkOperatorAction, ''operator_action''), (EkApprovalDecision, ''approval_decision''),
      (EkKillSwitchChanged, ''kill_switch_changed''), (EkGuardrailTrip, ''guardrail_trip''),
      (EkWsDisconnected, ''ws_disconnected''), (EkWsReconnected, ''ws_reconnected''), (EkAlert, ''alert''),
      (EkAgentWalletExpiryWarning, ''agent_wallet_expiry_warning''), (EkPayloadRedacted, ''payload_redacted'')]"

datatype ledger_error =
    LgSqlite string
  | LgJson string
  | LgIo string
  | LgPoisoned
  | LgNetworkMismatch string string
  | LgSeqOutOfRange
  | LgUnknownKind string
  | LgPayloadNotJson nat
  | LgNoSuchEvent nat
  | LgAlreadyRedacted nat
  | LgUseRedact
  | LgUseRecordIntent
  | LgUseRecordFill
  | LgUseSubmissionJournal
  | LgUsePilotJournal
  | LgUsePairingJournal
  | LgUseRegistryJournal
  | LgUsePolicyJournal
  | LgUseApprovalJournal
  | LgUnfinishedTransaction
  | LgPilotBudget string
  | LgRedactionIsNotRedactable nat
  | LgReceiptFromAnotherChain string string
  | LgReceiptRowMismatch nat string string
  | LgSnapshotBodyConflict string string string
  | LgFloatInPayload string
  | LgPayloadTooDeep string
  | LgNoSuchGap int
  | LgGapAlreadyClosed int
  | LgGapStillOpen int

definition event_kind_str :: "event_kind \<Rightarrow> string" where
  "event_kind_str k = the (map_of EVENT_KINDS k)"

definition event_kind_parse :: "string \<Rightarrow> ledger_error + event_kind" where
  "event_kind_parse s = ok_or (LgUnknownKind s) (map_of (map (\<lambda>(k, t). (t, k)) EVENT_KINDS) s)"

fun json_error_of :: "json_error \<Rightarrow> ledger_error" where
  "json_error_of (JeFloatInPayload p) = LgFloatInPayload p"
| "json_error_of (JeTooDeep p) = LgPayloadTooDeep p"

section \<open>Tables\<close>

text \<open>A column that holds text, a blob, null, or something else.\<close>

datatype payload_column = PcNull | PcText string | PcBlob string | PcOther

record event_row =
  ev_seq :: int
  ev_ts_ms :: int
  ev_kind :: string
  ev_agent_id :: "string option"
  ev_payload :: payload_column
  ev_payload_hash :: string
  ev_prev_hash :: string
  ev_hash :: string
  ev_redacted_at :: "int option"
  ev_redaction_reason :: "string option"
  ev_snapshot_id :: "string option"
  ev_snapshot_hash :: "string option"
  ev_idem_key :: "string option"

record feed_gap =
  gp_gap_id :: int
  gp_scope :: string
  gp_opened_ts_ms :: int
  gp_closed_ts_ms :: "int option"
  gp_reconciled_ts_ms :: "int option"
  gp_open_seq :: int
  gp_close_seq :: "int option"
  gp_note :: "string option"

record book_snapshot =
  bs_snapshot_id :: string
  bs_snapshot_hash :: string
  bs_ts_ms :: int
  bs_coin :: string
  bs_body :: string

record ledger_db =
  db_network :: "string option"
  db_head :: "(int \<times> string) option"
  db_events :: "event_row list"
  db_gaps :: "feed_gap list"
  db_snapshots :: "book_snapshot list"

record anchor =
  an_seq :: nat
  an_hash :: string

record ledger =
  lg_network :: string
  lg_genesis :: string
  lg_db :: ledger_db
  lg_anchored :: bool
  lg_anchor :: "anchor option"

record appended =
  ap_seq :: nat
  ap_hash :: string

record snapshot_ref =
  sr_id :: string
  sr_hash :: string

record new_event =
  nv_kind :: event_kind
  nv_ts_ms :: int
  nv_agent_id :: "string option"
  nv_payload :: json
  nv_snapshot :: "snapshot_ref option"

record intent_receipt =
  ir_chain :: string
  ir_seq :: nat
  ir_hash :: string
  ir_agent_id :: string

section \<open>Writing a row\<close>

definition NO_ROWS :: ledger_error where "NO_ROWS = LgSqlite ''Query returned no rows''"

definition seq_of :: "int \<Rightarrow> ledger_error + nat" where
  "seq_of raw = (if raw < 0 then Inl LgSeqOutOfRange else Inr (nat raw))"

definition seq_key :: "nat \<Rightarrow> ledger_error + int" where
  "seq_key n = (if n \<le> I64_MAX then Inr (int n) else Inl LgSeqOutOfRange)"

definition chain_head :: "ledger_db \<Rightarrow> ledger_error + nat \<times> string" where
  "chain_head db =
     (case db_head db of
        None \<Rightarrow> Inl NO_ROWS
      | Some (raw, h) \<Rightarrow> rbind (seq_of raw) (\<lambda>n. Inr (n, h)))"

definition row_input :: "event_row \<Rightarrow> row_hash_input" where
  "row_input r =
     \<lparr>rh_prev_hash = ev_prev_hash r, rh_seq = nat (ev_seq r), rh_kind = ev_kind r, rh_ts_ms = ev_ts_ms r,
      rh_agent_id = ev_agent_id r, rh_payload_hash = ev_payload_hash r, rh_snapshot_id = ev_snapshot_id r,
      rh_snapshot_hash = ev_snapshot_hash r\<rparr>"

definition chain_row :: "digest \<Rightarrow> new_event \<Rightarrow> string option \<Rightarrow> ledger_db \<Rightarrow> ledger_error + event_row" where
  "chain_row K e idem_key db =
     rbind (chain_head db) (\<lambda>(head_seq, prev_hash).
     rbind (ensure (head_seq + 1 \<le> U64_MAX) LgSeqOutOfRange) (\<lambda>_.
     rbind (seq_key (head_seq + 1)) (\<lambda>key.
     rbind (map_err json_error_of (canonical_json (nv_payload e))) (\<lambda>canonical.
     let r = \<lparr>ev_seq = key, ev_ts_ms = nv_ts_ms e, ev_kind = event_kind_str (nv_kind e), ev_agent_id = nv_agent_id e,
              ev_payload = PcText canonical, ev_payload_hash = payload_hash K canonical, ev_prev_hash = prev_hash, ev_hash = [],
              ev_redacted_at = None, ev_redaction_reason = None, ev_snapshot_id = map_option sr_id (nv_snapshot e),
              ev_snapshot_hash = map_option sr_hash (nv_snapshot e), ev_idem_key = idem_key\<rparr>
     in Inr (r\<lparr>ev_hash := row_hash K (row_input r)\<rparr>)))))"

text \<open>The statement that inserts: \<open>seq\<close> is the primary key and \<open>hash\<close> is unique.\<close>

definition insert_event :: "event_row \<Rightarrow> ledger_db \<Rightarrow> ledger_error + ledger_db" where
  "insert_event r db =
     rbind (ensure (\<forall>q \<in> set (db_events db). ev_seq q \<noteq> ev_seq r \<and> ev_hash q \<noteq> ev_hash r)
              (LgSqlite ''UNIQUE constraint failed'')) (\<lambda>_.
     Inr (db\<lparr>db_events := db_events db @ [r]\<rparr>))"

definition advance_head :: "event_row \<Rightarrow> ledger_db \<Rightarrow> ledger_db" where
  "advance_head r db = db\<lparr>db_head := Some (ev_seq r, ev_hash r)\<rparr>"

definition row_appended :: "event_row \<Rightarrow> appended" where
  "row_appended r = \<lparr>ap_seq = nat (ev_seq r), ap_hash = ev_hash r\<rparr>"

definition append_in_tx :: "digest \<Rightarrow> new_event \<Rightarrow> ledger_db \<Rightarrow> ledger_error + appended \<times> ledger_db" where
  "append_in_tx K e db =
     rbind (chain_row K e None db) (\<lambda>r.
     rbind (insert_event r db) (\<lambda>db1.
     Inr (row_appended r, advance_head r db1)))"

text \<open>The keyed insert does nothing when the key is in the table.\<close>

definition append_keyed_in_tx ::
  "digest \<Rightarrow> new_event \<Rightarrow> string \<Rightarrow> ledger_db \<Rightarrow> ledger_error + appended option \<times> ledger_db" where
  "append_keyed_in_tx K e idem_key db =
     rbind (chain_row K e (Some idem_key) db) (\<lambda>r.
     if \<exists>q \<in> set (db_events db). ev_idem_key q = Some idem_key then Inr (None, db)
     else rbind (insert_event r db) (\<lambda>db1. Inr (Some (row_appended r), advance_head r db1)))"

section \<open>Transactions and the anchor\<close>

definition note_head :: "ledger_error option \<Rightarrow> appended \<Rightarrow> ledger \<Rightarrow> (ledger_error + unit) \<times> ledger" where
  "note_head anchor_fault a L =
     (if lg_anchored L
      then (case anchor_fault of
              Some e \<Rightarrow> (Inl e, L)
            | None \<Rightarrow> (Inr (), L\<lparr>lg_anchor := Some \<lparr>an_seq = ap_seq a, an_hash = ap_hash a\<rparr>\<rparr>))
      else (Inr (), L))"

definition in_transaction ::
  "ledger_error option \<Rightarrow> ledger_error option \<Rightarrow> (ledger_db \<Rightarrow> ledger_error + 'a \<times> appended option \<times> ledger_db) \<Rightarrow>
     ledger \<Rightarrow> (ledger_error + 'a) \<times> ledger" where
  "in_transaction tx_fault anchor_fault body L =
     (case tx_fault of
        Some e \<Rightarrow> (Inl e, L)
      | None \<Rightarrow>
          (case body (lg_db L) of
             Inl e \<Rightarrow> (Inl e, L)
           | Inr (x, written, db) \<Rightarrow>
               (case written of
                  None \<Rightarrow> (Inr x, L\<lparr>lg_db := db\<rparr>)
                | Some a \<Rightarrow>
                    (case note_head anchor_fault a (L\<lparr>lg_db := db\<rparr>) of
                       (Inl e, L1) \<Rightarrow> (Inl e, L1)
                     | (Inr _, L1) \<Rightarrow> (Inr x, L1)))))"

section \<open>Opening\<close>

definition bind_network :: "string \<Rightarrow> string \<Rightarrow> ledger_db \<Rightarrow> ledger_error + ledger_db" where
  "bind_network network genesis db =
     (case db_network db of
        Some found \<Rightarrow> if found \<noteq> network then Inl (LgNetworkMismatch network found) else Inr db
      | None \<Rightarrow> Inr (db\<lparr>db_network := Some network, db_head := Some (0, genesis)\<rparr>))"

definition empty_db :: ledger_db where
  "empty_db = \<lparr>db_network = None, db_head = None, db_events = [], db_gaps = [], db_snapshots = []\<rparr>"

definition open_anchored ::
  "digest \<Rightarrow> string \<Rightarrow> bool \<Rightarrow> anchor option \<Rightarrow> ledger_error option \<Rightarrow> ledger_db \<Rightarrow> ledger_error + ledger" where
  "open_anchored K network anchored sidecar anchor_fault db =
     (let genesis = genesis_hash K network in
      rbind (bind_network network genesis db) (\<lambda>db1.
      rbind (if anchored \<and> sidecar = None
             then rbind (chain_head db1) (\<lambda>(n, h).
                  case anchor_fault of Some e \<Rightarrow> Inl e | None \<Rightarrow> Inr (Some \<lparr>an_seq = n, an_hash = h\<rparr>))
             else Inr sidecar) (\<lambda>sidecar1.
      Inr \<lparr>lg_network = network, lg_genesis = genesis, lg_db = db1, lg_anchored = anchored, lg_anchor = sidecar1\<rparr>)))"

section \<open>Appending\<close>

definition refuse_one_door_kind :: "event_kind \<Rightarrow> ledger_error + unit" where
  "refuse_one_door_kind k =
     (case k of
        EkOrderIntent \<Rightarrow> Inl LgUseRecordIntent
      | EkPayloadRedacted \<Rightarrow> Inl LgUseRedact
      | EkFill \<Rightarrow> Inl LgUseRecordFill
      | EkSubmissionStarted \<Rightarrow> Inl LgUseSubmissionJournal
      | EkSubmissionResolved \<Rightarrow> Inl LgUseSubmissionJournal
      | EkSubmissionSigned \<Rightarrow> Inl LgUseSubmissionJournal
      | EkSubmissionAccepted \<Rightarrow> Inl LgUseSubmissionJournal
      | EkPilotAuthorized \<Rightarrow> Inl LgUsePilotJournal
      | EkPilotAdopted \<Rightarrow> Inl LgUsePilotJournal
      | EkPilotHalted \<Rightarrow> Inl LgUsePilotJournal
      | EkPairingIssued \<Rightarrow> Inl LgUsePairingJournal
      | EkPairingRevoked \<Rightarrow> Inl LgUsePairingJournal
      | EkRegistryGranted \<Rightarrow> Inl LgUseRegistryJournal
      | EkRegistryRetired \<Rightarrow> Inl LgUseRegistryJournal
      | EkPolicyInitialized \<Rightarrow> Inl LgUsePolicyJournal
      | EkPolicyReplaced \<Rightarrow> Inl LgUsePolicyJournal
      | EkApprovalProposed \<Rightarrow> Inl LgUseApprovalJournal
      | EkApprovalClaimed \<Rightarrow> Inl LgUseApprovalJournal
      | EkApprovalDisposed \<Rightarrow> Inl LgUseApprovalJournal
      | _ \<Rightarrow> Inr ())"

definition append_committed ::
  "digest \<Rightarrow> ledger_error option \<Rightarrow> ledger_error option \<Rightarrow> new_event \<Rightarrow> ledger \<Rightarrow> (ledger_error + appended) \<times> ledger" where
  "append_committed K tx_fault anchor_fault e =
     in_transaction tx_fault anchor_fault (\<lambda>db. rbind (append_in_tx K e db) (\<lambda>(a, db1). Inr (a, Some a, db1)))"

definition ledger_append ::
  "digest \<Rightarrow> ledger_error option \<Rightarrow> ledger_error option \<Rightarrow> new_event \<Rightarrow> ledger \<Rightarrow> (ledger_error + appended) \<times> ledger" where
  "ledger_append K tx_fault anchor_fault e L =
     (case refuse_one_door_kind (nv_kind e) of
        Inl err \<Rightarrow> (Inl err, L)
      | Inr _ \<Rightarrow> append_committed K tx_fault anchor_fault e L)"

definition record_intent ::
  "digest \<Rightarrow> ledger_error option \<Rightarrow> ledger_error option \<Rightarrow> string \<Rightarrow> int \<Rightarrow> json \<Rightarrow> snapshot_ref option \<Rightarrow> ledger \<Rightarrow>
     (ledger_error + intent_receipt) \<times> ledger" where
  "record_intent K tx_fault anchor_fault agent ts_ms payload snapshot L =
     (case append_committed K tx_fault anchor_fault
             \<lparr>nv_kind = EkOrderIntent, nv_ts_ms = ts_ms, nv_agent_id = Some agent, nv_payload = payload, nv_snapshot = snapshot\<rparr> L of
        (Inl e, L1) \<Rightarrow> (Inl e, L1)
      | (Inr a, L1) \<Rightarrow> (Inr \<lparr>ir_chain = lg_genesis L, ir_seq = ap_seq a, ir_hash = ap_hash a, ir_agent_id = agent\<rparr>, L1))"

definition find_event :: "nat \<Rightarrow> ledger_db \<Rightarrow> event_row option" where
  "find_event n db = find (\<lambda>r. ev_seq r = int n) (db_events db)"

definition check_receipt :: "intent_receipt \<Rightarrow> ledger_db \<Rightarrow> ledger_error + unit" where
  "check_receipt receipt db =
     (case find_event (ir_seq receipt) db of
        None \<Rightarrow> Inl (LgNoSuchEvent (ir_seq receipt))
      | Some r \<Rightarrow> ensure (ev_hash r = ir_hash receipt) (LgReceiptRowMismatch (ir_seq receipt) (ir_hash receipt) (ev_hash r)))"

definition ledger_record_outcome ::
  "digest \<Rightarrow> ledger_error option \<Rightarrow> ledger_error option \<Rightarrow> intent_receipt \<Rightarrow> event_kind \<Rightarrow> int \<Rightarrow> json \<Rightarrow> ledger \<Rightarrow>
     (ledger_error + appended) \<times> ledger" where
  "ledger_record_outcome K tx_fault anchor_fault receipt k ts_ms outcome L =
     (case rbind (refuse_one_door_kind k) (\<lambda>_.
           rbind (ensure (ir_chain receipt = lg_genesis L) (LgReceiptFromAnotherChain (lg_genesis L) (ir_chain receipt))) (\<lambda>_.
           seq_key (ir_seq receipt))) of
        Inl e \<Rightarrow> (Inl e, L)
      | Inr _ \<Rightarrow>
          in_transaction tx_fault anchor_fault (\<lambda>db.
            rbind (check_receipt receipt db) (\<lambda>_.
            rbind (append_in_tx K
              \<lparr>nv_kind = k, nv_ts_ms = ts_ms, nv_agent_id = Some (ir_agent_id receipt),
               nv_payload = JObj [(''intent_seq'', JInt (int (ir_seq receipt))), (''intent_hash'', JStr (ir_hash receipt)), (''outcome'', outcome)],
               nv_snapshot = None\<rparr> db) (\<lambda>(a, db1).
            Inr (a, Some a, db1)))) L)"

section \<open>Fills\<close>

record new_fill =
  nf_account :: string
  nf_tid :: nat
  nf_ts_ms :: int
  nf_agent_id :: "string option"
  nf_payload :: json

definition fill_idem_key :: "string \<Rightarrow> nat \<Rightarrow> string" where
  "fill_idem_key account tid = ''fill:'' @ account @ '':'' @ nat_digits tid"

definition fill_key_range :: "string \<Rightarrow> string \<times> string" where
  "fill_key_range account = (''fill:'' @ account @ '':'', ''fill:'' @ account @ '';'')"

definition pilot_active :: "ledger_db \<Rightarrow> bool" where
  "pilot_active db = (\<exists>r \<in> set (db_events db). ev_kind r \<in> {''pilot_authorized'', ''pilot_halted''})"

text \<open>A ledger with pilot rows records a fill under the pilot's accounting, which is the parameter.\<close>

definition record_fill ::
  "(new_fill \<Rightarrow> ledger_db \<Rightarrow> ledger_error + appended option \<times> appended option \<times> ledger_db) \<Rightarrow> digest \<Rightarrow> ledger_error option \<Rightarrow>
     ledger_error option \<Rightarrow> new_fill \<Rightarrow> ledger \<Rightarrow> (ledger_error + appended option) \<times> ledger" where
  "record_fill pilot_fill K tx_fault anchor_fault f =
     in_transaction tx_fault anchor_fault (\<lambda>db.
       if pilot_active db then pilot_fill f db
       else rbind (append_keyed_in_tx K
              \<lparr>nv_kind = EkFill, nv_ts_ms = nf_ts_ms f, nv_agent_id = nf_agent_id f, nv_payload = nf_payload f, nv_snapshot = None\<rparr>
              (fill_idem_key (nf_account f) (nf_tid f)) db) (\<lambda>(a, db1).
            Inr (a, a, db1)))"

definition max_opt :: "int list \<Rightarrow> int option" where
  "max_opt xs = (case xs of [] \<Rightarrow> None | x # rest \<Rightarrow> Some (fold max rest x))"

definition newest_fill_ts_ms :: "string \<Rightarrow> nat \<Rightarrow> ledger_db \<Rightarrow> ledger_error + nat option" where
  "newest_fill_ts_ms account before_seq db =
     rbind (seq_key before_seq) (\<lambda>before.
     let (low, high) = fill_key_range account;
         rows = filter (\<lambda>r. is_some_and (\<lambda>key. low \<le> key \<and> key < high) (ev_idem_key r) \<and> ev_seq r < before) (db_events db)
     in Inr (case max_opt (map ev_ts_ms rows) of
               None \<Rightarrow> None
             | Some ts \<Rightarrow> if ts < 0 then None else Some (nat ts)))"

section \<open>Redaction\<close>

definition redact_row :: "nat \<Rightarrow> string \<Rightarrow> int \<Rightarrow> event_row \<Rightarrow> event_row" where
  "redact_row n reason ts_ms r =
     (if ev_seq r = int n then r\<lparr>ev_payload := PcNull, ev_redacted_at := Some ts_ms, ev_redaction_reason := Some reason\<rparr> else r)"

definition check_redactable :: "nat \<Rightarrow> ledger_db \<Rightarrow> ledger_error + unit" where
  "check_redactable n db =
     (case find_event n db of
        None \<Rightarrow> Inl (LgNoSuchEvent n)
      | Some r \<Rightarrow>
          if ev_payload r = PcNull then Inl (LgAlreadyRedacted n)
          else ensure (ev_kind r \<noteq> event_kind_str EkPayloadRedacted) (LgRedactionIsNotRedactable n))"

definition redaction_payload :: "nat \<Rightarrow> string \<Rightarrow> json" where
  "redaction_payload n reason = JObj [(''redacted_seq'', JInt (int n)), (''reason'', JStr reason)]"

definition redact ::
  "digest \<Rightarrow> ledger_error option \<Rightarrow> ledger_error option \<Rightarrow> nat \<Rightarrow> string \<Rightarrow> int \<Rightarrow> ledger \<Rightarrow> (ledger_error + appended) \<times> ledger" where
  "redact K tx_fault anchor_fault n reason ts_ms L =
     (case seq_key n of
        Inl e \<Rightarrow> (Inl e, L)
      | Inr _ \<Rightarrow>
          in_transaction tx_fault anchor_fault (\<lambda>db.
            rbind (check_redactable n db) (\<lambda>_.
            rbind (append_in_tx K
              \<lparr>nv_kind = EkPayloadRedacted, nv_ts_ms = ts_ms, nv_agent_id = None, nv_payload = redaction_payload n reason, nv_snapshot = None\<rparr>
              (db\<lparr>db_events := map (redact_row n reason ts_ms) (db_events db)\<rparr>)) (\<lambda>(a, db1).
            Inr (a, Some a, db1)))) L)"

section \<open>Feed gaps\<close>

definition next_gap_id :: "feed_gap list \<Rightarrow> int" where
  "next_gap_id gaps = (case max_opt (map gp_gap_id gaps) of None \<Rightarrow> 1 | Some m \<Rightarrow> m + 1)"

definition opt_str :: "string option \<Rightarrow> json" where
  "opt_str v = (case v of None \<Rightarrow> JNull | Some s \<Rightarrow> JStr s)"

definition open_gap ::
  "digest \<Rightarrow> ledger_error option \<Rightarrow> ledger_error option \<Rightarrow> string \<Rightarrow> int \<Rightarrow> string option \<Rightarrow> ledger \<Rightarrow> (ledger_error + feed_gap) \<times> ledger" where
  "open_gap K tx_fault anchor_fault scope ts_ms note =
     in_transaction tx_fault anchor_fault (\<lambda>db.
       case find (\<lambda>g. gp_scope g = scope \<and> gp_closed_ts_ms g = None) (sort_key gp_gap_id (db_gaps db)) of
         Some g \<Rightarrow> rbind (seq_of (gp_open_seq g)) (\<lambda>_. Inr (g\<lparr>gp_reconciled_ts_ms := None, gp_close_seq := None\<rparr>, None, db))
       | None \<Rightarrow>
           rbind (append_in_tx K
             \<lparr>nv_kind = EkWsDisconnected, nv_ts_ms = ts_ms, nv_agent_id = None,
              nv_payload = JObj [(''scope'', JStr scope), (''note'', opt_str note)], nv_snapshot = None\<rparr> db) (\<lambda>(a, db1).
           rbind (seq_key (ap_seq a)) (\<lambda>open_seq.
           let g = \<lparr>gp_gap_id = next_gap_id (db_gaps db1), gp_scope = scope, gp_opened_ts_ms = ts_ms, gp_closed_ts_ms = None,
                    gp_reconciled_ts_ms = None, gp_open_seq = open_seq, gp_close_seq = None, gp_note = note\<rparr>
           in Inr (g, Some a, db1\<lparr>db_gaps := db_gaps db1 @ [g]\<rparr>))))"

text \<open>Saturating \<open>i64\<close> subtraction.\<close>

definition sat_sub_i64 :: "int \<Rightarrow> int \<Rightarrow> int" where
  "sat_sub_i64 a b = max (- (2 ^ 63)) (min (2 ^ 63 - 1) (a - b))"

definition close_row :: "int \<Rightarrow> int \<Rightarrow> int \<Rightarrow> feed_gap \<Rightarrow> feed_gap" where
  "close_row gap_id ts_ms close_seq g =
     (if gp_gap_id g = gap_id then g\<lparr>gp_closed_ts_ms := Some ts_ms, gp_close_seq := Some close_seq\<rparr> else g)"

definition close_gap ::
  "digest \<Rightarrow> ledger_error option \<Rightarrow> ledger_error option \<Rightarrow> int \<Rightarrow> int \<Rightarrow> ledger \<Rightarrow> (ledger_error + appended) \<times> ledger" where
  "close_gap K tx_fault anchor_fault gap_id ts_ms =
     in_transaction tx_fault anchor_fault (\<lambda>db.
       rbind (ok_or (LgNoSuchGap gap_id) (find (\<lambda>g. gp_gap_id g = gap_id) (db_gaps db))) (\<lambda>g.
       rbind (ensure (gp_closed_ts_ms g = None) (LgGapAlreadyClosed gap_id)) (\<lambda>_.
       rbind (append_in_tx K
         \<lparr>nv_kind = EkWsReconnected, nv_ts_ms = ts_ms, nv_agent_id = None,
          nv_payload = JObj [(''scope'', JStr (gp_scope g)), (''gap_id'', JInt gap_id), (''down_ms'', JInt (sat_sub_i64 ts_ms (gp_opened_ts_ms g)))],
          nv_snapshot = None\<rparr> db) (\<lambda>(a, db1).
       rbind (seq_key (ap_seq a)) (\<lambda>close_seq.
       Inr (a, Some a, db1\<lparr>db_gaps := map (close_row gap_id ts_ms close_seq) (db_gaps db1)\<rparr>))))))"

definition reconcile_row :: "int \<Rightarrow> int \<Rightarrow> feed_gap \<Rightarrow> feed_gap" where
  "reconcile_row gap_id ts_ms g = (if gp_gap_id g = gap_id then g\<lparr>gp_reconciled_ts_ms := Some ts_ms\<rparr> else g)"

definition mark_gap_reconciled ::
  "ledger_error option \<Rightarrow> int \<Rightarrow> int \<Rightarrow> ledger \<Rightarrow> (ledger_error + unit) \<times> ledger" where
  "mark_gap_reconciled tx_fault gap_id ts_ms =
     in_transaction tx_fault None (\<lambda>db.
       rbind (ok_or (LgNoSuchGap gap_id) (find (\<lambda>g. gp_gap_id g = gap_id) (db_gaps db))) (\<lambda>g.
       rbind (ensure (gp_closed_ts_ms g \<noteq> None) (LgGapStillOpen gap_id)) (\<lambda>_.
       Inr ((), None, db\<lparr>db_gaps := map (reconcile_row gap_id ts_ms) (db_gaps db)\<rparr>))))"

definition unreconciled_gaps :: "ledger_db \<Rightarrow> feed_gap list" where
  "unreconciled_gaps db = sort_key gp_gap_id (filter (\<lambda>g. gp_reconciled_ts_ms g = None) (db_gaps db))"

section \<open>Book snapshots\<close>

text \<open>The insert and the read after it are statements of their own.\<close>

definition insert_snapshot ::
  "digest \<Rightarrow> ledger_error option \<Rightarrow> string \<Rightarrow> int \<Rightarrow> string \<Rightarrow> string \<Rightarrow> ledger \<Rightarrow> (ledger_error + string) \<times> ledger" where
  "insert_snapshot K insert_fault snapshot_id ts_ms coin canonical =
     in_transaction insert_fault None (\<lambda>db.
       case find (\<lambda>s. bs_snapshot_id s = snapshot_id) (db_snapshots db) of
         None \<Rightarrow>
           let h = payload_hash K canonical in
           Inr (h, None, db\<lparr>db_snapshots := db_snapshots db @
             [\<lparr>bs_snapshot_id = snapshot_id, bs_snapshot_hash = h, bs_ts_ms = ts_ms, bs_coin = coin, bs_body = canonical\<rparr>]\<rparr>)
       | Some s \<Rightarrow> Inr (bs_snapshot_hash s, None, db))"

definition put_snapshot ::
  "digest \<Rightarrow> ledger_error option \<Rightarrow> ledger_error option \<Rightarrow> string \<Rightarrow> int \<Rightarrow> string \<Rightarrow> json \<Rightarrow> ledger \<Rightarrow> (ledger_error + string) \<times> ledger" where
  "put_snapshot K insert_fault read_fault snapshot_id ts_ms coin body L =
     (case map_err json_error_of (canonical_json body) of
        Inl e \<Rightarrow> (Inl e, L)
      | Inr canonical \<Rightarrow>
          let h = payload_hash K canonical in
          (case insert_snapshot K insert_fault snapshot_id ts_ms coin canonical L of
             (Inl e, L1) \<Rightarrow> (Inl e, L1)
           | (Inr stored, L1) \<Rightarrow>
               (case read_fault of
                  Some e \<Rightarrow> (Inl e, L1)
                | None \<Rightarrow> if stored \<noteq> h then (Inl (LgSnapshotBodyConflict snapshot_id stored h), L1) else (Inr h, L1))))"

definition snapshot_body ::
  "digest \<Rightarrow> (string \<Rightarrow> json option) \<Rightarrow> string \<Rightarrow> string \<Rightarrow> ledger_db \<Rightarrow> ledger_error + json option" where
  "snapshot_body K parse snapshot_id expected_hash db =
     (case find (\<lambda>s. bs_snapshot_id s = snapshot_id) (db_snapshots db) of
        None \<Rightarrow> Inr None
      | Some s \<Rightarrow>
          let found = payload_hash K (bs_body s) in
          rbind (ensure (found = expected_hash) (LgSnapshotBodyConflict snapshot_id expected_hash found)) (\<lambda>_.
          rbind (ok_or (LgJson snapshot_id) (parse (bs_body s))) (\<lambda>v. Inr (Some v))))"

definition prune_snapshots_before :: "ledger_error option \<Rightarrow> int \<Rightarrow> ledger \<Rightarrow> (ledger_error + nat) \<times> ledger" where
  "prune_snapshots_before tx_fault ts_ms =
     in_transaction tx_fault None (\<lambda>db.
       Inr (length (filter (\<lambda>s. bs_ts_ms s < ts_ms) (db_snapshots db)), None,
            db\<lparr>db_snapshots := filter (\<lambda>s. \<not> bs_ts_ms s < ts_ms) (db_snapshots db)\<rparr>))"

end
