(* ===== verification/Ledger_Verify.thy ===== *)
theory Ledger_Verify
  imports Ledger_Chain
begin

text \<open>
  \<open>ledger/verify.rs\<close> and the readers of \<open>ledger/mod.rs\<close>: the walk over the chain from genesis that reports
  the first broken link, and the pages an agent reads. Parsing a payload is \<open>serde_json\<close>, the parameter
  \<open>parse\<close>.
\<close>

section \<open>Reports\<close>

definition ANCHOR_LAG_TOLERANCE :: nat where "ANCHOR_LAG_TOLERANCE = 1"

datatype break_reason =
    BrChainAheadOfAnchor nat nat nat
  | BrAnchorMissing
  | BrSeqGap nat
  | BrPrevHashMismatch string string
  | BrRowHashMismatch string string
  | BrPayloadHashMismatch string string
  | BrPayloadUnreadable
  | BrUnrecordedTombstone
  | BrHeadMismatch nat string nat string
  | BrHeadBehindAnchor nat string nat string

record chain_break =
  cb_seq :: nat
  cb_reason :: break_reason

record chain_report =
  ct_rows_checked :: nat
  ct_head_seq :: nat
  ct_head_hash :: string
  ct_first_break :: "chain_break option"

definition is_intact :: "chain_report \<Rightarrow> bool" where
  "is_intact rep = (ct_first_break rep = None)"

definition json_get :: "string \<Rightarrow> json \<Rightarrow> json option" where
  "json_get key v = (case v of JObj members \<Rightarrow> map_of members key | _ \<Rightarrow> None)"

definition json_as_u64 :: "json \<Rightarrow> nat option" where
  "json_as_u64 v = (case v of JInt i \<Rightarrow> if 0 \<le> i \<and> i \<le> int U64_MAX then Some (nat i) else None | _ \<Rightarrow> None)"

definition redacted_seq :: "(string \<Rightarrow> json option) \<Rightarrow> string \<Rightarrow> nat option" where
  "redacted_seq parse payload =
     Option.bind (parse payload) (\<lambda>v. Option.bind (json_get ''redacted_seq'' v) json_as_u64)"

section \<open>The walk\<close>

record walk_state =
  ws_expected_seq :: nat
  ws_expected_prev :: string
  ws_rows_checked :: nat
  ws_last :: "(nat \<times> string) option"
  ws_unexplained :: "nat btset"
  ws_hash_at_anchor :: "string option"

text \<open>A step continues, breaks the chain with a reason at a seq, or fails.\<close>

datatype walk_stop = WsFailed ledger_error | WsBroken nat nat break_reason

definition walk_start :: "string \<Rightarrow> walk_state" where
  "walk_start genesis =
     \<lparr>ws_expected_seq = 1, ws_expected_prev = genesis, ws_rows_checked = 0, ws_last = None, ws_unexplained = [], ws_hash_at_anchor = None\<rparr>"

text \<open>What the payload beside the row adds: a null waits for a redaction, a redaction explains one.\<close>

definition walk_payload ::
  "(string \<Rightarrow> json option) \<Rightarrow> digest \<Rightarrow> event_row \<Rightarrow> nat btset \<Rightarrow> break_reason + nat btset" where
  "walk_payload parse K r unexplained =
     (let bytes_case = (\<lambda>b.
        let actual = payload_hash K b in
        if actual \<noteq> ev_payload_hash r then Inl (BrPayloadHashMismatch (ev_payload_hash r) actual)
        else if ev_kind r = event_kind_str EkPayloadRedacted
        then (case redacted_seq parse b of Some covered \<Rightarrow> Inr (bs_remove covered unexplained) | None \<Rightarrow> Inr unexplained)
        else Inr unexplained)
      in case ev_payload r of
           PcNull \<Rightarrow> Inr (bs_insert (nat (ev_seq r)) unexplained)
         | PcText b \<Rightarrow> bytes_case b
         | PcBlob b \<Rightarrow> bytes_case b
         | PcOther \<Rightarrow> Inl BrPayloadUnreadable)"

definition walk_row ::
  "(string \<Rightarrow> json option) \<Rightarrow> digest \<Rightarrow> anchor option \<Rightarrow> event_row \<Rightarrow> walk_state \<Rightarrow> walk_stop + walk_state" where
  "walk_row parse K anchor r w =
     rbind (map_err WsFailed (seq_of (ev_seq r))) (\<lambda>n.
     rbind (ensure (n = ws_expected_seq w) (WsBroken (ws_rows_checked w) n (BrSeqGap (ws_expected_seq w)))) (\<lambda>_.
     rbind (ensure (ev_prev_hash r = ws_expected_prev w)
       (WsBroken (ws_rows_checked w) n (BrPrevHashMismatch (ws_expected_prev w) (ev_prev_hash r)))) (\<lambda>_.
     rbind (ensure (row_hash K (row_input r) = ev_hash r)
       (WsBroken (ws_rows_checked w) n (BrRowHashMismatch (row_hash K (row_input r)) (ev_hash r)))) (\<lambda>_.
     rbind (map_err (WsBroken (ws_rows_checked w) n) (walk_payload parse K r (ws_unexplained w))) (\<lambda>unexplained.
     Inr \<lparr>ws_expected_seq = n + 1, ws_expected_prev = ev_hash r, ws_rows_checked = ws_rows_checked w + 1,
          ws_last = Some (n, ev_hash r), ws_unexplained = unexplained,
          ws_hash_at_anchor = (if is_some_and (\<lambda>a. an_seq a = n) anchor then Some (ev_hash r) else ws_hash_at_anchor w)\<rparr>)))))"

fun walk_rows ::
  "(string \<Rightarrow> json option) \<Rightarrow> digest \<Rightarrow> anchor option \<Rightarrow> event_row list \<Rightarrow> walk_state \<Rightarrow> walk_stop + walk_state" where
  "walk_rows parse K anchor [] w = Inr w"
| "walk_rows parse K anchor (r # rs) w = rbind (walk_row parse K anchor r w) (walk_rows parse K anchor rs)"

definition check_anchor :: "string \<Rightarrow> anchor option \<Rightarrow> walk_state \<Rightarrow> nat \<Rightarrow> string \<Rightarrow> (nat \<times> break_reason) option" where
  "check_anchor genesis anchor w last_seq last_hash =
     (case anchor of
        None \<Rightarrow> None
      | Some a \<Rightarrow>
          let found =
            (if an_seq a > last_seq then Some (last_seq, last_hash)
             else let at_anchor = (if an_seq a = 0 then genesis else case ws_hash_at_anchor w of Some h \<Rightarrow> h | None \<Rightarrow> [])
                  in if at_anchor \<noteq> an_hash a then Some (an_seq a, at_anchor) else None)
          in case found of
               Some (found_seq, found_hash) \<Rightarrow> Some (an_seq a, BrHeadBehindAnchor (an_seq a) (an_hash a) found_seq found_hash)
             | None \<Rightarrow>
                 let ahead = last_seq - an_seq a in
                 if ahead > ANCHOR_LAG_TOLERANCE
                 then Some (an_seq a, BrChainAheadOfAnchor (an_seq a) last_seq (ahead - ANCHOR_LAG_TOLERANCE)) else None)"

definition broken :: "nat \<Rightarrow> nat \<Rightarrow> string \<Rightarrow> nat \<Rightarrow> break_reason \<Rightarrow> chain_report" where
  "broken rows_checked head_seq head_hash n reason =
     \<lparr>ct_rows_checked = rows_checked, ct_head_seq = head_seq, ct_head_hash = head_hash,
      ct_first_break = Some \<lparr>cb_seq = n, cb_reason = reason\<rparr>\<rparr>"

definition walk_finish :: "string \<Rightarrow> anchor option \<Rightarrow> nat \<Rightarrow> string \<Rightarrow> walk_state \<Rightarrow> chain_report" where
  "walk_finish genesis anchor head_seq head_hash w =
     (case ws_unexplained w of
        n # _ \<Rightarrow> broken (n - 1) head_seq head_hash n BrUnrecordedTombstone
      | [] \<Rightarrow>
          let (last_seq, last_hash) = (case ws_last w of Some x \<Rightarrow> x | None \<Rightarrow> (0, genesis)) in
          case check_anchor genesis anchor w last_seq last_hash of
            Some (n, reason) \<Rightarrow> broken (ws_rows_checked w) head_seq head_hash n reason
          | None \<Rightarrow>
              if last_seq \<noteq> head_seq \<or> last_hash \<noteq> head_hash
              then broken (ws_rows_checked w) head_seq head_hash last_seq (BrHeadMismatch last_seq last_hash head_seq head_hash)
              else \<lparr>ct_rows_checked = ws_rows_checked w, ct_head_seq = head_seq, ct_head_hash = head_hash, ct_first_break = None\<rparr>)"

definition walk ::
  "(string \<Rightarrow> json option) \<Rightarrow> digest \<Rightarrow> string \<Rightarrow> anchor option \<Rightarrow> ledger_db \<Rightarrow> ledger_error + chain_report" where
  "walk parse K genesis anchor db =
     rbind (chain_head db) (\<lambda>(head_seq, head_hash).
     case walk_rows parse K anchor (sort_key ev_seq (db_events db)) (walk_start genesis) of
       Inl (WsFailed e) \<Rightarrow> Inl e
     | Inl (WsBroken rows_checked n reason) \<Rightarrow> Inr (broken rows_checked head_seq head_hash n reason)
     | Inr w \<Rightarrow> Inr (walk_finish genesis anchor head_seq head_hash w))"

definition verify :: "(string \<Rightarrow> json option) \<Rightarrow> digest \<Rightarrow> ledger \<Rightarrow> ledger_error + chain_report" where
  "verify parse K L =
     (if lg_anchored L
      then (case lg_anchor L of
              Some witnessed \<Rightarrow> walk parse K (lg_genesis L) (Some witnessed) (lg_db L)
            | None \<Rightarrow> rbind (chain_head (lg_db L)) (\<lambda>(head_seq, head_hash). Inr (broken 0 head_seq head_hash head_seq BrAnchorMissing)))
      else walk parse K (lg_genesis L) None (lg_db L))"

definition verify_against :: "(string \<Rightarrow> json option) \<Rightarrow> digest \<Rightarrow> anchor \<Rightarrow> ledger \<Rightarrow> ledger_error + chain_report" where
  "verify_against parse K witnessed L = walk parse K (lg_genesis L) (Some witnessed) (lg_db L)"

section \<open>Readers\<close>

record event =
  et_seq :: nat
  et_ts_ms :: int
  et_kind :: event_kind
  et_agent_id :: "string option"
  et_payload :: "json option"
  et_payload_hash :: string
  et_prev_hash :: string
  et_hash :: string
  et_redacted_at :: "int option"
  et_redaction_reason :: "string option"
  et_snapshot_id :: "string option"
  et_snapshot_hash :: "string option"

record event_page =
  pg_events :: "event list"
  pg_next_cursor :: nat
  pg_resync_required :: bool
  pg_head_seq :: nat

definition MAX_PAGE :: nat where "MAX_PAGE = 1000"

definition event_from_row :: "(string \<Rightarrow> json option) \<Rightarrow> event_row \<Rightarrow> ledger_error + event" where
  "event_from_row parse r =
     rbind (seq_of (ev_seq r)) (\<lambda>n.
     rbind (case ev_payload r of
              PcNull \<Rightarrow> Inr None
            | PcText text \<Rightarrow> rbind (ok_or (LgPayloadNotJson n) (parse text)) (\<lambda>v. Inr (Some v))
            | _ \<Rightarrow> Inl (LgSqlite ''Invalid column type'')) (\<lambda>payload.
     rbind (event_kind_parse (ev_kind r)) (\<lambda>k.
     Inr \<lparr>et_seq = n, et_ts_ms = ev_ts_ms r, et_kind = k, et_agent_id = ev_agent_id r, et_payload = payload,
          et_payload_hash = ev_payload_hash r, et_prev_hash = ev_prev_hash r, et_hash = ev_hash r,
          et_redacted_at = ev_redacted_at r, et_redaction_reason = ev_redaction_reason r,
          et_snapshot_id = ev_snapshot_id r, et_snapshot_hash = ev_snapshot_hash r\<rparr>)))"

fun rows_to_events :: "(string \<Rightarrow> json option) \<Rightarrow> event_row list \<Rightarrow> ledger_error + event list" where
  "rows_to_events parse [] = Inr []"
| "rows_to_events parse (r # rs) =
     rbind (event_from_row parse r) (\<lambda>e. rbind (rows_to_events parse rs) (\<lambda>es. Inr (e # es)))"

definition HIDDEN_KINDS :: "event_kind list" where
  "HIDDEN_KINDS =
     [EkPairingIssued, EkPairingRevoked, EkRegistryGranted, EkRegistryRetired, EkPolicyInitialized, EkPolicyReplaced,
      EkApprovalProposed, EkApprovalClaimed, EkApprovalDisposed, EkSubmissionSigned, EkSubmissionAccepted]"

definition in_scope :: "string option \<Rightarrow> event_row \<Rightarrow> bool" where
  "in_scope scope r =
     (case scope of
        None \<Rightarrow> True
      | Some agent \<Rightarrow> is_none_or (\<lambda>owner. owner = agent) (ev_agent_id r) \<and> ev_kind r \<notin> event_kind_str ` set HIDDEN_KINDS)"

definition min_opt :: "int list \<Rightarrow> int option" where
  "min_opt xs = (case xs of [] \<Rightarrow> None | x # rest \<Rightarrow> Some (fold min rest x))"

definition page ::
  "(string \<Rightarrow> json option) \<Rightarrow> string option \<Rightarrow> nat \<Rightarrow> nat \<Rightarrow> ledger_db \<Rightarrow> ledger_error + event_page" where
  "page parse scope since_seq want db =
     rbind (chain_head db) (\<lambda>(head_seq, _).
     rbind (case min_opt (map ev_seq (db_events db)) of
              None \<Rightarrow> Inr None
            | Some raw \<Rightarrow> rbind (seq_of raw) (\<lambda>n. Inr (Some n))) (\<lambda>retained_from.
     if since_seq > head_seq \<or> is_some_and (\<lambda>first. sat_add64 since_seq 1 < first) retained_from
     then Inr \<lparr>pg_events = [], pg_next_cursor = since_seq, pg_resync_required = True, pg_head_seq = head_seq\<rparr>
     else let limit = min want MAX_PAGE in
       rbind (seq_key since_seq) (\<lambda>since.
       rbind (seq_key limit) (\<lambda>_.
       rbind (rows_to_events parse
         (take limit (sort_key ev_seq (filter (\<lambda>r. ev_seq r > since \<and> in_scope scope r) (db_events db))))) (\<lambda>events.
       Inr \<lparr>pg_events = events,
            pg_next_cursor = (if length events = limit then (if events = [] then since_seq else et_seq (List.last events)) else head_seq),
            pg_resync_required = False, pg_head_seq = head_seq\<rparr>)))))"

definition get_events :: "(string \<Rightarrow> json option) \<Rightarrow> nat \<Rightarrow> nat \<Rightarrow> ledger_db \<Rightarrow> ledger_error + event_page" where
  "get_events parse = page parse None"

definition get_events_for_agent :: "(string \<Rightarrow> json option) \<Rightarrow> string \<Rightarrow> nat \<Rightarrow> nat \<Rightarrow> ledger_db \<Rightarrow> ledger_error + event_page" where
  "get_events_for_agent parse agent = page parse (Some agent)"

definition ledger_event :: "(string \<Rightarrow> json option) \<Rightarrow> nat \<Rightarrow> ledger_db \<Rightarrow> ledger_error + event option" where
  "ledger_event parse n db =
     rbind (seq_key n) (\<lambda>_.
     case find_event n db of None \<Rightarrow> Inr None | Some r \<Rightarrow> rbind (event_from_row parse r) (\<lambda>e. Inr (Some e)))"

definition agent_event :: "(string \<Rightarrow> json option) \<Rightarrow> string \<Rightarrow> nat \<Rightarrow> ledger_db \<Rightarrow> ledger_error + event option" where
  "agent_event parse agent n db =
     rbind (ledger_event parse n db) (\<lambda>found.
     Inr (case found of
            None \<Rightarrow> None
          | Some e \<Rightarrow>
              if et_kind e \<notin> set HIDDEN_KINDS \<and> is_none_or (\<lambda>owner. owner = agent) (et_agent_id e) then Some e else None))"

definition events_of_kind :: "(string \<Rightarrow> json option) \<Rightarrow> event_kind \<Rightarrow> ledger_db \<Rightarrow> ledger_error + event list" where
  "events_of_kind parse k db =
     rows_to_events parse (sort_key ev_seq (filter (\<lambda>r. ev_kind r = event_kind_str k) (db_events db)))"

text \<open>A redacted fill and one that does not parse are left out; a payload that is not text is an error.\<close>

fun fill_payloads :: "(string \<Rightarrow> json option) \<Rightarrow> event_row list \<Rightarrow> ledger_error + json list" where
  "fill_payloads parse [] = Inr []"
| "fill_payloads parse (r # rs) =
     rbind (case ev_payload r of
              PcNull \<Rightarrow> Inr None
            | PcText text \<Rightarrow> Inr (parse text)
            | _ \<Rightarrow> Inl (LgSqlite ''Invalid column type'')) (\<lambda>v.
     rbind (fill_payloads parse rs) (\<lambda>vs.
     Inr (case v of None \<Rightarrow> vs | Some x \<Rightarrow> x # vs)))"

definition fills_for :: "(string \<Rightarrow> json option) \<Rightarrow> string \<Rightarrow> int \<Rightarrow> int \<Rightarrow> ledger_db \<Rightarrow> ledger_error + json list" where
  "fills_for parse agent from_ms to_ms db =
     fill_payloads parse
       (sort_key ev_seq (filter (\<lambda>r. ev_kind r = event_kind_str EkFill \<and> ev_agent_id r = Some agent
                                     \<and> from_ms \<le> ev_ts_ms r \<and> ev_ts_ms r \<le> to_ms) (db_events db)))"

end
