(* ===== verification/Chain_Props.thy ===== *)
theory Chain_Props
  imports Ledger_Verify
begin

text \<open>
  What the chain guarantees: a history that was witnessed by the anchor cannot change without a collision
  of the digest, a missing payload is always accounted for by a chained redaction, and a ledger that only
  grew through its own operations verifies.
\<close>

section \<open>Linked rows\<close>

text \<open>The hash a next row has to name.\<close>

definition tip :: "string \<Rightarrow> event_row list \<Rightarrow> string" where
  "tip genesis rs = (if rs = [] then genesis else ev_hash (List.last rs))"

definition row_ok :: "digest \<Rightarrow> event_row \<Rightarrow> bool" where
  "row_ok K r =
     (ev_hash r = row_hash K (row_input r)
      \<and> (case ev_payload r of PcNull \<Rightarrow> True | PcText b \<Rightarrow> payload_hash K b = ev_payload_hash r
         | PcBlob b \<Rightarrow> payload_hash K b = ev_payload_hash r | PcOther \<Rightarrow> False))"

definition linked :: "digest \<Rightarrow> string \<Rightarrow> event_row list \<Rightarrow> bool" where
  "linked K genesis rs =
     (\<forall>i < length rs. ev_seq (rs ! i) = int (i + 1) \<and> ev_prev_hash (rs ! i) = tip genesis (take i rs) \<and> row_ok K (rs ! i))"

definition payload_bytes :: "event_row \<Rightarrow> string option" where
  "payload_bytes r = (case ev_payload r of PcText b \<Rightarrow> Some b | PcBlob b \<Rightarrow> Some b | _ \<Rightarrow> None)"

text \<open>The seq a row explains the missing payload of.\<close>

definition explains :: "(string \<Rightarrow> json option) \<Rightarrow> event_row \<Rightarrow> nat option" where
  "explains parse r =
     (if ev_kind r = event_kind_str EkPayloadRedacted then Option.bind (payload_bytes r) (redacted_seq parse) else None)"

definition open_step :: "(string \<Rightarrow> json option) \<Rightarrow> event_row \<Rightarrow> nat set \<Rightarrow> nat set" where
  "open_step parse r N =
     (if ev_payload r = PcNull then insert (nat (ev_seq r)) N
      else case explains parse r of Some n \<Rightarrow> N - {n} | None \<Rightarrow> N)"

definition open_nulls :: "(string \<Rightarrow> json option) \<Rightarrow> event_row list \<Rightarrow> nat set" where
  "open_nulls parse rs = fold (open_step parse) rs {}"

lemma tip_Nil [simp]: "tip g [] = g"
  by (simp add: tip_def)

lemma tip_snoc [simp]: "tip g (rs @ [r]) = ev_hash r"
  by (simp add: tip_def)

lemma linked_Nil [simp]: "linked K g []"
  by (simp add: linked_def)

lemma linked_snoc:
  "linked K g (rs @ [r]) \<longleftrightarrow>
     linked K g rs \<and> ev_seq r = int (length rs + 1) \<and> ev_prev_hash r = tip g rs \<and> row_ok K r"
  by (auto simp: linked_def nth_append less_Suc_eq)

lemma open_nulls_snoc: "open_nulls parse (rs @ [r]) = open_step parse r (open_nulls parse rs)"
  by (simp add: open_nulls_def)

section \<open>The walk, in closed form\<close>

definition walked :: "(string \<Rightarrow> json option) \<Rightarrow> string \<Rightarrow> anchor option \<Rightarrow> event_row list \<Rightarrow> walk_state \<Rightarrow> bool" where
  "walked parse g anchor rs w =
     (ws_expected_seq w = length rs + 1 \<and> ws_expected_prev w = tip g rs \<and> ws_rows_checked w = length rs
      \<and> ws_last w = (if rs = [] then None else Some (length rs, tip g rs))
      \<and> set (ws_unexplained w) = open_nulls parse rs
      \<and> ws_hash_at_anchor w =
          (case anchor of
             Some a \<Rightarrow> if 1 \<le> an_seq a \<and> an_seq a \<le> length rs then Some (tip g (take (an_seq a) rs)) else None
           | None \<Rightarrow> None))"

lemma walk_rows_append:
  "walk_rows parse K anchor (rs @ qs) w = rbind (walk_rows parse K anchor rs w) (walk_rows parse K anchor qs)"
  by (induction rs arbitrary: w) (auto simp: rbind_assoc intro!: arg_cong [where f = "rbind _"])

lemma nat_succ_int [simp]: "nat (1 + int n) = Suc n"
  by simp

lemma walk_payload_Inr:
  "walk_payload parse K r N = Inr N' \<longleftrightarrow>
     (case ev_payload r of PcNull \<Rightarrow> N' = bs_insert (nat (ev_seq r)) N
      | PcText b \<Rightarrow> payload_hash K b = ev_payload_hash r \<and> N' = (case explains parse r of Some n \<Rightarrow> bs_remove n N | None \<Rightarrow> N)
      | PcBlob b \<Rightarrow> payload_hash K b = ev_payload_hash r \<and> N' = (case explains parse r of Some n \<Rightarrow> bs_remove n N | None \<Rightarrow> N)
      | PcOther \<Rightarrow> False)"
  by (auto simp: walk_payload_def explains_def payload_bytes_def Let_def split: payload_column.split option.split)

lemma walk_payload_open:
  assumes "row_ok K r"
  obtains N' where "walk_payload parse K r N = Inr N'" "set N' = open_step parse r (set N)"
proof
  let ?N = "if ev_payload r = PcNull then bs_insert (nat (ev_seq r)) N
      else case explains parse r of Some n \<Rightarrow> bs_remove n N | None \<Rightarrow> N"
  show "walk_payload parse K r N = Inr ?N"
    using assms by (auto simp: walk_payload_Inr row_ok_def split: payload_column.split)
  show "set ?N = open_step parse r (set N)" by (simp add: open_step_def split: option.split)
qed

lemma walk_payload_row_ok:
  "walk_payload parse K r N = Inr N' \<Longrightarrow> ev_hash r = row_hash K (row_input r) \<Longrightarrow>
     row_ok K r \<and> set N' = open_step parse r (set N)"
  by (auto simp: walk_payload_Inr row_ok_def open_step_def split: payload_column.splits option.splits)

text \<open>The walk gets through exactly the linked rows.\<close>

lemma walk_rows_linked:
  "(\<exists>w. walk_rows parse K anchor rs (walk_start g) = Inr w \<and> walked parse g anchor rs w) \<longleftrightarrow> linked K g rs"
  "walk_rows parse K anchor rs (walk_start g) = Inr w \<Longrightarrow> linked K g rs \<and> walked parse g anchor rs w"
proof (induction rs arbitrary: w rule: rev_induct)
  case Nil
  have start: "walked parse g anchor [] (walk_start g)"
    by (auto simp: walked_def walk_start_def open_nulls_def split: option.split)
  case 1
  show ?case using start by simp
  case 2
  then show ?case using start by simp
next
  case (snoc r rs)
  have step: "walked parse g anchor (rs @ [r]) w'"
    if "walked parse g anchor rs w1" "walk_row parse K anchor r w1 = Inr w'" "ev_seq r = int (length rs + 1)" "row_ok K r" for w1 w'
    using that by (auto simp: walked_def walk_row_def result_inv seq_of_def open_nulls_snoc dest!: walk_payload_row_ok
        split: option.splits)
  have forward: "linked K g (rs @ [r]) \<and> walked parse g anchor (rs @ [r]) w'"
    if "walk_rows parse K anchor (rs @ [r]) (walk_start g) = Inr w'" for w'
  proof -
    from that obtain w1 where w1: "walk_rows parse K anchor rs (walk_start g) = Inr w1" and row: "walk_row parse K anchor r w1 = Inr w'"
      by (auto simp: walk_rows_append result_inv)
    note ok = snoc.IH(2) [OF w1]
    from row ok have "ev_seq r = int (length rs + 1)" "ev_prev_hash r = tip g rs" "row_ok K r"
      by (auto simp: walk_row_def result_inv walked_def seq_of_def dest!: walk_payload_row_ok split: if_splits)
    with ok step [OF _ row] show ?thesis by (simp add: linked_snoc)
  qed
  have backward: "\<exists>w'. walk_rows parse K anchor (rs @ [r]) (walk_start g) = Inr w'" if "linked K g (rs @ [r])"
  proof -
    from that have ok: "linked K g rs" "ev_seq r = int (length rs + 1)" "ev_prev_hash r = tip g rs" "row_ok K r"
      by (simp_all add: linked_snoc)
    with snoc.IH(1) obtain w1 where w1: "walk_rows parse K anchor rs (walk_start g) = Inr w1" "walked parse g anchor rs w1" by blast
    obtain N' where "walk_payload parse K r (ws_unexplained w1) = Inr N'" by (rule walk_payload_open [OF ok(4)])
    with w1 ok have "\<exists>w'. walk_row parse K anchor r w1 = Inr w'"
      by (auto simp: walk_row_def walked_def seq_of_def row_ok_def)
    with w1 show ?thesis by (auto simp: walk_rows_append)
  qed
  case 1
  show ?case using forward backward by blast
  case 2
  then show ?case using forward by blast
qed

lemma linked_sorted: "linked K g rs \<Longrightarrow> sort_key ev_seq rs = rs"
  by (rule sort_key_id_if_sorted) (auto simp: linked_def sorted_iff_nth_mono)

section \<open>An intact report\<close>

text \<open>The rows in the order the walk reads them.\<close>

definition history :: "ledger_db \<Rightarrow> event_row list" where
  "history db = sort_key ev_seq (db_events db)"

definition witnesses :: "string \<Rightarrow> anchor \<Rightarrow> event_row list \<Rightarrow> bool" where
  "witnesses g a rs = (an_seq a \<le> length rs \<and> an_hash a = tip g (take (an_seq a) rs))"

definition chain_intact :: "(string \<Rightarrow> json option) \<Rightarrow> digest \<Rightarrow> string \<Rightarrow> anchor option \<Rightarrow> ledger_db \<Rightarrow> bool" where
  "chain_intact parse K g anchor db =
     (linked K g (history db) \<and> open_nulls parse (history db) = {}
      \<and> db_head db = Some (int (length (history db)), tip g (history db))
      \<and> is_none_or (\<lambda>a. witnesses g a (history db) \<and> length (history db) \<le> an_seq a + ANCHOR_LAG_TOLERANCE) anchor)"

lemma walked_last:
  "walked parse g anchor rs w \<Longrightarrow> (case ws_last w of Some x \<Rightarrow> x | None \<Rightarrow> (0, g)) = (length rs, tip g rs)"
  by (auto simp: walked_def)

lemma check_anchor_None:
  assumes "walked parse g anchor rs w"
  shows "check_anchor g anchor w (length rs) (tip g rs) = None \<longleftrightarrow>
    is_none_or (\<lambda>a. witnesses g a rs \<and> length rs \<le> an_seq a + ANCHOR_LAG_TOLERANCE) anchor"
proof (cases anchor)
  case (Some a)
  have "(if an_seq a = 0 then g else case ws_hash_at_anchor w of Some h \<Rightarrow> h | None \<Rightarrow> []) = tip g (take (an_seq a) rs)"
    if "an_seq a \<le> length rs"
    using assms Some that by (auto simp: walked_def)
  then show ?thesis
    using Some by (auto simp: check_anchor_def witnesses_def Let_def ANCHOR_LAG_TOLERANCE_def not_less split: option.splits if_splits)
qed (simp add: check_anchor_def)

lemma walk_finish_intact:
  assumes "walked parse g anchor rs w"
  shows "is_intact (walk_finish g anchor head_seq head_hash w) \<longleftrightarrow>
    open_nulls parse rs = {} \<and> head_seq = length rs \<and> head_hash = tip g rs
    \<and> is_none_or (\<lambda>a. witnesses g a rs \<and> length rs \<le> an_seq a + ANCHOR_LAG_TOLERANCE) anchor"
proof -
  have nulls: "set (ws_unexplained w) = open_nulls parse rs" using assms by (simp add: walked_def)
  show ?thesis
  proof (cases "ws_unexplained w")
    case (Cons n ns)
    with nulls show ?thesis by (auto simp: walk_finish_def is_intact_def broken_def)
  next
    case Nil
    with nulls have "open_nulls parse rs = {}" by simp
    with Nil check_anchor_None [OF assms] show ?thesis
      by (auto simp: walk_finish_def walked_last [OF assms] is_intact_def broken_def split: option.split)
  qed
qed

lemma chain_head_Inr: "chain_head db = Inr (n, h) \<longleftrightarrow> db_head db = Some (int n, h)"
  by (auto simp: chain_head_def seq_of_def result_inv split: option.splits if_splits)

lemma walk_intact_iff:
  "(\<exists>rep. walk parse K g anchor db = Inr rep \<and> is_intact rep) \<longleftrightarrow> chain_intact parse K g anchor db"
proof
  assume "\<exists>rep. walk parse K g anchor db = Inr rep \<and> is_intact rep"
  then obtain rep where rep: "walk parse K g anchor db = Inr rep" "is_intact rep" by blast
  then obtain n h where head: "chain_head db = Inr (n, h)" by (auto simp: walk_def result_inv)
  show "chain_intact parse K g anchor db"
  proof (cases "walk_rows parse K anchor (history db) (walk_start g)")
    case (Inl stop)
    with rep head show ?thesis by (cases stop) (auto simp: walk_def history_def is_intact_def broken_def)
  next
    case (Inr w)
    note rows = walk_rows_linked(2) [OF Inr]
    have "is_intact (walk_finish g anchor n h w)" using rep head Inr by (simp add: walk_def history_def)
    with rows walk_finish_intact [of parse g anchor "history db" w n h] head show ?thesis
      by (simp add: chain_intact_def chain_head_Inr)
  qed
next
  assume ok: "chain_intact parse K g anchor db"
  then obtain w where w: "walk_rows parse K anchor (history db) (walk_start g) = Inr w" "walked parse g anchor (history db) w"
    using walk_rows_linked(1) [of parse K anchor "history db" g] by (auto simp: chain_intact_def)
  have "chain_head db = Inr (length (history db), tip g (history db))" using ok by (simp add: chain_head_Inr chain_intact_def)
  with w ok walk_finish_intact [OF w(2), of "length (history db)" "tip g (history db)"]
  show "\<exists>rep. walk parse K g anchor db = Inr rep \<and> is_intact rep"
    by (simp add: walk_def history_def chain_intact_def)
qed

section \<open>A witnessed history cannot change\<close>

text \<open>Lengths and numbers have the width of the program's types.\<close>

definition rows_fit :: "event_row list \<Rightarrow> bool" where
  "rows_fit rs = (\<forall>r \<in> set rs. input_fits (row_input r) \<and> is_none_or (\<lambda>b. length b \<le> U64_MAX) (payload_bytes r))"

definition same_row :: "event_row \<Rightarrow> event_row \<Rightarrow> bool" where
  "same_row r r' =
     (row_input r = row_input r' \<and> ev_hash r = ev_hash r'
      \<and> (\<forall>b b'. payload_bytes r = Some b \<longrightarrow> payload_bytes r' = Some b' \<longrightarrow> b = b'))"

lemma tip_take_Suc: "n < length rs \<Longrightarrow> tip g (take (Suc n) rs) = ev_hash (rs ! n)"
  by (simp add: take_Suc_conv_app_nth)

lemma same_row_from_hash:
  assumes "row_ok K r" "row_ok K r'" "ev_hash r = ev_hash r'" "rows_fit [r]" "rows_fit [r']" "\<not> collides K"
  shows "same_row r r'"
proof -
  have hash: "row_hash K (row_input r) = row_hash K (row_input r')" using assms(1-3) by (simp add: row_ok_def)
  have "input_fits (row_input r)" "input_fits (row_input r')" using assms(4,5) by (simp_all add: rows_fit_def)
  from row_hash_binds [OF hash this] assms(6) have inp: "row_input r = row_input r'" by blast
  then have committed: "ev_payload_hash r = ev_payload_hash r'" by (simp add: row_input_def)
  have "b = b'" if "payload_bytes r = Some b" "payload_bytes r' = Some b'" for b b'
  proof -
    have "payload_hash K b = ev_payload_hash r" "payload_hash K b' = ev_payload_hash r'"
      using that assms(1,2) by (auto simp: payload_bytes_def row_ok_def split: payload_column.splits)
    then have "payload_hash K b = payload_hash K b'" using committed by simp
    moreover have "length b \<le> U64_MAX" "length b' \<le> U64_MAX" using that assms(4,5) by (simp_all add: rows_fit_def)
    ultimately show ?thesis using payload_hash_binds assms(6) by blast
  qed
  with inp assms(3) show ?thesis by (simp add: same_row_def)
qed

lemma linked_same:
  assumes "linked K g rs" "linked K g rs'" "rows_fit rs" "rows_fit rs'" "\<not> collides K"
    "n \<le> length rs" "n \<le> length rs'" "tip g (take n rs) = tip g (take n rs')" "i < n"
  shows "same_row (rs ! i) (rs' ! i)"
  using assms(6-9)
proof (induction n)
  case (Suc n)
  then have n: "n < length rs" "n < length rs'" by simp_all
  have ok: "row_ok K (rs ! n)" "row_ok K (rs' ! n)" using assms(1,2) n by (simp_all add: linked_def)
  have fit: "rows_fit [rs ! n]" "rows_fit [rs' ! n]" using assms(3,4) n by (simp_all add: rows_fit_def)
  have "ev_hash (rs ! n) = ev_hash (rs' ! n)" using Suc.prems(3) n by (simp add: tip_take_Suc)
  from same_row_from_hash [OF ok this fit assms(5)] have same: "same_row (rs ! n) (rs' ! n)" .
  then have "tip g (take n rs) = tip g (take n rs')"
    using assms(1,2) n by (simp add: linked_def same_row_def row_input_def)
  with Suc same show ?case by (cases "i = n") auto
qed simp

section \<open>A missing payload is accounted for\<close>

lemma open_nulls_kept:
  "n \<in> open_nulls parse rs \<Longrightarrow> (\<forall>r \<in> set qs. ev_payload r \<noteq> PcNull \<longrightarrow> explains parse r \<noteq> Some n) \<Longrightarrow> n \<in> open_nulls parse (rs @ qs)"
proof (induction qs rule: rev_induct)
  case (snoc q qs)
  then show ?case by (auto simp: open_nulls_snoc open_step_def simp flip: append_assoc split: option.split)
qed simp

end
