(* ===== verification/Ledger_Growth.thy ===== *)
theory Ledger_Growth
  imports Chain_Props
begin

text \<open>
  Ledgers that only their own operations wrote, with every failure of a transaction and of the anchor
  write. Such a ledger verifies as long as the anchor is at most a row behind, records each fill once and
  keeps at most one gap open per feed.
\<close>

section \<open>Steps\<close>

text \<open>
  A step of the ledger. \<open>journal\<close> and \<open>keyed\<close> are the appends of the other journals, which have their own
  kinds, and \<open>publish\<close> is a retry that stores the current head in the anchor again. A fill of a ledger with
  a pilot may bring further rows, each appended under a key.
\<close>

inductive keyed_appends :: "digest \<Rightarrow> ledger_db \<Rightarrow> appended option \<Rightarrow> ledger_db \<Rightarrow> bool" for K where
  none: "keyed_appends K db None db"
| more: "keyed_appends K db w db1 \<Longrightarrow> append_keyed_in_tx K e key db1 = Inr (Some a, db2) \<Longrightarrow> keyed_appends K db (Some a) db2"

definition only_appends ::
  "digest \<Rightarrow> (new_fill \<Rightarrow> ledger_db \<Rightarrow> ledger_error + appended option \<times> appended option \<times> ledger_db) \<Rightarrow> bool" where
  "only_appends K pilot_fill = (\<forall>f db x w db1. pilot_fill f db = Inr (x, w, db1) \<longrightarrow> keyed_appends K db w db1)"

inductive ledger_step :: "digest \<Rightarrow> ledger \<Rightarrow> ledger \<Rightarrow> bool" for K where
  append: "ledger_step K L (snd (ledger_append K tf af e L))"
| journal: "nv_kind e \<notin> {EkPayloadRedacted, EkFill} \<Longrightarrow> ledger_step K L (snd (append_committed K tf af e L))"
| intent: "ledger_step K L (snd (record_intent K tf af agent ts_ms payload snapshot L))"
| outcome: "ledger_step K L (snd (ledger_record_outcome K tf af receipt k ts_ms result L))"
| keyed: "nv_kind e \<notin> {EkPayloadRedacted, EkFill} \<Longrightarrow>
    ledger_step K L (snd (in_transaction tf af (\<lambda>db. rbind (append_keyed_in_tx K e key db) (\<lambda>(a, db1). Inr (a, a, db1))) L))"
| publish: "chain_head (lg_db L) = Inr (n, h) \<Longrightarrow> ledger_step K L (snd (note_head af \<lparr>ap_seq = n, ap_hash = h\<rparr> L))"
| fill: "only_appends K pilot_fill \<Longrightarrow> ledger_step K L (snd (record_fill pilot_fill K tf af f L))"
| redact: "ledger_step K L (snd (redact K tf af n reason ts_ms L))"
| open_gap: "ledger_step K L (snd (open_gap K tf af scope ts_ms note L))"
| close_gap: "ledger_step K L (snd (close_gap K tf af gap_id ts_ms L))"
| reconciled: "ledger_step K L (snd (mark_gap_reconciled tf gap_id ts_ms L))"
| snapshot: "ledger_step K L (snd (put_snapshot K tf rf snapshot_id ts_ms coin body L))"
| prune: "ledger_step K L (snd (prune_snapshots_before tf ts_ms L))"

lemma only_appendsD: "only_appends K pilot_fill \<Longrightarrow> pilot_fill f db = Inr (x, w, db1) \<Longrightarrow> keyed_appends K db w db1"
  by (auto simp: only_appends_def)

text \<open>A transaction as a relation between databases, with the row it reports to the anchor.\<close>

definition appends :: "digest \<Rightarrow> new_event \<Rightarrow> string option \<Rightarrow> ledger_db \<Rightarrow> appended \<Rightarrow> ledger_db \<Rightarrow> event_row \<Rightarrow> bool" where
  "appends K e key db a db1 r =
     (chain_row K e key db = Inr r \<and> insert_event r db = Inr (db\<lparr>db_events := db_events db @ [r]\<rparr>) \<and> a = row_appended r
      \<and> db1 = advance_head r (db\<lparr>db_events := db_events db @ [r]\<rparr>))"

lemma append_in_tx_Inr: "append_in_tx K e db = Inr (a, db1) \<longleftrightarrow> (\<exists>r. appends K e None db a db1 r)"
  by (auto simp: append_in_tx_def appends_def result_inv insert_event_def)

lemma append_keyed_Inr:
  "append_keyed_in_tx K e key db = Inr (v, db1) \<longleftrightarrow>
     (if \<exists>q \<in> set (db_events db). ev_idem_key q = Some key
      then v = None \<and> db1 = db \<and> (\<exists>r. chain_row K e (Some key) db = Inr r)
      else \<exists>a r. v = Some a \<and> appends K e (Some key) db a db1 r)"
  by (auto simp: append_keyed_in_tx_def appends_def result_inv insert_event_def)

section \<open>The chain invariant\<close>

definition db_ok :: "(string \<Rightarrow> json option) \<Rightarrow> digest \<Rightarrow> string \<Rightarrow> ledger_db \<Rightarrow> bool" where
  "db_ok parse K g db =
     (linked K g (db_events db) \<and> open_nulls parse (db_events db) = {}
      \<and> db_head db = Some (int (length (db_events db)), tip g (db_events db)))"

text \<open>A longer chain over the same prefix of hashes.\<close>

definition extends :: "string \<Rightarrow> event_row list \<Rightarrow> event_row list \<Rightarrow> bool" where
  "extends g rs rs' = (length rs \<le> length rs' \<and> (\<forall>k \<le> length rs. tip g (take k rs') = tip g (take k rs)))"

definition ledger_ok :: "(string \<Rightarrow> json option) \<Rightarrow> digest \<Rightarrow> ledger \<Rightarrow> bool" where
  "ledger_ok parse K L =
     (db_ok parse K (lg_genesis L) (lg_db L)
      \<and> (lg_anchored L \<longrightarrow> (\<exists>a. lg_anchor L = Some a \<and> witnesses (lg_genesis L) a (db_events (lg_db L)))))"

text \<open>What a transaction has to keep.\<close>

definition tx_ok :: "(string \<Rightarrow> json option) \<Rightarrow> digest \<Rightarrow> string \<Rightarrow> ledger_db \<Rightarrow> appended option \<Rightarrow> ledger_db \<Rightarrow> bool" where
  "tx_ok parse K g db written db1 =
     (db_ok parse K g db1 \<and> extends g (db_events db) (db_events db1)
      \<and> is_none_or (\<lambda>a. ap_seq a = length (db_events db1) \<and> ap_hash a = tip g (db_events db1)) written)"

lemma extends_refl [simp]: "extends g rs rs"
  by (simp add: extends_def)

lemma extends_append [simp]: "extends g rs (rs @ [r])"
  by (simp add: extends_def)

lemma extends_trans: "extends g rs rs' \<Longrightarrow> extends g rs' rs'' \<Longrightarrow> extends g rs rs''"
  by (auto simp: extends_def)

lemma witnesses_extends: "witnesses g a rs \<Longrightarrow> extends g rs rs' \<Longrightarrow> witnesses g a rs'"
  by (auto simp: witnesses_def extends_def)

lemma in_transaction_ok:
  assumes "ledger_ok parse K L"
    and "\<And>x w db1. body (lg_db L) = Inr (x, w, db1) \<Longrightarrow> tx_ok parse K (lg_genesis L) (lg_db L) w db1"
  shows "ledger_ok parse K (snd (in_transaction tf af body L)) \<and> lg_genesis (snd (in_transaction tf af body L)) = lg_genesis L"
proof (cases tf)
  case (Some e)
  with assms(1) show ?thesis by (simp add: in_transaction_def)
next
  case None
  show ?thesis
  proof (cases "body (lg_db L)")
    case (Inl e)
    with None assms(1) show ?thesis by (simp add: in_transaction_def)
  next
    case (Inr y)
    obtain x w db1 where y: "y = (x, w, db1)" by (cases y)
    from assms(2) Inr y have tx: "tx_ok parse K (lg_genesis L) (lg_db L) w db1" by simp
    with assms(1) have kept: "lg_anchored L \<Longrightarrow> \<exists>a. lg_anchor L = Some a \<and> witnesses (lg_genesis L) a (db_events db1)"
      by (auto simp: ledger_ok_def tx_ok_def dest: witnesses_extends)
    show ?thesis
    proof (cases w)
      case None
      with \<open>tf = None\<close> Inr y tx kept show ?thesis by (simp add: in_transaction_def ledger_ok_def tx_ok_def)
    next
      case (Some a)
      with \<open>tf = None\<close> Inr y tx kept show ?thesis
        by (auto simp: in_transaction_def note_head_def ledger_ok_def tx_ok_def witnesses_def split: option.split)
    qed
  qed
qed

lemma chain_row_ok:
  assumes "db_ok parse K g db" "chain_row K e key db = Inr r"
  shows "ev_seq r = int (length (db_events db) + 1)" "ev_prev_hash r = tip g (db_events db)" "row_ok K r"
    "\<exists>c. canonical_json (nv_payload e) = Inr c \<and> ev_payload r = PcText c" "ev_kind r = event_kind_str (nv_kind e)"
    "ev_idem_key r = key" "ev_agent_id r = nv_agent_id e"
  using assms
  by (auto simp: chain_row_def db_ok_def chain_head_def seq_of_def seq_key_def result_inv row_ok_def row_input_def Let_def
      split: if_splits)

lemma appends_ok:
  assumes "db_ok parse K g db" "appends K e key db a db1 r"
  shows "tx_ok parse K g db (Some a) db1" "db_events db1 = db_events db @ [r]"
proof -
  from assms(2) have row: "chain_row K e key db = Inr r" by (simp add: appends_def)
  note r = chain_row_ok [OF assms(1) row]
  from r(4) have "open_step parse r {} = {}" by (auto simp: open_step_def split: option.split)
  with assms r show "tx_ok parse K g db (Some a) db1" "db_events db1 = db_events db @ [r]"
    by (auto simp: tx_ok_def db_ok_def appends_def advance_head_def row_appended_def linked_snoc open_nulls_snoc)
qed

lemma append_in_tx_ok: "db_ok parse K g db \<Longrightarrow> append_in_tx K e db = Inr (a, db1) \<Longrightarrow> tx_ok parse K g db (Some a) db1"
  by (auto simp: append_in_tx_Inr dest: appends_ok)

text \<open>Side tables do not matter to the chain.\<close>

lemma tx_ok_tables: "db_events db2 = db_events db1 \<Longrightarrow> db_head db2 = db_head db1 \<Longrightarrow> tx_ok parse K g db w db1 \<Longrightarrow> tx_ok parse K g db w db2"
  by (simp add: tx_ok_def db_ok_def)

lemma tx_ok_none: "db_ok parse K g db \<Longrightarrow> db_events db1 = db_events db \<Longrightarrow> db_head db1 = db_head db \<Longrightarrow> tx_ok parse K g db None db1"
  by (simp add: tx_ok_def db_ok_def)

section \<open>Redaction\<close>

text \<open>The parser reads back the seq a redaction names.\<close>

definition parses_redactions :: "(string \<Rightarrow> json option) \<Rightarrow> bool" where
  "parses_redactions parse =
     (\<forall>n reason s. n \<le> I64_MAX \<longrightarrow> canonical_json (redaction_payload n reason) = Inr s \<longrightarrow> redacted_seq parse s = Some n)"

lemma event_kind_parse_str: "event_kind_parse (event_kind_str k) = Inr k"
  by (cases k) (simp_all add: event_kind_parse_def event_kind_str_def EVENT_KINDS_def)

lemma event_kind_str_inj: "event_kind_str k = event_kind_str k' \<Longrightarrow> k = k'"
  by (metis event_kind_parse_str sum.inject(2))

lemma redact_row_same:
  "row_input (redact_row n reason ts r) = row_input r" "ev_seq (redact_row n reason ts r) = ev_seq r"
  "ev_hash (redact_row n reason ts r) = ev_hash r" "ev_prev_hash (redact_row n reason ts r) = ev_prev_hash r"
  "ev_kind (redact_row n reason ts r) = ev_kind r" "ev_idem_key (redact_row n reason ts r) = ev_idem_key r"
  by (simp_all add: redact_row_def row_input_def)

lemma tip_map_redact: "tip g (map (redact_row n reason ts) rs) = tip g rs"
  by (simp add: tip_def last_map redact_row_same)

lemma linked_map_redact: "linked K g rs \<Longrightarrow> linked K g (map (redact_row n reason ts) rs)"
proof -
  have "row_ok K r \<Longrightarrow> row_ok K (redact_row n reason ts r)" for r
    by (cases "ev_seq r = int n") (simp_all add: row_ok_def redact_row_def row_input_def)
  then show "linked K g rs \<Longrightarrow> linked K g (map (redact_row n reason ts) rs)"
    by (simp add: linked_def redact_row_same take_map tip_map_redact)
qed

lemma open_nulls_redact:
  assumes "\<forall>r \<in> set rs. ev_seq r = int n \<longrightarrow> ev_kind r \<noteq> event_kind_str EkPayloadRedacted"
  shows "open_nulls parse (map (redact_row n reason ts) rs) \<subseteq> insert n (open_nulls parse rs)"
  using assms
proof (induction rs rule: rev_induct)
  case (snoc r rs)
  then have IH: "open_nulls parse (map (redact_row n reason ts) rs) \<subseteq> insert n (open_nulls parse rs)" by simp
  show ?case
  proof (cases "ev_seq r = int n")
    case True
    with snoc.prems have "explains parse r = None" by (simp add: explains_def)
    moreover have "ev_payload (redact_row n reason ts r) = PcNull" using True by (simp add: redact_row_def)
    moreover have "open_nulls parse rs \<subseteq> insert n (open_step parse r (open_nulls parse rs))"
      using \<open>explains parse r = None\<close> by (auto simp: open_step_def)
    ultimately show ?thesis
      using True IH by (simp add: open_nulls_snoc open_step_def [of parse "redact_row n reason ts r"] redact_row_same) blast
  next
    case False
    then have "redact_row n reason ts r = r" by (simp add: redact_row_def)
    with IH show ?thesis by (auto simp: open_nulls_snoc open_step_def split: option.split)
  qed
qed (simp add: open_nulls_def)

lemma redact_tx_ok:
  assumes "parses_redactions parse" "n \<le> I64_MAX" "db_ok parse K g db" "check_redactable n db = Inr ()"
    "appends K \<lparr>nv_kind = EkPayloadRedacted, nv_ts_ms = ts, nv_agent_id = None, nv_payload = redaction_payload n reason, nv_snapshot = None\<rparr>
       None (db\<lparr>db_events := map (redact_row n reason ts) (db_events db)\<rparr>) a db1 r"
  shows "tx_ok parse K g db (Some a) db1"
proof -
  let ?rs = "db_events db" and ?m = "map (redact_row n reason ts) (db_events db)"
  let ?db = "db\<lparr>db_events := ?m\<rparr>"
  from assms(4) obtain q where q: "find (\<lambda>r. ev_seq r = int n) ?rs = Some q" "ev_kind q \<noteq> event_kind_str EkPayloadRedacted"
    by (auto simp: check_redactable_def find_event_def ensure_is_Inr split: option.splits if_splits)
  have uniq: "r1 = r2" if "r1 \<in> set ?rs" "r2 \<in> set ?rs" "ev_seq r1 = ev_seq r2" for r1 r2
    using that assms(3) by (auto simp: db_ok_def linked_def in_set_conv_nth)
  from q(1) have "q \<in> set ?rs" "ev_seq q = int n" by (auto simp: find_Some_iff)
  with uniq q(2) have "\<forall>r \<in> set ?rs. ev_seq r = int n \<longrightarrow> ev_kind r \<noteq> event_kind_str EkPayloadRedacted" by metis
  from open_nulls_redact [OF this, of parse reason ts] assms(3) have nulls: "open_nulls parse ?m \<subseteq> {n}" by (simp add: db_ok_def)
  have head: "chain_head ?db = chain_head db" by (simp add: chain_head_def)
  from assms(5) have row: "chain_row K \<lparr>nv_kind = EkPayloadRedacted, nv_ts_ms = ts, nv_agent_id = None,
      nv_payload = redaction_payload n reason, nv_snapshot = None\<rparr> None db = Inr r"
    by (simp add: appends_def chain_row_def head)
  note r = chain_row_ok [OF assms(3) row]
  from r(4) obtain c where c: "canonical_json (redaction_payload n reason) = Inr c" "ev_payload r = PcText c" by auto
  then have "explains parse r = Some n"
    using assms(1,2) r(5) by (simp add: explains_def payload_bytes_def parses_redactions_def)
  with nulls c have "open_step parse r (open_nulls parse ?m) = {}" by (auto simp: open_step_def)
  moreover have "linked K g (?m @ [r])"
    using linked_map_redact [of K g ?rs] assms(3) r by (simp add: linked_snoc tip_map_redact db_ok_def)
  moreover have "extends g ?rs (?m @ [r])" by (simp add: extends_def take_map tip_map_redact)
  ultimately show ?thesis
    using assms(5) r by (auto simp: tx_ok_def db_ok_def appends_def advance_head_def row_appended_def open_nulls_snoc)
qed

section \<open>Every operation keeps the chain\<close>

definition keeps :: "(string \<Rightarrow> json option) \<Rightarrow> digest \<Rightarrow> ledger \<Rightarrow> ledger \<Rightarrow> bool" where
  "keeps parse K L L' = (ledger_ok parse K L' \<and> lg_genesis L' = lg_genesis L)"

lemma ledger_okD: "ledger_ok parse K L \<Longrightarrow> db_ok parse K (lg_genesis L) (lg_db L)"
  by (simp add: ledger_ok_def)

lemma keeps_refl: "ledger_ok parse K L \<Longrightarrow> keeps parse K L L"
  by (simp add: keeps_def)

lemma in_transaction_keeps:
  assumes "ledger_ok parse K L"
    and "\<And>x w db1. body (lg_db L) = Inr (x, w, db1) \<Longrightarrow> tx_ok parse K (lg_genesis L) (lg_db L) w db1"
  shows "keeps parse K L (snd (in_transaction tf af body L))"
  using in_transaction_ok [OF assms] by (simp add: keeps_def)

lemma append_committed_keeps: "ledger_ok parse K L \<Longrightarrow> keeps parse K L (snd (append_committed K tf af e L))"
  unfolding append_committed_def
  by (rule in_transaction_keeps) (auto simp: rbind_is_Inr intro: append_in_tx_ok ledger_okD)

lemma ledger_append_keeps: "ledger_ok parse K L \<Longrightarrow> keeps parse K L (snd (ledger_append K tf af e L))"
  by (simp add: ledger_append_def append_committed_keeps keeps_refl split: sum.split)

lemma snd_record_intent:
  "snd (record_intent K tf af agent ts_ms payload snapshot L) = snd (append_committed K tf af
     \<lparr>nv_kind = EkOrderIntent, nv_ts_ms = ts_ms, nv_agent_id = Some agent, nv_payload = payload, nv_snapshot = snapshot\<rparr> L)"
  by (simp add: record_intent_def split: sum.split prod.split)

lemma ledger_record_outcome_keeps: "ledger_ok parse K L \<Longrightarrow> keeps parse K L (snd (ledger_record_outcome K tf af receipt k ts_ms result L))"
  unfolding ledger_record_outcome_def
  by (auto simp: keeps_refl rbind_is_Inr split: sum.split intro!: in_transaction_keeps append_in_tx_ok [OF ledger_okD])

lemma append_keyed_ok:
  "db_ok parse K g db \<Longrightarrow> append_keyed_in_tx K e key db = Inr (v, db1) \<Longrightarrow> tx_ok parse K g db v db1"
  by (auto simp: append_keyed_Inr split: if_splits intro: appends_ok tx_ok_none)

lemma keyed_appends_ok: "keyed_appends K db w db1 \<Longrightarrow> db_ok parse K g db \<Longrightarrow> tx_ok parse K g db w db1"
proof (induction rule: keyed_appends.induct)
  case (none db)
  then show ?case by (rule tx_ok_none) simp_all
next
  case (more db w db1 e key a db2)
  then have mid: "tx_ok parse K g db w db1" by blast
  then have "tx_ok parse K g db1 (Some a) db2" by (intro append_keyed_ok [OF _ more.hyps(2)]) (simp add: tx_ok_def)
  with mid show ?case using extends_trans [of g "db_events db" "db_events db1" "db_events db2"] by (simp add: tx_ok_def)
qed

lemma keyed_keeps:
  "ledger_ok parse K L \<Longrightarrow>
   keeps parse K L (snd (in_transaction tf af (\<lambda>db. rbind (append_keyed_in_tx K e key db) (\<lambda>(a, db1). Inr (a, a, db1))) L))"
  by (rule in_transaction_keeps) (auto simp: rbind_is_Inr intro: append_keyed_ok ledger_okD)

lemma publish_keeps:
  assumes "ledger_ok parse K L" "chain_head (lg_db L) = Inr (n, h)"
  shows "keeps parse K L (snd (note_head af \<lparr>ap_seq = n, ap_hash = h\<rparr> L))"
  using assms by (auto simp: keeps_def ledger_ok_def db_ok_def note_head_def witnesses_def chain_head_Inr split: option.split)

lemma record_fill_keeps:
  assumes "only_appends K pilot_fill" "ledger_ok parse K L"
  shows "keeps parse K L (snd (record_fill pilot_fill K tf af f L))"
  unfolding record_fill_def
proof (rule in_transaction_keeps [OF assms(2)])
  fix x w db1
  assume "(if pilot_active (lg_db L) then pilot_fill f (lg_db L)
      else rbind (append_keyed_in_tx K
        \<lparr>nv_kind = EkFill, nv_ts_ms = nf_ts_ms f, nv_agent_id = nf_agent_id f, nv_payload = nf_payload f, nv_snapshot = None\<rparr>
        (fill_idem_key (nf_account f) (nf_tid f)) (lg_db L)) (\<lambda>(a, db1). Inr (a, a, db1))) = Inr (x, w, db1)"
  with assms show "tx_ok parse K (lg_genesis L) (lg_db L) w db1"
    by (auto simp: rbind_is_Inr split: if_splits intro: append_keyed_ok keyed_appends_ok ledger_okD dest: only_appendsD)
qed

lemma redact_keeps:
  assumes "parses_redactions parse" "ledger_ok parse K L"
  shows "keeps parse K L (snd (redact K tf af n reason ts_ms L))"
proof (cases "seq_key n")
  case (Inl e)
  with assms(2) show ?thesis by (simp add: redact_def keeps_refl)
next
  case (Inr key)
  then have n: "n \<le> I64_MAX" by (simp add: seq_key_def split: if_splits)
  show ?thesis unfolding redact_def Inr sum.case
    by (rule in_transaction_keeps [OF assms(2)])
      (auto simp: rbind_is_Inr append_in_tx_Inr intro: redact_tx_ok [OF assms(1) n ledger_okD [OF assms(2)]])
qed

lemma open_gap_keeps: "ledger_ok parse K L \<Longrightarrow> keeps parse K L (snd (open_gap K tf af scope ts_ms note L))"
  unfolding open_gap_def
  by (rule in_transaction_keeps)
    (auto simp: rbind_is_Inr Let_def split: option.splits
      intro: tx_ok_none ledger_okD tx_ok_tables [OF _ _ append_in_tx_ok])

lemma close_gap_keeps: "ledger_ok parse K L \<Longrightarrow> keeps parse K L (snd (close_gap K tf af gap_id ts_ms L))"
  unfolding close_gap_def
  by (rule in_transaction_keeps)
    (auto simp: rbind_is_Inr Let_def intro: ledger_okD tx_ok_tables [OF _ _ append_in_tx_ok])

lemma mark_gap_reconciled_keeps: "ledger_ok parse K L \<Longrightarrow> keeps parse K L (snd (mark_gap_reconciled tf gap_id ts_ms L))"
  unfolding mark_gap_reconciled_def
  by (rule in_transaction_keeps) (auto simp: rbind_is_Inr intro: tx_ok_none ledger_okD)

lemma prune_keeps: "ledger_ok parse K L \<Longrightarrow> keeps parse K L (snd (prune_snapshots_before tf ts_ms L))"
  unfolding prune_snapshots_before_def
  by (rule in_transaction_keeps) (auto intro: tx_ok_none ledger_okD)

lemma snd_put_snapshot:
  "snd (put_snapshot K tf rf snapshot_id ts_ms coin body L) = L
   \<or> (\<exists>canonical. snd (put_snapshot K tf rf snapshot_id ts_ms coin body L) = snd (insert_snapshot K tf snapshot_id ts_ms coin canonical L))"
proof (cases "map_err json_error_of (canonical_json body)")
  case (Inr canonical)
  have "snd (put_snapshot K tf rf snapshot_id ts_ms coin body L) = snd (insert_snapshot K tf snapshot_id ts_ms coin canonical L)"
    by (simp add: put_snapshot_def Inr Let_def split: sum.split prod.split option.split)
  then show ?thesis by blast
qed (simp add: put_snapshot_def)

lemma put_snapshot_keeps:
  assumes "ledger_ok parse K L"
  shows "keeps parse K L (snd (put_snapshot K tf rf snapshot_id ts_ms coin body L))"
proof -
  have "keeps parse K L (snd (insert_snapshot K tf snapshot_id ts_ms coin canonical L))" for canonical
    unfolding insert_snapshot_def
    by (rule in_transaction_keeps [OF assms])
      (use assms in \<open>auto simp: Let_def intro: tx_ok_none ledger_okD split: option.splits\<close>)
  then show ?thesis using snd_put_snapshot [of K tf rf snapshot_id ts_ms coin body L] keeps_refl [OF assms] by auto
qed

lemma ledger_step_keeps:
  assumes "parses_redactions parse" "ledger_step K L L'" "ledger_ok parse K L"
  shows "keeps parse K L L'"
  using assms(2)
proof cases
  case (intent tf af agent ts_ms payload snapshot)
  with append_committed_keeps [OF assms(3)] show ?thesis by (simp add: snd_record_intent)
next
  case (redact tf af n reason ts_ms)
  with redact_keeps [OF assms(1,3)] show ?thesis by simp
qed (simp_all add: assms(3) ledger_append_keeps append_committed_keeps ledger_record_outcome_keeps keyed_keeps publish_keeps record_fill_keeps open_gap_keeps
      close_gap_keeps mark_gap_reconciled_keeps put_snapshot_keeps prune_keeps)

lemma ledger_steps_keep:
  assumes "parses_redactions parse" "(ledger_step K)\<^sup>*\<^sup>* L L'" "ledger_ok parse K L"
  shows "keeps parse K L L'"
  using assms(2)
proof (induction rule: rtranclp_induct)
  case base
  show ?case using assms(3) by (rule keeps_refl)
next
  case (step L1 L2)
  then show ?case using ledger_step_keeps [OF assms(1) step.hyps(2)] by (simp add: keeps_def)
qed

end
