(* ===== verification/Ledger_Props.thy ===== *)
theory Ledger_Props
  imports Ledger_Growth
begin

text \<open>
  The guarantees of a ledger that its own operations wrote: it verifies, a fill is chained once, and the
  gaps of a feed follow one another.
\<close>

section \<open>Growth from an empty file\<close>

lemma open_empty:
  assumes "open_anchored K network True None None empty_db = Inr L"
  shows "ledger_ok parse K L" "lg_anchored L" "lg_genesis L = genesis_hash K network" "db_events (lg_db L) = []"
  using assms
  by (auto simp: open_anchored_def bind_network_def empty_db_def chain_head_def seq_of_def Let_def ledger_ok_def db_ok_def
      open_nulls_def witnesses_def)

lemma history_grown: "db_ok parse K g db \<Longrightarrow> history db = db_events db"
  by (auto simp: history_def db_ok_def dest: linked_sorted)

lemma in_transaction_anchored: "lg_anchored (snd (in_transaction tf af body L)) = lg_anchored L"
  by (simp add: in_transaction_def note_head_def split: sum.split option.split prod.split)

lemma append_committed_anchored: "lg_anchored (snd (append_committed K tf af e L)) = lg_anchored L"
  by (simp add: append_committed_def in_transaction_anchored)

lemma put_snapshot_anchored: "lg_anchored (snd (put_snapshot K tf rf i ts coin body L)) = lg_anchored L"
  using snd_put_snapshot [of K tf rf i ts coin body L] by (auto simp: insert_snapshot_def in_transaction_anchored)

lemma ledger_step_anchored: "ledger_step K L L' \<Longrightarrow> lg_anchored L' = lg_anchored L"
  by (induction rule: ledger_step.cases)
    (auto simp: ledger_append_def append_committed_anchored snd_record_intent ledger_record_outcome_def record_fill_def redact_def
      open_gap_def close_gap_def mark_gap_reconciled_def put_snapshot_anchored prune_snapshots_before_def in_transaction_anchored note_head_def
      split: sum.split option.split)

lemma ledger_steps_anchored: "(ledger_step K)\<^sup>*\<^sup>* L L' \<Longrightarrow> lg_anchored L' = lg_anchored L"
  by (induction rule: rtranclp_induct) (simp_all add: ledger_step_anchored)

text \<open>What the walk reports of a grown database against an anchor that witnessed it.\<close>

lemma walk_grown:
  assumes "db_ok parse K g db" "witnesses g a (db_events db)"
  shows "walk parse K g (Some a) db =
    (let n = length (db_events db) in
     if n \<le> an_seq a + ANCHOR_LAG_TOLERANCE
     then Inr \<lparr>ct_rows_checked = n, ct_head_seq = n, ct_head_hash = tip g (db_events db), ct_first_break = None\<rparr>
     else Inr (broken n n (tip g (db_events db)) (an_seq a) (BrChainAheadOfAnchor (an_seq a) n (n - an_seq a - ANCHOR_LAG_TOLERANCE))))"
proof -
  let ?rs = "db_events db"
  obtain w where w: "walk_rows parse K (Some a) ?rs (walk_start g) = Inr w" "walked parse g (Some a) ?rs w"
    using walk_rows_linked(1) [of parse K "Some a" ?rs g] assms(1) by (auto simp: db_ok_def)
  have head: "chain_head db = Inr (length ?rs, tip g ?rs)" using assms(1) by (simp add: chain_head_Inr db_ok_def)
  have nulls: "ws_unexplained w = []" using w(2) assms(1) by (auto simp: walked_def db_ok_def)
  have anchored: "(if an_seq a = 0 then g else case ws_hash_at_anchor w of Some h \<Rightarrow> h | None \<Rightarrow> []) = an_hash a"
    using w(2) assms(2) by (auto simp: walked_def witnesses_def)
  have "check_anchor g (Some a) w (length ?rs) (tip g ?rs) =
      (if length ?rs \<le> an_seq a + ANCHOR_LAG_TOLERANCE then None
       else Some (an_seq a, BrChainAheadOfAnchor (an_seq a) (length ?rs) (length ?rs - an_seq a - ANCHOR_LAG_TOLERANCE)))"
    using anchored assms(2) by (auto simp: check_anchor_def witnesses_def Let_def)
  moreover have "ws_rows_checked w = length ?rs" using w(2) by (simp add: walked_def)
  ultimately show ?thesis
    using head nulls w(1) history_grown [OF assms(1)] walked_last [OF w(2)]
    by (simp add: walk_def walk_finish_def history_def Let_def)
qed

text \<open>
  C13: a ledger that only its own operations wrote verifies. Whatever transactions and anchor writes failed,
  the walk gets through every row; the report is intact as long as the anchor is at most one row behind,
  and the only break it can report is that the chain is ahead of the anchor, by how much.
\<close>

theorem grown_ledger_verifies:
  assumes "parses_redactions parse" "open_anchored K network True None None empty_db = Inr L0" "(ledger_step K)\<^sup>*\<^sup>* L0 L"
  shows "\<exists>a. lg_anchor L = Some a \<and>
    (let n = length (db_events (lg_db L)); tail = tip (genesis_hash K network) (db_events (lg_db L)) in
     an_seq a \<le> n \<and>
     verify parse K L =
       (if n \<le> an_seq a + 1
        then Inr \<lparr>ct_rows_checked = n, ct_head_seq = n, ct_head_hash = tail, ct_first_break = None\<rparr>
        else Inr (broken n n tail (an_seq a) (BrChainAheadOfAnchor (an_seq a) n (n - an_seq a - 1)))))"
proof -
  note L0 = open_empty [OF assms(2)]
  have "keeps parse K L0 L" by (rule ledger_steps_keep [OF assms(1,3) L0(1)])
  then have ok: "ledger_ok parse K L" and g: "lg_genesis L = genesis_hash K network" using L0(3) by (simp_all add: keeps_def)
  have anchored: "lg_anchored L" using ledger_steps_anchored [OF assms(3)] L0(2) by simp
  with ok obtain a where a: "lg_anchor L = Some a" "witnesses (lg_genesis L) a (db_events (lg_db L))" by (auto simp: ledger_ok_def)
  from walk_grown [OF ledger_okD [OF ok] a(2), unfolded ANCHOR_LAG_TOLERANCE_def] have "verify parse K L = (let n = length (db_events (lg_db L)) in
      if n \<le> an_seq a + 1
      then Inr \<lparr>ct_rows_checked = n, ct_head_seq = n, ct_head_hash = tip (lg_genesis L) (db_events (lg_db L)), ct_first_break = None\<rparr>
      else Inr (broken n n (tip (lg_genesis L) (db_events (lg_db L))) (an_seq a) (BrChainAheadOfAnchor (an_seq a) n (n - an_seq a - 1))))"
    using anchored a(1) by (simp add: verify_def)
  with a g show ?thesis by (auto simp: witnesses_def Let_def)
qed

section \<open>A sample\<close>

text \<open>A parser that reads the seq a redaction names off the end of its text.\<close>

definition tail_digits :: "string \<Rightarrow> string" where
  "tail_digits s = List.rev (takeWhile is_digit (List.rev s))"

definition sample_parse :: "string \<Rightarrow> json option" where
  "sample_parse s = Some (JObj [(''redacted_seq'', JInt (int (digits_value 0 (tail_digits (butlast s)))))])"

lemma tail_digits_append: "list_all is_digit ds \<Longrightarrow> \<not> is_digit c \<Longrightarrow> tail_digits (xs @ c # ds) = ds"
  by (simp add: tail_digits_def list_all_iff takeWhile_append)

lemma redaction_text:
  "canonical_json (redaction_payload n reason) = Inr (''{'' @ write_string ''reason'' @ '':'' @ write_string reason @ '',''
     @ write_string ''redacted_seq'' @ '':'' @ nat_digits n @ ''}'')"
proof -
  have "sorted_fields [(''redacted_seq'', JInt (int n)), (''reason'', JStr reason)] = [(''reason'', JStr reason), (''redacted_seq'', JInt (int n))]"
    by (simp add: sorted_fields_def)
  then show ?thesis
    by (simp add: canonical_json_def redaction_payload_def write_value.simps int_text_def MAX_DEPTH_def)
qed

lemma sample_parse_ok: "parses_redactions sample_parse"
proof -
  have "tail_digits (butlast (''{'' @ write_string ''reason'' @ '':'' @ write_string reason @ '',''
     @ write_string ''redacted_seq'' @ '':'' @ nat_digits n @ ''}'')) = nat_digits n" for reason n
  proof -
    have eq: "butlast (''{'' @ write_string ''reason'' @ '':'' @ write_string reason @ '','' @ write_string ''redacted_seq'' @ '':'' @ nat_digits n @ ''}'')
        = (''{'' @ write_string ''reason'' @ '':'' @ write_string reason @ '','' @ write_string ''redacted_seq'') @ CHR '':'' # nat_digits n"
      by (simp add: butlast_append)
    show ?thesis unfolding eq by (rule tail_digits_append [OF nat_digits_are_digits]) (simp add: is_digit_def)
  qed
  then show ?thesis
    by (auto simp: parses_redactions_def redaction_text redacted_seq_def sample_parse_def json_get_def json_as_u64_def
        digits_value_nat_digits width_vals simp del: butlast_append)
qed

definition sample_note :: new_event where
  "sample_note = \<lparr>nv_kind = EkAlert, nv_ts_ms = 5, nv_agent_id = Some ''a'', nv_payload = JStr ''x'', nv_snapshot = None\<rparr>"

definition sample_fresh :: ledger where
  "sample_fresh =
     \<lparr>lg_network = ''testnet'', lg_genesis = genesis_hash id ''testnet'',
      lg_db = empty_db\<lparr>db_network := Some ''testnet'', db_head := Some (0, genesis_hash id ''testnet'')\<rparr>,
      lg_anchored = True, lg_anchor = Some \<lparr>an_seq = 0, an_hash = genesis_hash id ''testnet''\<rparr>\<rparr>"

lemma sample_open: "open_anchored id ''testnet'' True None None empty_db = Inr sample_fresh"
  by (simp add: open_anchored_def bind_network_def empty_db_def chain_head_def seq_of_def Let_def sample_fresh_def)

text \<open>The row a note becomes at a place of the chain.\<close>

definition note_row :: "nat \<Rightarrow> string \<Rightarrow> event_row" where
  "note_row n prev =
     (let r = \<lparr>ev_seq = int n, ev_ts_ms = 5, ev_kind = ''alert'', ev_agent_id = Some ''a'', ev_payload = PcText (write_string ''x''),
               ev_payload_hash = payload_hash id (write_string ''x''), ev_prev_hash = prev, ev_hash = [], ev_redacted_at = None,
               ev_redaction_reason = None, ev_snapshot_id = None, ev_snapshot_hash = None, ev_idem_key = None\<rparr>
      in r\<lparr>ev_hash := row_hash id (row_input r)\<rparr>)"

lemma sample_note_row:
  assumes "db_head db = Some (int n, prev)" "n < I64_MAX"
  shows "chain_row id sample_note None db = Inr (note_row (Suc n) prev)"
proof -
  have "canonical_json (JStr ''x'') = Inr (write_string ''x'')" by (simp add: canonical_json_def write_value.simps)
  moreover have "event_kind_str EkAlert = ''alert''" by (simp add: event_kind_str_def EVENT_KINDS_def)
  ultimately show ?thesis
    using assms
    by (simp add: chain_row_def chain_head_def seq_of_def seq_key_def sample_note_def note_row_def Let_def width_vals)
qed

lemma length_hex_encode [simp]: "length (hex_encode b) = 2 * length b"
  by (induction b) (simp_all add: hex_encode_def)

lemma length_put [simp]: "length (put tag v) = 9 + length tag + (case v of None \<Rightarrow> 0 | Some b \<Rightarrow> 8 + length b)"
  by (simp add: put_def split: option.split)

lemma note_row_hash_grows: "length prev < length (ev_hash (note_row n prev))"
  by (simp add: note_row_def row_hash_def row_preimage_def row_input_def Let_def)

lemma note_row_hash_inj:
  assumes "ev_hash (note_row n p) = ev_hash (note_row m q)" "length p \<le> U64_MAX" "length q \<le> U64_MAX"
  shows "p = q"
proof -
  have "hex_encode (row_preimage (row_input (note_row n p))) = hex_encode (row_preimage (row_input (note_row m q)))"
    using assms(1) by (simp add: note_row_def row_hash_def row_input_def Let_def)
  from hex_encode_inj [OF this] obtain r r' where "put ''prev'' (Some p) @ r = put ''prev'' (Some q) @ r'"
    by (auto simp: row_preimage_def row_input_def note_row_def Let_def)
  from put_inj [OF this] assms(2,3) show ?thesis by (simp add: fits_def)
qed

definition sample_one :: ledger where
  "sample_one = snd (ledger_append id None (Some LgPoisoned) sample_note sample_fresh)"

definition sample_two :: ledger where
  "sample_two = snd (ledger_append id None (Some LgPoisoned) sample_note sample_one)"

definition first_row :: event_row where "first_row = note_row 1 (genesis_hash id ''testnet'')"
definition second_row :: event_row where "second_row = note_row 2 (ev_hash first_row)"

lemma rows_differ: "ev_hash first_row \<noteq> ev_hash second_row" "ev_seq first_row = 1" "ev_seq second_row = 2"
proof -
  have "length (genesis_hash id ''testnet'') \<le> U64_MAX" by (simp add: genesis_hash_def GENESIS_DOMAIN_def U64_MAX_val)
  moreover have "length (ev_hash first_row) \<le> U64_MAX"
    by (simp add: first_row_def note_row_def row_hash_def row_preimage_def row_input_def payload_hash_def payload_preimage_def
        genesis_hash_def GENESIS_DOMAIN_def ROW_DOMAIN_def PAYLOAD_DOMAIN_def write_string_def write_char_def Let_def
        i64_bytes_def U64_MAX_val)
  ultimately show "ev_hash first_row \<noteq> ev_hash second_row"
    using note_row_hash_inj [of 1 "genesis_hash id ''testnet''" 2 "ev_hash first_row"]
      note_row_hash_grows [of "genesis_hash id ''testnet''" 1]
    unfolding first_row_def second_row_def by (metis less_irrefl)
qed (simp_all add: first_row_def second_row_def note_row_def Let_def)

lemma sample_one_eq:
  "sample_one = sample_fresh\<lparr>lg_db := (lg_db sample_fresh)\<lparr>db_events := [first_row], db_head := Some (1, ev_hash first_row)\<rparr>\<rparr>"
proof -
  have "chain_row id sample_note None (lg_db sample_fresh) = Inr first_row"
    using sample_note_row [of "lg_db sample_fresh" 0] by (simp add: sample_fresh_def first_row_def width_vals)
  then show ?thesis
    by (simp add: sample_one_def ledger_append_def sample_note_def refuse_one_door_kind_def append_committed_def in_transaction_def
        append_in_tx_def insert_event_def advance_head_def note_head_def sample_fresh_def empty_db_def rows_differ)
qed

lemma sample_two_eq:
  "sample_two = sample_fresh\<lparr>lg_db := (lg_db sample_fresh)\<lparr>db_events := [first_row, second_row], db_head := Some (2, ev_hash second_row)\<rparr>\<rparr>"
proof -
  have "chain_row id sample_note None (lg_db sample_one) = Inr second_row"
    using sample_note_row [of "lg_db sample_one" 1] by (simp add: sample_one_eq second_row_def width_vals numeral_2_eq_2)
  moreover have "ev_hash second_row \<noteq> ev_hash first_row" using rows_differ(1) by simp
  ultimately show ?thesis
    by (simp add: sample_two_def ledger_append_def sample_note_def refuse_one_door_kind_def append_committed_def in_transaction_def
        append_in_tx_def insert_event_def advance_head_def note_head_def sample_one_eq sample_fresh_def empty_db_def rows_differ)
qed

lemma sample_steps: "(ledger_step id)\<^sup>*\<^sup>* sample_fresh sample_one" "(ledger_step id)\<^sup>*\<^sup>* sample_fresh sample_two"
proof -
  have "ledger_step id sample_fresh sample_one" "ledger_step id sample_one sample_two"
    unfolding sample_one_def sample_two_def by (rule ledger_step.append)+
  then show "(ledger_step id)\<^sup>*\<^sup>* sample_fresh sample_one" "(ledger_step id)\<^sup>*\<^sup>* sample_fresh sample_two" by auto
qed

text \<open>One lost anchor write is tolerated; after two in a row a ledger that nobody touched reports a forged tail.\<close>

theorem grown_ledger_verifies_witness:
  "(\<exists>tail. verify sample_parse id sample_one =
      Inr \<lparr>ct_rows_checked = 1, ct_head_seq = 1, ct_head_hash = tail, ct_first_break = None\<rparr>)
   \<and> (\<exists>tail. verify sample_parse id sample_two = Inr (broken 2 2 tail 0 (BrChainAheadOfAnchor 0 2 1)))"
proof -
  have "lg_anchor sample_one = Some \<lparr>an_seq = 0, an_hash = genesis_hash id ''testnet''\<rparr>" "length (db_events (lg_db sample_one)) = 1"
    by (simp_all add: sample_one_eq, simp add: sample_fresh_def)
  with grown_ledger_verifies [OF sample_parse_ok sample_open sample_steps(1)]
  have one: "\<exists>tail. verify sample_parse id sample_one =
      Inr \<lparr>ct_rows_checked = 1, ct_head_seq = 1, ct_head_hash = tail, ct_first_break = None\<rparr>" by (auto simp: Let_def)
  have "lg_anchor sample_two = Some \<lparr>an_seq = 0, an_hash = genesis_hash id ''testnet''\<rparr>" "length (db_events (lg_db sample_two)) = 2"
    by (simp_all add: sample_two_eq, simp add: sample_fresh_def)
  with grown_ledger_verifies [OF sample_parse_ok sample_open sample_steps(2)]
  have "\<exists>tail. verify sample_parse id sample_two = Inr (broken 2 2 tail 0 (BrChainAheadOfAnchor 0 2 1))" by (auto simp: Let_def)
  with one show ?thesis by blast
qed

section \<open>The chain only grows\<close>

text \<open>What a row commits to and its key; what may become of a row.\<close>

definition chained :: "event_row \<Rightarrow> row_hash_input \<times> string \<times> string option" where
  "chained r = (row_input r, ev_hash r, ev_idem_key r)"

definition kept_row :: "event_row \<Rightarrow> event_row \<Rightarrow> bool" where
  "kept_row r r' = (r' = r \<or> (\<exists>ts why. r' = r\<lparr>ev_payload := PcNull, ev_redacted_at := ts, ev_redaction_reason := why\<rparr>))"

definition only_adds :: "ledger_db \<Rightarrow> ledger_db \<Rightarrow> bool" where
  "only_adds db db1 = (\<exists>old new. db_events db1 = old @ new \<and> list_all2 kept_row (db_events db) old)"

lemma kept_row_refl [simp]: "kept_row r r"
  by (simp add: kept_row_def)

lemma kept_row_trans:
  assumes "kept_row r r'" "kept_row r' r''"
  shows "kept_row r r''"
proof (cases "r'' = r'")
  case False
  with assms(2) obtain ts why where "r'' = r'\<lparr>ev_payload := PcNull, ev_redacted_at := ts, ev_redaction_reason := why\<rparr>"
    by (auto simp: kept_row_def)
  with assms(1) have "r'' = r\<lparr>ev_payload := PcNull, ev_redacted_at := ts, ev_redaction_reason := why\<rparr>" by (auto simp: kept_row_def)
  then show ?thesis unfolding kept_row_def by blast
qed (use assms(1) in simp)

lemma kept_row_chained: "kept_row r r' \<Longrightarrow> chained r' = chained r"
  by (auto simp: kept_row_def chained_def row_input_def)

lemma kept_rows_refl [simp]: "list_all2 kept_row rs rs"
  by (simp add: list_all2_refl)

lemma only_addsI: "db_events db1 = old @ new \<Longrightarrow> list_all2 kept_row (db_events db) old \<Longrightarrow> only_adds db db1"
  unfolding only_adds_def by blast

lemma only_adds_refl: "db_events db1 = db_events db \<Longrightarrow> only_adds db db1"
  by (rule only_addsI [of _ "db_events db" "[]"]) simp_all

lemma only_adds_snoc: "db_events db1 = db_events db @ [r] \<Longrightarrow> only_adds db db1"
  by (rule only_addsI [of _ "db_events db" "[r]"]) simp_all

lemma only_adds_trans:
  assumes "only_adds db db1" "only_adds db1 db2"
  shows "only_adds db db2"
proof -
  from assms obtain old new old' new' where *: "db_events db1 = old @ new" "list_all2 kept_row (db_events db) old"
    "db_events db2 = old' @ new'" "list_all2 kept_row (old @ new) old'" by (auto simp: only_adds_def)
  from *(4) obtain us vs where us: "old' = us @ vs" "list_all2 kept_row old us" by (auto simp: list_all2_append1)
  have "list_all2 kept_row (db_events db) us" by (rule list_all2_trans [OF _ *(2) us(2)]) (rule kept_row_trans)
  with *(3) us(1) show ?thesis by (intro only_addsI [of _ us "vs @ new'"]) simp_all
qed

lemma only_adds_tables: "db_events db2 = db_events db1 \<Longrightarrow> only_adds db db1 \<Longrightarrow> only_adds db db2"
  by (simp add: only_adds_def)

lemma appends_add: "appends K e key db a db1 r \<Longrightarrow> only_adds db db1"
  by (rule only_adds_snoc [where r = r]) (simp add: appends_def advance_head_def)

lemma append_in_tx_adds: "append_in_tx K e db = Inr (a, db1) \<Longrightarrow> only_adds db db1"
  unfolding append_in_tx_Inr by (elim exE) (rule appends_add)

lemma append_keyed_adds: "append_keyed_in_tx K e key db = Inr (v, db1) \<Longrightarrow> only_adds db db1"
  unfolding append_keyed_Inr by (auto simp: only_adds_refl split: if_splits dest: appends_add)

lemma keyed_appends_add: "keyed_appends K db w db1 \<Longrightarrow> only_adds db db1"
  by (induction rule: keyed_appends.induct) (auto intro: only_adds_refl only_adds_trans append_keyed_adds)

lemma redacted_adds: "only_adds (db\<lparr>db_events := map (redact_row n reason ts) (db_events db)\<rparr>) db1 \<Longrightarrow> only_adds db db1"
proof (erule only_adds_trans [rotated])
  have "kept_row r (redact_row n reason ts r)" for r by (auto simp: kept_row_def redact_row_def)
  then have "list_all2 kept_row (db_events db) (map (redact_row n reason ts) (db_events db))" by (simp add: list_all2_conv_all_nth)
  then show "only_adds db (db\<lparr>db_events := map (redact_row n reason ts) (db_events db)\<rparr>)"
    by (rule only_addsI [of _ "map (redact_row n reason ts) (db_events db)" "[]", rotated]) simp
qed

lemma in_transaction_adds:
  assumes "\<And>x w db1. body (lg_db L) = Inr (x, w, db1) \<Longrightarrow> only_adds (lg_db L) db1"
  shows "only_adds (lg_db L) (lg_db (snd (in_transaction tf af body L)))"
  using assms
  by (auto simp: in_transaction_def note_head_def split: sum.split option.split prod.split intro: only_adds_refl)

lemma append_committed_adds: "only_adds (lg_db L) (lg_db (snd (append_committed K tf af e L)))"
  unfolding append_committed_def by (rule in_transaction_adds) (auto simp: rbind_is_Inr intro: append_in_tx_adds)

lemma ledger_step_adds: "ledger_step K L L' \<Longrightarrow> only_adds (lg_db L) (lg_db L')"
proof (induction rule: ledger_step.induct)
  case (append L tf af e)
  then show ?case by (simp add: ledger_append_def append_committed_adds only_adds_refl split: sum.split)
next
  case (journal e L tf af)
  show ?case by (rule append_committed_adds)
next
  case (intent L tf af agent ts_ms payload snapshot)
  show ?case by (simp add: snd_record_intent append_committed_adds)
next
  case (outcome L tf af receipt k ts_ms result)
  show ?case unfolding ledger_record_outcome_def
    by (auto simp: only_adds_refl rbind_is_Inr split: sum.split intro!: in_transaction_adds intro: append_in_tx_adds)
next
  case (keyed e L tf af key)
  show ?case by (rule in_transaction_adds) (auto simp: rbind_is_Inr intro: append_keyed_adds)
next
  case (publish L n h af)
  show ?case by (auto simp: note_head_def split: option.split intro: only_adds_refl)
next
  case (fill pilot_fill L tf af f)
  then show ?case unfolding record_fill_def
    by (intro in_transaction_adds) (auto simp: rbind_is_Inr split: if_splits intro: append_keyed_adds keyed_appends_add dest: only_appendsD)
next
  case (redact L tf af n reason ts_ms)
  show ?case
  proof (cases "seq_key n")
    case (Inr key)
    show ?thesis unfolding redact_def Inr sum.case
      by (rule in_transaction_adds) (auto simp only: rbind_is_Inr split_beta prod.collapse Pair_inject sum.inject fst_conv snd_conv
          intro: redacted_adds [OF append_in_tx_adds])
  qed (simp add: redact_def only_adds_refl)
next
  case (open_gap L tf af scope ts_ms nt)
  show ?case unfolding open_gap_def
    by (rule in_transaction_adds)
      (auto simp: rbind_is_Inr Let_def split: option.splits intro: only_adds_refl only_adds_tables [OF _ append_in_tx_adds])
next
  case (close_gap L tf af gap_id ts_ms)
  show ?case unfolding close_gap_def
    by (rule in_transaction_adds) (auto simp: rbind_is_Inr Let_def intro: only_adds_tables [OF _ append_in_tx_adds])
next
  case (reconciled L tf gap_id ts_ms)
  show ?case unfolding mark_gap_reconciled_def by (rule in_transaction_adds) (auto simp: rbind_is_Inr intro: only_adds_refl)
next
  case (snapshot L tf rf snapshot_id ts_ms coin body)
  have "only_adds (lg_db L) (lg_db (snd (insert_snapshot K tf snapshot_id ts_ms coin canonical L)))" for canonical
    unfolding insert_snapshot_def
    by (rule in_transaction_adds) (auto simp: Let_def split: option.splits intro: only_adds_refl)
  then show ?case using snd_put_snapshot [of K tf rf snapshot_id ts_ms coin body L] by (auto intro: only_adds_refl)
next
  case (prune L tf ts_ms)
  show ?case unfolding prune_snapshots_before_def by (rule in_transaction_adds) (auto intro: only_adds_refl)
qed

lemma ledger_steps_add: "(ledger_step K)\<^sup>*\<^sup>* L L' \<Longrightarrow> only_adds (lg_db L) (lg_db L')"
  by (induction rule: rtranclp_induct) (auto intro: only_adds_refl only_adds_trans ledger_step_adds)

text \<open>
  C14: the ledger is append-only. Whatever its operations do and whichever of them fail, every row that was
  there keeps its place, every field its hash commits to, its hash and its key; a redaction takes only the
  payload, and rows are only added at the end.
\<close>

theorem ledger_is_append_only:
  assumes "(ledger_step K)\<^sup>*\<^sup>* L L'" "i < length (db_events (lg_db L))"
  shows "i < length (db_events (lg_db L')) \<and>
    (db_events (lg_db L') ! i = db_events (lg_db L) ! i \<or>
     (\<exists>ts why. db_events (lg_db L') ! i =
        (db_events (lg_db L) ! i)\<lparr>ev_payload := PcNull, ev_redacted_at := ts, ev_redaction_reason := why\<rparr>))"
proof -
  from ledger_steps_add [OF assms(1)] obtain old new where
    rows: "db_events (lg_db L') = old @ new" "list_all2 kept_row (db_events (lg_db L)) old" by (auto simp: only_adds_def)
  then have len: "i < length old" using assms(2) by (simp add: list_all2_lengthD [symmetric])
  from list_all2_nthD2 [OF rows(2) this] rows(1) len show ?thesis by (simp add: nth_append kept_row_def)
qed

theorem ledger_is_append_only_witness:
  "let L' = snd (redact id None None 1 ''gdpr'' 9 sample_one) in 0 < length (db_events (lg_db L')) \<and> ev_hash (db_events (lg_db L') ! 0) = ev_hash first_row"
proof -
  have "(ledger_step id)\<^sup>*\<^sup>* sample_one (snd (redact id None None 1 ''gdpr'' 9 sample_one))"
    by (rule r_into_rtranclp) (rule ledger_step.redact)
  from ledger_is_append_only [OF this, of 0] show ?thesis by (auto simp: sample_one_eq Let_def)
qed

section \<open>A fill is chained once\<close>

lemma nat_digits_no_colon: "CHR '':'' \<notin> set (nat_digits n)"
  using nat_digits_are_digits [of n] by (auto simp: list_all_iff is_digit_def)

text \<open>The number ends at the last colon, whatever the account is.\<close>

lemma fill_idem_key_inj:
  assumes "fill_idem_key account tid = fill_idem_key account' tid'"
  shows "account = account' \<and> tid = tid'"
proof -
  let ?after = "\<lambda>s. List.rev (takeWhile (\<lambda>c. c \<noteq> CHR '':'') (List.rev s))"
  have after: "?after (fill_idem_key a n) = nat_digits n" for a n
    using nat_digits_no_colon [of n] by (auto simp: fill_idem_key_def takeWhile_append)
  from after [of account tid] after [of account' tid'] assms have "nat_digits tid = nat_digits tid'" by simp
  then have "tid = tid'" by (rule nat_digits_inj)
  with assms show ?thesis by (simp add: fill_idem_key_def)
qed

definition has_key :: "string \<Rightarrow> ledger_db \<Rightarrow> bool" where
  "has_key key db = (\<exists>r \<in> set (db_events db). ev_idem_key r = Some key)"

lemma has_key_kept: "only_adds db db1 \<Longrightarrow> has_key key db \<Longrightarrow> has_key key db1"
proof -
  assume "only_adds db db1" "has_key key db"
  then obtain old new i where rows: "db_events db1 = old @ new" "list_all2 kept_row (db_events db) old"
    and i: "i < length (db_events db)" "ev_idem_key (db_events db ! i) = Some key" by (auto simp: only_adds_def has_key_def in_set_conv_nth)
  from kept_row_chained [OF list_all2_nthD [OF rows(2) i(1)]] i(2) have "ev_idem_key (old ! i) = Some key" by (simp add: chained_def)
  moreover have "old ! i \<in> set (db_events db1)" using rows i(1) by (simp add: list_all2_lengthD)
  ultimately show "has_key key db1" by (auto simp: has_key_def)
qed

lemma record_fill_leaves_key:
  assumes "record_fill pilot_fill K tf af f L = (Inr v, L1)" "\<not> pilot_active (lg_db L)"
  shows "has_key (fill_idem_key (nf_account f) (nf_tid f)) (lg_db L1)"
proof -
  obtain db1 where db1: "append_keyed_in_tx K
      \<lparr>nv_kind = EkFill, nv_ts_ms = nf_ts_ms f, nv_agent_id = nf_agent_id f, nv_payload = nf_payload f, nv_snapshot = None\<rparr>
      (fill_idem_key (nf_account f) (nf_tid f)) (lg_db L) = Inr (v, db1)" "lg_db L1 = db1"
    using assms
    by (auto simp: record_fill_def in_transaction_def note_head_def rbind_is_Inr split: option.splits sum.splits prod.splits if_splits)
  then show ?thesis
    by (auto simp: append_keyed_Inr appends_def has_key_def advance_head_def chain_row_def Let_def rbind_is_Inr split: if_splits)
qed


definition sample_fill :: new_fill where
  "sample_fill = \<lparr>nf_account = ''0xa'', nf_tid = 7, nf_ts_ms = 5, nf_agent_id = None, nf_payload = JStr ''x''\<rparr>"

lemma sample_fill_recorded:
  "\<exists>r. record_fill pilot_fill id None None sample_fill sample_fresh =
     (Inr (Some (row_appended r)),
      sample_fresh\<lparr>lg_db := (lg_db sample_fresh)\<lparr>db_events := [r], db_head := Some (ev_seq r, ev_hash r)\<rparr>,
        lg_anchor := Some \<lparr>an_seq = ap_seq (row_appended r), an_hash = ap_hash (row_appended r)\<rparr>\<rparr>)
     \<and> ev_kind r = ''fill''"
proof -
  have "canonical_json (JStr ''x'') = Inr (write_string ''x'')" by (simp add: canonical_json_def write_value.simps)
  moreover have "event_kind_str EkFill = ''fill''" by (simp add: event_kind_str_def EVENT_KINDS_def)
  ultimately show ?thesis
    by (simp add: record_fill_def in_transaction_def append_keyed_in_tx_def chain_row_def chain_head_def seq_of_def seq_key_def
        sample_fill_def sample_fresh_def empty_db_def pilot_active_def insert_event_def advance_head_def note_head_def Let_def width_vals)
qed


section \<open>Gaps\<close>

text \<open>At most one gap of a feed is open, ids are unique, and only a closed gap is reconciled.\<close>

definition gap_open :: "feed_gap \<Rightarrow> bool" where
  "gap_open g = (gp_closed_ts_ms g = None)"

definition gaps_ok :: "feed_gap list \<Rightarrow> bool" where
  "gaps_ok gaps =
     (distinct (map gp_gap_id gaps) \<and> distinct (map gp_scope (filter gap_open gaps))
      \<and> (\<forall>g \<in> set gaps. gap_open g \<longrightarrow> gp_reconciled_ts_ms g = None))"

lemma gap_open_new:
  "gap_open \<lparr>gp_gap_id = i, gp_scope = s, gp_opened_ts_ms = t, gp_closed_ts_ms = c, gp_reconciled_ts_ms = r, gp_open_seq = q,
     gp_close_seq = cs, gp_note = n\<rparr> \<longleftrightarrow> c = None"
  by (simp add: gap_open_def)

lemma max_opt_ge: "max_opt xs = Some m \<Longrightarrow> x \<in> set xs \<Longrightarrow> x \<le> m"
proof -
  have step: "m \<le> fold max ys m \<and> (\<forall>y \<in> set ys. y \<le> fold max ys m)" for m :: int and ys
  proof (induction ys arbitrary: m)
    case (Cons y ys)
    have "max y m \<le> fold max ys (max y m)" using Cons.IH by blast
    then show ?case using Cons.IH [of "max y m"] by auto
  qed simp
  show "max_opt xs = Some m \<Longrightarrow> x \<in> set xs \<Longrightarrow> x \<le> m" using step by (auto simp: max_opt_def split: list.splits)
qed

lemma next_gap_id_fresh: "g \<in> set gaps \<Longrightarrow> gp_gap_id g \<noteq> next_gap_id gaps"
proof -
  assume g: "g \<in> set gaps"
  then obtain m where m: "max_opt (map gp_gap_id gaps) = Some m" by (cases gaps) (auto simp: max_opt_def)
  from max_opt_ge [OF m, of "gp_gap_id g"] g m show ?thesis by (simp add: next_gap_id_def)
qed

lemma gaps_ok_open:
  assumes "gaps_ok gaps" "\<forall>g \<in> set gaps. gp_scope g = gp_scope h \<longrightarrow> \<not> gap_open g" "gap_open h" "gp_reconciled_ts_ms h = None"
    "gp_gap_id h = next_gap_id gaps"
  shows "gaps_ok (gaps @ [h])"
  using assms next_gap_id_fresh [of _ gaps] by (fastforce simp: gaps_ok_def)

text \<open>Changing gaps without opening one keeps the order.\<close>

lemma gaps_ok_map:
  assumes "gaps_ok gaps" "\<And>g. gp_gap_id (f g) = gp_gap_id g" "\<And>g. gp_scope (f g) = gp_scope g"
    "\<And>g. gap_open (f g) \<Longrightarrow> gap_open g" "\<And>g. g \<in> set gaps \<Longrightarrow> gap_open (f g) \<Longrightarrow> gp_reconciled_ts_ms (f g) = gp_reconciled_ts_ms g"
  shows "gaps_ok (map f gaps)"
proof -
  have "distinct (map gp_scope (filter gap_open (map f gaps)))" if "distinct (map gp_scope (filter gap_open gaps))"
    using that assms(3,4) by (induction gaps) (auto split: if_splits)
  moreover have "map gp_gap_id (map f gaps) = map gp_gap_id gaps" using assms(2) by simp
  ultimately show ?thesis using assms by (auto simp: gaps_ok_def simp del: map_map)
qed

lemma append_in_tx_gaps: "append_in_tx K e db = Inr (a, db1) \<Longrightarrow> db_gaps db1 = db_gaps db"
  by (auto simp: append_in_tx_def rbind_is_Inr insert_event_def advance_head_def)

lemma append_keyed_gaps: "append_keyed_in_tx K e key db = Inr (v, db1) \<Longrightarrow> db_gaps db1 = db_gaps db"
  by (auto simp: append_keyed_in_tx_def rbind_is_Inr insert_event_def advance_head_def split: if_splits)

lemma keyed_appends_gaps: "keyed_appends K db w db1 \<Longrightarrow> gaps_ok (db_gaps db) \<Longrightarrow> gaps_ok (db_gaps db1)"
  by (induction rule: keyed_appends.induct) (auto dest: append_keyed_gaps)

lemma in_transaction_gaps:
  assumes "gaps_ok (db_gaps (lg_db L))" "\<And>x w db1. body (lg_db L) = Inr (x, w, db1) \<Longrightarrow> gaps_ok (db_gaps db1)"
  shows "gaps_ok (db_gaps (lg_db (snd (in_transaction tf af body L))))"
  using assms by (auto simp: in_transaction_def note_head_def split: sum.split option.split prod.split)

lemma append_committed_gaps:
  "gaps_ok (db_gaps (lg_db L)) \<Longrightarrow> gaps_ok (db_gaps (lg_db (snd (append_committed K tf af e L))))"
  unfolding append_committed_def by (rule in_transaction_gaps) (auto simp: rbind_is_Inr dest: append_in_tx_gaps)

lemma ledger_step_gaps: "ledger_step K L L' \<Longrightarrow> gaps_ok (db_gaps (lg_db L)) \<Longrightarrow> gaps_ok (db_gaps (lg_db L'))"
proof (induction rule: ledger_step.induct)
  case (append L tf af e)
  then show ?case by (simp add: ledger_append_def append_committed_gaps split: sum.split)
next
  case (journal e L tf af)
  from journal(2) show ?case by (rule append_committed_gaps)
next
  case (intent L tf af agent ts_ms payload snapshot)
  then show ?case by (simp add: snd_record_intent append_committed_gaps)
next
  case (outcome L tf af receipt k ts_ms result)
  then show ?case unfolding ledger_record_outcome_def
    by (auto simp: rbind_is_Inr split: sum.split intro!: in_transaction_gaps dest!: append_in_tx_gaps)
next
  case (keyed e L tf af key)
  then show ?case by (intro in_transaction_gaps) (auto simp: rbind_is_Inr dest: append_keyed_gaps)
next
  case (publish L n h af)
  then show ?case by (auto simp: note_head_def split: option.split)
next
  case (fill pilot_fill L tf af f)
  then show ?case unfolding record_fill_def
    by (intro in_transaction_gaps)
      (auto simp: rbind_is_Inr split: if_splits dest: append_keyed_gaps only_appendsD intro: keyed_appends_gaps)
next
  case (redact L tf af n reason ts_ms)
  then show ?case unfolding redact_def
    by (auto simp: rbind_is_Inr split: sum.split intro!: in_transaction_gaps dest!: append_in_tx_gaps)
next
  case (open_gap L tf af scope ts_ms nt)
  show ?case unfolding open_gap_def
  proof (rule in_transaction_gaps [OF open_gap])
    fix x w db1
    assume body: "(case find (\<lambda>g. gp_scope g = scope \<and> gp_closed_ts_ms g = None) (sort_key gp_gap_id (db_gaps (lg_db L))) of
         None \<Rightarrow> rbind (append_in_tx K
             \<lparr>nv_kind = EkWsDisconnected, nv_ts_ms = ts_ms, nv_agent_id = None,
              nv_payload = JObj [(''scope'', JStr scope), (''note'', opt_str nt)], nv_snapshot = None\<rparr> (lg_db L)) (\<lambda>(a, db1).
           rbind (seq_key (ap_seq a)) (\<lambda>open_seq.
           let g = \<lparr>gp_gap_id = next_gap_id (db_gaps db1), gp_scope = scope, gp_opened_ts_ms = ts_ms, gp_closed_ts_ms = None,
                    gp_reconciled_ts_ms = None, gp_open_seq = open_seq, gp_close_seq = None, gp_note = nt\<rparr>
           in Inr (g, Some a, db1\<lparr>db_gaps := db_gaps db1 @ [g]\<rparr>)))
       | Some g \<Rightarrow> rbind (seq_of (gp_open_seq g)) (\<lambda>_. Inr (g\<lparr>gp_reconciled_ts_ms := None, gp_close_seq := None\<rparr>, None, lg_db L)))
       = Inr (x, w, db1)"
    show "gaps_ok (db_gaps db1)"
    proof (cases "find (\<lambda>g. gp_scope g = scope \<and> gp_closed_ts_ms g = None) (sort_key gp_gap_id (db_gaps (lg_db L)))")
      case None
      then have "\<forall>g \<in> set (db_gaps (lg_db L)). gp_scope g = scope \<longrightarrow> \<not> gap_open g"
        by (auto simp: find_None_iff gap_open_def)
      with body None open_gap show ?thesis
        by (auto simp: rbind_is_Inr Let_def gap_open_new dest!: append_in_tx_gaps intro!: gaps_ok_open)
    next
      case (Some g)
      with body open_gap show ?thesis by (auto simp: rbind_is_Inr)
    qed
  qed
next
  case (close_gap L tf af gap_id ts_ms)
  show ?case unfolding close_gap_def
    by (rule in_transaction_gaps [OF close_gap])
      (use close_gap in \<open>auto simp: rbind_is_Inr close_row_def gap_open_def dest!: append_in_tx_gaps intro!: gaps_ok_map split: if_splits\<close>)
next
  case (reconciled L tf gap_id ts_ms)
  show ?case unfolding mark_gap_reconciled_def
  proof (rule in_transaction_gaps [OF reconciled])
    fix x w db1
    let ?gaps = "db_gaps (lg_db L)"
    assume "rbind (ok_or (LgNoSuchGap gap_id) (find (\<lambda>g. gp_gap_id g = gap_id) ?gaps)) (\<lambda>g.
       rbind (ensure (gp_closed_ts_ms g \<noteq> None) (LgGapStillOpen gap_id)) (\<lambda>_.
       Inr ((), None, lg_db L\<lparr>db_gaps := map (reconcile_row gap_id ts_ms) ?gaps\<rparr>))) = Inr (x, w, db1)"
    then obtain g where g: "find (\<lambda>g. gp_gap_id g = gap_id) ?gaps = Some g" "gp_closed_ts_ms g \<noteq> None"
      and db1: "db_gaps db1 = map (reconcile_row gap_id ts_ms) ?gaps"
      by (auto simp: rbind_is_Inr ok_or_is_Inr ensure_is_Inr)
    from g(1) have "g \<in> set ?gaps" "gp_gap_id g = gap_id" by (auto simp: find_Some_iff)
    then have only: "h = g" if "h \<in> set ?gaps" "gp_gap_id h = gap_id" for h
      using that reconciled by (auto simp: gaps_ok_def distinct_map dest: inj_onD)
    show "gaps_ok (db_gaps db1)" unfolding db1
      by (rule gaps_ok_map [OF reconciled]) (use only g(2) in \<open>auto simp: reconcile_row_def gap_open_def split: if_splits\<close>)
  qed
next
  case (snapshot L tf rf snapshot_id ts_ms coin body)
  have "gaps_ok (db_gaps (lg_db (snd (insert_snapshot K tf snapshot_id ts_ms coin canonical L))))" for canonical
    unfolding insert_snapshot_def
    by (rule in_transaction_gaps [OF snapshot]) (use snapshot in \<open>auto simp: Let_def split: option.splits\<close>)
  then show ?case using snd_put_snapshot [of K tf rf snapshot_id ts_ms coin body L] snapshot by auto
next
  case (prune L tf ts_ms)
  then show ?case unfolding prune_snapshots_before_def by (intro in_transaction_gaps) auto
qed

text \<open>
  C19: outages are recorded one at a time. In every ledger its operations can reach a feed has at most one
  open gap, gap ids are unique, and the gaps the reconciler still has to backfill include every open one.
\<close>

theorem outages_are_recorded_one_at_a_time:
  assumes "(ledger_step K)\<^sup>*\<^sup>* L L'" "db_gaps (lg_db L) = []"
  shows "distinct (map gp_gap_id (db_gaps (lg_db L')))
    \<and> (\<forall>g \<in> set (db_gaps (lg_db L')). \<forall>h \<in> set (db_gaps (lg_db L')). gap_open g \<and> gap_open h \<and> gp_scope g = gp_scope h \<longrightarrow> g = h)
    \<and> (\<forall>g \<in> set (db_gaps (lg_db L')). gap_open g \<longrightarrow> g \<in> set (unreconciled_gaps (lg_db L')))"
proof -
  have "gaps_ok (db_gaps (lg_db L'))" using assms
  proof (induction rule: rtranclp_induct)
    case base
    then show ?case by (simp add: gaps_ok_def)
  next
    case (step L1 L2)
    then show ?case by (blast intro: ledger_step_gaps)
  qed
  then show ?thesis
    by (auto simp: gaps_ok_def unreconciled_gaps_def distinct_map dest: inj_onD)
qed

theorem outages_are_recorded_one_at_a_time_witness:
  "\<exists>L'. (ledger_step id)\<^sup>*\<^sup>* sample_fresh L' \<and> distinct (map gp_gap_id (db_gaps (lg_db L')))"
proof -
  have "(ledger_step id)\<^sup>*\<^sup>* sample_fresh (snd (open_gap id None None ''ws'' 5 None sample_fresh))"
    by (rule r_into_rtranclp) (rule ledger_step.open_gap)
  moreover from outages_are_recorded_one_at_a_time [OF this]
  have "distinct (map gp_gap_id (db_gaps (lg_db (snd (open_gap id None None ''ws'' 5 None sample_fresh)))))"
    by (simp add: sample_fresh_def empty_db_def)
  ultimately show ?thesis by blast
qed

section \<open>Witnessed history\<close>


text \<open>The sample ledger after its note was redacted and the anchor write failed.\<close>

definition redacted_one :: ledger where
  "redacted_one = snd (redact id None (Some LgPoisoned) 1 ''gdpr'' 9 sample_one)"

definition redaction_bytes :: string where
  "redaction_bytes = ''{'' @ write_string ''reason'' @ '':'' @ write_string ''gdpr'' @ '','' @ write_string ''redacted_seq'' @ '':'' @ nat_digits 1 @ ''}''"

definition redaction_row :: event_row where
  "redaction_row =
     (let r = \<lparr>ev_seq = 2, ev_ts_ms = 9, ev_kind = ''payload_redacted'', ev_agent_id = None, ev_payload = PcText redaction_bytes,
               ev_payload_hash = payload_hash id redaction_bytes, ev_prev_hash = ev_hash first_row, ev_hash = [], ev_redacted_at = None,
               ev_redaction_reason = None, ev_snapshot_id = None, ev_snapshot_hash = None, ev_idem_key = None\<rparr>
      in r\<lparr>ev_hash := row_hash id (row_input r)\<rparr>)"

lemma row_hash_prev:
  assumes "row_hash id x = row_hash id y" "length (rh_prev_hash x) \<le> U64_MAX" "length (rh_prev_hash y) \<le> U64_MAX"
  shows "rh_prev_hash x = rh_prev_hash y"
proof -
  from assms(1) have "hex_encode (row_preimage x) = hex_encode (row_preimage y)" by (simp add: row_hash_def)
  from hex_encode_inj [OF this] obtain r r' where "put ''prev'' (Some (rh_prev_hash x)) @ r = put ''prev'' (Some (rh_prev_hash y)) @ r'"
    by (auto simp: row_preimage_def)
  from put_inj [OF this] assms(2,3) show ?thesis by (simp add: fits_def)
qed

lemmas sample_lengths =
  first_row_def note_row_def row_hash_def row_preimage_def row_input_def payload_hash_def payload_preimage_def genesis_hash_def
  GENESIS_DOMAIN_def ROW_DOMAIN_def PAYLOAD_DOMAIN_def write_string_def write_char_def Let_def i64_bytes_def U64_MAX_val

lemma first_row_fits: "length (genesis_hash id ''testnet'') \<le> U64_MAX" "length (ev_hash first_row) \<le> U64_MAX" "rows_fit [first_row]"
  by (simp_all add: sample_lengths rows_fit_def input_fits_def fits_def payload_bytes_def)

lemma first_row_fields: "ev_prev_hash first_row = genesis_hash id ''testnet''" "ev_hash first_row = row_hash id (row_input first_row)"
  by (simp_all add: first_row_def note_row_def row_input_def Let_def)

lemma redaction_row_fits: "rows_fit [redaction_row]" "ev_hash redaction_row \<noteq> ev_hash first_row" "ev_seq redaction_row = 2"
proof -
  have "length (nat_digits 1) = 1" by (simp add: nat_digits.simps)
  then show "rows_fit [redaction_row]"
    by (simp add: redaction_row_def redaction_bytes_def rows_fit_def input_fits_def fits_def payload_bytes_def sample_lengths)
  show "ev_hash redaction_row \<noteq> ev_hash first_row"
  proof
    assume "ev_hash redaction_row = ev_hash first_row"
    then have "row_hash id (row_input redaction_row) = row_hash id (row_input first_row)"
      by (simp add: redaction_row_def first_row_fields(2) Let_def) (simp add: row_input_def)
    moreover have "rh_prev_hash (row_input redaction_row) = ev_hash first_row" "rh_prev_hash (row_input first_row) = genesis_hash id ''testnet''"
      by (simp_all add: redaction_row_def row_input_def Let_def first_row_fields)
    ultimately have "ev_hash first_row = genesis_hash id ''testnet''" using row_hash_prev first_row_fits by metis
    then show False using note_row_hash_grows [of "genesis_hash id ''testnet''" 1] by (simp add: first_row_def)
  qed
qed (simp add: redaction_row_def Let_def)

lemma redacted_one_events: "db_events (lg_db redacted_one) = [redact_row 1 ''gdpr'' 9 first_row, redaction_row]"
proof -
  let ?db = "(lg_db sample_one)\<lparr>db_events := [redact_row 1 ''gdpr'' 9 first_row]\<rparr>"
  have "event_kind_str EkPayloadRedacted = ''payload_redacted''" by (simp add: event_kind_str_def EVENT_KINDS_def)
  then have row: "chain_row id \<lparr>nv_kind = EkPayloadRedacted, nv_ts_ms = 9, nv_agent_id = None, nv_payload = redaction_payload 1 ''gdpr'',
      nv_snapshot = None\<rparr> None ?db = Inr redaction_row"
    by (simp add: chain_row_def chain_head_def seq_of_def seq_key_def redaction_text redaction_row_def redaction_bytes_def
        sample_one_eq width_vals Let_def)
  have "check_redactable 1 (lg_db sample_one) = Inr ()"
    by (simp add: check_redactable_def find_event_def sample_one_eq rows_differ)
      (simp add: first_row_def note_row_def event_kind_str_def EVENT_KINDS_def Let_def)
  with row redaction_row_fits rows_differ show ?thesis
    by (simp add: redacted_one_def redact_def seq_key_def in_transaction_def append_in_tx_def insert_event_def advance_head_def
        note_head_def sample_one_eq width_vals redact_row_same sample_fresh_def)
qed

lemma sample_chains:
  "db_ok sample_parse id (genesis_hash id ''testnet'') (lg_db sample_one)"
  "db_ok sample_parse id (genesis_hash id ''testnet'') (lg_db redacted_one)"
proof -
  have steps: "(ledger_step id)\<^sup>*\<^sup>* sample_fresh redacted_one"
    using sample_steps(1) ledger_step.redact [of id sample_one] by (auto simp: redacted_one_def intro: rtranclp.rtrancl_into_rtrancl)
  note kept = ledger_steps_keep [OF sample_parse_ok _ open_empty(1) [OF sample_open]]
  from kept [OF sample_steps(1)] kept [OF steps] show
    "db_ok sample_parse id (genesis_hash id ''testnet'') (lg_db sample_one)"
    "db_ok sample_parse id (genesis_hash id ''testnet'') (lg_db redacted_one)"
    using open_empty(3) [OF sample_open] by (auto simp: keeps_def dest: ledger_okD)
qed

definition sample_anchor :: anchor where
  "sample_anchor = \<lparr>an_seq = 1, an_hash = ev_hash first_row\<rparr>"

lemma sample_reports:
  "\<exists>rep. walk sample_parse id (genesis_hash id ''testnet'') (Some sample_anchor) (lg_db sample_one) = Inr rep \<and> is_intact rep"
  "\<exists>rep. walk sample_parse id (genesis_hash id ''testnet'') (Some sample_anchor) (lg_db redacted_one) = Inr rep \<and> is_intact rep"
  using walk_grown [OF sample_chains(1), of sample_anchor] walk_grown [OF sample_chains(2), of sample_anchor]
  by (simp_all add: redacted_one_events sample_one_eq witnesses_def sample_anchor_def tip_def redact_row_same ANCHOR_LAG_TOLERANCE_def
      is_intact_def Let_def)

lemma sample_histories: "history (lg_db sample_one) = [first_row]" "history (lg_db redacted_one) = [redact_row 1 ''gdpr'' 9 first_row, redaction_row]"
  using history_grown [OF sample_chains(1)] history_grown [OF sample_chains(2)] by (simp_all add: redacted_one_events sample_one_eq)

lemma sample_histories_fit: "rows_fit (history (lg_db sample_one))" "rows_fit (history (lg_db redacted_one))"
  using first_row_fits(3) redaction_row_fits(1) rows_differ(2)
  by (simp_all add: sample_histories rows_fit_def redact_row_same) (simp add: redact_row_def payload_bytes_def)


section \<open>Missing payloads\<close>

text \<open>
  C15: a missing payload is accounted for. Where the chain verifies, a row without its payload is followed
  by a chained redaction whose own payload is the one the chain committed to and which names the row.
\<close>

theorem missing_payload_is_accounted_for:
  assumes "walk parse K g anchor db = Inr rep" "is_intact rep" "i < length (history db)" "ev_payload (history db ! i) = PcNull"
  shows "\<exists>j b. i < j \<and> j < length (history db) \<and> ev_kind (history db ! j) = event_kind_str EkPayloadRedacted
     \<and> payload_bytes (history db ! j) = Some b \<and> payload_hash K b = ev_payload_hash (history db ! j)
     \<and> redacted_seq parse b = Some (i + 1)"
proof -
  let ?rs = "history db"
  have intact: "chain_intact parse K g anchor db" using assms(1,2) walk_intact_iff by blast
  then have ok: "linked K g ?rs" and closed: "open_nulls parse ?rs = {}" by (simp_all add: chain_intact_def)
  have split: "?rs = take (Suc i) ?rs @ drop (Suc i) ?rs" by simp
  have "ev_seq (?rs ! i) = int (i + 1)" using ok assms(3) by (simp add: linked_def)
  then have "i + 1 \<in> open_nulls parse (take (Suc i) ?rs)"
    using assms(3,4) by (simp add: take_Suc_conv_app_nth open_nulls_snoc open_step_def)
  from open_nulls_kept [OF this, of "drop (Suc i) ?rs"] closed split
  obtain r where r: "r \<in> set (drop (Suc i) ?rs)" "ev_payload r \<noteq> PcNull" "explains parse r = Some (i + 1)" by auto
  then obtain k where k: "k < length ?rs - Suc i" "r = ?rs ! (Suc i + k)" by (auto simp: in_set_conv_nth)
  let ?j = "Suc i + k"
  from k assms(3) have j: "?j < length ?rs" by simp
  from r(3) obtain b where b: "ev_kind r = event_kind_str EkPayloadRedacted" "payload_bytes r = Some b" "redacted_seq parse b = Some (i + 1)"
    by (auto simp: explains_def bind_eq_Some_conv split: if_splits)
  have "row_ok K r" using ok j k by (simp add: linked_def)
  with b(2) have "payload_hash K b = ev_payload_hash r" by (auto simp: row_ok_def payload_bytes_def split: payload_column.splits)
  with b j k show ?thesis by (intro exI [of _ ?j] exI [of _ b]) auto
qed


theorem missing_payload_is_accounted_for_witness:
  "\<exists>j b. 0 < j \<and> j < length (history (lg_db redacted_one)) \<and> payload_bytes (history (lg_db redacted_one) ! j) = Some b
     \<and> redacted_seq sample_parse b = Some 1"
proof -
  obtain rep where rep: "walk sample_parse id (genesis_hash id ''testnet'') (Some sample_anchor) (lg_db redacted_one) = Inr rep" "is_intact rep"
    using sample_reports(2) by blast
  have "ev_payload (history (lg_db redacted_one) ! 0) = PcNull" "0 < length (history (lg_db redacted_one))"
    by (simp_all add: sample_histories redact_row_def rows_differ)
  from missing_payload_is_accounted_for [OF rep this(2,1)] show ?thesis by auto
qed

end
