(* ===== verification/Ledger_Pages.thy ===== *)
theory Ledger_Pages
  imports Ledger_Props
begin

text \<open>
  What the readers of the ledger guarantee an agent: pages follow on without a hole or a repetition, and
  nothing of another agent and no authority record is on them.
\<close>

section \<open>Rows and events\<close>

lemma event_kind_parse_Inr: "event_kind_parse s = Inr k \<Longrightarrow> s = event_kind_str k"
proof -
  assume "event_kind_parse s = Inr k"
  then have "(s, k) \<in> set (map (\<lambda>(k, t). (t, k)) EVENT_KINDS)"
    by (auto simp: event_kind_parse_def ok_or_is_Inr dest: map_of_SomeD)
  then have "(k, s) \<in> set EVENT_KINDS" by auto
  moreover have "distinct (map fst EVENT_KINDS)" by code_simp
  ultimately show ?thesis by (simp add: event_kind_str_def)
qed

text \<open>An event is its row.\<close>

definition shows_row :: "event_row \<Rightarrow> event \<Rightarrow> bool" where
  "shows_row r e =
     (ev_seq r = int (et_seq e) \<and> ev_kind r = event_kind_str (et_kind e) \<and> ev_agent_id r = et_agent_id e \<and> ev_hash r = et_hash e
      \<and> (et_payload e = None \<longleftrightarrow> ev_payload r = PcNull))"

lemma event_from_row_shows: "event_from_row parse r = Inr e \<Longrightarrow> shows_row r e"
  by (auto simp: event_from_row_def rbind_is_Inr seq_of_def shows_row_def ok_or_is_Inr dest: event_kind_parse_Inr
      split: if_splits payload_column.splits)

lemma rows_to_events_shows: "rows_to_events parse rs = Inr es \<Longrightarrow> list_all2 shows_row rs es"
  by (induction rs arbitrary: es) (auto simp: rbind_is_Inr dest: event_from_row_shows)

lemma shows_seqs: "list_all2 shows_row rs es \<Longrightarrow> map (\<lambda>e. int (et_seq e)) es = map ev_seq rs"
  by (induction rule: list_all2_induct) (auto simp: shows_row_def)

section \<open>Pages\<close>

definition seqs_ok :: "ledger_db \<Rightarrow> bool" where
  "seqs_ok db =
     (distinct (map ev_seq (db_events db))
      \<and> (\<forall>r \<in> set (db_events db). \<exists>n h. chain_head db = Inr (n, h) \<and> ev_seq r \<le> int n))"

lemma grown_seqs_ok: "db_ok parse K g db \<Longrightarrow> seqs_ok db"
proof -
  assume ok: "db_ok parse K g db"
  then have "map ev_seq (db_events db) = map (\<lambda>i. int (i + 1)) [0..<length (db_events db)]"
    by (intro nth_equalityI) (auto simp: db_ok_def linked_def)
  then have "distinct (map ev_seq (db_events db))" by (simp add: distinct_map inj_on_def)
  moreover have "chain_head db = Inr (length (db_events db), tip g (db_events db))"
    using ok by (simp add: db_ok_def chain_head_Inr)
  moreover have "ev_seq r \<le> int (length (db_events db))" if "r \<in> set (db_events db)" for r
    using that ok by (auto simp: db_ok_def linked_def in_set_conv_nth)
  ultimately show ?thesis by (auto simp: seqs_ok_def)
qed

text \<open>The rows an agent may see after a cursor and up to another.\<close>

definition visible :: "string option \<Rightarrow> nat \<Rightarrow> nat \<Rightarrow> ledger_db \<Rightarrow> event_row list" where
  "visible scope since last_seq db =
     filter (\<lambda>r. int since < ev_seq r \<and> ev_seq r \<le> int last_seq \<and> in_scope scope r) (sort_key ev_seq (db_events db))"

lemma sorted_seqs: "seqs_ok db \<Longrightarrow> sorted_wrt (\<lambda>r r'. ev_seq r < ev_seq r') (sort_key ev_seq (db_events db))"
proof -
  assume "seqs_ok db"
  then have "distinct (map ev_seq (sort_key ev_seq (db_events db)))" by (auto simp: seqs_ok_def distinct_map)
  moreover have "sorted (map ev_seq (sort_key ev_seq (db_events db)))" by simp
  ultimately have "sorted_wrt (<) (map ev_seq (sort_key ev_seq (db_events db)))" by (simp add: strict_sorted_iff)
  then show ?thesis by (simp add: sorted_wrt_map)
qed

lemma filter_sort_key: "filter P (sort_key f xs) = sort_key f (filter P xs)"
  by (induction xs) (auto simp: filter_insort filter_insort_triv)

lemma take_up_to_last:
  assumes "sorted_wrt (\<lambda>r r'. ev_seq r < ev_seq r') rs" "take n rs \<noteq> []"
  shows "filter (\<lambda>r. ev_seq r \<le> ev_seq (List.last (take n rs))) rs = take n rs"
proof -
  let ?l = "ev_seq (List.last (take n rs))"
  have low: "ev_seq r \<le> ?l" if "r \<in> set (take n rs)" for r
  proof -
    have "sorted_wrt (\<lambda>r r'. ev_seq r < ev_seq r') (butlast (take n rs) @ [List.last (take n rs)])"
      using assms by (simp add: sorted_wrt_take)
    then have "\<forall>r \<in> set (butlast (take n rs)). ev_seq r < ?l" by (simp add: sorted_wrt_append)
    moreover have "set (take n rs) = set (butlast (take n rs) @ [List.last (take n rs)])"
      by (simp only: append_butlast_last_id [OF assms(2)])
    ultimately show ?thesis using that by fastforce
  qed
  have "?l < ev_seq r" if "r \<in> set (drop n rs)" for r
  proof -
    have "sorted_wrt (\<lambda>r r'. ev_seq r < ev_seq r') (take n rs @ drop n rs)" using assms(1) by simp
    then show ?thesis using that assms(2) unfolding sorted_wrt_append by (meson last_in_set)
  qed
  with low have "filter (\<lambda>r. ev_seq r \<le> ?l) (take n rs @ drop n rs) = take n rs"
    unfolding filter_append by (simp add: filter_id_conv filter_empty_conv not_le)
  then show ?thesis by simp
qed

text \<open>
  C17: pages follow on. A page that does not ask for a resync holds exactly the events the reader may see
  after its cursor and up to the cursor it gives back, each once and in order; the cursor never goes back,
  and where something is left to see and anything was asked for the page is not empty.
\<close>

theorem pages_follow_on:
  assumes "page parse scope since want db = Inr pg" "\<not> pg_resync_required pg" "seqs_ok db"
  shows "list_all2 shows_row (visible scope since (pg_next_cursor pg) db) (pg_events pg)
    \<and> since \<le> pg_next_cursor pg \<and> length (pg_events pg) \<le> min want MAX_PAGE
    \<and> (0 < want \<and> visible scope since (pg_head_seq pg) db \<noteq> [] \<longrightarrow> pg_events pg \<noteq> [])"
proof -
  let ?limit = "min want MAX_PAGE"
  define seen where "seen = filter (\<lambda>r. int since < ev_seq r \<and> in_scope scope r) (sort_key ev_seq (db_events db))"
  from assms(1,2) obtain head_seq h where head: "chain_head db = Inr (head_seq, h)" "since \<le> head_seq" "pg_head_seq pg = head_seq"
    and rows: "rows_to_events parse (take ?limit seen) = Inr (pg_events pg)"
    and cursor: "pg_next_cursor pg = (if length (pg_events pg) = ?limit
        then (if pg_events pg = [] then since else et_seq (List.last (pg_events pg))) else head_seq)"
    by (auto simp: page_def rbind_is_Inr Let_def seq_key_def seen_def filter_sort_key conj_commute split: if_splits)
  note events = rows_to_events_shows [OF rows]
  have len: "length (pg_events pg) = min ?limit (length seen)" using list_all2_lengthD [OF events] by simp
  have bound: "ev_seq r \<le> int head_seq" if "r \<in> set seen" for r
    using that assms(3) head(1) by (auto simp: seen_def seqs_ok_def)
  have sorted: "sorted_wrt (\<lambda>r r'. ev_seq r < ev_seq r') seen"
    unfolding seen_def using sorted_seqs [OF assms(3)] by (rule sorted_wrt_filter)
  have shown: "visible scope since n db = filter (\<lambda>r. ev_seq r \<le> int n) seen" for n
    by (auto simp: visible_def seen_def intro: filter_cong)
  have all: "visible scope since head_seq db = seen" unfolding shown using bound by (simp add: filter_id_conv)
  have page: "visible scope since (pg_next_cursor pg) db = take ?limit seen \<and> since \<le> pg_next_cursor pg"
  proof (cases "length (pg_events pg) = ?limit")
    case False
    then have "length seen \<le> ?limit" using len by (simp only: min_def split: if_splits) simp_all
    then have "take ?limit seen = seen" by (rule take_all)
    with False cursor all head(2) show ?thesis by simp
  next
    case True
    show ?thesis
    proof (cases "pg_events pg = []")
      case empty: True
      with True cursor have "pg_next_cursor pg = since" "?limit = 0" by simp_all
      moreover have "visible scope since since db = []" by (auto simp: visible_def filter_empty_conv)
      ultimately show ?thesis by simp
    next
      case False
      then have some: "take ?limit seen \<noteq> []" using list_all2_lengthD [OF events] by (metis length_0_conv)
      have last_seq: "int (et_seq (List.last (pg_events pg))) = ev_seq (List.last (take ?limit seen))"
        using shows_seqs [OF events] False some by (metis last_map)
      with True False cursor take_up_to_last [OF sorted some] have "visible scope since (pg_next_cursor pg) db = take ?limit seen"
        by (simp add: shown)
      moreover have "int since < ev_seq (List.last (take ?limit seen))"
        using last_in_set [OF some] in_set_takeD by (fastforce simp: seen_def)
      ultimately show ?thesis using True False cursor last_seq by simp
    qed
  qed
  moreover have "pg_events pg \<noteq> []" if "0 < want" "seen \<noteq> []"
    using that len by (cases "pg_events pg"; cases seen) (auto simp: MAX_PAGE_def min_def split: if_splits)
  ultimately show ?thesis using events len all head(3) by auto
qed

section \<open>What an agent may see\<close>

lemma in_scope_shows:
  "shows_row r e \<Longrightarrow> in_scope (Some agent) r \<Longrightarrow>
     et_kind e \<notin> set HIDDEN_KINDS \<and> (et_agent_id e = None \<or> et_agent_id e = Some agent)"
  by (cases "et_agent_id e") (auto simp: in_scope_def shows_row_def)

text \<open>
  C18: an agent reads its own events and those of no agent. No page and no single read it makes returns an
  event of another agent, nor a pairing, registry, policy, approval or signature record, whatever cursor
  or number it asks for.
\<close>

theorem agent_reads_only_its_own:
  assumes "get_events_for_agent parse agent since want db = Inr pg \<and> e \<in> set (pg_events pg) \<or> agent_event parse agent n db = Inr (Some e)"
  shows "et_kind e \<notin> set HIDDEN_KINDS \<and> (et_agent_id e = None \<or> et_agent_id e = Some agent)"
  using assms
proof
  assume page: "get_events_for_agent parse agent since want db = Inr pg \<and> e \<in> set (pg_events pg)"
  then obtain rs where rows: "rows_to_events parse rs = Inr (pg_events pg)" and scope: "\<forall>r \<in> set rs. in_scope (Some agent) r"
  proof (cases "pg_resync_required pg")
    case True
    with page show ?thesis by (auto simp: get_events_for_agent_def page_def rbind_is_Inr Let_def split: if_splits)
  next
    case False
    let ?rs = "take (min want MAX_PAGE) (sort_key ev_seq (filter (\<lambda>r. ev_seq r > int since \<and> in_scope (Some agent) r) (db_events db)))"
    have "rows_to_events parse ?rs = Inr (pg_events pg)"
      using page False by (auto simp: get_events_for_agent_def page_def rbind_is_Inr Let_def seq_key_def split: if_splits)
    moreover have "\<forall>r \<in> set ?rs. in_scope (Some agent) r" by (auto dest: in_set_takeD)
    ultimately show ?thesis using that by blast
  qed
  from rows_to_events_shows [OF rows] page obtain r where "r \<in> set rs" "shows_row r e"
    by (metis in_set_conv_nth list_all2_conv_all_nth)
  with scope in_scope_shows show ?thesis by blast
next
  assume "agent_event parse agent n db = Inr (Some e)"
  then obtain found where "(case found of None \<Rightarrow> None
      | Some e' \<Rightarrow> if et_kind e' \<notin> set HIDDEN_KINDS \<and> is_none_or (\<lambda>owner. owner = agent) (et_agent_id e') then Some e' else None) = Some e"
    unfolding agent_event_def rbind_is_Inr by blast
  then have "et_kind e \<notin> set HIDDEN_KINDS \<and> is_none_or (\<lambda>owner. owner = agent) (et_agent_id e)"
    by (simp split: option.splits if_splits)
  then show ?thesis by (cases "et_agent_id e") simp_all
qed

lemma sample_page:
  "\<exists>e. page (\<lambda>_. Some JNull) (Some ''a'') 0 10 (lg_db sample_one) =
     Inr \<lparr>pg_events = [e], pg_next_cursor = 1, pg_resync_required = False, pg_head_seq = 1\<rparr>"
proof -
  have "event_kind_parse ''alert'' = Inr EkAlert" using event_kind_parse_str [of EkAlert] by (simp add: event_kind_str_def EVENT_KINDS_def)
  moreover have "''alert'' \<notin> event_kind_str ` set HIDDEN_KINDS" by (simp add: event_kind_str_def EVENT_KINDS_def HIDDEN_KINDS_def)
  ultimately show ?thesis
    by (simp add: page_def sample_one_eq first_row_def note_row_def chain_head_def seq_of_def seq_key_def min_opt_def in_scope_def
        event_from_row_def MAX_PAGE_def width_vals Let_def sat_add64_def sat_u64_def)
qed

theorem pages_follow_on_witness:
  "\<exists>pg. page (\<lambda>_. Some JNull) (Some ''a'') 0 10 (lg_db sample_one) = Inr pg
     \<and> list_all2 shows_row (visible (Some ''a'') 0 (pg_next_cursor pg) (lg_db sample_one)) (pg_events pg)"
proof -
  from sample_page obtain pg where pg: "page (\<lambda>_. Some JNull) (Some ''a'') 0 10 (lg_db sample_one) = Inr pg" "\<not> pg_resync_required pg"
    by auto
  have "seqs_ok (lg_db sample_one)"
    by (simp add: seqs_ok_def sample_one_eq first_row_def note_row_def chain_head_def seq_of_def Let_def)
  from pages_follow_on [OF pg this] pg(1) show ?thesis by blast
qed

theorem agent_reads_only_its_own_witness:
  "\<exists>pg e. get_events_for_agent (\<lambda>_. Some JNull) ''a'' 0 10 (lg_db sample_one) = Inr pg \<and> e \<in> set (pg_events pg)
     \<and> et_kind e \<notin> set HIDDEN_KINDS \<and> (et_agent_id e = None \<or> et_agent_id e = Some ''a'')"
proof -
  from sample_page obtain pg e where
    pg: "get_events_for_agent (\<lambda>_. Some JNull) ''a'' 0 10 (lg_db sample_one) = Inr pg" "e \<in> set (pg_events pg)"
    by (auto simp: get_events_for_agent_def)
  with agent_reads_only_its_own [of "\<lambda>_. Some JNull" "''a''" 0 10 "lg_db sample_one" pg e] show ?thesis by blast
qed

end
