(* ===== verification/Pilot.thy ===== *)
theory Pilot
  imports Submission Ledger_Verify "HOL-Library.Product_Lexorder"
begin

text \<open>
  \<open>ledger/pilot.rs\<close>: the accounting of the one operator-authorized pilot over the event chain. Executed
  notional and outstanding reservations are projected from the rows; a fill that takes the account past
  a limit is latched as a stop. Here are the rows of the pilot, their validation and the projection; the
  operations are in \<open>Pilot_Journal\<close>. A reserved order is the clearance its intent row holds. Parameters are
  what the serde derives and \<open>Decimal::from_str_exact\<close> read and write, the replay of the submission
  journal, the MAC of the authority key and the routes of the registry.
\<close>

section \<open>Addresses as text\<close>

definition hex_nibble :: "char \<Rightarrow> nat option" where
  "hex_nibble c =
     (let n = of_char c in
      if 48 \<le> n \<and> n \<le> 57 then Some (n - 48)
      else if 97 \<le> n \<and> n \<le> 102 then Some (n - 87)
      else if 65 \<le> n \<and> n \<le> 70 then Some (n - 55) else None)"

fun decode_hex :: "string \<Rightarrow> 8 word list option" where
  "decode_hex [] = Some []"
| "decode_hex [c] = None"
| "decode_hex (c # d # rest) =
     (case (hex_nibble c, hex_nibble d) of
        (Some h, Some l) \<Rightarrow> map_option (\<lambda>ws. of_nat (16 * h + l) # ws) (decode_hex rest)
      | _ \<Rightarrow> None)"

definition address_parse :: "string \<Rightarrow> address option" where
  "address_parse s =
     (let hex_part = (if take 2 s = ''0x'' then drop 2 s else s) in
      if length hex_part \<noteq> 40 then None else map_option Address (decode_hex hex_part))"

definition address_text :: "address \<Rightarrow> string" where
  "address_text a =
     (case a of Address ws \<Rightarrow> ''0x'' @ concat (map (\<lambda>w. [hex_digit (unat w div 16), hex_digit (unat w mod 16)]) ws))"

section \<open>Fields of a value\<close>

text \<open>Indexing a value gives null where there is no such member.\<close>

definition json_index :: "json \<Rightarrow> string \<Rightarrow> json" where
  "json_index v key = (case json_get key v of Some x \<Rightarrow> x | None \<Rightarrow> JNull)"

text \<open>Assignment through an index replaces the member or adds it; null becomes an object first.\<close>

fun set_member :: "string \<Rightarrow> json \<Rightarrow> (string \<times> json) list \<Rightarrow> (string \<times> json) list" where
  "set_member key x [] = [(key, x)]"
| "set_member key x (m # ms) = (if fst m = key then (key, x) # ms else m # set_member key x ms)"

definition json_set :: "string \<Rightarrow> json \<Rightarrow> json \<Rightarrow> json" where
  "json_set key x v = (case v of JObj ms \<Rightarrow> JObj (set_member key x ms) | JNull \<Rightarrow> JObj [(key, x)] | _ \<Rightarrow> v)"

definition json_as_str :: "json \<Rightarrow> string option" where
  "json_as_str v = (case v of JStr s \<Rightarrow> Some s | _ \<Rightarrow> None)"

definition json_address :: "json \<Rightarrow> address option" where
  "json_address v = Option.bind (json_as_str v) address_parse"

definition json_cloid :: "json \<Rightarrow> cloid option" where
  "json_cloid v = Option.bind (json_as_str v) (\<lambda>s. case cloid_parse s of Inl _ \<Rightarrow> None | Inr c \<Rightarrow> Some c)"

section \<open>Errors and states\<close>

datatype pilot_error =
    PxLedger ledger_error
  | PxUnavailable string
  | PxExhausted pilot_metric decimal decimal

datatype pilot_stop =
    PsAwaitingReconciliation
  | PsExhausted pilot_metric decimal decimal
  | PsUnavailable string

record pilot_state =
  ps_agent :: agent_id
  ps_account :: address
  ps_authorized_at_ms :: nat
  ps_baseline :: anchor
  ps_executed_usd :: decimal
  ps_reserved_usd :: decimal
  ps_net_realized_pnl_usd :: decimal
  ps_halt :: "pilot_stop option"

record authorized =
  az_version :: nat
  az_network :: network
  az_agent :: agent_id
  az_account :: address
  az_baseline_at_ms :: nat
  az_baseline :: anchor
  az_order_limit_usd :: decimal
  az_executed_limit_usd :: decimal
  az_realized_loss_limit_usd :: decimal

record halted =
  hl_version :: nat
  hl_account :: address
  hl_authorization_seq :: nat
  hl_authorization_hash :: string
  hl_trigger_seq :: nat
  hl_trigger_hash :: "string option"
  hl_stop :: pilot_stop

record authority =
  ay_seq :: nat
  ay_hash :: string
  ay_data :: authorized
  ay_halt :: "pilot_stop option"
  ay_event :: event

record pilot_history =
  ph_authorities :: "authority list"
  ph_submissions :: "pilot_submission list"
  ph_fills :: "event list"
  ph_fill_keys :: "nat \<rightharpoonup> string option"
  ph_adoption :: "event option"

text \<open>What an operator's signed consent says: a fresh authorization, or the adoption of a reviewed legacy one.\<close>

datatype consent_operation =
    CoAuthorized authorized
  | CoAdopted nat string anchor pilot_state

record consent_envelope =
  ce_version :: nat
  ce_network :: network
  ce_seq :: nat
  ce_prev_hash :: string
  ce_at_ms :: nat
  ce_route :: authorized_route
  ce_route_hash :: string
  ce_operation :: consent_operation

record signed_consent =
  sn_envelope :: consent_envelope
  sn_mac :: string

text \<open>
  What the rows are read and written with: the decimals, the parser and the printer of JSON, the digest,
  the error texts, the replay of the submissions, the serde derives, the MAC of the authority key, and
  the routes of the registry.
\<close>

record pilot_env =
  pe_dec :: declib
  pe_exact :: "string \<Rightarrow> decimal option"
  pe_parse :: "string \<Rightarrow> json option"
  pe_json_text :: "json \<Rightarrow> string"
  pe_digest :: digest
  pe_error_text :: "pilot_error \<Rightarrow> string"
  pe_submissions :: "ledger \<Rightarrow> ledger_db \<Rightarrow> bool \<Rightarrow> string + pilot_submission list"
  pe_authorized_of :: "json \<Rightarrow> authorized option"
  pe_authorized_json :: "authorized \<Rightarrow> json"
  pe_halted_of :: "json \<Rightarrow> halted option"
  pe_halted_json :: "halted \<Rightarrow> json"
  pe_signed_of :: "json \<Rightarrow> signed_consent option"
  pe_signed_json :: "signed_consent \<Rightarrow> json"
  pe_envelope_json :: "consent_envelope \<Rightarrow> json"
  pe_mac_sign :: "string \<Rightarrow> string option"
  pe_mac_ok :: "string \<Rightarrow> 8 word list \<Rightarrow> bool"
  pe_route_in :: "ledger_db \<Rightarrow> agent_id \<Rightarrow> string + authorized_route"
  pe_verify_route_in :: "ledger_db \<Rightarrow> authorized_route \<Rightarrow> address \<Rightarrow> string + unit"

text \<open>The \<open>?\<close> on a value that serde could not decode.\<close>

definition SERDE :: string where "SERDE = ''invalid value''"

definition pilot_stop_error :: "pilot_stop \<Rightarrow> pilot_error" where
  "pilot_stop_error stop =
     (case stop of
        PsAwaitingReconciliation \<Rightarrow> PxUnavailable ''account fills await durable order reconciliation''
      | PsExhausted metric observed_usd limit_usd \<Rightarrow> PxExhausted metric observed_usd limit_usd
      | PsUnavailable detail \<Rightarrow> PxUnavailable detail)"

definition pilot_refusal :: "(pilot_error \<Rightarrow> string) \<Rightarrow> pilot_error \<Rightarrow> refusal" where
  "pilot_refusal text e =
     (case e of
        PxExhausted metric observed_usd limit_usd \<Rightarrow> RfPilotBudget metric observed_usd limit_usd
      | _ \<Rightarrow> RfUnevaluable (UnPilotBudgetUnavailable (text e)))"

definition checked_money :: "decimal option \<Rightarrow> pilot_error + decimal" where
  "checked_money v = ok_or (PxUnavailable ''pilot money arithmetic overflow'') v"

definition money :: "pilot_env \<Rightarrow> json \<Rightarrow> pilot_error + decimal" where
  "money E v =
     rbind (ok_or (PxUnavailable ''pilot money must be a decimal string'') (json_as_str v)) (\<lambda>text.
     rbind (ensure (text \<noteq> [] \<and> list_all (\<lambda>c. is_digit c \<or> c = CHR ''.'' \<or> c = CHR ''-'') text)
       (PxUnavailable ''malformed pilot decimal'')) (\<lambda>_.
     ok_or (PxUnavailable ''malformed or over-precise pilot decimal'') (pe_exact E text)))"

section \<open>Orders and fills\<close>

record order_terms =
  tm_sz :: decimal
  tm_valuation :: decimal
  tm_symbol :: string
  tm_is_buy :: bool

definition terms_of :: "clearance \<Rightarrow> pilot_error + order_terms" where
  "terms_of cl =
     (case cr_kind cl of
        CkOrder x \<Rightarrow>
          rbind (ensure (0 < co_px x \<and> 0 < co_reference_px x \<and> 0 < co_sz x)
            (PxUnavailable ''pilot order values must be positive'')) (\<lambda>_.
          rbind (ensure (co_symbol x \<noteq> []) (PxUnavailable ''missing pilot symbol'')) (\<lambda>_.
          Inr \<lparr>tm_sz = co_sz x, tm_valuation = max (co_px x) (co_reference_px x), tm_symbol = co_symbol x, tm_is_buy = co_is_buy x\<rparr>))
      | _ \<Rightarrow> Inl (PxUnavailable ''pilot reservation has no order intent''))"

definition order_limit :: "pilot_env \<Rightarrow> clearance \<Rightarrow> authorized \<Rightarrow> pilot_error + decimal" where
  "order_limit E cl data =
     rbind (terms_of cl) (\<lambda>t.
     rbind (checked_money (checked_mul (pe_dec E) (tm_sz t) (tm_valuation t))) (\<lambda>amount.
     rbind (ensure (\<not> amount > az_order_limit_usd data)
       (PxExhausted PmOrderNotional amount (az_order_limit_usd data))) (\<lambda>_.
     Inr amount)))"

definition permitted :: "pilot_env \<Rightarrow> pilot_state \<Rightarrow> decimal \<Rightarrow> authorized \<Rightarrow> pilot_error + unit" where
  "permitted E st added data =
     (case ps_halt st of
        Some stop \<Rightarrow> Inl (pilot_stop_error stop)
      | None \<Rightarrow>
          rbind (checked_money (checked_add (pe_dec E) (ps_executed_usd st) (ps_reserved_usd st))) (\<lambda>held.
          rbind (checked_money (checked_add (pe_dec E) held added)) (\<lambda>committed.
          ensure (\<not> committed > az_executed_limit_usd data)
            (PxExhausted PmCommittedNotional committed (az_executed_limit_usd data)))))"

record account_fill =
  af_seq :: nat
  af_ts_ms :: nat
  af_tid :: nat
  af_oid :: nat
  af_cloid :: "cloid option"
  af_px :: decimal
  af_sz :: decimal
  af_net :: decimal
  af_closed_pnl :: decimal
  af_fee :: decimal
  af_symbol :: string
  af_is_buy :: bool

definition fill_cloid :: "json \<Rightarrow> pilot_error + cloid option" where
  "fill_cloid v =
     (case json_get ''cloid'' v of
        Some JNull \<Rightarrow> Inr None
      | Some x \<Rightarrow> rbind (ok_or (PxUnavailable SERDE) (json_cloid x)) (\<lambda>c. Inr (Some c))
      | None \<Rightarrow> Inl (PxUnavailable ''missing fill cloid field''))"

definition fill_side :: "json \<Rightarrow> pilot_error + bool" where
  "fill_side v =
     (if json_as_str v = Some ''buy'' then Inr True
      else if json_as_str v = Some ''sell'' then Inr False
      else Inl (PxUnavailable ''invalid fill side''))"

definition read_fill :: "pilot_env \<Rightarrow> event \<Rightarrow> json \<Rightarrow> pilot_error + account_fill" where
  "read_fill E e v =
     rbind (ok_or (PxUnavailable ''missing fill timestamp'') (json_as_u64 (json_index v ''ts_ms''))) (\<lambda>ts_ms.
     rbind (ensure (ts_ms \<le> I64_MAX \<and> int ts_ms = et_ts_ms e) (PxUnavailable ''fill timestamp mismatch'')) (\<lambda>_.
     rbind (ensure (json_index v ''fee_token'' = JStr ''USDC'') (PxUnavailable ''pilot fees require USDC'')) (\<lambda>_.
     rbind (money E (json_index v ''px'')) (\<lambda>px.
     rbind (money E (json_index v ''sz'')) (\<lambda>sz.
     rbind (ensure (0 < px \<and> 0 < sz) (PxUnavailable ''fill price and quantity must be positive'')) (\<lambda>_.
     rbind (fill_cloid v) (\<lambda>cloid.
     rbind (money E (json_index v ''closed_pnl'')) (\<lambda>closed_pnl.
     rbind (money E (json_index v ''fee'')) (\<lambda>fee.
     rbind (ok_or (PxUnavailable ''missing fill trade id'') (json_as_u64 (json_index v ''tid''))) (\<lambda>tid.
     rbind (ok_or (PxUnavailable ''missing fill order id'') (json_as_u64 (json_index v ''oid''))) (\<lambda>oid.
     rbind (checked_money (checked_sub (pe_dec E) closed_pnl fee)) (\<lambda>net.
     rbind (ok_or (PxUnavailable ''missing fill symbol'') (json_as_str (json_index v ''coin''))) (\<lambda>symbol.
     rbind (fill_side (json_index v ''side'')) (\<lambda>is_buy.
     Inr \<lparr>af_seq = et_seq e, af_ts_ms = ts_ms, af_tid = tid, af_oid = oid, af_cloid = cloid, af_px = px, af_sz = sz,
          af_net = net, af_closed_pnl = closed_pnl, af_fee = fee, af_symbol = symbol, af_is_buy = is_buy\<rparr>))))))))))))))"

section \<open>Stops on the chain\<close>

definition parse_halt :: "pilot_env \<Rightarrow> json \<Rightarrow> pilot_error + halted" where
  "parse_halt E payload =
     rbind (ensure (json_get ''trigger_hash'' payload \<noteq> None) (PxUnavailable ''missing pilot trigger hash field'')) (\<lambda>_.
     rbind (if json_index (json_index payload ''stop'') ''reason'' = JStr ''exhausted''
            then rbind (money E (json_index (json_index payload ''stop'') ''observed_usd'')) (\<lambda>_.
                 rbind (money E (json_index (json_index payload ''stop'') ''limit_usd'')) (\<lambda>_. Inr ()))
            else Inr ()) (\<lambda>_.
     ok_or (PxUnavailable SERDE) (pe_halted_of E payload)))"

fun set_halt :: "nat \<Rightarrow> pilot_stop \<Rightarrow> authority list \<Rightarrow> authority list" where
  "set_halt n stop [] = []"
| "set_halt n stop (a # as) = (if ay_seq a = n then a\<lparr>ay_halt := Some stop\<rparr> # as else a # set_halt n stop as)"

definition halt_key :: "nat \<Rightarrow> string" where
  "halt_key n = ''pilot_halted:'' @ nat_digits n"

definition check_stop :: "authority \<Rightarrow> pilot_stop \<Rightarrow> pilot_error + unit" where
  "check_stop a stop =
     (case stop of
        PsAwaitingReconciliation \<Rightarrow> Inl (PxUnavailable ''transient reconciliation state cannot be durably halted'')
      | PsExhausted metric observed_usd limit_usd \<Rightarrow>
          rbind (case metric of
                   PmExecutedNotional \<Rightarrow> Inr (az_executed_limit_usd (ay_data a))
                 | PmRealizedLoss \<Rightarrow> Inr (az_realized_loss_limit_usd (ay_data a))
                 | _ \<Rightarrow> Inl (PxUnavailable ''non-latching pilot metric'')) (\<lambda>limit.
          ensure (\<not> (limit_usd \<noteq> limit \<or> observed_usd < limit)) (PxUnavailable ''invalid pilot halt threshold''))
      | PsUnavailable detail \<Rightarrow> ensure (detail \<noteq> []) (PxUnavailable ''empty pilot halt reason''))"

definition check_trigger_account :: "halted \<Rightarrow> event \<Rightarrow> pilot_error + unit" where
  "check_trigger_account h trigger =
     (case Option.bind (et_payload trigger) (json_get ''account'') of
        Some account \<Rightarrow>
          rbind (ok_or (PxUnavailable SERDE) (json_address account)) (\<lambda>found.
          ensure (found = hl_account h) (PxUnavailable ''pilot halt trigger account mismatch''))
      | None \<Rightarrow>
          ensure (\<not> (case hl_stop h of PsExhausted _ _ _ \<Rightarrow> True | _ \<Rightarrow> False)) (PxUnavailable ''pilot threshold trigger account missing''))"

text \<open>A stop is a row of its own, or embedded in the fill that triggers it.\<close>

definition validate_halt ::
  "pilot_history \<Rightarrow> event \<Rightarrow> string option \<Rightarrow> halted \<Rightarrow> bool \<Rightarrow> pilot_error + pilot_history" where
  "validate_halt H e key h embedded =
     rbind (ok_or (PxUnavailable ''pilot halt without earlier authorization'')
              (find (\<lambda>a. ay_seq a = hl_authorization_seq h) (ph_authorities H))) (\<lambda>a.
     rbind (ensure (\<not> (hl_version h \<noteq> 1 \<or> hl_account h \<noteq> az_account (ay_data a) \<or> hl_authorization_hash h \<noteq> ay_hash a
                       \<or> ay_halt a \<noteq> None
                       \<or> (\<not> embedded \<and> (et_agent_id e \<noteq> Some (az_agent (ay_data a)) \<or> key \<noteq> Some (halt_key (ay_seq a))))))
              (PxUnavailable ''pilot halt linkage mismatch'')) (\<lambda>_.
     rbind (if embedded then Inr e
            else ok_or (PxUnavailable ''pilot halt has no earlier trigger fill'')
                   (find (\<lambda>f. et_seq f = hl_trigger_seq h) (ph_fills H))) (\<lambda>trigger.
     rbind (ensure (\<not> ((embedded \<and> (hl_trigger_hash h \<noteq> None \<or> hl_trigger_seq h \<noteq> et_seq e))
                       \<or> (\<not> embedded \<and> hl_trigger_hash h \<noteq> Some (et_hash trigger))
                       \<or> et_seq trigger \<le> ay_seq a))
              (PxUnavailable ''pilot halt trigger hash mismatch'')) (\<lambda>_.
     rbind (check_trigger_account h trigger) (\<lambda>_.
     rbind (check_stop a (hl_stop h)) (\<lambda>_.
     Inr (H\<lparr>ph_authorities := set_halt (ay_seq a) (hl_stop h) (ph_authorities H)\<rparr>)))))))"

section \<open>The history of a pilot\<close>

definition pilot_kinds :: "string set" where
  "pilot_kinds = {''pilot_authorized'', ''pilot_adopted'', ''pilot_halted'', ''fill''}"

definition pilot_key :: "address \<Rightarrow> string" where
  "pilot_key account = ''pilot_authorized:'' @ address_text account"

text \<open>The address of twenty zero bytes.\<close>

definition ZERO_ADDRESS :: address where "ZERO_ADDRESS = Address (replicate 20 0)"

definition network_of_key :: "string \<Rightarrow> network option" where
  "network_of_key s = (if s = ''testnet'' then Some Testnet else if s = ''mainnet'' then Some Mainnet else None)"

fun check_money_fields :: "pilot_env \<Rightarrow> json \<Rightarrow> string list \<Rightarrow> pilot_error + unit" where
  "check_money_fields E v [] = Inr ()"
| "check_money_fields E v (f # fs) = rbind (money E (json_index v f)) (\<lambda>_. check_money_fields E v fs)"

definition sql_u64 :: "nat \<Rightarrow> pilot_error + unit" where
  "sql_u64 n = ensure (n \<le> I64_MAX) (PxLedger (LgSqlite ''integer out of range''))"

definition baseline_hash :: "ledger \<Rightarrow> ledger_db \<Rightarrow> anchor \<Rightarrow> pilot_error + string" where
  "baseline_hash L db b =
     (if an_seq b = 0 then Inr (lg_genesis L)
      else rbind (sql_u64 (an_seq b)) (\<lambda>_.
           rbind (ok_or (PxLedger NO_ROWS) (find_event (an_seq b) db)) (\<lambda>r. Inr (ev_hash r))))"

section \<open>Signed consent\<close>

definition consent_at :: "nat \<Rightarrow> pilot_error + int" where
  "consent_at at_ms = (if at_ms \<le> I64_MAX then Inr (int at_ms) else Inl (PxUnavailable ''pilot timestamp out of range''))"

definition consent_kind :: "consent_operation \<Rightarrow> event_kind" where
  "consent_kind op = (case op of CoAuthorized _ \<Rightarrow> EkPilotAuthorized | CoAdopted _ _ _ _ \<Rightarrow> EkPilotAdopted)"

definition valid_identity :: "agent_id \<Rightarrow> address \<Rightarrow> pilot_error + unit" where
  "valid_identity agent account =
     rbind (map_err (\<lambda>e. PxUnavailable (state_error_text e)) (checked_agent_id agent)) (\<lambda>_.
     ensure (account \<noteq> ZERO_ADDRESS) (PxUnavailable ''pilot account must be nonzero''))"

definition is_signed :: "event \<Rightarrow> bool" where
  "is_signed e = is_some_and (\<lambda>p. json_get ''envelope'' p \<noteq> None) (et_payload e)"

definition canonical :: "json \<Rightarrow> pilot_error + string" where
  "canonical v = map_err (\<lambda>e. PxLedger (json_error_of e)) (canonical_json v)"

definition consent_message :: "pilot_env \<Rightarrow> consent_envelope \<Rightarrow> pilot_error + string" where
  "consent_message E envelope =
     canonical (JObj [(''domain'', JStr ''oppen.pilot-consent.v1''), (''envelope'', pe_envelope_json E envelope)])"

definition is_mac_digit :: "char \<Rightarrow> bool" where
  "is_mac_digit c = (let n = (of_char c :: nat) in (48 \<le> n \<and> n \<le> 57) \<or> (97 \<le> n \<and> n \<le> 102))"

text \<open>What the envelope says has to be what the row says; values are compared up to the order of fields.\<close>

definition parse_consent :: "pilot_env \<Rightarrow> ledger \<Rightarrow> string option \<Rightarrow> event \<Rightarrow> pilot_error + signed_consent" where
  "parse_consent E L raw event =
     rbind (ok_or (PxUnavailable ''pilot consent redacted'') (et_payload event)) (\<lambda>payload.
     rbind (canonical payload) (\<lambda>text.
     rbind (ensure (raw = Some text) (PxUnavailable ''pilot consent duplicate keys or noncanonical JSON'')) (\<lambda>_.
     rbind (ok_or (PxUnavailable SERDE) (pe_signed_of E payload)) (\<lambda>sn.
     rbind (ensure (normal (pe_signed_json E sn) = normal payload) (PxUnavailable ''pilot consent missing, unknown, or noncanonical fields'')) (\<lambda>_.
     let e = sn_envelope sn; mismatch = PxUnavailable ''pilot consent envelope does not match its row'' in
     rbind (ensure (\<not> (ce_version e \<noteq> 2 \<or> ce_network e \<noteq> Testnet \<or> Some (ce_network e) \<noteq> network_of_key (lg_network L)
                       \<or> ce_seq e \<noteq> et_seq event \<or> ce_prev_hash e \<noteq> et_prev_hash event)) mismatch) (\<lambda>_.
     rbind (consent_at (ce_at_ms e)) (\<lambda>ts_ms.
     rbind (ensure (\<not> (ts_ms \<noteq> et_ts_ms event \<or> consent_kind (ce_operation e) \<noteq> et_kind event
                       \<or> rt_network (ce_route e) \<noteq> ce_network e
                       \<or> et_agent_id event \<noteq> Some (rb_agent (rt_binding (ce_route e)))
                       \<or> et_snapshot_id event \<noteq> None \<or> et_snapshot_hash event \<noteq> None
                       \<or> length (sn_mac sn) \<noteq> 64 \<or> \<not> list_all is_mac_digit (sn_mac sn))) mismatch) (\<lambda>_.
     let binding = rt_binding (ce_route e) in
     rbind (valid_identity (rb_agent binding) (rb_container binding)) (\<lambda>_.
     rbind (ensure (\<not> is_some_and (\<lambda>vault. vault \<noteq> rb_container binding) (rb_vault_address binding))
              (PxUnavailable ''pilot consent vault differs from container'')) (\<lambda>_.
     Inr sn))))))))))"

text \<open>A stored consent read back, linked to the registry grant of its route.\<close>

definition read_consent :: "pilot_env \<Rightarrow> ledger \<Rightarrow> ledger_db \<Rightarrow> event \<Rightarrow> pilot_error + signed_consent" where
  "read_consent E L db event =
     rbind (ok_or (PxLedger NO_ROWS) (find_event (et_seq event) db)) (\<lambda>r.
     rbind (parse_consent E L (case ev_payload r of PcText text \<Rightarrow> Some text | _ \<Rightarrow> None) event) (\<lambda>sn.
     let route = ce_route (sn_envelope sn) in
     rbind (sql_u64 (rt_binding_seq route)) (\<lambda>_.
     rbind (ok_or (PxLedger NO_ROWS)
       (find (\<lambda>r. ev_seq r = int (rt_binding_seq route) \<and> ev_kind r = ''registry_granted'') (db_events db))) (\<lambda>granted.
     rbind (ensure (\<not> (ev_hash granted \<noteq> ce_route_hash (sn_envelope sn) \<or> et_seq event \<le> rt_binding_seq route))
              (PxUnavailable ''pilot registry linkage mismatch'')) (\<lambda>_.
     Inr sn)))))"

definition authorization_payload ::
  "pilot_env \<Rightarrow> ledger \<Rightarrow> string option \<Rightarrow> event \<Rightarrow> json \<Rightarrow> pilot_error + json" where
  "authorization_payload E L raw event payload =
     (if \<not> is_signed event then
        rbind (canonical payload) (\<lambda>text.
        rbind (ensure (raw = Some text) (PxUnavailable ''legacy pilot duplicate keys or noncanonical JSON'')) (\<lambda>_.
        rbind (ok_or (PxUnavailable SERDE) (pe_authorized_of E payload)) (\<lambda>data.
        rbind (ensure (normal (pe_authorized_json E data) = normal payload) (PxUnavailable ''legacy pilot fields missing or unknown'')) (\<lambda>_.
        Inr payload))))
      else
        rbind (parse_consent E L raw event) (\<lambda>sn.
        case ce_operation (sn_envelope sn) of
          CoAuthorized data \<Rightarrow>
            rbind (ensure (\<not> (rb_agent (rt_binding (ce_route (sn_envelope sn))) \<noteq> az_agent data
                              \<or> rb_container (rt_binding (ce_route (sn_envelope sn))) \<noteq> az_account data
                              \<or> ce_at_ms (sn_envelope sn) \<noteq> az_baseline_at_ms data))
                     (PxUnavailable ''pilot consent identity or baseline mismatch'')) (\<lambda>_.
            Inr (pe_authorized_json E data))
        | _ \<Rightarrow> Inl (PxUnavailable ''pilot authorization operation mismatch'')))"

definition adoption_key :: "nat \<Rightarrow> string" where
  "adoption_key n = ''pilot_adopted:'' @ nat_digits n"

definition validate_adoption ::
  "pilot_env \<Rightarrow> ledger \<Rightarrow> string option \<Rightarrow> event \<Rightarrow> authority list \<Rightarrow> string option \<Rightarrow> pilot_error + unit" where
  "validate_adoption E L raw event authorities key =
     (case authorities of
        [] \<Rightarrow> Inl (PxUnavailable ''pilot adoption without legacy authorization'')
      | a # _ \<Rightarrow>
          rbind (ensure (\<not> is_signed (ay_event a)) (PxUnavailable ''signed pilot cannot be adopted again'')) (\<lambda>_.
          rbind (parse_consent E L raw event) (\<lambda>sn.
          case ce_operation (sn_envelope sn) of
            CoAuthorized _ \<Rightarrow> Inl (PxUnavailable ''pilot adoption operation mismatch'')
          | CoAdopted authorization_seq authorization_hash reviewed_head reviewed_state \<Rightarrow>
              ensure (\<not> (authorization_seq \<noteq> ay_seq a \<or> authorization_hash \<noteq> ay_hash a
                         \<or> an_seq reviewed_head + 1 \<noteq> et_seq event \<or> an_hash reviewed_head \<noteq> et_prev_hash event
                         \<or> ps_agent reviewed_state \<noteq> az_agent (ay_data a) \<or> ps_account reviewed_state \<noteq> az_account (ay_data a)
                         \<or> ps_baseline reviewed_state \<noteq> az_baseline (ay_data a)
                         \<or> ps_authorized_at_ms reviewed_state \<noteq> az_baseline_at_ms (ay_data a)
                         \<or> rb_agent (rt_binding (ce_route (sn_envelope sn))) \<noteq> az_agent (ay_data a)
                         \<or> rb_container (rt_binding (ce_route (sn_envelope sn))) \<noteq> az_account (ay_data a)
                         \<or> key \<noteq> Some (adoption_key (ay_seq a))))
                (PxUnavailable ''pilot adoption does not bind original authority and reviewed history''))))"

section \<open>Reading the history\<close>

definition read_authorization ::
  "pilot_env \<Rightarrow> ledger \<Rightarrow> ledger_db \<Rightarrow> event \<Rightarrow> string option \<Rightarrow> string option \<Rightarrow> json \<Rightarrow> pilot_history \<Rightarrow> pilot_error + pilot_history" where
  "read_authorization E L db e raw key payload H =
     rbind (authorization_payload E L raw e payload) (\<lambda>v.
     rbind (check_money_fields E v [''order_limit_usd'', ''executed_limit_usd'', ''realized_loss_limit_usd'']) (\<lambda>_.
     rbind (ok_or (PxUnavailable SERDE) (pe_authorized_of E v)) (\<lambda>data.
     rbind (ensure (\<not> (az_version data \<noteq> 1 \<or> ph_authorities H \<noteq> [] \<or> az_order_limit_usd data \<noteq> 15
                       \<or> az_executed_limit_usd data \<noteq> 150 \<or> az_realized_loss_limit_usd data \<noteq> 5
                       \<or> az_network data \<noteq> Testnet \<or> Some (az_network data) \<noteq> network_of_key (lg_network L)
                       \<or> et_agent_id e \<noteq> Some (az_agent data) \<or> \<not> is_ok (checked_agent_id (az_agent data))
                       \<or> az_account data = ZERO_ADDRESS
                       \<or> \<not> (az_baseline_at_ms data \<le> I64_MAX \<and> int (az_baseline_at_ms data) = et_ts_ms e)
                       \<or> an_seq (az_baseline data) + 1 \<noteq> et_seq e \<or> key \<noteq> Some (pilot_key (az_account data))))
              (PxUnavailable ''invalid, duplicate, or wrong-network pilot authorization'')) (\<lambda>_.
     rbind (baseline_hash L db (az_baseline data)) (\<lambda>h.
     rbind (ensure (an_hash (az_baseline data) = h) (PxUnavailable ''pilot baseline head mismatch'')) (\<lambda>_.
     Inr (H\<lparr>ph_authorities := ph_authorities H @
              [\<lparr>ay_seq = et_seq e, ay_hash = et_hash e, ay_data = data, ay_halt = None, ay_event = e\<rparr>]\<rparr>)))))))"

definition history_row ::
  "pilot_env \<Rightarrow> ledger \<Rightarrow> ledger_db \<Rightarrow> event_row \<Rightarrow> pilot_history \<Rightarrow> pilot_error + pilot_history" where
  "history_row E L db r H =
     rbind (map_err PxLedger (event_from_row (pe_parse E) r)) (\<lambda>e.
     let key = ev_idem_key r; raw = (case ev_payload r of PcText text \<Rightarrow> Some text | _ \<Rightarrow> None) in
     if et_kind e = EkFill then
       rbind (case Option.bind (et_payload e) (json_get ''pilot_stop'') of
                None \<Rightarrow> Inr H
              | Some stop \<Rightarrow> rbind (parse_halt E stop) (\<lambda>h. validate_halt H e None h True)) (\<lambda>H1.
       Inr (H1\<lparr>ph_fill_keys := (ph_fill_keys H1)(et_seq e \<mapsto> key), ph_fills := ph_fills H1 @ [e]\<rparr>))
     else
       rbind (ok_or (PxUnavailable ''pilot authority or halt redacted'') (et_payload e)) (\<lambda>payload.
       case et_kind e of
         EkPilotAuthorized \<Rightarrow> read_authorization E L db e raw key payload H
       | EkPilotAdopted \<Rightarrow>
           rbind (ensure (ph_adoption H = None) (PxUnavailable ''duplicate pilot adoption'')) (\<lambda>_.
           rbind (validate_adoption E L raw e (ph_authorities H) key) (\<lambda>_.
           Inr (H\<lparr>ph_adoption := Some e\<rparr>)))
       | EkPilotHalted \<Rightarrow> rbind (parse_halt E payload) (\<lambda>h. validate_halt H e key h False)
       | _ \<Rightarrow> Inl (PxUnavailable ''unexpected pilot lifecycle kind'')))"

fun history_rows ::
  "pilot_env \<Rightarrow> ledger \<Rightarrow> ledger_db \<Rightarrow> event_row list \<Rightarrow> pilot_history \<Rightarrow> pilot_error + pilot_history" where
  "history_rows E L db [] H = Inr H"
| "history_rows E L db (r # rs) H = rbind (history_row E L db r H) (history_rows E L db rs)"

definition pilot_rows :: "ledger_db \<Rightarrow> event_row list" where
  "pilot_rows db = sort_key ev_seq (filter (\<lambda>r. ev_kind r \<in> pilot_kinds) (db_events db))"

definition read_history :: "pilot_env \<Rightarrow> ledger \<Rightarrow> ledger_db \<Rightarrow> bool \<Rightarrow> pilot_error + pilot_history" where
  "read_history E L db verify_anchor =
     rbind (map_err (\<lambda>detail. PxUnavailable (''submission history: '' @ detail)) (pe_submissions E L db verify_anchor)) (\<lambda>submissions.
     history_rows E L db (pilot_rows db)
       \<lparr>ph_authorities = [], ph_submissions = submissions, ph_fills = [], ph_fill_keys = Map.empty, ph_adoption = None\<rparr>)"

definition has_authority :: "ledger_db \<Rightarrow> bool" where
  "has_authority db = (\<exists>r \<in> set (db_events db). ev_kind r \<in> {''pilot_authorized'', ''pilot_halted''})"

section \<open>The projection\<close>

definition pilot_initial :: "authorized \<Rightarrow> pilot_state" where
  "pilot_initial data =
     \<lparr>ps_agent = az_agent data, ps_account = az_account data, ps_authorized_at_ms = az_baseline_at_ms data,
      ps_baseline = az_baseline data, ps_executed_usd = 0, ps_reserved_usd = 0, ps_net_realized_pnl_usd = 0, ps_halt = None\<rparr>"

type_synonym allocation = "pilot_submission \<times> order_terms \<times> decimal"

text \<open>The reservations since the authorization, each with its terms and nothing filled.\<close>

fun pilot_allocations :: "authority \<Rightarrow> pilot_submission list \<Rightarrow> pilot_error + allocation list" where
  "pilot_allocations a [] = Inr []"
| "pilot_allocations a (s # ss) =
     (let account = az_account (ay_data a); agent = az_agent (ay_data a) in
      if pb_seq s \<le> ay_seq a \<or> (pb_account s \<noteq> account \<and> pb_agent s \<noteq> agent) then pilot_allocations a ss
      else
        rbind (ensure (pb_account s = account \<and> pb_agent s = agent) (PxUnavailable ''pilot submission changed account or agent'')) (\<lambda>_.
        rbind (terms_of (fst (pb_intent s))) (\<lambda>t.
        rbind (pilot_allocations a ss) (\<lambda>rest.
        Inr ((s, t, 0) # rest)))))"

text \<open>The fills of the account since the authorization, each trade once; \<open>seen\<close> holds them as they were taken.\<close>

definition take_fill ::
  "pilot_env \<Rightarrow> pilot_history \<Rightarrow> authority \<Rightarrow> event \<Rightarrow> account_fill list \<Rightarrow> pilot_error + account_fill list" where
  "take_fill E H a e seen =
     (if et_seq e \<le> ay_seq a then Inr seen
      else
        rbind (ok_or (PxUnavailable ''post-baseline fill payload redacted'') (et_payload e)) (\<lambda>v.
        rbind (ok_or (PxUnavailable ''fill account unknown'') (json_get ''account'' v)) (\<lambda>found.
        rbind (ok_or (PxUnavailable SERDE) (json_address found)) (\<lambda>account.
        if account \<noteq> az_account (ay_data a) then Inr seen
        else
          rbind (read_fill E e v) (\<lambda>parsed.
          rbind (ensure (Option.bind (ph_fill_keys H (et_seq e)) (\<lambda>key. key) = Some (fill_idem_key (address_text account) (af_tid parsed)))
            (PxUnavailable ''pilot fill idempotence key mismatch'')) (\<lambda>_.
          rbind (ensure (\<not> af_ts_ms parsed < az_baseline_at_ms (ay_data a)) (PxUnavailable ''late pre-baseline account fill'')) (\<lambda>_.
          case find (\<lambda>f. af_tid f = af_tid parsed) seen of
            Some previous \<Rightarrow>
              rbind (ensure (previous = parsed\<lparr>af_seq := af_seq previous\<rparr>) (PxUnavailable ''conflicting duplicate account fill'')) (\<lambda>_. Inr seen)
          | None \<Rightarrow> Inr (seen @ [parsed]))))))))"

fun take_fills ::
  "pilot_env \<Rightarrow> pilot_history \<Rightarrow> authority \<Rightarrow> event list \<Rightarrow> account_fill list \<Rightarrow> pilot_error + account_fill list" where
  "take_fills E H a [] seen = Inr seen"
| "take_fills E H a (e # es) seen = rbind (take_fill E H a e seen) (take_fills E H a es)"

definition account_fills :: "pilot_env \<Rightarrow> pilot_history \<Rightarrow> authority \<Rightarrow> pilot_error + account_fill list" where
  "account_fills E H a =
     rbind (take_fills E H a (ph_fills H) []) (\<lambda>fills. Inr (sort_key (\<lambda>f. (af_ts_ms f, af_tid f)) fills))"

definition observed_as :: "pilot_submission \<Rightarrow> nat option" where
  "observed_as s = (case pb_resolution s of Some (SrObserved oid _) \<Rightarrow> Some oid | _ \<Rightarrow> None)"

definition never_live :: "pilot_submission \<Rightarrow> bool" where
  "never_live s = (case pb_resolution s of Some (SrNotSent _) \<Rightarrow> True | Some (SrRejected _) \<Rightarrow> True | _ \<Rightarrow> False)"

definition links :: "account_fill \<Rightarrow> pilot_submission \<Rightarrow> bool" where
  "links f s = (af_cloid f = Some (pb_cloid s) \<or> observed_as s = Some (af_oid f))"

definition candidates :: "account_fill \<Rightarrow> allocation list \<Rightarrow> nat list" where
  "candidates f allocs = filter (\<lambda>i. links f (fst (allocs ! i))) [0..<length allocs]"

definition contradicts :: "account_fill \<Rightarrow> pilot_submission \<Rightarrow> order_terms \<Rightarrow> bool" where
  "contradicts f s t =
     (af_seq f \<le> pb_seq s \<or> is_some_and (\<lambda>c. c \<noteq> pb_cloid s) (af_cloid f) \<or> af_symbol f \<noteq> tm_symbol t
      \<or> af_is_buy f \<noteq> tm_is_buy t \<or> never_live s \<or> is_some_and (\<lambda>oid. oid \<noteq> af_oid f) (observed_as s))"

text \<open>The two thresholds that stop the pilot for good.\<close>

definition threshold_stop :: "authorized \<Rightarrow> pilot_state \<Rightarrow> pilot_stop option" where
  "threshold_stop data st =
     (if ps_executed_usd st \<ge> az_executed_limit_usd data
      then Some (PsExhausted PmExecutedNotional (ps_executed_usd st) (az_executed_limit_usd data))
      else if ps_net_realized_pnl_usd st \<le> - az_realized_loss_limit_usd data
      then Some (PsExhausted PmRealizedLoss (- ps_net_realized_pnl_usd st) (az_realized_loss_limit_usd data))
      else None)"

record projection =
  pj_state :: pilot_state
  pj_allocs :: "allocation list"
  pj_unmatched :: bool

definition count_fill :: "pilot_env \<Rightarrow> authority \<Rightarrow> account_fill \<Rightarrow> pilot_state \<Rightarrow> pilot_error + pilot_state" where
  "count_fill E a f st =
     rbind (checked_money (checked_mul (pe_dec E) (af_px f) (af_sz f))) (\<lambda>notional.
     rbind (checked_money (checked_add (pe_dec E) (ps_executed_usd st) notional)) (\<lambda>executed.
     rbind (checked_money (checked_add (pe_dec E) (ps_net_realized_pnl_usd st) (af_net f))) (\<lambda>pnl.
     let st1 = st\<lparr>ps_executed_usd := executed, ps_net_realized_pnl_usd := pnl\<rparr> in
     Inr (if ps_halt st1 = None then st1\<lparr>ps_halt := threshold_stop (ay_data a) st1\<rparr> else st1))))"

definition allocate_fill :: "pilot_env \<Rightarrow> account_fill \<Rightarrow> allocation list \<Rightarrow> pilot_error + allocation list option" where
  "allocate_fill E f allocs =
     (case candidates f allocs of
        [] \<Rightarrow> Inr None
      | [i] \<Rightarrow>
          let (s, t, quantity) = allocs ! i in
          rbind (ensure (\<not> contradicts f s t) (PxUnavailable ''fill contradicts its durable reservation'')) (\<lambda>_.
          rbind (checked_money (checked_add (pe_dec E) quantity (af_sz f))) (\<lambda>filled.
          rbind (ensure (\<not> filled > tm_sz t) (PxUnavailable ''fills exceed reserved quantity'')) (\<lambda>_.
          Inr (Some (allocs[i := (s, t, filled)])))))
      | _ \<Rightarrow> Inl (PxUnavailable ''ambiguous fill submission linkage''))"

definition apply_fill :: "pilot_env \<Rightarrow> authority \<Rightarrow> account_fill \<Rightarrow> projection \<Rightarrow> pilot_error + projection" where
  "apply_fill E a f p =
     rbind (count_fill E a f (pj_state p)) (\<lambda>st.
     rbind (allocate_fill E f (pj_allocs p)) (\<lambda>allocated.
     Inr (case allocated of
            None \<Rightarrow> p\<lparr>pj_state := st, pj_unmatched := True\<rparr>
          | Some allocs \<Rightarrow> p\<lparr>pj_state := st, pj_allocs := allocs\<rparr>)))"

fun apply_fills :: "pilot_env \<Rightarrow> authority \<Rightarrow> account_fill list \<Rightarrow> projection \<Rightarrow> pilot_error + projection" where
  "apply_fills E a [] p = Inr p"
| "apply_fills E a (f # fs) p = rbind (apply_fill E a f p) (apply_fills E a fs)"

fun reserve :: "pilot_env \<Rightarrow> allocation list \<Rightarrow> pilot_state \<Rightarrow> pilot_error + pilot_state" where
  "reserve E [] st = Inr st"
| "reserve E ((s, t, quantity) # rest) st =
     (if never_live s then reserve E rest st
      else
        rbind (checked_money (checked_sub (pe_dec E) (tm_sz t) quantity)) (\<lambda>remaining.
        rbind (checked_money (checked_mul (pe_dec E) remaining (tm_valuation t))) (\<lambda>held.
        rbind (checked_money (checked_add (pe_dec E) (ps_reserved_usd st) held)) (\<lambda>reserved.
        reserve E rest (st\<lparr>ps_reserved_usd := reserved\<rparr>)))))"

definition project :: "pilot_env \<Rightarrow> pilot_history \<Rightarrow> authority \<Rightarrow> pilot_error + pilot_state" where
  "project E H a =
     rbind (pilot_allocations a (ph_submissions H)) (\<lambda>allocs.
     rbind (account_fills E H a) (\<lambda>fills.
     rbind (apply_fills E a fills \<lparr>pj_state = (pilot_initial (ay_data a))\<lparr>ps_halt := ay_halt a\<rparr>, pj_allocs = allocs, pj_unmatched = False\<rparr>) (\<lambda>p.
     rbind (reserve E (pj_allocs p) (pj_state p)) (\<lambda>st.
     Inr (if pj_unmatched p \<and> ps_halt st = None then st\<lparr>ps_halt := Some PsAwaitingReconciliation\<rparr> else st)))))"

end
