(* ===== verification/Pilot_Journal.thy ===== *)
theory Pilot_Journal
  imports Pilot
begin

text \<open>
  The operations of \<open>ledger/pilot.rs\<close> and \<open>pilot/authority.rs\<close> over a pilot's history: status, the checks
  before a reservation and before a signature, activation and release, the latch of a stop with the
  pilot's branch of recording a fill, and authorization, review and adoption.
\<close>

section \<open>Reading the pilot\<close>

datatype pilot_authentication = PaUnverified | PaLegacyReviewRequired | PaVerified

datatype pilot_accounting = PcKnown decimal decimal decimal | PcUnavailable string

record pilot_status =
  pt_agent :: agent_id
  pt_account :: address
  pt_halt :: "pilot_stop option"
  pt_authentication :: pilot_authentication
  pt_accounting :: pilot_accounting

definition authority_of_account :: "pilot_history \<Rightarrow> address \<Rightarrow> authority option" where
  "authority_of_account H account = find (\<lambda>a. az_account (ay_data a) = account) (ph_authorities H)"

text \<open>The consent that counts is signed: the authorization itself or the adoption of a legacy one.\<close>

definition verify_consent :: "pilot_env \<Rightarrow> ledger \<Rightarrow> ledger_db \<Rightarrow> pilot_history \<Rightarrow> pilot_error + unit" where
  "verify_consent E L db H =
     (case ph_authorities H of
        [] \<Rightarrow> Inr ()
      | a # _ \<Rightarrow>
          rbind (if is_signed (ay_event a) then Inr (ay_event a)
                 else ok_or (PxUnavailable ''legacy pilot consent requires explicit review and adoption'') (ph_adoption H)) (\<lambda>e.
          rbind (read_consent E L db e) (\<lambda>sn.
          rbind (ok_or (PxUnavailable ''invalid pilot consent MAC'') (decode_hex (sn_mac sn))) (\<lambda>mac.
          rbind (consent_message E (sn_envelope sn)) (\<lambda>message.
          ensure (pe_mac_ok E message mac) (PxUnavailable ''pilot consent MAC mismatch''))))))"

definition verify_consent_route ::
  "pilot_env \<Rightarrow> ledger \<Rightarrow> ledger_db \<Rightarrow> pilot_history \<Rightarrow> authorized_route \<Rightarrow> pilot_error + unit" where
  "verify_consent_route E L db H route =
     (case ph_authorities H of
        [] \<Rightarrow> Inr ()
      | a # _ \<Rightarrow>
          rbind (read_consent E L db (case ph_adoption H of Some e \<Rightarrow> e | None \<Rightarrow> ay_event a)) (\<lambda>sn.
          rbind (ensure (ce_route (sn_envelope sn) = route) (PxUnavailable ''pilot consent signing route changed'')) (\<lambda>_.
          map_err PxUnavailable (pe_verify_route_in E db route (aw_address (rb_wallet (rt_binding route)))))))"

definition pilot_state_of ::
  "pilot_env \<Rightarrow> ledger \<Rightarrow> address \<Rightarrow> pilot_error + pilot_state option" where
  "pilot_state_of E L account =
     rbind (read_history E L (lg_db L) True) (\<lambda>H.
     rbind (verify_consent E L (lg_db L) H) (\<lambda>_.
     case authority_of_account H account of
       None \<Rightarrow> Inr None
     | Some a \<Rightarrow> rbind (project E H a) (\<lambda>st. Inr (Some st))))"

definition status_from_history ::
  "pilot_env \<Rightarrow> pilot_history \<Rightarrow> address \<Rightarrow> pilot_authentication \<Rightarrow> pilot_error + pilot_status option" where
  "status_from_history E H account authentication =
     (case authority_of_account H account of
        None \<Rightarrow> Inr None
      | Some a \<Rightarrow>
          rbind (ensure (\<not> list_ex (\<lambda>f. et_seq f > ay_seq a \<and> et_payload f = None) (ph_fills H))
            (PxUnavailable ''required pilot fill history redacted'')) (\<lambda>_.
          let (halt, accounting) =
            (case project E H a of
               Inr st \<Rightarrow> (ps_halt st, PcKnown (ps_executed_usd st) (ps_reserved_usd st) (ps_net_realized_pnl_usd st))
             | Inl e \<Rightarrow> (ay_halt a, PcUnavailable (pe_error_text E e)))
          in Inr (Some \<lparr>pt_agent = az_agent (ay_data a), pt_account = az_account (ay_data a), pt_halt = halt,
                        pt_authentication = authentication, pt_accounting = accounting\<rparr>)))"

definition journal_status :: "pilot_env \<Rightarrow> ledger \<Rightarrow> address \<Rightarrow> pilot_error + pilot_status option" where
  "journal_status E L account =
     rbind (read_history E L (lg_db L) True) (\<lambda>H.
     rbind (verify_consent E L (lg_db L) H) (\<lambda>_.
     status_from_history E H account PaVerified))"

definition keyless_status :: "pilot_env \<Rightarrow> ledger \<Rightarrow> address \<Rightarrow> pilot_error + pilot_status option" where
  "keyless_status E L account =
     rbind (read_history E L (lg_db L) True) (\<lambda>H.
     status_from_history E H account
       (if (case ph_authorities H of a # _ \<Rightarrow> is_signed (ay_event a) | [] \<Rightarrow> False) \<or> ph_adoption H \<noteq> None
        then PaUnverified else PaLegacyReviewRequired))"

section \<open>Guarding orders\<close>

definition check_identity :: "authority \<Rightarrow> address \<Rightarrow> clearance \<Rightarrow> pilot_error + unit" where
  "check_identity a account cl =
     ensure (\<not> (cr_network cl \<noteq> Testnet \<or> cr_agent cl \<noteq> az_agent (ay_data a) \<or> account \<noteq> az_account (ay_data a)
                \<or> is_some_and (\<lambda>v. v \<noteq> account) (cr_vault_address cl)))
       (PxUnavailable ''pilot network, account, or agent does not match authorization'')"

text \<open>Before a reservation: the amount of the order on top of what is executed and reserved.\<close>

definition admit_order :: "pilot_env \<Rightarrow> pilot_history \<Rightarrow> authority \<Rightarrow> address \<Rightarrow> clearance \<Rightarrow> pilot_error + unit" where
  "admit_order E H a account cl =
     rbind (check_identity a account cl) (\<lambda>_.
     rbind (project E H a) (\<lambda>st.
     rbind (order_limit E cl (ay_data a)) (\<lambda>amount.
     permitted E st amount (ay_data a))))"

definition check_admission ::
  "pilot_env \<Rightarrow> ledger \<Rightarrow> ledger_db \<Rightarrow> address \<Rightarrow> clearance \<Rightarrow> pilot_error + unit" where
  "check_admission E L db account cl =
     rbind (read_history E L db True) (\<lambda>H.
     case find (\<lambda>a. az_account (ay_data a) = account \<or> az_agent (ay_data a) = cr_agent cl) (ph_authorities H) of
       None \<Rightarrow> Inr ()
     | Some a \<Rightarrow> admit_order E H a account cl)"

text \<open>Before a signature: the order holds a reservation of its own that is still pending.\<close>

definition check_before_sign :: "pilot_env \<Rightarrow> ledger \<Rightarrow> ledger_db \<Rightarrow> clearance \<Rightarrow> pilot_error + unit" where
  "check_before_sign E L db cl =
     (case cr_kind cl of
        CkOrder _ \<Rightarrow>
          rbind (read_history E L db True) (\<lambda>H.
          case find (\<lambda>a. az_agent (ay_data a) = cr_agent cl) (ph_authorities H) of
            None \<Rightarrow> Inr ()
          | Some a \<Rightarrow>
              rbind (check_identity a (az_account (ay_data a)) cl) (\<lambda>_.
              rbind (project E H a) (\<lambda>st.
              rbind (permitted E st 0 (ay_data a)) (\<lambda>_.
              rbind (ensure (list_ex (\<lambda>s. pb_seq s > ay_seq a \<and> pb_account s = az_account (ay_data a) \<and> pb_agent s = cr_agent cl
                                          \<and> pb_resolution s = None \<and> fst (pb_intent s) = cl) (ph_submissions H))
                (PxUnavailable ''active pilot requires a matching pending durable reservation'')) (\<lambda>_.
              rbind (order_limit E cl (ay_data a)) (\<lambda>_. Inr ()))))))
      | _ \<Rightarrow> Inr ())"

definition authenticate_order ::
  "pilot_env \<Rightarrow> ledger \<Rightarrow> ledger_db \<Rightarrow> address \<Rightarrow> clearance \<Rightarrow> bool \<Rightarrow> pilot_error + unit" where
  "authenticate_order E L db account cl required =
     rbind (read_history E L db True) (\<lambda>H.
     rbind (verify_consent E L db H) (\<lambda>_.
     if \<not> list_ex (\<lambda>a. az_agent (ay_data a) = cr_agent cl \<or> az_account (ay_data a) = account) (ph_authorities H)
     then if required then Inl (PxUnavailable ''authenticated pilot consent required'') else Inr ()
     else verify_consent_route E L db H (cr_route cl)))"

definition check_authenticated_admission ::
  "pilot_env \<Rightarrow> ledger \<Rightarrow> ledger_db \<Rightarrow> address \<Rightarrow> clearance \<Rightarrow> bool \<Rightarrow> pilot_error + unit" where
  "check_authenticated_admission E L db account cl required =
     rbind (authenticate_order E L db account cl required) (\<lambda>_. check_admission E L db account cl)"

definition check_authenticated_before_sign ::
  "pilot_env \<Rightarrow> ledger \<Rightarrow> ledger_db \<Rightarrow> clearance \<Rightarrow> bool \<Rightarrow> pilot_error + unit" where
  "check_authenticated_before_sign E L db cl required =
     (case cr_kind cl of
        CkOrder _ \<Rightarrow>
          rbind (authenticate_order E L db (rb_container (rt_binding (cr_route cl))) cl required) (\<lambda>_.
          check_before_sign E L db cl)
      | _ \<Rightarrow> Inr ())"

definition routed_state ::
  "pilot_env \<Rightarrow> ledger \<Rightarrow> ledger_db \<Rightarrow> authorized_route \<Rightarrow> pilot_error + authority \<times> pilot_state" where
  "routed_state E L db route =
     rbind (read_history E L db True) (\<lambda>H.
     rbind (verify_consent E L db H) (\<lambda>_.
     rbind (verify_consent_route E L db H route) (\<lambda>_.
     rbind (ok_or (PxUnavailable ''matching authenticated pilot consent required'')
       (find (\<lambda>a. az_agent (ay_data a) = rb_agent (rt_binding route) \<and> az_account (ay_data a) = rb_container (rt_binding route))
          (ph_authorities H))) (\<lambda>a.
     rbind (project E H a) (\<lambda>st. Inr (a, st))))))"

definition activation_state_in :: "pilot_env \<Rightarrow> ledger \<Rightarrow> ledger_db \<Rightarrow> authorized_route \<Rightarrow> pilot_error + pilot_state" where
  "activation_state_in E L db route =
     rbind (routed_state E L db route) (\<lambda>(a, st).
     rbind (permitted E st 0 (ay_data a)) (\<lambda>_.
     rbind (ensure (ps_halt st = None) (PxUnavailable ''pilot reconciliation or stop blocks activation'')) (\<lambda>_.
     Inr st)))"

definition release_state_in :: "pilot_env \<Rightarrow> ledger \<Rightarrow> ledger_db \<Rightarrow> authorized_route \<Rightarrow> pilot_error + pilot_state" where
  "release_state_in E L db route =
     rbind (routed_state E L db route) (\<lambda>(a, st).
     rbind (ensure (is_none_or (\<lambda>stop. stop = PsAwaitingReconciliation) (ps_halt st))
       (PxUnavailable ''permanent pilot stop cannot be released'')) (\<lambda>_.
     Inr st))"

section \<open>The baseline\<close>

definition baseline_fill ::
  "pilot_env \<Rightarrow> pilot_submission \<Rightarrow> order_terms \<Rightarrow> nat \<Rightarrow> event \<Rightarrow> decimal \<times> nat list \<Rightarrow> pilot_error + decimal \<times> nat list" where
  "baseline_fill E s t oid e acc =
     (let (quantity, tids) = acc in
      rbind (ok_or (PxUnavailable ''baseline fill redacted'') (et_payload e)) (\<lambda>v.
      rbind (ok_or (PxUnavailable SERDE) (json_address (json_index v ''account''))) (\<lambda>account.
      if account \<noteq> pb_account s
         \<or> (json_as_str (json_index v ''cloid'') \<noteq> Some (cloid_as_str (pb_cloid s)) \<and> json_as_u64 (json_index v ''oid'') \<noteq> Some oid)
      then Inr (quantity, tids)
      else
        rbind (read_fill E e v) (\<lambda>f.
        rbind (ensure (\<not> (af_oid f \<noteq> oid \<or> af_symbol f \<noteq> tm_symbol t \<or> af_is_buy f \<noteq> tm_is_buy t
                          \<or> is_some_and (\<lambda>c. c \<noteq> pb_cloid s) (af_cloid f) \<or> af_seq f \<le> pb_seq s))
          (PxUnavailable ''contradictory baseline fill'')) (\<lambda>_.
        if af_tid f \<in> set tids then Inr (quantity, tids)
        else rbind (checked_money (checked_add (pe_dec E) quantity (af_sz f))) (\<lambda>q. Inr (q, af_tid f # tids)))))))"

fun baseline_fills ::
  "pilot_env \<Rightarrow> pilot_submission \<Rightarrow> order_terms \<Rightarrow> nat \<Rightarrow> event list \<Rightarrow> decimal \<times> nat list \<Rightarrow> pilot_error + decimal \<times> nat list" where
  "baseline_fills E s t oid [] acc = Inr acc"
| "baseline_fills E s t oid (e # es) acc = rbind (baseline_fill E s t oid e acc) (baseline_fills E s t oid es)"

fun check_baseline ::
  "pilot_env \<Rightarrow> event list \<Rightarrow> address \<Rightarrow> agent_id \<Rightarrow> pilot_submission list \<Rightarrow> pilot_error + unit" where
  "check_baseline E fills account agent [] = Inr ()"
| "check_baseline E fills account agent (s # ss) =
     (if pb_account s \<noteq> account \<and> pb_agent s \<noteq> agent then check_baseline E fills account agent ss
      else case pb_resolution s of
             None \<Rightarrow> Inl (PxUnavailable ''pilot baseline has a pending submission'')
           | Some (SrObserved oid _) \<Rightarrow>
               rbind (terms_of (fst (pb_intent s))) (\<lambda>t.
               rbind (baseline_fills E s t oid fills (0, [])) (\<lambda>(quantity, _).
               rbind (ensure (quantity = tm_sz t) (PxUnavailable ''prior observed order retains unknown fill liability'')) (\<lambda>_.
               check_baseline E fills account agent ss)))
           | Some _ \<Rightarrow> check_baseline E fills account agent ss)"

section \<open>Latching a stop\<close>

text \<open>
  A duplicate of a trade has to say what the first report said; a client order id it adds is accepted
  only where a resolved reservation proves it.
\<close>

definition proven_cloid :: "pilot_history \<Rightarrow> authority \<Rightarrow> event \<Rightarrow> account_fill \<Rightarrow> bool" where
  "proven_cloid H a stored f =
     list_ex (\<lambda>s. pb_account s = az_account (ay_data a) \<and> pb_agent s = az_agent (ay_data a) \<and> pb_seq s > ay_seq a
                  \<and> pb_seq s < et_seq stored \<and> observed_as s = Some (af_oid f) \<and> af_cloid f = Some (pb_cloid s)) (ph_submissions H)"

definition conflicting_link :: "pilot_history \<Rightarrow> authority \<Rightarrow> account_fill \<Rightarrow> bool" where
  "conflicting_link H a f =
     list_ex (\<lambda>s. pb_account s = az_account (ay_data a) \<and> observed_as s = Some (af_oid f)
                  \<and> is_some_and (\<lambda>c. c \<noteq> pb_cloid s) (af_cloid f)) (ph_submissions H)"

definition reconciled_duplicate ::
  "pilot_history \<Rightarrow> authority \<Rightarrow> event \<Rightarrow> account_fill \<Rightarrow> account_fill \<Rightarrow> account_fill" where
  "reconciled_duplicate H a stored earlier f =
     (if af_cloid f = None \<or> (af_cloid earlier = None \<and> proven_cloid H a stored f) then f\<lparr>af_cloid := af_cloid earlier\<rparr> else f)"

definition duplicate_conflict ::
  "pilot_env \<Rightarrow> ledger_db \<Rightarrow> pilot_history \<Rightarrow> authority \<Rightarrow> new_fill \<Rightarrow> pilot_error + pilot_stop option" where
  "duplicate_conflict E db H a incoming =
     (let account = address_parse (nf_account incoming);
          payload_account = json_address (json_index (nf_payload incoming) ''account'')
      in if account \<noteq> Some (az_account (ay_data a)) \<and> payload_account \<noteq> Some (az_account (ay_data a)) then Inr None
      else
        rbind (ok_or (PxUnavailable ''fill idempotence row missing after insertion'')
          (find (\<lambda>r. ev_idem_key r = Some (fill_idem_key (nf_account incoming) (nf_tid incoming))) (db_events db))) (\<lambda>r.
        rbind (map_err PxLedger (event_from_row (pe_parse E) r)) (\<lambda>stored.
        rbind (ok_or (PxUnavailable ''cannot compare redacted duplicate fill'') (et_payload stored)) (\<lambda>old_payload.
        let earlier = read_fill E stored old_payload;
            offered = read_fill E (stored\<lparr>et_ts_ms := nf_ts_ms incoming\<rparr>) (nf_payload incoming);
            conflicting = (case offered of Inr f \<Rightarrow> conflicting_link H a f | Inl _ \<Rightarrow> False);
            identical = account = payload_account \<and> \<not> conflicting
              \<and> json_index old_payload ''account'' = json_index (nf_payload incoming) ''account''
              \<and> (case (earlier, offered) of
                   (Inr x, Inr f) \<Rightarrow> x = reconciled_duplicate H a stored x f \<and> af_tid f = nf_tid incoming
                 | _ \<Rightarrow> False)
        in Inr (if identical then None
                else Some (PsUnavailable (''conflicting or malformed account fill tid '' @ nat_digits (nf_tid incoming) @ '': ''
                                          @ pe_json_text E (nf_payload incoming))))))))"

definition stop_of ::
  "pilot_env \<Rightarrow> ledger_db \<Rightarrow> pilot_history \<Rightarrow> authority \<Rightarrow> new_fill \<Rightarrow> pilot_error + pilot_stop option" where
  "stop_of E db H a incoming =
     (case rbind (duplicate_conflict E db H a incoming) (\<lambda>conflict.
           case conflict of
             Some stop \<Rightarrow> Inr (Some stop)
           | None \<Rightarrow> rbind (project E H a) (\<lambda>st. Inr (ps_halt st))) of
        Inr stop \<Rightarrow> Inr stop
      | Inl (PxUnavailable detail) \<Rightarrow> Inr (Some (PsUnavailable detail))
      | Inl e \<Rightarrow> Inl e)"

fun latch_authorities ::
  "pilot_env \<Rightarrow> pilot_history \<Rightarrow> new_fill \<Rightarrow> int \<Rightarrow> nat \<Rightarrow> string \<Rightarrow> authority list \<Rightarrow> appended option \<Rightarrow> ledger_db \<Rightarrow>
     pilot_error + appended option \<times> ledger_db" where
  "latch_authorities E H incoming at_ms trigger_seq trigger_hash [] newest db = Inr (newest, db)"
| "latch_authorities E H incoming at_ms trigger_seq trigger_hash (a # as) newest db =
     (if ay_halt a \<noteq> None then latch_authorities E H incoming at_ms trigger_seq trigger_hash as newest db
      else
        rbind (stop_of E db H a incoming) (\<lambda>stop.
        case stop of
          None \<Rightarrow> latch_authorities E H incoming at_ms trigger_seq trigger_hash as newest db
        | Some PsAwaitingReconciliation \<Rightarrow> latch_authorities E H incoming at_ms trigger_seq trigger_hash as newest db
        | Some permanent \<Rightarrow>
            rbind (map_err PxLedger (append_keyed_in_tx (pe_digest E)
              \<lparr>nv_kind = EkPilotHalted, nv_ts_ms = at_ms, nv_agent_id = Some (az_agent (ay_data a)),
               nv_payload = pe_halted_json E
                 \<lparr>hl_version = 1, hl_account = az_account (ay_data a), hl_authorization_seq = ay_seq a,
                  hl_authorization_hash = ay_hash a, hl_trigger_seq = trigger_seq, hl_trigger_hash = Some trigger_hash,
                  hl_stop = permanent\<rparr>,
               nv_snapshot = None\<rparr> (halt_key (ay_seq a)) db)) (\<lambda>(row, db1).
            rbind (ok_or (PxUnavailable ''pilot halt key without halt record'') row) (\<lambda>row.
            latch_authorities E H incoming at_ms trigger_seq trigger_hash as (Some row) db1))))"

definition latch_in_tx ::
  "pilot_env \<Rightarrow> ledger \<Rightarrow> new_fill \<Rightarrow> int \<Rightarrow> ledger_db \<Rightarrow> pilot_error + appended option \<times> ledger_db" where
  "latch_in_tx E L incoming at_ms db =
     (if \<not> has_authority db then Inr (None, db)
      else case read_history E L db False of
             Inl (PxUnavailable _) \<Rightarrow> Inr (None, db)
           | Inl (PxLedger (LgPayloadNotJson _)) \<Rightarrow> Inr (None, db)
           | Inl e \<Rightarrow> Inl e
           | Inr H \<Rightarrow>
               rbind (ok_or (PxLedger NO_ROWS)
                 (find (\<lambda>r. ev_idem_key r = Some (fill_idem_key (nf_account incoming) (nf_tid incoming))) (db_events db))) (\<lambda>r.
               rbind (map_err PxLedger (seq_of (ev_seq r))) (\<lambda>trigger_seq.
               latch_authorities E H incoming at_ms trigger_seq (ev_hash r) (ph_authorities H) None db)))"

text \<open>
  The pilot's branch of \<open>record_fill\<close>. The fill goes in under a savepoint; where it brings a stop, the
  savepoint is rolled back and the fill goes in with the stop embedded, so that one row carries both.
\<close>

definition budget_error :: "pilot_env \<Rightarrow> pilot_error \<Rightarrow> ledger_error" where
  "budget_error E e = LgPilotBudget (pe_error_text E e)"

definition fill_event :: "new_fill \<Rightarrow> json \<Rightarrow> new_event" where
  "fill_event f payload =
     \<lparr>nv_kind = EkFill, nv_ts_ms = nf_ts_ms f, nv_agent_id = nf_agent_id f, nv_payload = payload, nv_snapshot = None\<rparr>"

definition embed_stop :: "pilot_env \<Rightarrow> new_fill \<Rightarrow> nat \<Rightarrow> ledger_db \<Rightarrow> ledger_error + json" where
  "embed_stop E f stop_seq db =
     rbind (seq_key stop_seq) (\<lambda>_.
     rbind (ok_or NO_ROWS (find_event stop_seq db)) (\<lambda>r.
     rbind (case ev_payload r of PcText text \<Rightarrow> Inr text | _ \<Rightarrow> Inl (LgSqlite ''Invalid column type'')) (\<lambda>encoded.
     rbind (ok_or (LgJson encoded) (pe_parse E encoded)) (\<lambda>embedded.
     let payload = (case nf_payload f of JObj _ \<Rightarrow> nf_payload f | other \<Rightarrow> JObj [(''pilot_invalid_payload'', other)])
     in Inr (json_set ''pilot_stop'' (json_set ''trigger_hash'' JNull embedded) payload)))))"

definition pilot_record_fill ::
  "pilot_env \<Rightarrow> ledger \<Rightarrow> new_fill \<Rightarrow> ledger_db \<Rightarrow> ledger_error + appended option \<times> appended option \<times> ledger_db" where
  "pilot_record_fill E L f db =
     (let key = fill_idem_key (nf_account f) (nf_tid f) in
      rbind (map_err (\<lambda>detail. LgPilotBudget detail) (pe_submissions E L db True)) (\<lambda>_.
      rbind (append_keyed_in_tx (pe_digest E) (fill_event f (nf_payload f)) key db) (\<lambda>(appended, db1).
      rbind (map_err (budget_error E) (latch_in_tx E L f (nf_ts_ms f) db1)) (\<lambda>(halt, db2).
      case (appended, halt) of
        (Some _, Some stop) \<Rightarrow>
          rbind (embed_stop E f (ap_seq stop) db2) (\<lambda>payload.
          rbind (append_keyed_in_tx (pe_digest E) (fill_event f payload) key db) (\<lambda>(embedded, db3).
          Inr (embedded, embedded, db3)))
      | _ \<Rightarrow> Inr (appended, case halt of Some stop \<Rightarrow> Some stop | None \<Rightarrow> appended, db2)))))"

section \<open>Consent\<close>

record legacy_review =
  lv_authorization_seq :: nat
  lv_authorization_hash :: string
  lv_head :: anchor
  lv_state :: pilot_state
  lv_route :: authorized_route

definition current_route ::
  "pilot_env \<Rightarrow> ledger \<Rightarrow> ledger_db \<Rightarrow> agent_id \<Rightarrow> address \<Rightarrow> pilot_error + authorized_route" where
  "current_route E L db agent account =
     rbind (valid_identity agent account) (\<lambda>_.
     rbind (ensure (network_of_key (lg_network L) = Some Testnet) (PxUnavailable ''pilot consent requires testnet'')) (\<lambda>_.
     rbind (map_err PxUnavailable (pe_route_in E db agent)) (\<lambda>route.
     rbind (ensure (rb_container (rt_binding route) = account) (PxUnavailable ''pilot account differs from authenticated registry route'')) (\<lambda>_.
     Inr route))))"

definition ledger_head :: "ledger_db \<Rightarrow> pilot_error + anchor" where
  "ledger_head db = rbind (map_err PxLedger (chain_head db)) (\<lambda>(n, h). Inr \<lparr>an_seq = n, an_hash = h\<rparr>)"

definition consent_append ::
  "pilot_env \<Rightarrow> ledger \<Rightarrow> ledger_db \<Rightarrow> authorized_route \<Rightarrow> consent_operation \<Rightarrow> nat \<Rightarrow> string \<Rightarrow> pilot_error + appended \<times> ledger_db" where
  "consent_append E L db route op at_ms key =
     rbind (ledger_head db) (\<lambda>h.
     rbind (sql_u64 (rt_binding_seq route)) (\<lambda>_.
     rbind (ok_or (PxLedger NO_ROWS) (find_event (rt_binding_seq route) db)) (\<lambda>granted.
     rbind (ensure (an_seq h + 1 \<le> U64_MAX) (PxLedger LgSeqOutOfRange)) (\<lambda>_.
     rbind (ok_or (PxUnavailable SERDE) (network_of_key (lg_network L))) (\<lambda>network.
     let envelope = \<lparr>ce_version = 2, ce_network = network, ce_seq = an_seq h + 1, ce_prev_hash = an_hash h, ce_at_ms = at_ms,
           ce_route = route, ce_route_hash = ev_hash granted, ce_operation = op\<rparr> in
     rbind (consent_message E envelope) (\<lambda>message.
     rbind (ok_or (PxUnavailable ''pilot consent MAC computation failed'') (pe_mac_sign E message)) (\<lambda>mac.
     rbind (consent_at at_ms) (\<lambda>ts_ms.
     rbind (map_err PxLedger (append_keyed_in_tx (pe_digest E)
       \<lparr>nv_kind = consent_kind op, nv_ts_ms = ts_ms, nv_agent_id = Some (rb_agent (rt_binding route)),
        nv_payload = pe_signed_json E \<lparr>sn_envelope = envelope, sn_mac = hex_encode mac\<rparr>, nv_snapshot = None\<rparr>
       key db)) (\<lambda>(row, db1).
     rbind (ok_or (PxUnavailable ''pilot consent key without verified transition'') row) (\<lambda>row. Inr (row, db1)))))))))))"

text \<open>One transaction: what it answers, the head to publish after the commit, and the database.\<close>

definition pilot_transaction ::
  "ledger_error option \<Rightarrow> ledger_error option \<Rightarrow> (ledger_db \<Rightarrow> pilot_error + 'a \<times> appended \<times> ledger_db) \<Rightarrow> ledger \<Rightarrow>
     (pilot_error + 'a) \<times> ledger" where
  "pilot_transaction tx_fault anchor_fault body L =
     (case tx_fault of
        Some e \<Rightarrow> (Inl (PxLedger e), L)
      | None \<Rightarrow>
          (case body (lg_db L) of
             Inl e \<Rightarrow> (Inl e, L)
           | Inr (x, head, db) \<Rightarrow>
               (case note_head anchor_fault head (L\<lparr>lg_db := db\<rparr>) of
                  (Inl e, L1) \<Rightarrow> (Inl (PxLedger e), L1)
                | (Inr _, L1) \<Rightarrow> (Inr x, L1))))"

definition republish :: "'a \<Rightarrow> ledger_db \<Rightarrow> pilot_error + 'a \<times> appended \<times> ledger_db" where
  "republish x db = rbind (ledger_head db) (\<lambda>h. Inr (x, \<lparr>ap_seq = an_seq h, ap_hash = an_hash h\<rparr>, db))"

definition fresh_authorization :: "agent_id \<Rightarrow> address \<Rightarrow> nat \<Rightarrow> anchor \<Rightarrow> authorized" where
  "fresh_authorization agent account at_ms baseline =
     \<lparr>az_version = 1, az_network = Testnet, az_agent = agent, az_account = account, az_baseline_at_ms = at_ms,
      az_baseline = baseline, az_order_limit_usd = 15, az_executed_limit_usd = 150, az_realized_loss_limit_usd = 5\<rparr>"

definition authorize_in ::
  "pilot_env \<Rightarrow> ledger \<Rightarrow> agent_id \<Rightarrow> address \<Rightarrow> nat \<Rightarrow> ledger_db \<Rightarrow> pilot_error + pilot_state \<times> appended \<times> ledger_db" where
  "authorize_in E L agent account at_ms db =
     rbind (read_history E L db True) (\<lambda>H.
     rbind (current_route E L db agent account) (\<lambda>route.
     case ph_authorities H of
       a # _ \<Rightarrow>
         rbind (verify_consent E L db H) (\<lambda>_.
         rbind (ensure (\<not> (\<not> is_signed (ay_event a) \<or> az_agent (ay_data a) \<noteq> agent
                           \<or> az_account (ay_data a) \<noteq> account \<or> az_baseline_at_ms (ay_data a) \<noteq> at_ms))
           (PxUnavailable ''pilot already authorized; renewal or reset forbidden'')) (\<lambda>_.
         rbind (read_consent E L db (ay_event a)) (\<lambda>sn.
         rbind (ensure (ce_route (sn_envelope sn) = route) (PxUnavailable ''pilot consent route changed'')) (\<lambda>_.
         rbind (project E H a) (\<lambda>st. republish st db)))))
     | [] \<Rightarrow>
         rbind (check_baseline E (ph_fills H) account agent (ph_submissions H)) (\<lambda>_.
         rbind (ledger_head db) (\<lambda>head.
         let data = fresh_authorization agent account at_ms head in
         rbind (consent_append E L db route (CoAuthorized data) at_ms (pilot_key account)) (\<lambda>(row, db1).
         Inr (pilot_initial data, row, db1))))))"

definition pilot_authorize ::
  "pilot_env \<Rightarrow> ledger_error option \<Rightarrow> ledger_error option \<Rightarrow> agent_id \<Rightarrow> address \<Rightarrow> nat \<Rightarrow> ledger \<Rightarrow>
     (pilot_error + pilot_state) \<times> ledger" where
  "pilot_authorize E tx_fault anchor_fault agent account at_ms L =
     (case consent_at at_ms of
        Inl e \<Rightarrow> (Inl e, L)
      | Inr _ \<Rightarrow> pilot_transaction tx_fault anchor_fault (authorize_in E L agent account at_ms) L)"

definition review_legacy :: "pilot_env \<Rightarrow> ledger \<Rightarrow> address \<Rightarrow> pilot_error + legacy_review" where
  "review_legacy E L account =
     rbind (read_history E L (lg_db L) True) (\<lambda>H.
     case ph_authorities H of
       [] \<Rightarrow> Inl (PxUnavailable ''legacy pilot authorization missing'')
     | a # _ \<Rightarrow>
         rbind (ensure (\<not> (is_signed (ay_event a) \<or> ph_adoption H \<noteq> None)) (PxUnavailable ''pilot consent already authenticated'')) (\<lambda>_.
         rbind (current_route E L (lg_db L) (az_agent (ay_data a)) account) (\<lambda>route.
         rbind (ensure (az_account (ay_data a) = account) (PxUnavailable ''legacy review account mismatch'')) (\<lambda>_.
         rbind (ledger_head (lg_db L)) (\<lambda>head.
         rbind (project E H a) (\<lambda>st.
         Inr \<lparr>lv_authorization_seq = ay_seq a, lv_authorization_hash = ay_hash a, lv_head = head, lv_state = st, lv_route = route\<rparr>))))))"

definition adopt_in ::
  "pilot_env \<Rightarrow> ledger \<Rightarrow> legacy_review \<Rightarrow> nat \<Rightarrow> ledger_db \<Rightarrow> pilot_error + pilot_state \<times> appended \<times> ledger_db" where
  "adopt_in E L review at_ms db =
     rbind (read_history E L db True) (\<lambda>H.
     rbind (current_route E L db (ps_agent (lv_state review)) (ps_account (lv_state review))) (\<lambda>route.
     rbind (ensure (route = lv_route review) (PxUnavailable ''reviewed pilot registry route changed'')) (\<lambda>_.
     case ph_authorities H of
       [] \<Rightarrow> Inl (PxUnavailable ''reviewed pilot missing'')
     | a # _ \<Rightarrow>
         rbind (ensure (\<not> (ay_seq a \<noteq> lv_authorization_seq review \<or> ay_hash a \<noteq> lv_authorization_hash review \<or> is_signed (ay_event a)))
           (PxUnavailable ''reviewed legacy pilot changed'')) (\<lambda>_.
         let op = CoAdopted (lv_authorization_seq review) (lv_authorization_hash review) (lv_head review) (lv_state review) in
         rbind (project E H a) (\<lambda>st.
         case ph_adoption H of
           Some adoption \<Rightarrow>
             rbind (verify_consent E L db H) (\<lambda>_.
             rbind (read_consent E L db adoption) (\<lambda>sn.
             rbind (ensure (ce_operation (sn_envelope sn) = op) (PxUnavailable ''pilot adopted from a different review'')) (\<lambda>_.
             republish st db)))
         | None \<Rightarrow>
             rbind (ledger_head db) (\<lambda>head.
             rbind (ensure (lv_head review = head \<and> st = lv_state review) (PxUnavailable ''pilot history changed; renewed review required'')) (\<lambda>_.
             rbind (consent_append E L db route op at_ms (adoption_key (ay_seq a))) (\<lambda>(row, db1).
             Inr (st, row, db1)))))))))"

definition pilot_adopt ::
  "pilot_env \<Rightarrow> ledger_error option \<Rightarrow> ledger_error option \<Rightarrow> legacy_review \<Rightarrow> nat \<Rightarrow> ledger \<Rightarrow>
     (pilot_error + pilot_state) \<times> ledger" where
  "pilot_adopt E tx_fault anchor_fault review at_ms L =
     (case consent_at at_ms of
        Inl e \<Rightarrow> (Inl e, L)
      | Inr _ \<Rightarrow> pilot_transaction tx_fault anchor_fault (adopt_in E L review at_ms) L)"

end
