(* ===== verification/Pilot_Budget.thy ===== *)
theory Pilot_Budget
  imports Pilot_Journal
begin

text \<open>
  What the projection of a pilot computes in closed form, and the budget it enforces: however reserved
  orders fill and resolve, executed and reserved notional together stay within the limit.
\<close>

section \<open>Sums\<close>

definition exact_money :: "declib \<Rightarrow> bool" where
  "exact_money D =
     (\<forall>x y z. (checked_add D x y = Some z \<longrightarrow> z = x + y) \<and> (checked_sub D x y = Some z \<longrightarrow> z = x - y)
              \<and> (checked_mul D x y = Some z \<longrightarrow> z = x * y))"

lemma exact_moneyD:
  "exact_money D \<Longrightarrow> checked_money (checked_add D x y) = Inr z \<Longrightarrow> z = x + y"
  "exact_money D \<Longrightarrow> checked_money (checked_sub D x y) = Inr z \<Longrightarrow> z = x - y"
  "exact_money D \<Longrightarrow> checked_money (checked_mul D x y) = Inr z \<Longrightarrow> z = x * y"
  by (auto simp: exact_money_def checked_money_def ok_or_is_Inr)

definition notional :: "account_fill \<Rightarrow> decimal" where "notional f = af_px f * af_sz f"

definition total :: "(account_fill \<Rightarrow> decimal) \<Rightarrow> account_fill list \<Rightarrow> decimal" where
  "total g fs = sum_list (map g fs)"

lemma total_simps [simp]: "total g [] = 0" "total g (f # fs) = g f + total g fs" "total g (fs @ fs') = total g fs + total g fs'"
  by (simp_all add: total_def)

lemma total_mset: "mset fs = mset fs' \<Longrightarrow> total g fs = total g fs'"
  unfolding total_def by (metis mset_map sum_mset_sum_list)

lemma total_filter_mset: "mset fs = mset fs' \<Longrightarrow> total g (filter P fs) = total g (filter P fs')"
  by (rule total_mset) (simp add: mset_filter)

definition quantity_of :: "account_fill list \<Rightarrow> pilot_submission \<Rightarrow> decimal" where
  "quantity_of fs s = total af_sz (filter (\<lambda>f. links f s) fs)"

lemma quantity_of_simps [simp]:
  "quantity_of [] s = 0" "quantity_of (f # fs) s = (if links f s then af_sz f else 0) + quantity_of fs s"
  by (simp_all add: quantity_of_def)

section \<open>Applying fills\<close>

text \<open>What stays of an allocation while it fills.\<close>

definition frame :: "allocation \<Rightarrow> pilot_submission \<times> order_terms" where
  "frame x = (fst x, fst (snd x))"

definition matches :: "account_fill \<Rightarrow> (pilot_submission \<times> order_terms) list \<Rightarrow> (pilot_submission \<times> order_terms) list" where
  "matches f frs = filter (\<lambda>x. links f (fst x)) frs"

lemma matches_candidates: "matches f (map frame allocs) = map (\<lambda>i. frame (allocs ! i)) (candidates f allocs)"
proof -
  have "map frame allocs = map (\<lambda>i. frame (allocs ! i)) [0..<length allocs]" by (rule nth_equalityI) simp_all
  then show ?thesis by (simp add: matches_def candidates_def filter_map comp_def frame_def)
qed

text \<open>No reservation matches a fill, or exactly one does and the fill does not contradict it.\<close>

definition agrees :: "account_fill \<Rightarrow> (pilot_submission \<times> order_terms) list \<Rightarrow> bool" where
  "agrees f frs = (matches f frs = [] \<or> (\<exists>x. matches f frs = [x] \<and> \<not> contradicts f (fst x) (snd x)))"

definition fill_one :: "account_fill \<Rightarrow> allocation \<Rightarrow> allocation" where
  "fill_one f x = (fst x, fst (snd x), snd (snd x) + (if links f (fst x) then af_sz f else 0))"

definition not_over :: "allocation \<Rightarrow> bool" where
  "not_over x = (snd (snd x) \<le> tm_sz (fst (snd x)))"

lemma frame_fill_one [simp]: "frame (fill_one f x) = frame x"
  by (simp add: frame_def fill_one_def)

lemma map_fill_one_id: "matches f (map frame allocs) = [] \<Longrightarrow> map (fill_one f) allocs = allocs"
  by (induction allocs) (auto simp: matches_def frame_def fill_one_def split: if_splits)

lemma update_single:
  assumes "candidates f allocs = [i]" "allocs ! i = (s, t, q)"
  shows "allocs[i := (s, t, q + af_sz f)] = map (fill_one f) allocs"
proof (rule nth_equalityI)
  have linked: "links f (fst (allocs ! j)) \<longleftrightarrow> j = i" if "j < length allocs" for j
  proof -
    have "j \<in> set (candidates f allocs) \<longleftrightarrow> links f (fst (allocs ! j))" using that by (simp add: candidates_def)
    with assms(1) show ?thesis by simp
  qed
  fix j assume "j < length (allocs[i := (s, t, q + af_sz f)])"
  with linked [of j] assms(2) show "allocs[i := (s, t, q + af_sz f)] ! j = map (fill_one f) allocs ! j"
    by (cases "j = i") (auto simp: fill_one_def)
qed simp

lemma allocate_fill_Inr:
  assumes "exact_money (pe_dec E)" "allocate_fill E f allocs = Inr r" "\<forall>x \<in> set allocs. not_over x"
  shows "agrees f (map frame allocs)"
    "(case r of None \<Rightarrow> allocs | Some allocs' \<Rightarrow> allocs') = map (fill_one f) allocs"
    "r = None \<longleftrightarrow> matches f (map frame allocs) = []"
    "\<forall>x \<in> set (map (fill_one f) allocs). not_over x"
proof -
  have "agrees f (map frame allocs) \<and> (case r of None \<Rightarrow> allocs | Some allocs' \<Rightarrow> allocs') = map (fill_one f) allocs
    \<and> (r = None \<longleftrightarrow> matches f (map frame allocs) = []) \<and> (\<forall>x \<in> set (map (fill_one f) allocs). not_over x)"
  proof (cases "candidates f allocs")
    case Nil
    with assms(2) have r: "r = None" and none: "matches f (map frame allocs) = []"
      by (simp_all add: allocate_fill_def matches_candidates)
    from none map_fill_one_id [OF none] assms(3) show ?thesis by (simp add: r agrees_def)
  next
    case (Cons i js)
    with assms(2) have one: "candidates f allocs = [i]" by (auto simp: allocate_fill_def split: list.splits)
    obtain s t q where x: "allocs ! i = (s, t, q)" by (cases "allocs ! i")
    from assms(2) one x obtain filled where filled: "\<not> contradicts f s t"
        "checked_money (checked_add (pe_dec E) q (af_sz f)) = Inr filled" "filled \<le> tm_sz t" "r = Some (allocs[i := (s, t, filled)])"
      by (auto simp: allocate_fill_def result_inv)
    have "filled = q + af_sz f" by (rule exact_moneyD(1) [OF assms(1) filled(2)])
    with filled update_single [OF one x] have r: "r = Some (map (fill_one f) allocs)" by simp
    have "\<forall>x \<in> set (allocs[i := (s, t, filled)]). not_over x"
      using assms(3) filled(3) by (auto simp: not_over_def dest!: subsetD [OF set_update_subset_insert])
    with r filled(4) have "\<forall>x \<in> set (map (fill_one f) allocs). not_over x" by simp
    moreover have "matches f (map frame allocs) = [(s, t)]" by (simp add: matches_candidates one x frame_def)
    ultimately show ?thesis using r filled(1) by (simp add: agrees_def)
  qed
  then show "agrees f (map frame allocs)" "(case r of None \<Rightarrow> allocs | Some allocs' \<Rightarrow> allocs') = map (fill_one f) allocs"
    "r = None \<longleftrightarrow> matches f (map frame allocs) = []" "\<forall>x \<in> set (map (fill_one f) allocs). not_over x" by blast+
qed

text \<open>The sums of the state follow the fills in their order.\<close>

lemma count_fill_Inr:
  assumes "exact_money (pe_dec E)" "count_fill E a f st = Inr st'"
  shows "ps_executed_usd st' = ps_executed_usd st + notional f"
    "ps_net_realized_pnl_usd st' = ps_net_realized_pnl_usd st + af_net f" "ps_reserved_usd st' = ps_reserved_usd st"
    "ps_halt st' = (case ps_halt st of Some h \<Rightarrow> Some h | None \<Rightarrow> threshold_stop (ay_data a) st')"
proof -
  from assms(2) obtain n executed pnl where
    n: "checked_money (checked_mul (pe_dec E) (af_px f) (af_sz f)) = Inr n" "checked_money (checked_add (pe_dec E) (ps_executed_usd st) n) = Inr executed"
    "checked_money (checked_add (pe_dec E) (ps_net_realized_pnl_usd st) (af_net f)) = Inr pnl"
    and st': "st' = (let st1 = st\<lparr>ps_executed_usd := executed, ps_net_realized_pnl_usd := pnl\<rparr> in
      if ps_halt st1 = None then st1\<lparr>ps_halt := threshold_stop (ay_data a) st1\<rparr> else st1)"
    by (auto simp: count_fill_def rbind_is_Inr Let_def)
  have "executed = ps_executed_usd st + notional f" "pnl = ps_net_realized_pnl_usd st + af_net f"
    using exact_moneyD(1) [OF assms(1) n(2)] exact_moneyD(3) [OF assms(1) n(1)] exact_moneyD(1) [OF assms(1) n(3)]
    by (simp_all add: notional_def)
  then show "ps_executed_usd st' = ps_executed_usd st + notional f"
    "ps_net_realized_pnl_usd st' = ps_net_realized_pnl_usd st + af_net f" "ps_reserved_usd st' = ps_reserved_usd st"
    "ps_halt st' = (case ps_halt st of Some h \<Rightarrow> Some h | None \<Rightarrow> threshold_stop (ay_data a) st')"
    by (simp_all add: st' Let_def threshold_stop_def split: option.split)
qed

definition fill_all :: "account_fill list \<Rightarrow> allocation \<Rightarrow> allocation" where
  "fill_all fs x = (fst x, fst (snd x), snd (snd x) + quantity_of fs (fst x))"

lemma fill_all_simps [simp]: "fill_all [] x = x" "fill_all fs (fill_one f x) = fill_all (f # fs) x" "frame (fill_all fs x) = frame x"
  by (simp_all add: fill_all_def fill_one_def frame_def)

lemma apply_fills_Inr:
  assumes "exact_money (pe_dec E)" "apply_fills E a fs p = Inr p'" "\<forall>x \<in> set (pj_allocs p). not_over x"
  shows "ps_executed_usd (pj_state p') = ps_executed_usd (pj_state p) + total notional fs
    \<and> ps_net_realized_pnl_usd (pj_state p') = ps_net_realized_pnl_usd (pj_state p) + total af_net fs
    \<and> ps_reserved_usd (pj_state p') = ps_reserved_usd (pj_state p)
    \<and> pj_allocs p' = map (fill_all fs) (pj_allocs p) \<and> (\<forall>x \<in> set (pj_allocs p'). not_over x)
    \<and> (\<forall>f \<in> set fs. agrees f (map frame (pj_allocs p)))
    \<and> (pj_unmatched p' \<longleftrightarrow> pj_unmatched p \<or> (\<exists>f \<in> set fs. matches f (map frame (pj_allocs p)) = []))"
  using assms(2,3)
proof (induction fs arbitrary: p)
  case Nil
  then show ?case by simp
next
  case (Cons f fs)
  from Cons.prems(1) obtain st r q where st: "count_fill E a f (pj_state p) = Inr st" and r: "allocate_fill E f (pj_allocs p) = Inr r"
    and q: "q = (case r of None \<Rightarrow> p\<lparr>pj_state := st, pj_unmatched := True\<rparr> | Some allocs \<Rightarrow> p\<lparr>pj_state := st, pj_allocs := allocs\<rparr>)"
    and rest: "apply_fills E a fs q = Inr p'"
    by (auto simp: apply_fill_def result_inv)
  note al = allocate_fill_Inr [OF assms(1) r Cons.prems(2)]
  have q_allocs: "pj_allocs q = map (fill_one f) (pj_allocs p)" using al(2) by (simp add: q split: option.splits)
  have frames: "map frame (pj_allocs q) = map frame (pj_allocs p)" by (simp add: q_allocs)
  have state: "pj_state q = st" and unmatched: "pj_unmatched q \<longleftrightarrow> pj_unmatched p \<or> matches f (map frame (pj_allocs p)) = []"
    using al(3) by (auto simp: q split: option.splits)
  have "\<forall>x \<in> set (pj_allocs q). not_over x" using al(4) by (simp add: q_allocs)
  from Cons.IH [OF rest this] count_fill_Inr [OF assms(1) st] al(1) show ?case
    unfolding frames by (auto simp: state unmatched q_allocs)
qed

section \<open>The closed form\<close>

definition live_term :: "allocation \<Rightarrow> decimal" where
  "live_term x =
     (let (s, t, q) = x in if never_live s then 0 else (tm_sz t - q) * tm_valuation t)"

lemma reserve_Inr:
  assumes "exact_money (pe_dec E)" "reserve E allocs st = Inr st'"
  shows "st' = st\<lparr>ps_reserved_usd := ps_reserved_usd st + sum_list (map live_term allocs)\<rparr>"
  using assms(2)
proof (induction allocs arbitrary: st)
  case Nil
  then show ?case by simp
next
  case (Cons x allocs)
  obtain s t q where x: "x = (s, t, q)" by (cases x)
  show ?case
  proof (cases "never_live s")
    case True
    with Cons x show ?thesis by (simp add: live_term_def)
  next
    case False
    with Cons.prems x obtain remaining held reserved where
      r: "checked_money (checked_sub (pe_dec E) (tm_sz t) q) = Inr remaining"
        "checked_money (checked_mul (pe_dec E) remaining (tm_valuation t)) = Inr held"
        "checked_money (checked_add (pe_dec E) (ps_reserved_usd st) held) = Inr reserved"
      and rest: "reserve E allocs (st\<lparr>ps_reserved_usd := reserved\<rparr>) = Inr st'"
      by (auto simp: rbind_is_Inr)
    from exact_moneyD(2) [OF assms(1) r(1)] exact_moneyD(3) [OF assms(1) r(2)] exact_moneyD(1) [OF assms(1) r(3)]
    have "reserved = ps_reserved_usd st + live_term x" using False by (simp add: live_term_def x)
    with Cons.IH [OF rest] show ?thesis by (simp add: add.assoc)
  qed
qed

lemma pilot_allocations_fresh:
  "pilot_allocations a ss = Inr allocs \<Longrightarrow> x \<in> set allocs \<Longrightarrow>
     snd (snd x) = 0 \<and> 0 < tm_sz (fst (snd x)) \<and> 0 < tm_valuation (fst (snd x))"
proof (induction ss arbitrary: allocs)
  case (Cons s ss)
  have pos: "terms_of cl = Inr t \<Longrightarrow> 0 < tm_sz t \<and> 0 < tm_valuation t" for cl t
    by (auto simp: terms_of_def result_inv split: cleared_kind.splits)
  show ?case
  proof (cases "pb_seq s \<le> ay_seq a \<or> (pb_account s \<noteq> az_account (ay_data a) \<and> pb_agent s \<noteq> az_agent (ay_data a))")
    case False
    with Cons.prems(1) obtain t rest where "terms_of (fst (pb_intent s)) = Inr t" "pilot_allocations a ss = Inr rest" "allocs = (s, t, 0) # rest"
      by (auto simp: rbind_is_Inr Let_def)
    with Cons.prems(2) Cons.IH pos show ?thesis by auto
  qed (use Cons in \<open>auto simp: Let_def\<close>)
qed simp

text \<open>What a projection says, over the frames of the reservations and the fills in their order.\<close>

definition projected :: "authority \<Rightarrow> allocation list \<Rightarrow> account_fill list \<Rightarrow> pilot_state \<Rightarrow> bool" where
  "projected a allocs fs st =
     (ps_executed_usd st = total notional fs \<and> ps_net_realized_pnl_usd st = total af_net fs
      \<and> ps_reserved_usd st = sum_list (map (live_term \<circ> fill_all fs) allocs)
      \<and> (\<forall>x \<in> set allocs. not_over (fill_all fs x)) \<and> (\<forall>f \<in> set fs. agrees f (map frame allocs))
      \<and> (ps_halt st = None \<longrightarrow> (\<forall>f \<in> set fs. matches f (map frame allocs) \<noteq> [])))"

lemma project_Inr:
  assumes "exact_money (pe_dec E)" "project E H a = Inr st"
  obtains allocs fs where "pilot_allocations a (ph_submissions H) = Inr allocs" "account_fills E H a = Inr fs" "projected a allocs fs st"
proof -
  from assms(2) obtain allocs fs p st1 where
    allocs: "pilot_allocations a (ph_submissions H) = Inr allocs" and fs: "account_fills E H a = Inr fs"
    and p: "apply_fills E a fs \<lparr>pj_state = (pilot_initial (ay_data a))\<lparr>ps_halt := ay_halt a\<rparr>, pj_allocs = allocs, pj_unmatched = False\<rparr> = Inr p"
    and st1: "reserve E (pj_allocs p) (pj_state p) = Inr st1"
    and st: "st = (if pj_unmatched p \<and> ps_halt st1 = None then st1\<lparr>ps_halt := Some PsAwaitingReconciliation\<rparr> else st1)"
    by (auto simp: project_def rbind_is_Inr)
  have "\<forall>x \<in> set allocs. not_over x" using pilot_allocations_fresh [OF allocs] by (force simp: not_over_def)
  with apply_fills_Inr [OF assms(1) p] have pp: "ps_executed_usd (pj_state p) = total notional fs"
    "ps_net_realized_pnl_usd (pj_state p) = total af_net fs" "ps_reserved_usd (pj_state p) = 0"
    "pj_allocs p = map (fill_all fs) allocs" "\<forall>x \<in> set (pj_allocs p). not_over x"
    "\<forall>f \<in> set fs. agrees f (map frame allocs)" "pj_unmatched p \<longleftrightarrow> (\<exists>f \<in> set fs. matches f (map frame allocs) = [])"
    by (simp_all add: pilot_initial_def)
  have "projected a allocs fs st"
    using pp reserve_Inr [OF assms(1) st1] by (auto simp: projected_def st)
  with allocs fs show ?thesis by (rule that)
qed

section \<open>Executed and reserved together\<close>

text \<open>What one reservation has executed and may still execute, at its own valuation.\<close>

definition exposure :: "account_fill list \<Rightarrow> pilot_submission \<times> order_terms \<Rightarrow> decimal" where
  "exposure fs x =
     (if never_live (fst x) then 0
      else total notional (filter (\<lambda>f. links f (fst x)) fs) + (tm_sz (snd x) - quantity_of fs (fst x)) * tm_valuation (snd x))"

definition executed_of :: "account_fill list \<Rightarrow> pilot_submission \<times> order_terms \<Rightarrow> decimal" where
  "executed_of fs x = (if never_live (fst x) then 0 else total notional (filter (\<lambda>f. links f (fst x)) fs))"

lemma executed_of_Cons:
  "executed_of (f # fs) x = (if links f (fst x) then (if never_live (fst x) then 0 else notional f) else 0) + executed_of fs x"
  by (simp add: executed_of_def)

lemma executed_once:
  assumes "\<forall>f \<in> set fs. agrees f frs \<and> matches f frs \<noteq> []"
  shows "sum_list (map (executed_of fs) frs) = total notional fs"
  using assms
proof (induction fs)
  case Nil
  have "executed_of [] x = 0" for x by (simp add: executed_of_def)
  then show ?case by (simp add: sum_list_0)
next
  case (Cons f fs)
  then obtain x where x: "matches f frs = [x]" "\<not> contradicts f (fst x) (snd x)" by (auto simp: agrees_def)
  have "sum_list (map (\<lambda>x. if links f (fst x) then (if never_live (fst x) then 0 else notional f) else 0) frs)
      = sum_list (map (\<lambda>x. if never_live (fst x) then 0 else notional f) (matches f frs))"
    unfolding matches_def by (simp add: sum_list_map_filter')
  also have "\<dots> = notional f" using x by (simp add: contradicts_def)
  finally show ?case using Cons by (simp add: executed_of_Cons sum_list_addf)
qed

lemma committed_exposure:
  assumes "projected a allocs fs st" "\<forall>x \<in> set allocs. snd (snd x) = 0" "\<forall>f \<in> set fs. matches f (map frame allocs) \<noteq> []"
  shows "ps_executed_usd st + ps_reserved_usd st = sum_list (map (exposure fs) (map frame allocs))"
proof -
  have "total notional fs = sum_list (map (executed_of fs) (map frame allocs))"
    using executed_once [of fs "map frame allocs"] assms(1,3) by (simp add: projected_def)
  moreover have "exposure fs (frame x) = executed_of fs (frame x) + live_term (fill_all fs x)" if "x \<in> set allocs" for x
  proof -
    have "snd (snd x) = 0" using assms(2) that by blast
    then show ?thesis by (cases x) (simp add: exposure_def executed_of_def live_term_def fill_all_def frame_def)
  qed
  then have "sum_list (map (exposure fs \<circ> frame) allocs) = sum_list (map (\<lambda>x. executed_of fs (frame x) + live_term (fill_all fs x)) allocs)"
    by (simp cong: map_cong)
  ultimately show ?thesis using assms(1) by (simp add: projected_def sum_list_addf comp_def)
qed

section \<open>A history that grows\<close>

definition resolves :: "pilot_submission \<Rightarrow> pilot_submission \<Rightarrow> bool" where
  "resolves s s' = (s' = s \<or> (pb_resolution s = None \<and> (\<exists>r. s' = s\<lparr>pb_resolution := r\<rparr>)))"

lemma resolvesD:
  assumes "resolves s s'"
  shows "pb_seq s' = pb_seq s" "pb_account s' = pb_account s" "pb_agent s' = pb_agent s" "pb_intent s' = pb_intent s" "pb_cloid s' = pb_cloid s"
    "links f s \<Longrightarrow> links f s'" "never_live s \<Longrightarrow> never_live s'"
  using assms by (auto simp: resolves_def links_def observed_as_def never_live_def)

lemma resolves_refl [simp]: "resolves s s"
  by (simp add: resolves_def)

lemma resolves_trans: "resolves s s' \<Longrightarrow> resolves s' s'' \<Longrightarrow> resolves s s''"
  by (auto simp: resolves_def)

text \<open>The submissions a projection looks at: those of the account or the agent since the authorization.\<close>

definition concerns :: "authority \<Rightarrow> pilot_submission \<Rightarrow> bool" where
  "concerns a s = (\<not> pb_seq s \<le> ay_seq a \<and> (pb_account s = az_account (ay_data a) \<or> pb_agent s = az_agent (ay_data a)))"

lemma pilot_allocations_concerns: "pilot_allocations a (filter (concerns a) ss) = pilot_allocations a ss"
  by (induction ss) (auto simp: Let_def concerns_def)

text \<open>Reservations may resolve, further fills may arrive, and others may come that do not concern the pilot.\<close>

definition pilot_grown :: "authority \<Rightarrow> pilot_history \<Rightarrow> pilot_history \<Rightarrow> bool" where
  "pilot_grown a H H' =
     (list_all2 resolves (filter (concerns a) (ph_submissions H)) (filter (concerns a) (ph_submissions H'))
      \<and> (\<exists>es. ph_fills H' = ph_fills H @ es) \<and> (\<forall>e \<in> set (ph_fills H). ph_fill_keys H' (et_seq e) = ph_fill_keys H (et_seq e)))"

definition same_authority :: "authority \<Rightarrow> authority \<Rightarrow> bool" where
  "same_authority a a' = (ay_seq a' = ay_seq a \<and> ay_data a' = ay_data a)"

lemma same_concerns: "same_authority a a' \<Longrightarrow> concerns a' = concerns a"
  by (simp add: same_authority_def concerns_def fun_eq_iff)

lemma grown_allocations:
  assumes "list_all2 resolves ss ss'" "same_authority a a'" "pilot_allocations a ss = Inr allocs" "pilot_allocations a' ss' = Inr allocs'"
  shows "list_all2 (\<lambda>x x'. resolves (fst x) (fst x') \<and> snd x' = snd x) allocs allocs'"
  using assms(1,3,4)
proof (induction ss ss' arbitrary: allocs allocs' rule: list_all2_induct)
  case (Cons s ss s' ss')
  note same = resolvesD(1-4) [OF Cons.hyps(1)] and auth = assms(2) [unfolded same_authority_def]
  show ?case
  proof (cases "pb_seq s \<le> ay_seq a \<or> (pb_account s \<noteq> az_account (ay_data a) \<and> pb_agent s \<noteq> az_agent (ay_data a))")
    case True
    with Cons.prems have "pilot_allocations a ss = Inr allocs" "pilot_allocations a' ss' = Inr allocs'"
      by (auto simp: Let_def same auth)
    then show ?thesis by (rule Cons.IH)
  next
    case False
    with Cons.prems obtain t rest t' rest' where
      "terms_of (fst (pb_intent s)) = Inr t" "pilot_allocations a ss = Inr rest" "allocs = (s, t, 0) # rest"
      "terms_of (fst (pb_intent s)) = Inr t'" "pilot_allocations a' ss' = Inr rest'" "allocs' = (s', t', 0) # rest'"
      by (auto simp: rbind_is_Inr Let_def same auth)
    with Cons.IH Cons.hyps(1) show ?thesis by simp
  qed
qed simp

lemma allocations_snoc:
  "pilot_allocations a (ss @ [s]) =
     rbind (pilot_allocations a ss) (\<lambda>allocs. rbind (pilot_allocations a [s]) (\<lambda>last. Inr (allocs @ last)))"
  by (induction ss) (auto simp: Let_def rbind_assoc intro!: arg_cong [where f = "rbind _"])

lemma take_fills_append: "take_fills E H a (es @ es') seen = rbind (take_fills E H a es seen) (take_fills E H a es')"
  by (induction es arbitrary: seen) (auto simp: rbind_assoc intro!: arg_cong [where f = "rbind _"])

lemma take_fill_kept:
  assumes "ph_fill_keys H' (et_seq e) = ph_fill_keys H (et_seq e)" "same_authority a a'"
  shows "take_fill E H' a' e seen = take_fill E H a e seen"
proof -
  from assms(2) have "ay_seq a' = ay_seq a" "ay_data a' = ay_data a" by (simp_all add: same_authority_def)
  with assms(1) show ?thesis unfolding take_fill_def by (simp only:)
qed

lemma take_fills_kept:
  "\<forall>e \<in> set es. ph_fill_keys H' (et_seq e) = ph_fill_keys H (et_seq e) \<Longrightarrow> same_authority a a' \<Longrightarrow>
     take_fills E H' a' es seen = take_fills E H a es seen"
  by (induction es arbitrary: seen) (auto simp: take_fill_kept intro!: arg_cong [where f = "rbind _"])

lemma take_fill_extends:
  "take_fill E H a e seen = Inr seen' \<Longrightarrow> \<exists>new. seen' = seen @ new \<and> (\<forall>f \<in> set new. 0 < af_px f \<and> 0 < af_sz f)"
  by (auto simp: take_fill_def read_fill_def result_inv split: if_splits option.splits)

lemma take_fills_extend:
  "take_fills E H a es seen = Inr seen' \<Longrightarrow> \<exists>new. seen' = seen @ new \<and> (\<forall>f \<in> set new. 0 < af_px f \<and> 0 < af_sz f)"
proof (induction es arbitrary: seen)
  case (Cons e es)
  then obtain mid where "take_fill E H a e seen = Inr mid" "take_fills E H a es mid = Inr seen'" by (auto simp: rbind_is_Inr)
  with Cons.IH take_fill_extends [of E H a e seen mid] show ?case by fastforce
qed simp

lemma account_fills_positive: "account_fills E H a = Inr fs \<Longrightarrow> f \<in> set fs \<Longrightarrow> 0 < af_px f \<and> 0 < af_sz f"
  using take_fills_extend [of E H a "ph_fills H" "[]"] by (auto simp: account_fills_def rbind_is_Inr)

lemma grown_fills:
  assumes "pilot_grown a H H'" "same_authority a a'" "account_fills E H a = Inr fs" "account_fills E H' a' = Inr fs'"
  shows "\<exists>new. mset fs' = mset (fs @ new)"
proof -
  from assms(1) obtain es where es: "ph_fills H' = ph_fills H @ es"
    and keys: "\<forall>e \<in> set (ph_fills H). ph_fill_keys H' (et_seq e) = ph_fill_keys H (et_seq e)" by (auto simp: pilot_grown_def)
  from assms(3) obtain raw where raw: "take_fills E H a (ph_fills H) [] = Inr raw" "mset fs = mset raw"
    by (auto simp: account_fills_def rbind_is_Inr)
  from assms(4) obtain raw' where raw': "take_fills E H' a' (ph_fills H @ es) [] = Inr raw'" "mset fs' = mset raw'"
    by (auto simp: account_fills_def rbind_is_Inr es)
  with raw take_fills_kept [OF keys assms(2)] have "take_fills E H' a' es raw = Inr raw'" by (simp add: take_fills_append)
  with take_fills_extend raw(2) raw'(2) show ?thesis by fastforce
qed

section \<open>The budget\<close>

lemma filter_length_mono: "list_all2 (\<lambda>x y. P x \<longrightarrow> Q y) xs ys \<Longrightarrow> length (filter P xs) \<le> length (filter Q ys)"
  by (induction rule: list_all2_induct) auto

text \<open>Where a monotone change of a list selects no more than before, it selects the same places.\<close>

lemma same_selection:
  assumes "list_all2 (\<lambda>x y. P x \<longrightarrow> Q y) xs ys" "length (filter Q ys) \<le> length (filter P xs)"
  shows "list_all2 (\<lambda>x y. P x \<longleftrightarrow> Q y) xs ys"
  using assms
proof (induction rule: list_all2_induct)
  case (Cons x xs y ys)
  from filter_length_mono [OF Cons.hyps(2)] Cons show ?case by (auto split: if_splits)
qed simp

lemma sum_list_le: "list_all2 (\<lambda>x y. h y \<le> g x) xs ys \<Longrightarrow> sum_list (map h ys) \<le> sum_list (map g xs :: rat list)"
  by (induction rule: list_all2_induct) auto

lemma exposure_mset: "mset fs = mset fs' \<Longrightarrow> exposure fs x = exposure fs' x"
  unfolding exposure_def quantity_of_def by (simp add: total_filter_mset [of fs fs'])

lemma exposure_nonneg:
  assumes "\<forall>f \<in> set fs. 0 < af_px f \<and> 0 < af_sz f" "quantity_of fs (fst x) \<le> tm_sz (snd x)" "0 < tm_valuation (snd x)"
  shows "0 \<le> exposure fs x"
proof -
  have "0 \<le> total notional (filter P fs)" for P
    using assms(1) by (induction fs) (auto simp: notional_def intro!: add_nonneg_nonneg)
  with assms(2,3) show ?thesis by (auto simp: exposure_def intro!: add_nonneg_nonneg mult_nonneg_nonneg)
qed

text \<open>Fills at no worse than the valuation only lower an exposure.\<close>

lemma exposure_falls:
  assumes "\<forall>f \<in> set new. links f (fst y) \<longrightarrow> 0 < af_sz f \<and> af_px f \<le> tm_valuation (snd y)"
    and "\<forall>f \<in> set fs. links f (fst x) \<longleftrightarrow> links f (fst y)" "snd y = snd x" "never_live (fst x) \<longrightarrow> never_live (fst y)" "0 \<le> exposure fs x"
  shows "exposure (fs @ new) y \<le> exposure fs x"
proof (cases "never_live (fst y)")
  case True
  with assms(5) show ?thesis by (simp add: exposure_def)
next
  case False
  have less: "total notional (filter (\<lambda>f. links f (fst y)) new) \<le> quantity_of new (fst y) * tm_valuation (snd y)"
    using assms(1)
  proof (induction new)
    case (Cons f new)
    have "links f (fst y) \<Longrightarrow> notional f \<le> af_sz f * tm_valuation (snd y)"
      using Cons.prems by (simp add: notional_def mult.commute mult_left_mono)
    with Cons show ?case by (auto simp: distrib_right intro: add_mono)
  qed simp
  have same: "filter (\<lambda>f. links f (fst x)) fs = filter (\<lambda>f. links f (fst y)) fs" using assms(2) by (auto intro: filter_cong)
  have "quantity_of (fs @ new) (fst y) = quantity_of fs (fst y) + quantity_of new (fst y)" by (simp add: quantity_of_def)
  with less False assms(3,4) same show ?thesis
    by (simp add: exposure_def quantity_of_def algebra_simps)
qed

text \<open>Every fill that counts belongs to a reservation and was at no worse than its valuation.\<close>

definition priced_within :: "pilot_env \<Rightarrow> pilot_history \<Rightarrow> authority \<Rightarrow> bool" where
  "priced_within E H a =
     (case (pilot_allocations a (ph_submissions H), account_fills E H a) of
        (Inr allocs, Inr fs) \<Rightarrow> \<forall>f \<in> set fs. \<exists>x \<in> set allocs. links f (fst x) \<and> af_px f \<le> tm_valuation (fst (snd x))
      | _ \<Rightarrow> False)"

definition committed :: "pilot_state \<Rightarrow> decimal" where
  "committed st = ps_executed_usd st + ps_reserved_usd st"

text \<open>Along grown histories the reservations stay the same, but for their resolutions.\<close>

lemma grown_frames:
  assumes "pilot_grown a H H'" "same_authority a a'" "pilot_allocations a (ph_submissions H) = Inr allocs"
    "pilot_allocations a' (ph_submissions H') = Inr allocs'"
  shows "list_all2 (\<lambda>x y. resolves (fst x) (fst y) \<and> snd y = snd x) (map frame allocs) (map frame allocs')"
proof -
  have "list_all2 (\<lambda>x x'. resolves (fst x) (fst x') \<and> snd x' = snd x) allocs allocs'"
  proof (rule grown_allocations [OF _ assms(2)])
    show "list_all2 resolves (filter (concerns a) (ph_submissions H)) (filter (concerns a) (ph_submissions H'))"
      using assms(1) by (simp add: pilot_grown_def)
    show "pilot_allocations a (filter (concerns a) (ph_submissions H)) = Inr allocs"
      using assms(3) by (simp only: pilot_allocations_concerns)
    show "pilot_allocations a' (filter (concerns a) (ph_submissions H')) = Inr allocs'"
      using assms(4) pilot_allocations_concerns [of a'] by (simp add: same_concerns [OF assms(2)])
  qed
  then show ?thesis unfolding list_all2_map1 list_all2_map2 by (rule list_all2_mono) (simp add: frame_def)
qed

text \<open>A fill that counts belongs to one reservation only, which is the one that prices it.\<close>

definition priced_once :: "(pilot_submission \<times> order_terms) list \<Rightarrow> account_fill \<Rightarrow> bool" where
  "priced_once xs f \<longleftrightarrow> (\<exists>x. matches f xs = [x] \<and> af_px f \<le> tm_valuation (snd x)) \<and> 0 < af_sz f"

lemma priced_onceD: "priced_once xs f \<Longrightarrow> x \<in> set xs \<Longrightarrow> links f (fst x) \<Longrightarrow> 0 < af_sz f \<and> af_px f \<le> tm_valuation (snd x)"
  "priced_once xs f \<Longrightarrow> length (matches f xs) = 1" "priced_once xs f \<Longrightarrow> matches f xs \<noteq> []"
proof -
  assume p: "priced_once xs f" and x: "x \<in> set xs" "links f (fst x)"
  from x have "x \<in> set (matches f xs)" by (simp add: matches_def)
  with p show "0 < af_sz f \<and> af_px f \<le> tm_valuation (snd x)" by (auto simp: priced_once_def)
qed (auto simp: priced_once_def)

lemma priced_within_once:
  assumes "priced_within E H a" "pilot_allocations a (ph_submissions H) = Inr allocs" "account_fills E H a = Inr fs" "projected a allocs fs st"
  shows "\<forall>f \<in> set fs. priced_once (map frame allocs) f"
proof
  fix f assume f: "f \<in> set fs"
  with assms(1-3) have "\<exists>x \<in> set (map frame allocs). links f (fst x) \<and> af_px f \<le> tm_valuation (snd x)"
    by (auto simp: priced_within_def frame_def)
  then obtain x where x: "x \<in> set (matches f (map frame allocs))" "af_px f \<le> tm_valuation (snd x)" by (force simp: matches_def)
  with f assms(4) account_fills_positive [OF assms(3) f] show "priced_once (map frame allocs) f"
    by (force simp: projected_def agrees_def priced_once_def)
qed

text \<open>Resolutions and well priced fills only lower the exposures.\<close>

lemma exposures_fall:
  assumes pairs: "list_all2 (\<lambda>x y. resolves (fst x) (fst y) \<and> snd y = snd x) xs ys"
    and same: "\<And>f. f \<in> set fs \<Longrightarrow> list_all2 (\<lambda>x y. links f (fst x) \<longleftrightarrow> links f (fst y)) xs ys"
    and bounds: "\<And>x. x \<in> set xs \<Longrightarrow> quantity_of fs (fst x) \<le> tm_sz (snd x) \<and> 0 < tm_valuation (snd x)"
    and once: "\<And>f. f \<in> set new \<Longrightarrow> priced_once ys f" and positive: "\<And>f. f \<in> set fs \<Longrightarrow> 0 < af_px f \<and> 0 < af_sz f"
  shows "sum_list (map (exposure (fs @ new)) ys) \<le> sum_list (map (exposure fs) xs)"
proof (rule sum_list_le, rule list_all2_all_nthI)
  show "length xs = length ys" by (rule list_all2_lengthD [OF pairs])
  fix i assume i: "i < length xs"
  let ?x = "xs ! i" and ?y = "ys ! i"
  have x: "?x \<in> set xs" by (rule nth_mem [OF i])
  have y: "?y \<in> set ys" by (rule nth_mem) (use i list_all2_lengthD [OF pairs] in simp)
  have xy: "resolves (fst ?x) (fst ?y)" "snd ?y = snd ?x" using list_all2_nthD [OF pairs i] by simp_all
  have new_ok: "0 < af_sz f \<and> af_px f \<le> tm_valuation (snd ?y)" if "f \<in> set new" "links f (fst ?y)" for f
    using priced_onceD(1) [OF once y] that by blast
  have fs_ok: "\<forall>f \<in> set fs. links f (fst ?x) \<longleftrightarrow> links f (fst ?y)" using list_all2_nthD [OF same i] by blast
  have "0 \<le> exposure fs ?x" using bounds [OF x] positive by (intro exposure_nonneg) auto
  with new_ok fs_ok xy show "exposure (fs @ new) ?y \<le> exposure fs ?x" by (intro exposure_falls) (auto dest: resolvesD(7))
qed

lemma projected_bounds:
  assumes "pilot_allocations a ss = Inr allocs" "projected a allocs fs st" "x \<in> set (map frame allocs)"
  shows "quantity_of fs (fst x) \<le> tm_sz (snd x) \<and> 0 < tm_valuation (snd x)"
proof -
  obtain y where y: "y \<in> set allocs" "x = frame y" using assms(3) by auto
  with assms(2) have "not_over (fill_all fs y)" by (simp add: projected_def)
  with y pilot_allocations_fresh [OF assms(1) y(1)] show ?thesis by (simp add: not_over_def fill_all_def frame_def)
qed

text \<open>One more reservation raises what is committed by no more than its own notional, however the history grows then.\<close>

lemma committed_after_admission:
  assumes exact: "exact_money (pe_dec E)" and before: "project E H a = Inr st" "ps_halt st = None"
    and s: "terms_of (fst (pb_intent s)) = Inr t" "pb_resolution s = None" "ay_seq a < pb_seq s"
      "pb_account s = az_account (ay_data a)" "pb_agent s = az_agent (ay_data a)"
    and grown: "pilot_grown a (H\<lparr>ph_submissions := ph_submissions H @ [s]\<rparr>) H'" "same_authority a a'"
    and after: "project E H' a' = Inr st'" "priced_within E H' a'"
  shows "committed st' \<le> committed st + tm_sz t * tm_valuation t"
proof -
  obtain allocs fs where A: "pilot_allocations a (ph_submissions H) = Inr allocs" "account_fills E H a = Inr fs" "projected a allocs fs st"
    by (rule project_Inr [OF exact before(1)])
  obtain allocs' fs' where A': "pilot_allocations a' (ph_submissions H') = Inr allocs'" "account_fills E H' a' = Inr fs'" "projected a' allocs' fs' st'"
    by (rule project_Inr [OF exact after(1)])
  let ?frs = "map frame allocs" and ?frs' = "map frame allocs'" and ?H = "H\<lparr>ph_submissions := ph_submissions H @ [s]\<rparr>"
  let ?frs1 = "?frs @ [(s, t)]"
  have once': "\<forall>f \<in> set fs'. priced_once ?frs' f" by (rule priced_within_once [OF after(2) A'])
  have once: "\<forall>f \<in> set fs. \<exists>x. matches f ?frs = [x]" using A(3) before(2) by (force simp: projected_def agrees_def)
  have fills: "account_fills E ?H a = Inr fs" using A(2) by (simp add: account_fills_def take_fills_kept [of "ph_fills H" ?H H a a] same_authority_def)
  obtain new where new: "mset fs' = mset (fs @ new)" using grown_fills [OF grown fills A'(2)] by blast
  have sets: "set fs' = set fs \<union> set new" using arg_cong [OF new, of set_mset] by simp
  have "pilot_allocations a [s] = Inr [(s, t, 0)]" using s by (simp add: Let_def)
  with A(1) have alloc: "pilot_allocations a (ph_submissions ?H) = Inr (allocs @ [(s, t, 0)])" by (simp add: allocations_snoc)
  from grown_frames [OF grown alloc A'(1)]
  have pairs: "list_all2 (\<lambda>x y. resolves (fst x) (fst y) \<and> snd y = snd x) ?frs1 ?frs'" by (simp add: frame_def)
  have counts: "list_all2 (\<lambda>x y. links f (fst x) \<longrightarrow> links f (fst y)) ?frs1 ?frs'" "length (matches f ?frs) = 1" "length (matches f ?frs') = 1"
    if f: "f \<in> set fs" for f
  proof -
    show "list_all2 (\<lambda>x y. links f (fst x) \<longrightarrow> links f (fst y)) ?frs1 ?frs'"
      using pairs by (rule list_all2_mono) (auto dest: resolvesD(6))
    from once f show "length (matches f ?frs) = 1" by force
    from once' sets f show "length (matches f ?frs') = 1" by (intro priced_onceD(2)) blast
  qed
  have fresh: "\<not> links f s" if f: "f \<in> set fs" for f
    using filter_length_mono [OF counts(1) [OF f]] counts(2,3) [OF f] by (auto simp: matches_def split: if_splits)
  then have none: "quantity_of fs s = 0" "filter (\<lambda>f. links f s) fs = []" by (simp_all add: quantity_of_def filter_False)
  then have opened: "exposure fs (s, t) = tm_sz t * tm_valuation t" using s(2) by (simp add: exposure_def never_live_def)
  have "sum_list (map (exposure (fs @ new)) ?frs') \<le> sum_list (map (exposure fs) ?frs1)"
  proof (rule exposures_fall [OF pairs])
    show "list_all2 (\<lambda>x y. links f (fst x) \<longleftrightarrow> links f (fst y)) ?frs1 ?frs'" if "f \<in> set fs" for f
      using counts [OF that] by (intro same_selection) (simp_all add: matches_def)
    show "quantity_of fs (fst x) \<le> tm_sz (snd x) \<and> 0 < tm_valuation (snd x)" if "x \<in> set ?frs1" for x
      using that pilot_allocations_fresh [OF alloc, of "(s, t, 0)"] none(1) projected_bounds [OF A(1,3), of x] by auto
    show "priced_once ?frs' f" if "f \<in> set new" for f using once' sets that by blast
    show "0 < af_px f \<and> 0 < af_sz f" if "f \<in> set fs" for f using account_fills_positive [OF A(2) that] .
  qed
  moreover have "sum_list (map (exposure (fs @ new)) ?frs') = committed st'"
  proof -
    have "\<forall>f \<in> set fs'. matches f ?frs' \<noteq> []" using once' by (auto dest: priced_onceD(3))
    moreover have "exposure fs' = exposure (fs @ new)" by (rule ext) (rule exposure_mset [OF new])
    ultimately show ?thesis using committed_exposure [OF A'(3)] pilot_allocations_fresh [OF A'(1)] by (simp add: committed_def)
  qed
  moreover have "sum_list (map (exposure fs) ?frs) = committed st"
    using committed_exposure [OF A(3)] pilot_allocations_fresh [OF A(1)] once by (force simp: committed_def)
  ultimately show ?thesis using opened by simp
qed

lemma pilot_grown_refl [simp]: "pilot_grown a H H"
  by (simp add: pilot_grown_def list_all2_refl)

lemma pilot_grown_trans: "pilot_grown a H H1 \<Longrightarrow> pilot_grown a H1 H2 \<Longrightarrow> pilot_grown a H H2"
  by (auto simp: pilot_grown_def elim: list_all2_trans [rotated] intro: resolves_trans)

text \<open>
  What happens to the history of a pilot: the journal reserves an order that was admitted, other accounts
  reserve theirs, a reservation is resolved, a fill is recorded.
\<close>

inductive pilot_step :: "pilot_env \<Rightarrow> authority \<Rightarrow> pilot_history \<Rightarrow> pilot_history \<Rightarrow> bool" for E a where
  reserved: "same_authority a a' \<Longrightarrow> admit_order E H a' account cl = Inr () \<Longrightarrow> pb_intent s = (cl, reason) \<Longrightarrow> pb_resolution s = None \<Longrightarrow>
    ay_seq a < pb_seq s \<Longrightarrow> pb_account s = account \<Longrightarrow> pb_agent s = cr_agent cl \<Longrightarrow>
    pilot_step E a H (H\<lparr>ph_submissions := ph_submissions H @ [s]\<rparr>)"
| foreign: "\<not> concerns a s \<Longrightarrow> pilot_step E a H (H\<lparr>ph_submissions := ph_submissions H @ [s]\<rparr>)"
| resolved: "ph_submissions H = before @ s # later \<Longrightarrow> pb_resolution s = None \<Longrightarrow>
    pilot_step E a H (H\<lparr>ph_submissions := before @ s\<lparr>pb_resolution := Some r\<rparr> # later\<rparr>)"
| filled: "et_seq e \<notin> et_seq ` set (ph_fills H) \<Longrightarrow>
    pilot_step E a H (H\<lparr>ph_fills := ph_fills H @ [e], ph_fill_keys := (ph_fill_keys H)(et_seq e \<mapsto> key)\<rparr>)"

lemma step_grown:
  assumes "pilot_step E a H H'"
  shows "pilot_grown a H H' \<or>
    (\<exists>a' account cl s reason. same_authority a a' \<and> admit_order E H a' account cl = Inr () \<and> pb_intent s = (cl, reason) \<and> pb_resolution s = None
       \<and> ay_seq a < pb_seq s \<and> pb_account s = account \<and> pb_agent s = cr_agent cl
       \<and> H' = H\<lparr>ph_submissions := ph_submissions H @ [s]\<rparr>)"
  using assms
proof cases
  case reserved
  then show ?thesis by blast
next
  case (resolved before s later r)
  have "resolves s (s\<lparr>pb_resolution := Some r\<rparr>)" using resolved(3) by (auto simp: resolves_def)
  moreover have "concerns a (s\<lparr>pb_resolution := Some r\<rparr>) = concerns a s" by (simp add: concerns_def)
  ultimately show ?thesis using resolved(1,2)
    by (auto simp: pilot_grown_def list_all2_refl intro!: list_all2_appendI)
next
  case (filled e key)
  then have "et_seq f \<noteq> et_seq e" if "f \<in> set (ph_fills H)" for f using that by (metis image_eqI)
  then have "pilot_grown a H H'" by (simp add: filled(1) pilot_grown_def list_all2_refl)
  then show ?thesis by blast
qed (auto simp: pilot_grown_def list_all2_refl)

definition held_in_budget :: "pilot_env \<Rightarrow> authority \<Rightarrow> pilot_history \<Rightarrow> bool" where
  "held_in_budget E a H =
     (\<forall>H' a' st. pilot_grown a H H' \<and> same_authority a a' \<and> project E H' a' = Inr st \<and> priced_within E H' a'
        \<longrightarrow> committed st \<le> az_executed_limit_usd (ay_data a))"

lemma admit_order_Inr:
  assumes "exact_money (pe_dec E)" "admit_order E H a account cl = Inr ()"
  obtains st t where "project E H a = Inr st" "ps_halt st = None" "terms_of cl = Inr t" "account = az_account (ay_data a)"
    "cr_agent cl = az_agent (ay_data a)" "cr_network cl = Testnet" "tm_sz t * tm_valuation t \<le> az_order_limit_usd (ay_data a)"
    "committed st + tm_sz t * tm_valuation t \<le> az_executed_limit_usd (ay_data a)"
proof -
  from assms(2) obtain st t amount where st: "project E H a = Inr st" and t: "terms_of cl = Inr t"
    and amount: "checked_money (checked_mul (pe_dec E) (tm_sz t) (tm_valuation t)) = Inr amount" "amount \<le> az_order_limit_usd (ay_data a)"
    and ok: "permitted E st amount (ay_data a) = Inr ()" and who: "check_identity a account cl = Inr ()"
    by (auto simp: admit_order_def order_limit_def result_inv not_less)
  from ok obtain held total where halt: "ps_halt st = None"
    and sums: "checked_money (checked_add (pe_dec E) (ps_executed_usd st) (ps_reserved_usd st)) = Inr held"
      "checked_money (checked_add (pe_dec E) held amount) = Inr total" "total \<le> az_executed_limit_usd (ay_data a)"
    by (auto simp: permitted_def result_inv not_less split: option.splits)
  from exact_moneyD(1) [OF assms(1) sums(1)] exact_moneyD(1) [OF assms(1) sums(2)] exact_moneyD(3) [OF assms(1) amount(1)]
  have "tm_sz t * tm_valuation t \<le> az_order_limit_usd (ay_data a)" "committed st + tm_sz t * tm_valuation t \<le> az_executed_limit_usd (ay_data a)"
    using sums(3) amount(2) by (simp_all add: committed_def)
  with st halt t who that show ?thesis by (auto simp: check_identity_def ensure_is_Inr)
qed

lemma step_keeps_budget:
  assumes "exact_money (pe_dec E)" "pilot_step E a H H1" "held_in_budget E a H"
  shows "held_in_budget E a H1"
  using step_grown [OF assms(2)]
proof (elim disjE exE conjE)
  assume "pilot_grown a H H1"
  with assms(3) show ?thesis unfolding held_in_budget_def by (blast intro: pilot_grown_trans)
next
  fix a' account cl s reason
  assume same: "same_authority a a'" and admit: "admit_order E H a' account cl = Inr ()"
    and s: "pb_intent s = (cl, reason)" "pb_resolution s = None" "ay_seq a < pb_seq s" "pb_account s = account" "pb_agent s = cr_agent cl"
    and H1: "H1 = H\<lparr>ph_submissions := ph_submissions H @ [s]\<rparr>"
  obtain st t where A: "project E H a' = Inr st" "ps_halt st = None" "terms_of cl = Inr t" "account = az_account (ay_data a')"
    "cr_agent cl = az_agent (ay_data a')" "committed st + tm_sz t * tm_valuation t \<le> az_executed_limit_usd (ay_data a')"
    by (rule admit_order_Inr [OF assms(1) admit])
  have data: "ay_data a' = ay_data a" "ay_seq a' = ay_seq a" using same by (simp_all add: same_authority_def)
  show ?thesis unfolding held_in_budget_def
  proof (intro allI impI, elim conjE)
    fix H' a'' st'
    assume grown: "pilot_grown a H1 H'" "same_authority a a''" "project E H' a'' = Inr st'" "priced_within E H' a''"
    have "same_authority a' a''" using grown(2) data by (simp add: same_authority_def)
    moreover have "pilot_grown a' H1 H'" using grown(1) same_concerns [OF same] by (simp add: pilot_grown_def)
    ultimately have "committed st' \<le> committed st + tm_sz t * tm_valuation t"
      using committed_after_admission [OF assms(1) A(1,2), of s t H' a'' st'] grown(3,4) s A(3-5) data H1 by simp
    with A(6) data show "committed st' \<le> az_executed_limit_usd (ay_data a)" by simp
  qed
qed


section \<open>Stopping at the limits\<close>

definition crosses :: "authorized \<Rightarrow> account_fill list \<Rightarrow> bool" where
  "crosses data fs = (az_executed_limit_usd data \<le> total notional fs \<or> total af_net fs \<le> - az_realized_loss_limit_usd data)"

definition stopped_for_good :: "pilot_stop option \<Rightarrow> bool" where
  "stopped_for_good h = (case h of Some (PsExhausted _ _ _) \<Rightarrow> True | _ \<Rightarrow> False)"

lemma threshold_stop_iff:
  "stopped_for_good (threshold_stop data st) \<longleftrightarrow>
     az_executed_limit_usd data \<le> ps_executed_usd st \<or> ps_net_realized_pnl_usd st \<le> - az_realized_loss_limit_usd data"
  "threshold_stop data st = None \<longleftrightarrow> \<not> stopped_for_good (threshold_stop data st)"
  by (auto simp: threshold_stop_def stopped_for_good_def)

lemma apply_fills_halt:
  assumes "exact_money (pe_dec E)" "apply_fills E a fs p = Inr p'"
    and "ps_executed_usd (pj_state p) = total notional done" "ps_net_realized_pnl_usd (pj_state p) = total af_net done"
    and "ps_halt (pj_state p) = None \<or> stopped_for_good (ps_halt (pj_state p))"
  shows "(ps_halt (pj_state p') = None \<or> stopped_for_good (ps_halt (pj_state p')))
    \<and> (ps_halt (pj_state p') = None \<longleftrightarrow>
         ps_halt (pj_state p) = None \<and> (\<forall>k. 0 < k \<and> k \<le> length fs \<longrightarrow> \<not> crosses (ay_data a) (done @ take k fs)))"
  using assms(2-5)
proof (induction fs arbitrary: p "done")
  case Nil
  then show ?case by simp
next
  case (Cons f fs)
  from Cons.prems(1) obtain st r q where st: "count_fill E a f (pj_state p) = Inr st"
    and q: "q = (case r of None \<Rightarrow> p\<lparr>pj_state := st, pj_unmatched := True\<rparr> | Some allocs \<Rightarrow> p\<lparr>pj_state := st, pj_allocs := allocs\<rparr>)"
    and rest: "apply_fills E a fs q = Inr p'"
    by (auto simp: apply_fill_def result_inv)
  have state: "pj_state q = st" by (simp add: q split: option.split)
  note c = count_fill_Inr [OF assms(1) st]
  have sums: "ps_executed_usd (pj_state q) = total notional (done @ [f])" "ps_net_realized_pnl_usd (pj_state q) = total af_net (done @ [f])"
    using c Cons.prems(2,3) by (simp_all add: state)
  have halt: "ps_halt (pj_state q) = None \<longleftrightarrow> ps_halt (pj_state p) = None \<and> \<not> crosses (ay_data a) (done @ [f])"
    "ps_halt (pj_state q) = None \<or> stopped_for_good (ps_halt (pj_state q))"
    using c(4) Cons.prems(4) sums threshold_stop_iff [of "ay_data a" st]
    by (auto simp: state crosses_def split: option.splits)
  have "(\<forall>k. 0 < k \<and> k \<le> length (f # fs) \<longrightarrow> \<not> crosses (ay_data a) (done @ take k (f # fs))) \<longleftrightarrow>
      \<not> crosses (ay_data a) (done @ [f]) \<and> (\<forall>k. 0 < k \<and> k \<le> length fs \<longrightarrow> \<not> crosses (ay_data a) ((done @ [f]) @ take k fs))"
    (is "(\<forall>k. ?P k) \<longleftrightarrow> _")
  proof -
    have "(\<forall>k. ?P k) \<longleftrightarrow> (\<forall>k. ?P (Suc k))" by (metis gr0_implies_Suc less_irrefl)
    also have "\<dots> \<longleftrightarrow> ?P (Suc 0) \<and> (\<forall>k. 0 < k \<longrightarrow> ?P (Suc k))" by (metis gr0I)
    finally show ?thesis by (simp add: imp_conjL)
  qed
  note IH = Cons.IH [OF rest sums halt(2)] and this
  then show ?case using halt(1) by (intro conjI) blast+
qed

lemma pilot_allocations_from:
  "pilot_allocations a ss = Inr allocs \<Longrightarrow> x \<in> set allocs \<Longrightarrow> fst x \<in> set ss \<and> pb_account (fst x) = az_account (ay_data a)"
proof (induction ss arbitrary: allocs)
  case (Cons s ss)
  then consider "pilot_allocations a ss = Inr allocs"
    | t rest where "pilot_allocations a ss = Inr rest" "allocs = (s, t, 0) # rest" "pb_account s = az_account (ay_data a)"
    by (auto simp: Let_def result_inv split: if_splits)
  then show ?case using Cons by cases auto
qed simp


section \<open>A sample\<close>

definition pilot_sample_env :: pilot_env where
  "pilot_sample_env =
     \<lparr>pe_dec = exact_declib, pe_exact = exact_parse, pe_parse = (\<lambda>_. None), pe_json_text = (\<lambda>_. []), pe_digest = id,
      pe_error_text = (\<lambda>_. ''error''), pe_submissions = (\<lambda>_ _ _. Inr []), pe_authorized_of = (\<lambda>_. None), pe_authorized_json = (\<lambda>_. JNull),
      pe_halted_of = (\<lambda>_. None), pe_halted_json = (\<lambda>_. JNull), pe_signed_of = (\<lambda>_. None), pe_signed_json = (\<lambda>_. JNull),
      pe_envelope_json = (\<lambda>_. JNull), pe_mac_sign = (\<lambda>_. None), pe_mac_ok = (\<lambda>_ _. True),
      pe_route_in = (\<lambda>_ _. Inl ''none''), pe_verify_route_in = (\<lambda>_ _ _. Inr ())\<rparr>"

definition sample_cloid :: cloid where "sample_cloid = Cloid ''0xabcdef0123456789abcdef0123456789''"
definition sample_pilot_account :: address where "sample_pilot_account = Address (replicate 20 7)"

definition sample_authority :: authority where
  "sample_authority =
     \<lparr>ay_seq = 2, ay_hash = ''h'',
      ay_data = fresh_authorization ''alpha'' sample_pilot_account 5 \<lparr>an_seq = 1, an_hash = ''g''\<rparr>,
      ay_halt = None,
      ay_event = \<lparr>et_seq = 2, et_ts_ms = 5, et_kind = EkPilotAuthorized, et_agent_id = Some ''alpha'', et_payload = None,
        et_payload_hash = [], et_prev_hash = ''g'', et_hash = ''h'', et_redacted_at = None, et_redaction_reason = None,
        et_snapshot_id = None, et_snapshot_hash = None\<rparr>\<rparr>"

definition sample_order :: clearance where
  "sample_order =
     \<lparr>cr_approval_review_digest = None, cr_agent = ''alpha'',
      cr_route = \<lparr>rt_network = Testnet, rt_binding_seq = 1,
        rt_binding = \<lparr>rb_agent = ''alpha'', rb_container = sample_pilot_account, rb_vault_address = None,
          rb_wallet = \<lparr>aw_generation = 0, aw_address = Address [9], aw_approved_at_ms = 0, aw_valid_until_ms = 9\<rparr>\<rparr>\<rparr>,
      cr_policy_revision = 1, cr_vault_address = None, cr_network = Testnet, cr_evaluated_at_ms = 6,
      cr_kind = CkOrder \<lparr>co_symbol = ''BTC'', co_is_buy = True, co_px = 10, co_sz = 1, co_notional_usd = 10, co_reduce_only = False,
        co_slippage_bps = 0, co_reference_px = 10, co_slippage_reference_px = 10, co_cloid = Some sample_cloid,
        co_snapshot_id = None, co_snapshot_hash = None\<rparr>,
      cr_utilization = utilization_none_with_global 0\<rparr>"

definition sample_reservation :: pilot_submission where
  "sample_reservation =
     \<lparr>pb_seq = 3, pb_account = sample_pilot_account, pb_agent = ''alpha'', pb_cloid = sample_cloid, pb_intent = (sample_order, []),
      pb_resolution = None\<rparr>"

definition sample_fill_event :: "nat \<Rightarrow> string \<Rightarrow> string \<Rightarrow> string \<Rightarrow> event" where
  "sample_fill_event n sz closed_pnl fee =
     \<lparr>et_seq = n, et_ts_ms = 7, et_kind = EkFill, et_agent_id = Some ''alpha'',
      et_payload = Some (JObj
        [(''account'', JStr (address_text sample_pilot_account)), (''ts_ms'', JInt 7), (''fee_token'', JStr ''USDC''), (''px'', JStr ''9''),
         (''sz'', JStr sz), (''cloid'', JStr (cloid_as_str sample_cloid)), (''closed_pnl'', JStr closed_pnl), (''fee'', JStr fee),
         (''tid'', JInt (int n)), (''oid'', JInt 12), (''coin'', JStr ''BTC''), (''side'', JStr ''buy'')]),
      et_payload_hash = [], et_prev_hash = ''i'', et_hash = ''j'', et_redacted_at = None, et_redaction_reason = None,
      et_snapshot_id = None, et_snapshot_hash = None\<rparr>"

definition sample_fill_key :: "nat \<Rightarrow> string option" where
  "sample_fill_key n = Some (fill_idem_key (address_text sample_pilot_account) n)"

definition sample_history0 :: pilot_history where
  "sample_history0 =
     \<lparr>ph_authorities = [sample_authority], ph_submissions = [], ph_fills = [], ph_fill_keys = Map.empty, ph_adoption = None\<rparr>"

definition sample_history1 :: pilot_history where
  "sample_history1 = sample_history0\<lparr>ph_submissions := [sample_reservation]\<rparr>"

definition sample_history2 :: pilot_history where
  "sample_history2 = sample_history1\<lparr>ph_fills := [sample_fill_event 4 ''1'' ''0'' ''0''], ph_fill_keys := [4 \<mapsto> sample_fill_key 4]\<rparr>"

text \<open>A loss of six, won back by the next fill.\<close>

definition sample_history3 :: pilot_history where
  "sample_history3 = sample_history1\<lparr>ph_fills := [sample_fill_event 4 ''0.5'' ''0'' ''6'', sample_fill_event 5 ''0.5'' ''8'' ''0''],
     ph_fill_keys := [4 \<mapsto> sample_fill_key 4, 5 \<mapsto> sample_fill_key 5]\<rparr>"

definition projected_state :: "pilot_env \<Rightarrow> pilot_history \<Rightarrow> authority \<Rightarrow> pilot_state option" where
  "projected_state E H a = (case project E H a of Inr st \<Rightarrow> Some st | Inl _ \<Rightarrow> None)"

lemma projected_state_Some [simp]: "projected_state E H a = Some st \<longleftrightarrow> project E H a = Inr st"
  by (simp add: projected_state_def split: sum.split)

definition sample_end :: pilot_state where "sample_end = the (projected_state pilot_sample_env sample_history2 sample_authority)"

lemma sample_exact: "exact_money (pe_dec pilot_sample_env)"
  by (simp add: exact_money_def pilot_sample_env_def exact_declib_def)

lemma sample_pilot_steps: "(pilot_step pilot_sample_env sample_authority)\<^sup>*\<^sup>* sample_history0 sample_history2"
proof -
  have "admit_order pilot_sample_env sample_history0 sample_authority sample_pilot_account sample_order = Inr ()" by code_simp
  then have "pilot_step pilot_sample_env sample_authority sample_history0 sample_history1"
    unfolding sample_history1_def
    using reserved [of sample_authority sample_authority pilot_sample_env sample_history0 sample_pilot_account sample_order sample_reservation "[]"]
    by (simp add: same_authority_def sample_reservation_def sample_authority_def sample_order_def sample_history0_def)
  moreover have "pilot_step pilot_sample_env sample_authority sample_history1 sample_history2"
    using filled [of "sample_fill_event 4 ''1'' ''0'' ''0''" sample_history1 pilot_sample_env sample_authority "sample_fill_key 4"]
    by (simp add: sample_history2_def sample_history1_def sample_history0_def sample_fill_event_def)
  ultimately show ?thesis by (meson converse_rtranclp_into_rtranclp r_into_rtranclp)
qed



end
