(* ===== verification/Pilot_Permanence.thy ===== *)
theory Pilot_Permanence
  imports Pilot_Journal Ledger_Props
begin

text \<open>
  A stop of the pilot on the chain stops it for good: whatever the ledger does afterwards, redactions of
  the authorization, of the stop or of the fill it is embedded in included, no order of the pilot is
  admitted or signed again.
\<close>

section \<open>What a reading of the history keeps\<close>

definition continues :: "authority \<Rightarrow> authority \<Rightarrow> bool" where
  "continues a a' = (ay_seq a' = ay_seq a \<and> ay_data a' = ay_data a \<and> (ay_halt a \<noteq> None \<longrightarrow> ay_halt a' \<noteq> None))"

lemma continues_refl [simp]: "continues a a"
  by (simp add: continues_def)

lemma continues_trans: "continues a b \<Longrightarrow> continues b c \<Longrightarrow> continues a c"
  by (auto simp: continues_def)

definition lasting :: "pilot_history \<Rightarrow> pilot_history \<Rightarrow> bool" where
  "lasting H H' =
     ((\<forall>a \<in> set (ph_authorities H). \<exists>a' \<in> set (ph_authorities H'). continues a a') \<and> set (ph_fills H) \<subseteq> set (ph_fills H')
      \<and> (length (ph_authorities H) \<le> 1 \<longrightarrow> length (ph_authorities H') \<le> 1))"

lemma lasting_refl: "lasting H H"
  unfolding lasting_def by (auto intro: continues_refl)

lemma lasting_trans: "lasting H H1 \<Longrightarrow> lasting H1 H2 \<Longrightarrow> lasting H H2"
  unfolding lasting_def by (blast intro: continues_trans)

lemma set_halt_continues: "list_all2 continues as (set_halt n stop as)"
  by (induction as) (auto simp: continues_def list_all2_refl)

lemma list_all2_member: "list_all2 P xs ys \<Longrightarrow> x \<in> set xs \<Longrightarrow> \<exists>y \<in> set ys. P x y"
  by (induction rule: list_all2_induct) auto

lemma set_halt_hits: "find (\<lambda>a. ay_seq a = n) as = Some a \<Longrightarrow> \<exists>a' \<in> set (set_halt n stop as). ay_seq a' = n \<and> ay_halt a' \<noteq> None"
  by (induction as) auto

lemma validate_halt_Inr:
  assumes "validate_halt H e key h embedded = Inr H'"
  shows "H' = H\<lparr>ph_authorities := set_halt (hl_authorization_seq h) (hl_stop h) (ph_authorities H)\<rparr>"
    "\<exists>a \<in> set (ph_authorities H'). ay_seq a = hl_authorization_seq h \<and> ay_halt a \<noteq> None"
    "embedded \<Longrightarrow> hl_authorization_seq h < et_seq e"
proof -
  from assms obtain a where a: "find (\<lambda>a. ay_seq a = hl_authorization_seq h) (ph_authorities H) = Some a"
    and H': "H' = H\<lparr>ph_authorities := set_halt (ay_seq a) (hl_stop h) (ph_authorities H)\<rparr>" and later: "embedded \<Longrightarrow> ay_seq a < et_seq e"
    by (auto simp: validate_halt_def result_inv not_le split: if_splits)
  from a have "ay_seq a = hl_authorization_seq h" by (auto simp: find_Some_iff)
  with H' later set_halt_hits [OF a] show "H' = H\<lparr>ph_authorities := set_halt (hl_authorization_seq h) (hl_stop h) (ph_authorities H)\<rparr>"
    "\<exists>a \<in> set (ph_authorities H'). ay_seq a = hl_authorization_seq h \<and> ay_halt a \<noteq> None"
    "embedded \<Longrightarrow> hl_authorization_seq h < et_seq e" by simp_all
qed

lemma validate_halt_lasting:
  assumes "validate_halt H e key h embedded = Inr H'"
  shows "lasting H H'"
proof -
  let ?as' = "set_halt (hl_authorization_seq h) (hl_stop h) (ph_authorities H)"
  have same: "list_all2 continues (ph_authorities H) ?as'" by (rule set_halt_continues)
  then have "length ?as' = length (ph_authorities H)" by (simp add: list_all2_lengthD)
  with list_all2_member [OF same] show ?thesis unfolding validate_halt_Inr(1) [OF assms] by (simp add: lasting_def)
qed

section \<open>What the rows say\<close>

definition raw_payload :: "event_row \<Rightarrow> string option" where
  "raw_payload r = (case ev_payload r of PcText text \<Rightarrow> Some text | _ \<Rightarrow> None)"

definition authorizes :: "pilot_env \<Rightarrow> ledger \<Rightarrow> event_row \<Rightarrow> nat \<Rightarrow> authorized \<Rightarrow> bool" where
  "authorizes E L r n data =
     (\<exists>e p v. event_from_row (pe_parse E) r = Inr e \<and> et_kind e = EkPilotAuthorized \<and> et_seq e = n \<and> et_payload e = Some p
       \<and> authorization_payload E L (raw_payload r) e p = Inr v \<and> pe_authorized_of E v = Some data)"

text \<open>A stop of the authorization at a sequence number: a row of its own, or the field of a later fill.\<close>

definition stops :: "pilot_env \<Rightarrow> event_row \<Rightarrow> nat \<Rightarrow> bool" where
  "stops E r n =
     (\<exists>e p h. event_from_row (pe_parse E) r = Inr e \<and> et_payload e = Some p \<and> hl_authorization_seq h = n
       \<and> (et_kind e = EkPilotHalted \<and> parse_halt E p = Inr h
          \<or> et_kind e = EkFill \<and> n < et_seq e \<and> (\<exists>stop. json_get ''pilot_stop'' p = Some stop \<and> parse_halt E stop = Inr h)))"

lemma stops_embedded:
  "event_from_row (pe_parse E) r = Inr e \<Longrightarrow> et_kind e = EkFill \<Longrightarrow> et_payload e = Some p \<Longrightarrow> json_get ''pilot_stop'' p = Some stop \<Longrightarrow>
   parse_halt E stop = Inr h \<Longrightarrow> hl_authorization_seq h < et_seq e \<Longrightarrow> stops E r (hl_authorization_seq h)"
  unfolding stops_def by blast

lemma stops_alone:
  "event_from_row (pe_parse E) r = Inr e \<Longrightarrow> et_kind e = EkPilotHalted \<Longrightarrow> et_payload e = Some p \<Longrightarrow> parse_halt E p = Inr h \<Longrightarrow>
   stops E r (hl_authorization_seq h)"
  unfolding stops_def by blast

lemma history_row_cases:
  assumes "history_row E L db r H = Inr H'"
  obtains
    (fill) e where "event_from_row (pe_parse E) r = Inr e" "et_kind e = EkFill" "Option.bind (et_payload e) (json_get ''pilot_stop'') = None"
      "H' = H\<lparr>ph_fill_keys := (ph_fill_keys H)(et_seq e \<mapsto> ev_idem_key r), ph_fills := ph_fills H @ [e]\<rparr>"
  | (stop_fill) e p stop h H1 where "event_from_row (pe_parse E) r = Inr e" "et_kind e = EkFill" "et_payload e = Some p"
      "json_get ''pilot_stop'' p = Some stop" "parse_halt E stop = Inr h" "validate_halt H e None h True = Inr H1"
      "H' = H1\<lparr>ph_fill_keys := (ph_fill_keys H1)(et_seq e \<mapsto> ev_idem_key r), ph_fills := ph_fills H1 @ [e]\<rparr>"
  | (authorized) e p where "event_from_row (pe_parse E) r = Inr e" "et_kind e = EkPilotAuthorized" "et_payload e = Some p"
      "read_authorization E L db e (raw_payload r) (ev_idem_key r) p H = Inr H'"
  | (adopted) e where "event_from_row (pe_parse E) r = Inr e" "et_kind e = EkPilotAdopted" "et_payload e \<noteq> None" "H' = H\<lparr>ph_adoption := Some e\<rparr>"
  | (halted) e p h where "event_from_row (pe_parse E) r = Inr e" "et_kind e = EkPilotHalted" "et_payload e = Some p"
      "parse_halt E p = Inr h" "validate_halt H e (ev_idem_key r) h False = Inr H'"
proof -
  from assms obtain e where e: "event_from_row (pe_parse E) r = Inr e" by (auto simp: history_row_def result_inv)
  show thesis
  proof (cases "et_kind e = EkFill")
    case True
    with assms e show thesis
      by (cases "Option.bind (et_payload e) (json_get ''pilot_stop'')")
        (auto simp: history_row_def Let_def result_inv intro: fill stop_fill simp: bind_eq_Some_conv)
  next
    case False
    with assms e show thesis
      by (cases "et_kind e") (auto simp: history_row_def Let_def result_inv raw_payload_def intro: authorized adopted halted)
  qed
qed

lemma read_authorization_Inr:
  assumes "read_authorization E L db e raw key p H = Inr H'"
  obtains v data where "authorization_payload E L raw e p = Inr v" "pe_authorized_of E v = Some data" "ph_authorities H = []"
    "H' = H\<lparr>ph_authorities := [\<lparr>ay_seq = et_seq e, ay_hash = et_hash e, ay_data = data, ay_halt = None, ay_event = e\<rparr>]\<rparr>"
  using assms by (auto simp: read_authorization_def result_inv intro: that)

lemma history_row_lasting: "history_row E L db r H = Inr H' \<Longrightarrow> lasting H H'"
proof (erule history_row_cases)
  fix e p stop h H1
  assume "validate_halt H e None h True = Inr H1" "H' = H1\<lparr>ph_fill_keys := (ph_fill_keys H1)(et_seq e \<mapsto> ev_idem_key r), ph_fills := ph_fills H1 @ [e]\<rparr>"
  then show "lasting H H'" using validate_halt_lasting [of H e None h True H1] by (auto simp: lasting_def)
qed (auto simp: lasting_def intro: continues_refl elim!: read_authorization_Inr dest: validate_halt_lasting [unfolded lasting_def])

lemma history_rows_lasting: "history_rows E L db rs H = Inr H' \<Longrightarrow> lasting H H'"
  by (induction rs arbitrary: H) (auto simp: result_inv lasting_refl dest: history_row_lasting intro: lasting_trans)

lemma history_rows_member:
  "history_rows E L db rs H = Inr H' \<Longrightarrow> r \<in> set rs \<Longrightarrow> \<exists>H1 H2. history_row E L db r H1 = Inr H2 \<and> lasting H2 H'"
  by (induction rs arbitrary: H) (auto simp: result_inv dest: history_rows_lasting)

text \<open>Where the authority of a reading comes from.\<close>

definition explained :: "pilot_env \<Rightarrow> ledger \<Rightarrow> event_row set \<Rightarrow> pilot_history \<Rightarrow> bool" where
  "explained E L R H =
     (\<forall>a \<in> set (ph_authorities H). (\<exists>r \<in> R. authorizes E L r (ay_seq a) (ay_data a)) \<and> (ay_halt a \<noteq> None \<longrightarrow> (\<exists>r \<in> R. stops E r (ay_seq a))))"

lemma set_halt_source:
  "a' \<in> set (set_halt n stop as) \<Longrightarrow> \<exists>a \<in> set as. ay_seq a' = ay_seq a \<and> ay_data a' = ay_data a \<and> (ay_halt a' = ay_halt a \<or> ay_seq a' = n)"
  by (induction as) (auto split: if_splits)

lemma validate_halt_explained:
  assumes "validate_halt H e key h embedded = Inr H'" "explained E L R H" "\<exists>r \<in> R. stops E r (hl_authorization_seq h)"
  shows "explained E L R H'"
  using assms(2,3) set_halt_source unfolding validate_halt_Inr(1) [OF assms(1)] explained_def by fastforce

lemma history_row_explained:
  assumes "history_row E L db r H = Inr H'" "explained E L R H" "r \<in> R"
  shows "explained E L R H'"
  using assms(1)
proof (cases rule: history_row_cases)
  case (stop_fill e p stop h H1)
  have "stops E r (hl_authorization_seq h)" by (rule stops_embedded [OF stop_fill(1-5) validate_halt_Inr(3) [OF stop_fill(6) TrueI]])
  with assms(3) have "\<exists>r \<in> R. stops E r (hl_authorization_seq h)" by blast
  from validate_halt_explained [OF stop_fill(6) assms(2) this] stop_fill(7) show ?thesis by (simp add: explained_def)
next
  case (authorized e p)
  from authorized(4) obtain v data where "authorization_payload E L (raw_payload r) e p = Inr v" "pe_authorized_of E v = Some data"
    "H' = H\<lparr>ph_authorities := [\<lparr>ay_seq = et_seq e, ay_hash = et_hash e, ay_data = data, ay_halt = None, ay_event = e\<rparr>]\<rparr>"
    by (elim read_authorization_Inr)
  with authorized assms(3) show ?thesis by (auto simp: explained_def authorizes_def)
next
  case (halted e p h)
  with assms(3) have "\<exists>r \<in> R. stops E r (hl_authorization_seq h)" using stops_alone [OF halted(1-4)] by blast
  from validate_halt_explained [OF halted(5) assms(2) this] show ?thesis .
qed (use assms(2) in \<open>auto simp: explained_def\<close>)

lemma history_rows_explained:
  "history_rows E L db rs H = Inr H' \<Longrightarrow> explained E L R H \<Longrightarrow> set rs \<subseteq> R \<Longrightarrow> explained E L R H'"
  by (induction rs arbitrary: H) (auto simp: result_inv dest: history_row_explained)

section \<open>Reading a grown ledger\<close>

lemma authorizes_applies:
  assumes "authorizes E L r n data" "history_row E L db r H = Inr H'"
  shows "\<exists>a \<in> set (ph_authorities H'). ay_seq a = n \<and> ay_data a = data"
  using assms(2)
proof (cases rule: history_row_cases)
  case (authorized e p)
  with assms(1) show ?thesis by (auto simp: authorizes_def elim!: read_authorization_Inr)
qed (use assms(1) in \<open>auto simp: authorizes_def\<close>)

lemma stops_applies:
  assumes "stops E r n" "history_row E L db r H = Inr H'"
  shows "\<exists>a \<in> set (ph_authorities H'). ay_seq a = n \<and> ay_halt a \<noteq> None"
  using assms(2)
proof (cases rule: history_row_cases)
  case (stop_fill e p stop h H1)
  with assms(1) have "n = hl_authorization_seq h" by (auto simp: stops_def)
  with stop_fill(7) validate_halt_Inr(2) [OF stop_fill(6)] show ?thesis by simp
next
  case (halted e p h)
  with assms(1) have "n = hl_authorization_seq h" by (auto simp: stops_def)
  with validate_halt_Inr(2) [OF halted(5)] show ?thesis by simp
qed (use assms(1) in \<open>auto simp: stops_def bind_eq_None_conv\<close>)

text \<open>A redacted row stops the reading, or stays in it as a fill without a payload.\<close>

lemma redacted_applies:
  assumes "event_from_row (pe_parse E) r = Inr e" "r' = r\<lparr>ev_payload := PcNull, ev_redacted_at := ts, ev_redaction_reason := why\<rparr>"
    "history_row E L db r' H = Inr H'"
  shows "et_kind e = EkFill \<and> (\<exists>f \<in> set (ph_fills H'). et_payload f = None \<and> et_seq f = et_seq e)"
proof -
  obtain f where f: "event_from_row (pe_parse E) r' = Inr f" "et_payload f = None" "et_seq f = et_seq e" "et_kind f = et_kind e"
    using assms(1) by (auto simp: assms(2) event_from_row_def result_inv)
  from assms(3) f show ?thesis by (cases rule: history_row_cases) auto
qed

lemma authorizes_network:
  assumes "lg_network L = lg_network L0"
  shows "authorizes E L r n data = authorizes E L0 r n data"
proof -
  have "parse_consent E L raw e = parse_consent E L0 raw e" for raw e by (simp only: parse_consent_def assms)
  then have "authorization_payload E L raw e p = authorization_payload E L0 raw e p" for raw e p
    by (simp only: authorization_payload_def)
  then show ?thesis by (simp only: authorizes_def)
qed

definition stopped_reading :: "pilot_history \<Rightarrow> nat \<Rightarrow> authorized \<Rightarrow> bool" where
  "stopped_reading H n data =
     (\<exists>a. ph_authorities H = [a] \<and> ay_seq a = n \<and> ay_data a = data
        \<and> (ay_halt a \<noteq> None \<or> (\<exists>e \<in> set (ph_fills H). et_payload e = None \<and> n < et_seq e)))"

lemma history_rows_stopped:
  assumes "history_rows E L db rs H0 = Inr H" "ph_authorities H0 = []"
    and "authorizes E L0 r n data" "kept_row r r'" "r' \<in> set rs" and "stops E s n" "kept_row s s'" "s' \<in> set rs"
    and "lg_network L = lg_network L0"
  shows "stopped_reading H n data"
proof -
  have single: "length (ph_authorities H) \<le> 1" using history_rows_lasting [OF assms(1)] assms(2) by (simp add: lasting_def)
  have authorizes: "authorizes E L r n data"
    using assms(3) by (simp only: authorizes_network [OF assms(9)])
  obtain H1 H2 where r': "history_row E L db r' H1 = Inr H2" "lasting H2 H" using history_rows_member [OF assms(1,5)] by blast
  have "r' = r" using assms(4) authorizes redacted_applies [OF _ _ r'(1)] by (fastforce simp: kept_row_def authorizes_def)
  with authorizes_applies [OF authorizes] r'(1) obtain b where b: "b \<in> set (ph_authorities H2)" "ay_seq b = n" "ay_data b = data" by blast
  with r'(2) obtain a where "a \<in> set (ph_authorities H)" "continues b a" by (auto simp: lasting_def)
  with b have a: "a \<in> set (ph_authorities H)" "ay_seq a = n" "ay_data a = data" by (simp_all add: continues_def)
  with single have one: "ph_authorities H = [a]" by (cases "ph_authorities H") auto
  obtain H3 H4 where s': "history_row E L db s' H3 = Inr H4" "lasting H4 H" using history_rows_member [OF assms(1,8)] by blast
  consider "s' = s" | ts why where "s' = s\<lparr>ev_payload := PcNull, ev_redacted_at := ts, ev_redaction_reason := why\<rparr>"
    using assms(7) by (auto simp: kept_row_def)
  then have "ay_halt a \<noteq> None \<or> (\<exists>e \<in> set (ph_fills H). et_payload e = None \<and> n < et_seq e)"
  proof cases
    case 1
    with stops_applies [OF assms(6)] s'(1) obtain b where "b \<in> set (ph_authorities H4)" "ay_halt b \<noteq> None" by blast
    with s'(2) one show ?thesis by (auto simp: lasting_def continues_def)
  next
    case 2
    from assms(6) obtain e where e: "event_from_row (pe_parse E) s = Inr e" "et_kind e = EkFill \<longrightarrow> n < et_seq e" by (auto simp: stops_def)
    from redacted_applies [OF e(1) 2 s'(1)] e(2) s'(2) show ?thesis by (auto simp: lasting_def)
  qed
  with one a show ?thesis by (auto simp: stopped_reading_def)
qed

section \<open>A stopped pilot places no order\<close>

lemma count_fill_keeps_halt: "count_fill E a f st = Inr st' \<Longrightarrow> ps_halt st \<noteq> None \<Longrightarrow> ps_halt st' \<noteq> None"
  by (auto simp: count_fill_def Let_def result_inv)

lemma apply_fills_keep_halt: "apply_fills E a fs p = Inr p' \<Longrightarrow> ps_halt (pj_state p) \<noteq> None \<Longrightarrow> ps_halt (pj_state p') \<noteq> None"
proof (induction fs arbitrary: p)
  case (Cons f fs)
  then obtain q where q: "apply_fill E a f p = Inr q" "apply_fills E a fs q = Inr p'" by (auto simp: result_inv)
  from q(1) have "count_fill E a f (pj_state p) = Inr (pj_state q)" by (auto simp: apply_fill_def result_inv split: option.splits)
  then have "ps_halt (pj_state q) \<noteq> None" using Cons.prems(2) by (rule count_fill_keeps_halt)
  with Cons.IH [OF q(2)] show ?case .
qed simp

lemma reserve_keeps_halt: "reserve E allocs st = Inr st' \<Longrightarrow> ps_halt st' = ps_halt st"
  by (induction E allocs st rule: reserve.induct) (auto simp: result_inv split: if_splits)

lemma take_fills_redacted:
  "e \<in> set es \<Longrightarrow> et_payload e = None \<Longrightarrow> ay_seq a < et_seq e \<Longrightarrow> take_fills E H a es seen \<noteq> Inr fs"
  by (induction es arbitrary: seen) (auto simp: result_inv take_fill_def)

lemma stopped_project:
  assumes "stopped_reading H n data" "project E H a = Inr st" "ph_authorities H = [a]"
  shows "ps_halt st \<noteq> None"
proof -
  from assms(2) obtain allocs fills p st1 where p: "account_fills E H a = Inr fills"
    "apply_fills E a fills \<lparr>pj_state = (pilot_initial (ay_data a))\<lparr>ps_halt := ay_halt a\<rparr>, pj_allocs = allocs, pj_unmatched = False\<rparr> = Inr p"
    "reserve E (pj_allocs p) (pj_state p) = Inr st1"
    and st: "st = (if pj_unmatched p \<and> ps_halt st1 = None then st1\<lparr>ps_halt := Some PsAwaitingReconciliation\<rparr> else st1)"
    by (auto simp: project_def result_inv)
  from p(1) assms(1,3) have "ay_halt a \<noteq> None"
    by (auto simp: stopped_reading_def account_fills_def result_inv dest: take_fills_redacted)
  with apply_fills_keep_halt [OF p(2)] reserve_keeps_halt [OF p(3)] st show ?thesis by simp
qed

lemma stopped_not_permitted: "ps_halt st \<noteq> None \<Longrightarrow> permitted E st amount data \<noteq> Inr ()"
  by (auto simp: permitted_def split: option.splits)

definition places_no_order :: "pilot_env \<Rightarrow> ledger \<Rightarrow> authorized \<Rightarrow> bool" where
  "places_no_order E L data =
     (\<forall>account cl. (account = az_account data \<or> cr_agent cl = az_agent data \<longrightarrow> check_admission E L (lg_db L) account cl \<noteq> Inr ())
        \<and> (cr_agent cl = az_agent data \<and> (\<exists>order. cr_kind cl = CkOrder order) \<longrightarrow> check_before_sign E L (lg_db L) cl \<noteq> Inr ()))"

lemma stopped_places_no_order:
  assumes "\<And>H. read_history E L (lg_db L) True = Inr H \<Longrightarrow> stopped_reading H n data"
  shows "places_no_order E L data"
proof -
  have blocked: "\<nexists>st amount. project E H a = Inr st \<and> permitted E st amount d = Inr ()"
    if "read_history E L (lg_db L) True = Inr H" "ph_authorities H = [a]" for H a d
    using stopped_project [OF assms [OF that(1)] _ that(2)] stopped_not_permitted by blast
  have only: "\<exists>a. ph_authorities H = [a] \<and> ay_data a = data" if "read_history E L (lg_db L) True = Inr H" for H
    using assms [OF that] by (auto simp: stopped_reading_def)
  have "check_admission E L (lg_db L) account cl \<noteq> Inr ()" if "account = az_account data \<or> cr_agent cl = az_agent data" for account cl
  proof
    assume ok: "check_admission E L (lg_db L) account cl = Inr ()"
    then obtain H where H: "read_history E L (lg_db L) True = Inr H" by (auto simp: check_admission_def result_inv)
    from only [OF H] obtain a where a: "ph_authorities H = [a]" "ay_data a = data" by blast
    from ok that have "admit_order E H a account cl = Inr ()" by (auto simp: check_admission_def H a)
    with blocked [OF H a(1)] show False by (auto simp: admit_order_def result_inv)
  qed
  moreover have "check_before_sign E L (lg_db L) cl \<noteq> Inr ()" if "cr_agent cl = az_agent data" "cr_kind cl = CkOrder order" for cl order
  proof
    assume ok: "check_before_sign E L (lg_db L) cl = Inr ()"
    with that(2) obtain H where H: "read_history E L (lg_db L) True = Inr H" by (auto simp: check_before_sign_def result_inv)
    from only [OF H] obtain a where a: "ph_authorities H = [a]" "ay_data a = data" by blast
    from ok that have "\<exists>st. project E H a = Inr st \<and> permitted E st 0 (ay_data a) = Inr ()"
      by (auto simp: check_before_sign_def H a result_inv)
    with blocked [OF H a(1)] show False by blast
  qed
  ultimately show ?thesis by (auto simp: places_no_order_def)
qed

section \<open>The ledger under a pilot\<close>

lemma snd_in_transaction_network: "lg_network (snd (in_transaction tf af body L)) = lg_network L"
  by (simp add: in_transaction_def note_head_def split: option.split sum.split prod.split)

lemma ledger_step_network: "ledger_step K L L' \<Longrightarrow> lg_network L' = lg_network L"
proof (induction rule: ledger_step.induct)
  case (append L tf af e)
  then show ?case by (simp add: ledger_append_def append_committed_def snd_in_transaction_network split: sum.split)
next
  case (journal e L tf af)
  show ?case by (simp add: append_committed_def snd_in_transaction_network)
next
  case (intent L tf af agent ts_ms payload snapshot)
  show ?case by (simp add: snd_record_intent append_committed_def snd_in_transaction_network)
next
  case (outcome L tf af receipt k ts_ms outcome)
  show ?case by (simp add: ledger_record_outcome_def snd_in_transaction_network split: sum.split)
next
  case (redact L tf af n reason ts_ms)
  show ?case by (simp add: redact_def snd_in_transaction_network split: sum.split)
next
  case (snapshot L tf rf snapshot_id ts_ms coin body)
  show ?case using snd_put_snapshot [of K tf rf snapshot_id ts_ms coin body L] by (auto simp: insert_snapshot_def snd_in_transaction_network)
qed (simp_all add: note_head_def record_fill_def open_gap_def close_gap_def mark_gap_reconciled_def prune_snapshots_before_def
      snd_in_transaction_network split: option.split)

lemma ledger_steps_network: "(ledger_step K)\<^sup>*\<^sup>* L L' \<Longrightarrow> lg_network L' = lg_network L"
  by (induction rule: rtranclp_induct) (auto dest: ledger_step_network)

text \<open>The pilot's branch of recording a fill is one of the ways the ledger grows.\<close>

lemma keyed_appends_trans: "keyed_appends K db1 w2 db2 \<Longrightarrow> keyed_appends K db w1 db1 \<Longrightarrow> keyed_appends K db (case w2 of None \<Rightarrow> w1 | _ \<Rightarrow> w2) db2"
  by (induction rule: keyed_appends.induct) (auto intro: keyed_appends.more split: option.splits)

lemma keyed_append_once: "append_keyed_in_tx K e key db = Inr (w, db1) \<Longrightarrow> keyed_appends K db w db1"
proof (cases w)
  case None
  then show "append_keyed_in_tx K e key db = Inr (w, db1) \<Longrightarrow> keyed_appends K db w db1"
    by (auto simp: append_keyed_Inr intro: keyed_appends.none split: if_splits)
qed (use keyed_appends.more [OF keyed_appends.none] in blast)

lemma latch_authorities_appends:
  "latch_authorities E H incoming at_ms trigger_seq trigger_hash as newest db = Inr (w, db') \<Longrightarrow>
     keyed_appends (pe_digest E) db0 newest db \<Longrightarrow> keyed_appends (pe_digest E) db0 w db'"
proof (induction as arbitrary: newest db)
  case (Cons a as)
  show ?case
  proof (cases "ay_halt a = None")
    case True
    with Cons.prems(1) obtain stop where stop: "stop_of E db H a incoming = Inr stop" by (auto simp: result_inv)
    show ?thesis
    proof (cases "stop = None \<or> stop = Some PsAwaitingReconciliation")
      case False
      then obtain permanent where permanent: "stop = Some permanent" "permanent \<noteq> PsAwaitingReconciliation" by auto
      with Cons.prems(1) True stop obtain e key row db1 where "append_keyed_in_tx (pe_digest E) e key db = Inr (Some row, db1)"
        "latch_authorities E H incoming at_ms trigger_seq trigger_hash as (Some row) db1 = Inr (w, db')"
        by (cases permanent) (auto simp: result_inv)
      with Cons.IH Cons.prems(2) keyed_appends.more show ?thesis by blast
    qed (use Cons True stop in auto)
  qed (use Cons in simp)
qed simp

lemma latch_in_tx_appends: "latch_in_tx E L incoming at_ms db = Inr (w, db') \<Longrightarrow> keyed_appends (pe_digest E) db w db'"
  by (auto simp: latch_in_tx_def result_inv split: if_splits sum.splits pilot_error.splits ledger_error.splits
      intro: keyed_appends.none latch_authorities_appends)

lemma pilot_record_fill_appends: "only_appends (pe_digest E) (pilot_record_fill E L)"
  unfolding only_appends_def
proof (intro allI impI)
  fix f db x w db'
  assume fill: "pilot_record_fill E L f db = Inr (x, w, db')"
  let ?key = "fill_idem_key (nf_account f) (nf_tid f)"
  from fill obtain appended db1 where A: "append_keyed_in_tx (pe_digest E) (fill_event f (nf_payload f)) ?key db = Inr (appended, db1)"
    by (auto simp: pilot_record_fill_def Let_def result_inv)
  with fill obtain halt db2 where B: "latch_in_tx E L f (nf_ts_ms f) db1 = Inr (halt, db2)"
    by (auto simp: pilot_record_fill_def Let_def result_inv)
  show "keyed_appends (pe_digest E) db w db'"
  proof (cases "appended = None \<or> halt = None")
    case True
    with fill A B have "w = (case halt of None \<Rightarrow> appended | _ \<Rightarrow> halt) \<and> db' = db2"
      by (auto simp: pilot_record_fill_def Let_def result_inv split: option.splits)
    with keyed_appends_trans [OF latch_in_tx_appends [OF B] keyed_append_once [OF A]] show ?thesis by simp
  next
    case False
    with fill A B obtain payload where "append_keyed_in_tx (pe_digest E) (fill_event f payload) ?key db = Inr (w, db')"
      by (auto simp: pilot_record_fill_def Let_def result_inv)
    then show ?thesis by (rule keyed_append_once)
  qed
qed

lemma recorded_fill_steps: "ledger_step (pe_digest E) L (snd (record_fill (pilot_record_fill E L) (pe_digest E) tf af f L))"
  by (rule ledger_step.fill) (rule pilot_record_fill_appends)

lemma adds_pilot_row:
  assumes "only_adds db db'" "r \<in> set (pilot_rows db)"
  shows "\<exists>r' \<in> set (pilot_rows db'). kept_row r r'"
proof -
  from assms(1) obtain old new where rows: "db_events db' = old @ new" "list_all2 kept_row (db_events db) old" by (auto simp: only_adds_def)
  from assms(2) have r: "r \<in> set (db_events db)" "ev_kind r \<in> pilot_kinds" by (auto simp: pilot_rows_def)
  from list_all2_member [OF rows(2) r(1)] obtain r' where r': "r' \<in> set old" "kept_row r r'" by blast
  moreover from r'(2) r(2) have "ev_kind r' \<in> pilot_kinds" by (auto simp: kept_row_def)
  ultimately show ?thesis using rows(1) by (auto simp: pilot_rows_def)
qed

text \<open>
  C21: a pilot stopped on the chain stays stopped. Once a reading of the ledger finds the authorization
  halted, no order of its account or its agent is admitted and no order of its agent is signed again,
  whatever operations of the ledger follow: fills under the pilot, its journal's appends, and redactions of
  the authorization, the stop or the fill that carries it.
\<close>

theorem pilot_stop_is_for_good:
  assumes "read_history E L (lg_db L) True = Inr H" "a \<in> set (ph_authorities H)" "ay_halt a \<noteq> None" "(ledger_step K)\<^sup>*\<^sup>* L L'"
  shows "places_no_order E L' (ay_data a)"
proof (rule stopped_places_no_order)
  let ?R = "set (pilot_rows (lg_db L))"
  from assms(1) obtain submissions where "history_rows E L (lg_db L) (pilot_rows (lg_db L))
      \<lparr>ph_authorities = [], ph_submissions = submissions, ph_fills = [], ph_fill_keys = Map.empty, ph_adoption = None\<rparr> = Inr H"
    by (auto simp: read_history_def result_inv)
  then have "explained E L ?R H" by (rule history_rows_explained) (simp_all add: explained_def)
  with assms(2,3) obtain r s where r: "r \<in> ?R" "authorizes E L r (ay_seq a) (ay_data a)" and s: "s \<in> ?R" "stops E s (ay_seq a)"
    by (auto simp: explained_def)
  have adds: "only_adds (lg_db L) (lg_db L')" by (rule ledger_steps_add [OF assms(4)])
  obtain r' s' where r': "r' \<in> set (pilot_rows (lg_db L'))" "kept_row r r'" and s': "s' \<in> set (pilot_rows (lg_db L'))" "kept_row s s'"
    using adds_pilot_row [OF adds r(1)] adds_pilot_row [OF adds s(1)] by blast
  fix H'
  assume "read_history E L' (lg_db L') True = Inr H'"
  then obtain submissions where "history_rows E L' (lg_db L') (pilot_rows (lg_db L'))
      \<lparr>ph_authorities = [], ph_submissions = submissions, ph_fills = [], ph_fill_keys = Map.empty, ph_adoption = None\<rparr> = Inr H'"
    by (auto simp: read_history_def result_inv)
  from history_rows_stopped [OF this _ r(2) r'(2,1) s(2) s'(2,1) ledger_steps_network [OF assms(4)]]
  show "stopped_reading H' (ay_seq a) (ay_data a)" by simp
qed

section \<open>A sample\<close>

definition stop_account :: address where "stop_account = Address (replicate 20 7)"

definition stop_data :: authorized where
  "stop_data = fresh_authorization ''alpha'' stop_account 5 \<lparr>an_seq = 0, an_hash = ''g''\<rparr>"

definition stop_authorization_json :: json where
  "stop_authorization_json =
     JObj [(''executed_limit_usd'', JStr ''150''), (''order_limit_usd'', JStr ''15''), (''realized_loss_limit_usd'', JStr ''5'')]"

definition stop_fill_json :: json where
  "stop_fill_json =
     JObj [(''account'', JStr (address_text stop_account)), (''pilot_stop'', JObj [(''stop'', JNull), (''trigger_hash'', JNull)])]"

definition text_of :: "json \<Rightarrow> string" where "text_of v = (case canonical_json v of Inr s \<Rightarrow> s | Inl _ \<Rightarrow> [])"

definition stop_row :: "nat \<Rightarrow> string \<Rightarrow> string \<Rightarrow> string option \<Rightarrow> event_row" where
  "stop_row n k text key =
     \<lparr>ev_seq = int n, ev_ts_ms = 5, ev_kind = k, ev_agent_id = Some ''alpha'', ev_payload = PcText text,
      ev_payload_hash = [], ev_prev_hash = [], ev_hash = nat_digits n, ev_redacted_at = None, ev_redaction_reason = None,
      ev_snapshot_id = None, ev_snapshot_hash = None, ev_idem_key = key\<rparr>"

definition stop_env :: pilot_env where
  "stop_env =
     \<lparr>pe_dec = exact_declib, pe_exact = exact_parse,
      pe_parse = (\<lambda>s. if hd s = CHR ''{'' then Some stop_authorization_json else Some stop_fill_json),
      pe_json_text = (\<lambda>_. []), pe_digest = id, pe_error_text = (\<lambda>_. ''error''), pe_submissions = (\<lambda>_ _ _. Inr []),
      pe_authorized_of = (\<lambda>_. Some stop_data), pe_authorized_json = (\<lambda>_. stop_authorization_json),
      pe_halted_of = (\<lambda>_. Some \<lparr>hl_version = 1, hl_account = stop_account, hl_authorization_seq = 1, hl_authorization_hash = ''1'',
        hl_trigger_seq = 2, hl_trigger_hash = None, hl_stop = PsUnavailable ''conflict''\<rparr>),
      pe_halted_json = (\<lambda>_. JNull), pe_signed_of = (\<lambda>_. None), pe_signed_json = (\<lambda>_. JNull), pe_envelope_json = (\<lambda>_. JNull),
      pe_mac_sign = (\<lambda>_. None), pe_mac_ok = (\<lambda>_ _. True), pe_route_in = (\<lambda>_ _. Inl ''none''), pe_verify_route_in = (\<lambda>_ _ _. Inr ())\<rparr>"

definition stop_ledger :: ledger where
  "stop_ledger =
     \<lparr>lg_network = ''testnet'', lg_genesis = ''g'',
      lg_db = \<lparr>db_network = Some ''testnet'', db_head = Some (2, ''2''),
        db_events = [stop_row 1 ''pilot_authorized'' (text_of stop_authorization_json) (Some (pilot_key stop_account)),
                     stop_row 2 ''fill'' ''a fill'' (Some ''fill'')],
        db_gaps = [], db_snapshots = []\<rparr>,
      lg_anchored = False, lg_anchor = None\<rparr>"

definition stop_digest :: digest where "stop_digest = (\<lambda>_. ''k'')"

definition stop_redacted :: ledger where "stop_redacted = snd (redact stop_digest None None 2 ''private'' 9 stop_ledger)"

text \<open>Redacting the fill that carries the stop does not bring the pilot back.\<close>

theorem pilot_stop_is_for_good_witness:
  "map (\<lambda>r. ev_payload r = PcNull) (db_events (lg_db stop_redacted)) = [False, True, False] \<and> places_no_order stop_env stop_redacted stop_data"
proof
  show "map (\<lambda>r. ev_payload r = PcNull) (db_events (lg_db stop_redacted)) = [False, True, False]" by code_simp
  let ?authorities = "case read_history stop_env stop_ledger (lg_db stop_ledger) True of Inr H \<Rightarrow> ph_authorities H | Inl _ \<Rightarrow> []"
  have "?authorities \<noteq> [] \<and> ay_data (hd ?authorities) = stop_data \<and> ay_halt (hd ?authorities) \<noteq> None" by code_simp
  then obtain H a rest where H: "read_history stop_env stop_ledger (lg_db stop_ledger) True = Inr H" "ph_authorities H = a # rest"
    "ay_data a = stop_data" "ay_halt a \<noteq> None" by (cases ?authorities) (auto split: sum.splits)
  have "(ledger_step stop_digest)\<^sup>*\<^sup>* stop_ledger stop_redacted" unfolding stop_redacted_def by (rule r_into_rtranclp) (rule ledger_step.redact)
  from pilot_stop_is_for_good [OF H(1) _ H(4) this] H(2,3) show "places_no_order stop_env stop_redacted stop_data" by simp
qed

end
