(* ===== verification/Spec2Isabelle.thy ===== *)
theory Spec2Isabelle
  imports Fills Outcomes Review_Props Submission_Props Resample_Props Aggregator_Props Candle_Store Alert_Props Book
    Ledger_Pages Pilot_Budget Pilot_Permanence
begin

text \<open>
  A model of the trading guardrails of oppen: the engine that every order of an agent has to pass
  before it is signed, and what the engine rests on.

  \<^bold>\<open>The program.\<close> Agents ask for orders over MCP; \<open>GuardrailEngine\<close> (\<open>guardrail/engine.rs\<close>) evaluates
  each request against the operator's policy, the account, the market and the rate budgets, and either
  refuses it with a typed reason or returns a clearance. Only a clearance reaches the signer
  (\<open>oppen-hl/src/exchange.rs\<close>), which runs the engine's gate once more inside. Where the policy demands
  it, an order is a proposal in the approval journal (\<open>ledger/approval.rs\<close>) first, which an operator
  reviews and confirms. Policy and kill switch live in the policy journal (\<open>ledger/policy.rs\<close>), and the
  account an order is measured against comes from the feed session (\<open>feed.rs\<close>) that the websocket
  ingress (\<open>ws/ingress.rs\<close>) marks.

  \<^bold>\<open>Theories and sources.\<close> Paths are below \<open>src/crates/oppen-core/src/\<close> unless they start with
  \<open>oppen-hl\<close>.
  \<^item> \<open>Prelude\<close>: results and early returns, unsigned integers of fixed width, \<open>BTreeMap\<close> as a sorted
    association list (locale \<open>ordered_map\<close>), decimals, decimal text.
  \<^item> \<open>Config\<close> (\<open>guardrail/config.rs\<close>): the per-agent policy, its defaults and validation.
  \<^item> \<open>Bucket\<close> (\<open>guardrail/bucket.rs\<close>): the token bucket in exact \<open>u64\<close>/\<open>u128\<close> arithmetic (locale
    \<open>rate_meter\<close>).
  \<^item> \<open>Hl_Wire\<close>, \<open>Hl_Meta\<close> (\<open>oppen-hl/src/wire.rs\<close>, \<open>action.rs\<close>, \<open>meta.rs\<close>, \<open>order.rs\<close>): wire decimals, client
    order ids, actions, the asset universe, the venue's rounding and validation rules.
  \<^item> \<open>Feed\<close> (\<open>feed.rs\<close>, \<open>oppen-hl/src/ws/ingress.rs\<close>): the feed session and the ingress monitor as a step
    relation over their operations; stamps and their admission.
  \<^item> \<open>Snapshot\<close>, \<open>Kill\<close>, \<open>Breaker\<close>, \<open>Refusal\<close>, \<open>Request\<close> (\<open>guardrail/snapshot.rs\<close>, \<open>kill.rs\<close>, \<open>breaker.rs\<close>,
    \<open>deadman.rs\<close>, \<open>refusal.rs\<close>, \<open>request.rs\<close>, \<open>cancellation.rs\<close>): the inputs of an evaluation, the kill switch
    (locale \<open>stop_switch\<close>), the loss breaker and its gauge, the dead-man timer, typed refusals, original
    requests and frozen cancellations.
  \<^item> \<open>Policy\<close> (\<open>ledger/policy.rs\<close>, \<open>guardrail/store.rs\<close>): the policy journal with the faults of its store
    (locale \<open>versioned_store\<close>).
  \<^item> \<open>Engine_State\<close>, \<open>Checks\<close>, \<open>Decide\<close> (\<open>guardrail/engine.rs\<close>, \<open>activation.rs\<close>): the state of the engine, its
    operator surface, the checks of an evaluation and \<open>decide\<close> in its stages with \<open>evaluate\<close>,
    \<open>preflight\<close> and the approval of an in-memory proposal.
  \<^item> \<open>Signing\<close> (\<open>guardrail/engine.rs\<close>, \<open>oppen-hl/src/exchange.rs\<close>): cancellations, the dead-man schedule,
    discretionary cancellations, the pre-sign gate and the signing boundary with publication.
  \<^item> \<open>Approval\<close>, \<open>Review\<close> (\<open>ledger/approval.rs\<close>, \<open>guardrail/engine.rs\<close>): the approval journal over typed
    ledger rows, replay and every operation; operator reviews on top of it.
  \<^item> \<open>Journal\<close>, \<open>Submission\<close> (\<open>ledger/submission.rs\<close>): what the two journals share, and the submission
    journal that reserves an account for one signed action at a time.
  \<^item> \<open>Canonical_Json\<close>, \<open>Ledger_Hash\<close> (\<open>ledger/hash.rs\<close>): the canonical text of a payload and the preimages of
    genesis, payload and row.
  \<^item> \<open>Ledger_Chain\<close> (\<open>ledger/mod.rs\<close>, \<open>schema.rs\<close>, \<open>anchor.rs\<close>): the event ledger over its tables: opening, appends,
    intents and outcomes, fills, redaction, feed gaps, book snapshots, and the head anchor outside the
    database.
  \<^item> \<open>Ledger_Verify\<close> (\<open>ledger/verify.rs\<close>, \<open>mod.rs\<close>): the walk that verifies the chain, the pages and reads of
    operators and agents.
  \<^item> \<open>Pilot\<close>, \<open>Pilot_Journal\<close> (\<open>ledger/pilot.rs\<close>, \<open>ledger/pilot/authority.rs\<close>, \<open>oppen-hl/src/address.rs\<close>): the one
    operator-authorized pilot account: its rows and signed consent with their validation, the projection of
    executed and reserved notional, the checks before a reservation and a signature, the latch of a stop and
    the branch of \<open>record_fill\<close> under a pilot, authorization, review and adoption.
  \<^item> \<open>Candle_Interval\<close>, \<open>Candles\<close>, \<open>Candle_Store\<close> (\<open>candles.rs\<close>): intervals and buckets, bars, resampling, the local
    aggregator, the candle store.
  \<^item> \<open>Alerts\<close> (\<open>alert.rs\<close>): conditions, their table and its evaluation. \<open>Book\<close> (\<open>book.rs\<close>): walks of the order book.

  An engine operation is a function on \<open>'w sys\<close>: the engine's state and a durable world \<open>'w\<close> that the
  engine reaches through \<open>ports\<close> (store, audit sink, registry, journals). Where the code gives up its lock
  between two critical sections, the sections are definitions of their own and other steps come
  between them. An error is \<open>Inl\<close>; an outer \<open>None\<close> is a panic of a bare decimal operator.

  \<^bold>\<open>What is shown.\<close>
  \<^item> \<open>Decide_Props\<close>, \<open>Fills\<close>, \<open>Outcomes\<close>: an order is cleared only for an authorised, unpaused agent under an
    acknowledged current policy on a fresh reconciled account, within every cap on the numbers that
    are signed; the position cap bounds the position however the working orders fill; a loss breach
    stops every later order; what each outcome costs; a preflight announces the evaluation.
  \<^item> \<open>Engine_Control\<close>: stops beat acknowledgments and releases in flight, in every interleaving; the policy
    cache never contradicts the journal; a kill survives a restart; proposal ids are fresh.
  \<^item> \<open>Signing\<close>: an order is signed only under the policy it was evaluated under, by its own wallet, unpaused
    and fresh; cancellations always clear.
  \<^item> \<open>Approval_Props\<close>, \<open>Review_Props\<close>: the journal refines the life cycle of a proposal in every run with
    faults; a proposal is claimed, finished and cleared at most once; a confirmed review clears what
    was reviewed; listing terminates; minting is idempotent.
  \<^item> \<open>Submission_Props\<close>: the submission journal refines reservations, one submission per account, and what a
    failed reservation leaves.
  \<^item> \<open>Ledger_Growth\<close>, \<open>Chain_Props\<close>, \<open>Ledger_Props\<close>, \<open>Ledger_Pages\<close>: the operations of the ledger as a step
    relation that keeps the chain well formed; verification in closed form; a ledger its own operations
    wrote verifies, is append-only and holds a fill once; two histories that verify against one anchor are
    the same or exhibit a collision of the digest; a missing payload is accounted for by a chained
    redaction; pages follow on without loss and keep to what their reader may see.
  \<^item> \<open>Pilot_Budget\<close>, \<open>Pilot_Permanence\<close>: the closed form of the projection; whatever orders, resolutions and
    fills follow, a pilot stays in its budget; it stops exactly where its fills reach a limit; a stop on
    the chain survives everything the ledger does afterwards, redactions included.
  \<^item> \<open>Resample_Props\<close>, \<open>Aggregator_Props\<close>, \<open>Alert_Props\<close> and \<open>Book\<close>: resampled bars are exact aggregates, local
    bars only move forward and conserve volume, an alert fires at most once, the notional of a band is
    the largest.
  \<^item> The components: bucket rate bound, retry and poll independence; wire round trips and venue rules;
    stamps before a disruption are refused for good; exactly one policy replacement per revision;
    gauge and breaker agree; kill semantics; dead-man liveness.

  \<^bold>\<open>Parameters and bounds.\<close> The rounding and overflow of \<open>rust_decimal\<close> are the record \<open>declib\<close>, with an exact
  instance for concrete evaluations; candles, alerts and the book compute on exact decimals inside its
  range. The neighbours of the approval journal (policy and registry replays, hashes, digests, refusal
  texts) are the record \<open>approval_env\<close>; the properties assume that the replays ignore approval rows and that
  refusals have a text (\<open>neighbours_ok\<close>), which the code's queries and texts give. In the ledger theories
  Keccak-256 is the parameter \<open>K\<close>, \<open>serde_json\<close> is \<open>parse\<close>, and the accounting of a fill under a pilot is
  \<open>pilot_fill\<close>, for which \<open>Pilot_Journal\<close> gives \<open>pilot_record_fill\<close>. Nothing is assumed of \<open>K\<close>: a statement
  that needs it says that otherwise there is a collision. What a pilot reads with (the decimals of
  \<open>from_str_exact\<close>, the serde derives of its rows, the replay of submissions, the MAC of the authority key,
  the routes of the registry) is the record \<open>pilot_env\<close>; its properties assume that the arithmetic that does
  not overflow is exact (\<open>exact_money\<close>) and, for the budget, that no fill is worse than the valuation of its
  reservation (\<open>priced_within\<close>). Every operation on a store takes the failure its transaction may meet and, in the ledger, the
  failure of the anchor write after the commit. \<open>journal_pending\<close> has fuel, one pass per overdue proposal
  and one more; that this is enough is a property. All other functions are total.

  \<^bold>\<open>Not modelled.\<close> SQLite itself, its files, locks and the migration of old databases (a table is a list of its rows,
  a transaction commits or fails as a whole); MACs and cryptography; the pairing and registry journals,
  the consent dialogue of the pilot and the authenticated evidence of a submission; the key store; reconciliation, pumps and other
  asynchronous I/O; posting a signed request; features and the live chart; the MCP server and the desktop
  application. They are parameters where the modelled code calls them.
\<close>

end
